(* ===== verification/Prelude.thy ===== *)
theory Prelude
  imports Main "HOL-Library.Word" "HOL-Library.Sublist" "HOL-Library.Multiset"
begin

text \<open>
  Shared vocabulary of the development.

  \<^item> \<open>time\<close> and \<open>duration\<close>: Go's \<^verbatim>\<open>time.Time\<close> and \<^verbatim>\<open>time.Duration\<close> in nanoseconds,
    with the arithmetic the sources use on them;
  \<^item> \<open>goerror\<close> and \<open>result\<close>: the sentinel errors of the authentication package, and the
    wrapped \<^verbatim>\<open>fmt.Errorf\<close> errors by their message prefix;
  \<^item> \<open>faults\<close>: which database or cache calls of an operation fail, by the label the code
    wraps the failure with;
  \<^item> \<open>FormatInt\<close> and \<open>ParseInt\<close>: the base-10 instances of Go's \<^verbatim>\<open>strconv\<close> functions, and
    their round trip;
  \<^item> the list and option lemmas that the components share.
\<close>

named_theorems table_simps \<open>how a row-wise update acts on a table\<close>
named_theorems service_defs \<open>the operations of the session service, unfolded\<close>

subsection \<open>Clock and durations\<close>

type_synonym time = int
type_synonym duration = int

abbreviation (input) Second :: duration where "Second \<equiv> 1000000000"
abbreviation (input) Minute :: duration where "Minute \<equiv> 60000000000"
abbreviation (input) Hour :: duration where "Hour \<equiv> 3600000000000"

text \<open>
  \<^verbatim>\<open>int(d.Seconds())\<close>: Go's conversion truncates towards zero.
\<close>

definition whole_seconds :: "duration \<Rightarrow> int" where
  "whole_seconds d = (if d < 0 then - ((- d) div Second) else d div Second)"

text \<open>\<^verbatim>\<open>t.Unix()\<close>: seconds since the epoch, rounded towards minus infinity.\<close>

definition unix :: "time \<Rightarrow> int" where
  "unix t = t div Second"

lemma whole_seconds_Second [simp]: "0 \<le> n \<Longrightarrow> whole_seconds (n * Second) = n"
  by (simp add: whole_seconds_def)

lemma unix_mono: "s \<le> t \<Longrightarrow> unix s \<le> unix t"
  by (simp add: unix_def zdiv_mono1)

subsection \<open>Errors and failing calls\<close>

datatype goerror =
    Sentinel int
  | OrganizationsModeUnmetError int
  | SoftLockError int
  | Wrapped string

text \<open>
  Every package-level error made by \<^verbatim>\<open>errors.New\<close> is a value of its own, told apart by identity: each has its own number.
\<close>

abbreviation ErrInvalidRefreshToken :: goerror where "ErrInvalidRefreshToken \<equiv> Sentinel 1"
abbreviation ErrTokenReplay :: goerror where "ErrTokenReplay \<equiv> Sentinel 2"
abbreviation ErrServiceUnavailable :: goerror where "ErrServiceUnavailable \<equiv> Sentinel 3"
abbreviation ErrMissingGrantType :: goerror where "ErrMissingGrantType \<equiv> Sentinel 4"
abbreviation ErrInvalidTarget :: goerror where "ErrInvalidTarget \<equiv> Sentinel 5"
abbreviation ErrInvalidUnblockToken :: goerror where "ErrInvalidUnblockToken \<equiv> Sentinel 6"
abbreviation ErrNoPolicyRow :: goerror where "ErrNoPolicyRow \<equiv> Sentinel 7"
abbreviation ErrInvalidAudienceFormat :: goerror where "ErrInvalidAudienceFormat \<equiv> Sentinel 8"
abbreviation ErrReservedAudience :: goerror where "ErrReservedAudience \<equiv> Sentinel 9"
abbreviation ErrGrantNotFound :: goerror where "ErrGrantNotFound \<equiv> Sentinel 10"
abbreviation ErrGrantExists :: goerror where "ErrGrantExists \<equiv> Sentinel 11"
abbreviation ErrTooManyGrants :: goerror where "ErrTooManyGrants \<equiv> Sentinel 12"
abbreviation ErrAudienceRequired :: goerror where "ErrAudienceRequired \<equiv> Sentinel 13"
abbreviation ErrAppNotFound :: goerror where "ErrAppNotFound \<equiv> Sentinel 14"
abbreviation ErrInvalidScope :: goerror where "ErrInvalidScope \<equiv> Sentinel 15"
abbreviation ErrNoGrantInTenant :: goerror where "ErrNoGrantInTenant \<equiv> Sentinel 16"
abbreviation ErrNoAdminReach :: goerror where "ErrNoAdminReach \<equiv> Sentinel 17"
abbreviation ErrSameTenant :: goerror where "ErrSameTenant \<equiv> Sentinel 18"
abbreviation ErrSwitchAccountUnusable :: goerror where "ErrSwitchAccountUnusable \<equiv> Sentinel 19"
abbreviation ErrUserNotFound :: goerror where "ErrUserNotFound \<equiv> Sentinel 20"
abbreviation ErrMFAStepUpRequired :: goerror where "ErrMFAStepUpRequired \<equiv> Sentinel 21"
abbreviation ErrMFAMethodNotAllowed :: goerror where "ErrMFAMethodNotAllowed \<equiv> Sentinel 22"
abbreviation ErrMFAEnrollmentDisabled :: goerror where "ErrMFAEnrollmentDisabled \<equiv> Sentinel 23"
abbreviation ErrMFARequiredByPolicy :: goerror where "ErrMFARequiredByPolicy \<equiv> Sentinel 24"
abbreviation ErrInvalidMFAMode :: goerror where "ErrInvalidMFAMode \<equiv> Sentinel 25"
abbreviation ErrInvalidMFAMethods :: goerror where "ErrInvalidMFAMethods \<equiv> Sentinel 26"
abbreviation ErrMagicLinkNotConfigured :: goerror where "ErrMagicLinkNotConfigured \<equiv> Sentinel 27"
abbreviation ErrTOTPReenrollProof :: goerror where "ErrTOTPReenrollProof \<equiv> Sentinel 28"
abbreviation ErrTOTPProofRequired :: goerror where "ErrTOTPProofRequired \<equiv> Sentinel 29"
abbreviation ErrTooManyOTPAttempts :: goerror where "ErrTooManyOTPAttempts \<equiv> Sentinel 30"
abbreviation ErrTooManyResends :: goerror where "ErrTooManyResends \<equiv> Sentinel 31"
abbreviation ErrEmailMFANotActive :: goerror where "ErrEmailMFANotActive \<equiv> Sentinel 32"
abbreviation ErrEmailCodeInvalid :: goerror where "ErrEmailCodeInvalid \<equiv> Sentinel 33"
abbreviation ErrAdminMFAUnavailable :: goerror where "ErrAdminMFAUnavailable \<equiv> Sentinel 34"
abbreviation ErrAdminMFAMethodNotAllowed :: goerror where "ErrAdminMFAMethodNotAllowed \<equiv> Sentinel 35"
abbreviation ErrInvalidAdminMFAPolicy :: goerror where "ErrInvalidAdminMFAPolicy \<equiv> Sentinel 36"
abbreviation ErrUserVerificationRequired :: goerror where "ErrUserVerificationRequired \<equiv> Sentinel 37"
abbreviation ErrEncryptionKeyRequired :: goerror where "ErrEncryptionKeyRequired \<equiv> Sentinel 38"
abbreviation ErrZeroEncryptionKey :: goerror where "ErrZeroEncryptionKey \<equiv> Sentinel 39"
abbreviation ErrTOTPZeroKey :: goerror where "ErrTOTPZeroKey \<equiv> Sentinel 40"
abbreviation ErrClientNotFound :: goerror where "ErrClientNotFound \<equiv> Sentinel 41"
abbreviation ErrInvalidClient :: goerror where "ErrInvalidClient \<equiv> Sentinel 42"
abbreviation ErrRedirectURINotRegistered :: goerror where "ErrRedirectURINotRegistered \<equiv> Sentinel 43"
abbreviation ErrNoRedirectURIsRegistered :: goerror where "ErrNoRedirectURIsRegistered \<equiv> Sentinel 44"
abbreviation ErrInvalidAuthorizationCode :: goerror where "ErrInvalidAuthorizationCode \<equiv> Sentinel 45"
abbreviation ErrAuthorizationCodeReplayed :: goerror where "ErrAuthorizationCodeReplayed \<equiv> Sentinel 46"
abbreviation ErrInvalidCodeVerifier :: goerror where "ErrInvalidCodeVerifier \<equiv> Sentinel 47"
abbreviation ErrUnsupportedChallengeMethod :: goerror where "ErrUnsupportedChallengeMethod \<equiv> Sentinel 48"
abbreviation ErrMissingCodeChallenge :: goerror where "ErrMissingCodeChallenge \<equiv> Sentinel 49"
abbreviation ErrAuthzRequestNotFound :: goerror where "ErrAuthzRequestNotFound \<equiv> Sentinel 50"
abbreviation ErrAuthzSessionNotFound :: goerror where "ErrAuthzSessionNotFound \<equiv> Sentinel 51"
abbreviation ErrNonceReplayed :: goerror where "ErrNonceReplayed \<equiv> Sentinel 52"
abbreviation ErrInvalidLoginCode :: goerror where "ErrInvalidLoginCode \<equiv> Sentinel 53"
abbreviation ErrOrganizationAccessDenied :: goerror where "ErrOrganizationAccessDenied \<equiv> Sentinel 54"
abbreviation ErrOrganizationsDisabled :: goerror where "ErrOrganizationsDisabled \<equiv> Sentinel 55"
abbreviation ErrOrganizationNotFound :: goerror where "ErrOrganizationNotFound \<equiv> Sentinel 56"
abbreviation ErrOrganizationSlugTaken :: goerror where "ErrOrganizationSlugTaken \<equiv> Sentinel 57"
abbreviation ErrInvalidOrganizationSlug :: goerror where "ErrInvalidOrganizationSlug \<equiv> Sentinel 58"
abbreviation ErrInvalidOrganizationName :: goerror where "ErrInvalidOrganizationName \<equiv> Sentinel 59"
abbreviation ErrInvalidOrganizationMetadata :: goerror where "ErrInvalidOrganizationMetadata \<equiv> Sentinel 60"
abbreviation ErrOrganizationLimitReached :: goerror where "ErrOrganizationLimitReached \<equiv> Sentinel 61"
abbreviation ErrOrganizationMemberNotFound :: goerror where "ErrOrganizationMemberNotFound \<equiv> Sentinel 62"
abbreviation ErrOrganizationMemberLimitReached :: goerror where "ErrOrganizationMemberLimitReached \<equiv> Sentinel 63"
abbreviation ErrOrganizationRoleLimitReached :: goerror where "ErrOrganizationRoleLimitReached \<equiv> Sentinel 64"
abbreviation ErrInvalidOrganizationMemberStatus :: goerror where "ErrInvalidOrganizationMemberStatus \<equiv> Sentinel 65"
abbreviation ErrInvalidOrganizationsMode :: goerror where "ErrInvalidOrganizationsMode \<equiv> Sentinel 66"
abbreviation ErrOrganizationUnavailable :: goerror where "ErrOrganizationUnavailable \<equiv> Sentinel 67"
abbreviation ErrUserNotInApplication :: goerror where "ErrUserNotInApplication \<equiv> Sentinel 68"
abbreviation ErrRoleNotInApplication :: goerror where "ErrRoleNotInApplication \<equiv> Sentinel 69"
abbreviation ErrNoRolesRequested :: goerror where "ErrNoRolesRequested \<equiv> Sentinel 70"

type_synonym 'a result = "goerror + 'a"

text \<open>
  The label of a call is the prefix its error is wrapped with in the source
  (\<^verbatim>\<open>fmt.Errorf("revoke session: %w", err)\<close>), so one predicate says which of the calls
  of an operation fail.
\<close>

type_synonym faults = "string \<Rightarrow> bool"

definition no_faults :: faults where
  "no_faults = (\<lambda>_. False)"

lemma no_faults_apply [simp]: "no_faults x = False"
  by (simp add: no_faults_def)

subsection \<open>Decimal integers as strings\<close>

definition digit_char :: "nat \<Rightarrow> char" where
  "digit_char d = char_of (48 + d)"

fun dec_digits :: "nat \<Rightarrow> string" where
  "dec_digits n = (if n < 10 then [digit_char n] else dec_digits (n div 10) @ [digit_char (n mod 10)])"

declare dec_digits.simps [simp del]

definition FormatInt :: "int \<Rightarrow> string" where
  "FormatInt i = (if i < 0 then CHR ''-'' # dec_digits (nat (- i)) else dec_digits (nat i))"

definition char_digit :: "char \<Rightarrow> nat option" where
  "char_digit c = (let n = (of_char c :: nat) in if 48 \<le> n \<and> n \<le> 57 then Some (n - 48) else None)"

fun parse_digits :: "nat \<Rightarrow> string \<Rightarrow> nat option" where
  "parse_digits acc [] = Some acc"
| "parse_digits acc (c # cs) =
     (case char_digit c of None \<Rightarrow> None | Some d \<Rightarrow> parse_digits (10 * acc + d) cs)"

definition int64_range :: "int \<Rightarrow> bool" where
  "int64_range i \<longleftrightarrow> - (2 ^ 63) \<le> i \<and> i < 2 ^ 63"

text \<open>\<^verbatim>\<open>strconv.ParseInt(s, 10, 64)\<close>; \<open>None\<close> is a syntax or a range error.\<close>

definition split_sign :: "string \<Rightarrow> bool \<times> string" where
  "split_sign s =
     (case s of
        [] \<Rightarrow> (False, [])
      | c # cs \<Rightarrow> if c = CHR ''-'' then (True, cs) else if c = CHR ''+'' then (False, cs) else (False, s))"

definition ParseInt :: "string \<Rightarrow> int option" where
  "ParseInt s =
     (case split_sign s of (neg, body) \<Rightarrow>
        if body = [] then None
        else case parse_digits 0 body of
               None \<Rightarrow> None
             | Some n \<Rightarrow> (let v = (if neg then - int n else int n)
                           in if int64_range v then Some v else None))"

lemma of_char_digit_char: "d < 10 \<Longrightarrow> (of_char (digit_char d) :: nat) = 48 + d"
  by (simp add: digit_char_def)

lemma char_digit_digit_char [simp]: "d < 10 \<Longrightarrow> char_digit (digit_char d) = Some d"
  by (simp add: char_digit_def of_char_digit_char)

lemma parse_digits_append:
  "parse_digits a (xs @ ys) = (case parse_digits a xs of None \<Rightarrow> None | Some b \<Rightarrow> parse_digits b ys)"
  by (induction xs arbitrary: a) (auto split: option.splits)

lemma parse_digits_dec_digits: "parse_digits 0 (dec_digits n) = Some n"
proof (induction n rule: dec_digits.induct)
  case (1 n)
  show ?case
  proof (cases "n < 10")
    case True
    then show ?thesis by (simp add: dec_digits.simps [of n])
  next
    case False
    with "1.IH" show ?thesis by (simp add: dec_digits.simps [of n] parse_digits_append)
  qed
qed

lemma dec_digits_nonempty [simp]: "dec_digits n \<noteq> []"
  by (subst dec_digits.simps) simp

lemma set_dec_digits: "c \<in> set (dec_digits n) \<Longrightarrow> \<exists>d < 10. c = digit_char d"
proof (induction n rule: dec_digits.induct)
  case (1 n)
  show ?case
  proof (cases "n < 10")
    case True
    with "1.prems" show ?thesis by (auto simp: dec_digits.simps [of n])
  next
    case False
    with "1.prems" consider "c \<in> set (dec_digits (n div 10))" | "c = digit_char (n mod 10)"
      by (auto simp: dec_digits.simps [of n])
    then show ?thesis
    proof cases
      case 1
      with "1.IH" [OF False] show ?thesis by blast
    next
      case 2
      moreover have "n mod 10 < 10" by simp
      ultimately show ?thesis by blast
    qed
  qed
qed

lemma digit_char_neq:
  assumes "d < 10"
  shows "digit_char d \<noteq> CHR ''-''" "digit_char d \<noteq> CHR ''+''" "digit_char d \<noteq> CHR '':''"
    "digit_char d \<noteq> CHR ''u''" "digit_char d \<noteq> CHR ''s''"
proof -
  have "(of_char (digit_char d) :: nat) = 48 + d" by (rule of_char_digit_char [OF assms])
  then have *: "48 \<le> (of_char (digit_char d) :: nat)" "(of_char (digit_char d) :: nat) < 58"
    using assms by auto
  show "digit_char d \<noteq> CHR ''-''" "digit_char d \<noteq> CHR ''+''" "digit_char d \<noteq> CHR '':''"
    "digit_char d \<noteq> CHR ''u''" "digit_char d \<noteq> CHR ''s''"
    using * by auto
qed

lemma dec_digits_no_sign [simp]:
  "hd (dec_digits n) \<noteq> CHR ''-''" "hd (dec_digits n) \<noteq> CHR ''+''"
proof -
  have "hd (dec_digits n) \<in> set (dec_digits n)" by simp
  then obtain d where "d < 10" "hd (dec_digits n) = digit_char d" using set_dec_digits by blast
  then show "hd (dec_digits n) \<noteq> CHR ''-''" "hd (dec_digits n) \<noteq> CHR ''+''"
    by (simp_all add: digit_char_neq)
qed

lemma split_sign_dec_digits [simp]: "split_sign (dec_digits n) = (False, dec_digits n)"
  using dec_digits_no_sign [of n] by (cases "dec_digits n") (auto simp: split_sign_def)

lemma split_sign_minus [simp]: "split_sign (CHR ''-'' # s) = (True, s)"
  by (simp add: split_sign_def)

theorem ParseInt_FormatInt: "int64_range i \<Longrightarrow> ParseInt (FormatInt i) = Some i"
  by (auto simp: ParseInt_def FormatInt_def parse_digits_dec_digits Let_def)

lemma FormatInt_inject:
  assumes "int64_range i" "int64_range j" "FormatInt i = FormatInt j"
  shows "i = j"
  using assms ParseInt_FormatInt by (metis option.inject)

lemma FormatInt_nonempty [simp]: "FormatInt i \<noteq> []"
  by (simp add: FormatInt_def)

text \<open>A rendered integer holds no colon, which is what makes colon-separated keys injective.\<close>

lemma FormatInt_no_colon [simp]: "CHR '':'' \<notin> set (FormatInt i)"
proof -
  have "CHR '':'' \<notin> set (dec_digits n)" for n
    using set_dec_digits [of "CHR '':''" n] digit_char_neq(3) by metis
  then show ?thesis by (simp add: FormatInt_def)
qed

lemma FormatInt_not_letter:
  "hd (FormatInt i) \<noteq> CHR ''u''" "hd (FormatInt i) \<noteq> CHR ''s''"
proof -
  have "hd (dec_digits n) \<noteq> CHR ''u'' \<and> hd (dec_digits n) \<noteq> CHR ''s''" for n
    using set_dec_digits [OF hd_in_set [OF dec_digits_nonempty [of n]]] digit_char_neq(4,5) by metis
  then show "hd (FormatInt i) \<noteq> CHR ''u''" "hd (FormatInt i) \<noteq> CHR ''s''"
    by (auto simp: FormatInt_def)
qed

lemma append_sep_inject:
  assumes "c \<notin> set xs" "c \<notin> set xs'" "xs @ c # ys = xs' @ c # ys'"
  shows "xs = xs' \<and> ys = ys'"
  using assms
proof (induction xs arbitrary: xs')
  case Nil
  then show ?case by (cases xs') auto
next
  case (Cons x xs)
  then show ?case by (cases xs') auto
qed

subsection \<open>Tables\<close>

text \<open>
  \<^verbatim>\<open>UPDATE t SET ... WHERE p\<close> on a table kept as the list of its rows, and the number of rows
  it affects.
\<close>

definition update_where :: "('a \<Rightarrow> bool) \<Rightarrow> ('a \<Rightarrow> 'a) \<Rightarrow> 'a list \<Rightarrow> 'a list" where
  "update_where p f rows = map (\<lambda>r. if p r then f r else r) rows"

lemma update_where_length [simp]: "length (update_where p f rows) = length rows"
  by (simp add: update_where_def)

lemma find_append: "find p (xs @ ys) = (case find p xs of None \<Rightarrow> find p ys | Some x \<Rightarrow> Some x)"
  by (induction xs) auto

lemma set_update_where: "set (update_where p f rows) = (\<lambda>r. if p r then f r else r) ` set rows"
  by (simp add: update_where_def)

text \<open>A property of all rows after an update, row by row.\<close>

lemma update_where_ball:
  assumes "x \<in> set (update_where p f rows)"
    and "\<And>r. r \<in> set rows \<Longrightarrow> p r \<Longrightarrow> P (f r)" "\<And>r. r \<in> set rows \<Longrightarrow> \<not> p r \<Longrightarrow> P r"
  shows "P x"
  using assms by (auto simp: set_update_where split: if_splits)

lemma update_where_none [simp]: "filter p rows = [] \<Longrightarrow> update_where p f rows = rows"
  by (auto simp: update_where_def filter_empty_conv intro: map_idI)

lemma map_update_where:
  "(\<And>r. p r \<Longrightarrow> g (f r) = g r) \<Longrightarrow> map g (update_where p f rows) = map g rows"
  by (simp add: update_where_def)

lemma update_where_idem:
  "(\<And>r. p r \<Longrightarrow> \<not> p (f r)) \<Longrightarrow> update_where p f (update_where p f rows) = update_where p f rows"
  by (simp add: update_where_def)

lemma length_filter_update_where:
  "(\<And>r. p r \<Longrightarrow> q (f r) = q r) \<Longrightarrow> length (filter q (update_where p f rows)) = length (filter q rows)"
  by (induction rows) (auto simp: update_where_def)

lemma filter_update_where_other:
  "(\<And>r. p r \<Longrightarrow> q (f r) = q r) \<Longrightarrow> (\<And>r. p r \<Longrightarrow> \<not> q r) \<Longrightarrow> filter q (update_where p f rows) = filter q rows"
  by (induction rows) (auto simp: update_where_def)

text \<open>A statement that names a unique key touches at most one row.\<close>

lemma filter_key_le_1: "distinct (map k xs) \<Longrightarrow> length (filter (\<lambda>x. k x = a \<and> p x) xs) \<le> 1"
proof (induction xs)
  case (Cons x xs)
  then have "k x = a \<Longrightarrow> filter (\<lambda>x. k x = a \<and> p x) xs = []"
    by (auto simp: filter_empty_conv) (metis image_eqI)
  with Cons show ?case by auto
qed simp

subsection \<open>Characters and strings\<close>

definition in_range :: "nat \<Rightarrow> nat \<Rightarrow> char \<Rightarrow> bool" where
  "in_range lo hi c \<longleftrightarrow> lo \<le> (of_char c :: nat) \<and> (of_char c :: nat) \<le> hi"

definition is_lower :: "char \<Rightarrow> bool" where "is_lower = in_range 97 122"
definition is_upper :: "char \<Rightarrow> bool" where "is_upper = in_range 65 90"
definition is_digit :: "char \<Rightarrow> bool" where "is_digit = in_range 48 57"

definition is_alnum :: "char \<Rightarrow> bool" where
  "is_alnum c \<longleftrightarrow> is_lower c \<or> is_upper c \<or> is_digit c"

text \<open>\<^verbatim>\<open>strings.ToLower\<close> on ASCII bytes.\<close>

definition to_lower :: "char \<Rightarrow> char" where
  "to_lower c = (if is_upper c then char_of ((of_char c :: nat) + 32) else c)"

definition ToLower :: "string \<Rightarrow> string" where
  "ToLower = map to_lower"

text \<open>\<^verbatim>\<open>strings.Cut\<close> at a one-character separator; the second part is \<open>None\<close> when there is none.\<close>

definition Cut :: "char \<Rightarrow> string \<Rightarrow> string \<times> string option" where
  "Cut sep s = (takeWhile (\<lambda>c. c \<noteq> sep) s,
                case dropWhile (\<lambda>c. c \<noteq> sep) s of [] \<Rightarrow> None | _ # r \<Rightarrow> Some r)"

definition HasPrefix :: "string \<Rightarrow> string \<Rightarrow> bool" where
  "HasPrefix s p \<longleftrightarrow> take (length p) s = p"

lemma HasPrefix_append [simp]: "HasPrefix (p @ s) p"
  by (simp add: HasPrefix_def)

lemma HasPrefix_iff: "HasPrefix s p \<longleftrightarrow> (\<exists>r. s = p @ r)"
  by (metis HasPrefix_append HasPrefix_def append_take_drop_id)

lemma Cut_append:
  assumes "c \<notin> set a"
  shows "Cut c (a @ c # b) = (a, Some b)"
proof -
  have "takeWhile (\<lambda>x. x \<noteq> c) (a @ c # b) = a" "dropWhile (\<lambda>x. x \<noteq> c) (a @ c # b) = c # b"
    using assms by (auto simp: takeWhile_append dropWhile_append)
  then show ?thesis by (simp add: Cut_def)
qed

lemma Cut_Some: "Cut c s = (a, Some b) \<Longrightarrow> s = a @ c # b \<and> c \<notin> set a"
proof -
  assume h: "Cut c s = (a, Some b)"
  then have a: "a = takeWhile (\<lambda>x. x \<noteq> c) s" by (simp add: Cut_def)
  from h obtain x where d: "dropWhile (\<lambda>x. x \<noteq> c) s = x # b"
    by (auto simp: Cut_def split: list.splits)
  then have "x = c" by (metis (mono_tags) hd_dropWhile list.discI list.sel(1))
  then show ?thesis
    using a d takeWhile_dropWhile_id [of "\<lambda>x. x \<noteq> c" s] set_takeWhileD by fastforce
qed

lemma to_lower_alnum: "is_alnum c \<Longrightarrow> is_lower (to_lower c) \<or> is_digit (to_lower c)"
  by (auto simp: is_alnum_def to_lower_def is_lower_def is_upper_def is_digit_def in_range_def)

lemma to_lower_fixed: "\<not> is_upper c \<Longrightarrow> to_lower c = c"
  by (simp add: to_lower_def)

lemma lower_not_upper: "is_lower c \<Longrightarrow> \<not> is_upper c" "is_digit c \<Longrightarrow> \<not> is_upper c"
  by (auto simp: is_lower_def is_upper_def is_digit_def in_range_def)

end
