(* ===== verification/PolicyCache.thy ===== *)
theory PolicyCache
  imports Prelude
begin

text \<open>
  What the per-tenant policy services share: a table of rows scoped to the platform, a tenant or
  one application of a tenant; the query that picks the most specific row of a scope; and the
  contract of a resolver that caches what it loads for a bounded time. The session policy and the
  lockout policy are the two services that meet the contract.
\<close>

subsection \<open>Scoped rows\<close>

record 'c policy_row =
  pr_tenant :: "int option"
  pr_app :: "int option"
  pr_cols :: 'c

text \<open>
  The \<^verbatim>\<open>WHERE\<close> clause both services use. A \<^verbatim>\<open>NULL\<close> application parameter matches no
  application row, since \<^verbatim>\<open>application_id = NULL\<close> is never true.
\<close>

definition scope_match :: "int \<Rightarrow> int option \<Rightarrow> 'c policy_row \<Rightarrow> bool" where
  "scope_match tid app r \<longleftrightarrow>
     (pr_app r \<noteq> None \<and> pr_app r = app \<and> pr_tenant r = Some tid)
     \<or> (pr_app r = None \<and> pr_tenant r = Some tid)
     \<or> (pr_app r = None \<and> pr_tenant r = None)"

text \<open>\<^verbatim>\<open>ORDER BY application_id NULLS LAST, tenant_id NULLS LAST\<close> on the matching rows.\<close>

definition scope_rank :: "'c policy_row \<Rightarrow> nat" where
  "scope_rank r = (if pr_app r = None then 2 else 0) + (if pr_tenant r = None then 1 else 0)"

definition select_policy :: "int \<Rightarrow> int option \<Rightarrow> 'c policy_row list \<Rightarrow> 'c policy_row option" where
  "select_policy tid app rows =
     (case sort_key scope_rank (filter (scope_match tid app) rows) of
        [] \<Rightarrow> None
      | r # _ \<Rightarrow> Some r)"

lemma select_policy_None: "select_policy tid app rows = None \<longleftrightarrow> (\<forall>r \<in> set rows. \<not> scope_match tid app r)"
proof -
  have "sort_key scope_rank (filter (scope_match tid app) rows) = [] \<longleftrightarrow>
        filter (scope_match tid app) rows = []"
    by (metis length_0_conv length_sort)
  then show ?thesis
    by (auto simp: select_policy_def filter_empty_conv split: list.splits)
qed

lemma select_policy_Some:
  assumes "select_policy tid app rows = Some r"
  shows "r \<in> set rows" "scope_match tid app r"
    "\<And>q. q \<in> set rows \<Longrightarrow> scope_match tid app q \<Longrightarrow> scope_rank r \<le> scope_rank q"
proof -
  let ?s = "sort_key scope_rank (filter (scope_match tid app) rows)"
  obtain rs where s: "?s = r # rs"
    using assms by (auto simp: select_policy_def split: list.splits)
  have set: "set ?s = {q \<in> set rows. scope_match tid app q}" by simp
  with s show "r \<in> set rows" "scope_match tid app r" by auto
  fix q assume "q \<in> set rows" "scope_match tid app q"
  with set have "q \<in> set ?s" by simp
  moreover have "sorted (map scope_rank ?s)" by (rule sorted_sort_key)
  ultimately show "scope_rank r \<le> scope_rank q" using s by auto
qed

text \<open>
  The winner is the application's row when there is one, else the tenant's, else the platform's.
\<close>

lemma select_policy_specific:
  assumes "select_policy tid app rows = Some r" "q \<in> set rows" "scope_match tid app q"
  shows "pr_app q \<noteq> None \<Longrightarrow> pr_app r \<noteq> None"
    and "pr_tenant q \<noteq> None \<Longrightarrow> pr_tenant r \<noteq> None"
  using select_policy_Some [OF assms(1)] assms(2,3)
  by (force simp: scope_rank_def scope_match_def split: if_splits)+

subsection \<open>The cache\<close>

text \<open>
  A resolver keeps what it loaded under (tenant, application), 0 standing for no application, with
  the instant of the load. \<open>sv_pool\<close> is false for a service that is nil or has no database pool.
\<close>

record 'p policy_service =
  sv_cache :: "int \<times> int \<Rightarrow> ('p \<times> time) option"
  sv_ttl :: duration
  sv_pool :: bool

definition policy_key :: "int \<Rightarrow> int option \<Rightarrow> int \<times> int" where
  "policy_key tid app = (tid, case app of None \<Rightarrow> 0 | Some a \<Rightarrow> a)"

definition key_app :: "int \<times> int \<Rightarrow> int option" where
  "key_app k = (if snd k = 0 then None else Some (snd k))"

lemma key_app_policy_key [simp]: "app \<noteq> Some 0 \<Longrightarrow> key_app (policy_key tid app) = app"
  by (auto simp: key_app_def policy_key_def split: option.splits)

lemma fst_policy_key [simp]: "fst (policy_key tid app) = tid"
  by (simp add: policy_key_def)

lemma policy_key_pair: "(a, b) = policy_key tid app \<Longrightarrow> a = tid"
  by (simp add: policy_key_def)

definition cache_lookup :: "time \<Rightarrow> int \<Rightarrow> int option \<Rightarrow> 'p policy_service \<Rightarrow> ('p \<times> time) option" where
  "cache_lookup now tid app sv =
     (case sv_cache sv (policy_key tid app) of
        None \<Rightarrow> None
      | Some (p, c) \<Rightarrow> if now - c < sv_ttl sv then Some (p, c) else None)"

lemma cache_lookup_Some:
  "cache_lookup now tid app sv = Some (p, c) \<longleftrightarrow>
     sv_cache sv (policy_key tid app) = Some (p, c) \<and> now - c < sv_ttl sv"
  by (auto simp: cache_lookup_def split: option.splits)

text \<open>
  The contract: \<open>load\<close> reads the table, \<open>resolve\<close> serves from the cache while an entry is
  younger than the time-to-live, otherwise loads and remembers; a failed load is answered by the
  default and leaves the cache alone. \<open>rows\<close> is the table's content over time.
\<close>

locale cached_resolver =
  fixes load :: "'rows \<Rightarrow> faults \<Rightarrow> int \<Rightarrow> int option \<Rightarrow> 'p result"
    and resolve :: "'rows \<Rightarrow> faults \<Rightarrow> time \<Rightarrow> int \<Rightarrow> int option \<Rightarrow> 'p policy_service \<Rightarrow>
                    'p \<times> 'p policy_service"
    and default :: 'p
    and invalidate :: "'p policy_service \<Rightarrow> 'p policy_service"
  assumes resolve_nil: "\<not> sv_pool sv \<Longrightarrow> resolve rows fl now tid app sv = (default, sv)"
    and resolve_hit: "sv_pool sv \<Longrightarrow> cache_lookup now tid app sv = Some (p, c) \<Longrightarrow>
      resolve rows fl now tid app sv = (p, sv)"
    and resolve_load: "sv_pool sv \<Longrightarrow> cache_lookup now tid app sv = None \<Longrightarrow>
      load rows fl tid app = Inr q \<Longrightarrow>
      resolve rows fl now tid app sv = (q, sv\<lparr>sv_cache := (sv_cache sv)(policy_key tid app \<mapsto> (q, now))\<rparr>)"
    and resolve_fail: "sv_pool sv \<Longrightarrow> cache_lookup now tid app sv = None \<Longrightarrow>
      load rows fl tid app = Inl e \<Longrightarrow> resolve rows fl now tid app sv = (default, sv)"
    and invalidate_empty: "sv_cache (invalidate sv) = Map.empty"
    and invalidate_ttl: "sv_ttl (invalidate sv) = sv_ttl sv"
    and invalidate_pool: "sv_pool (invalidate sv) = sv_pool sv"
    and load_error_free: "load rows fl tid app = Inr p \<Longrightarrow> load rows no_faults tid app = Inr p"
begin

text \<open>Every cached entry is what the table said at the instant of its load.\<close>

definition cache_sound :: "(time \<Rightarrow> 'rows) \<Rightarrow> time \<Rightarrow> 'p policy_service \<Rightarrow> bool" where
  "cache_sound H now sv \<longleftrightarrow>
     (\<forall>k p c. sv_cache sv k = Some (p, c) \<longrightarrow>
        c \<le> now \<and> load (H c) no_faults (fst k) (key_app k) = Inr p)"

lemma cache_soundD:
  assumes "cache_sound H now sv" "sv_cache sv (policy_key tid app) = Some (p, c)" "app \<noteq> Some 0"
  shows "c \<le> now" "load (H c) no_faults tid app = Inr p"
  using assms unfolding cache_sound_def by (metis fst_policy_key key_app_policy_key)+

lemma cache_sound_insert:
  assumes "cache_sound H now sv" "load (H now) no_faults tid app = Inr q" "app \<noteq> Some 0"
  shows "cache_sound H now (sv\<lparr>sv_cache := (sv_cache sv)(policy_key tid app \<mapsto> (q, now))\<rparr>)"
  using assms unfolding cache_sound_def by (auto dest: policy_key_pair)

lemma resolve_cases:
  assumes "sv_pool sv"
  obtains p c where "cache_lookup now tid app sv = Some (p, c)"
      "resolve rows fl now tid app sv = (p, sv)"
  | q where "cache_lookup now tid app sv = None" "load rows fl tid app = Inr q"
      "resolve rows fl now tid app sv = (q, sv\<lparr>sv_cache := (sv_cache sv)(policy_key tid app \<mapsto> (q, now))\<rparr>)"
  | e where "cache_lookup now tid app sv = None" "load rows fl tid app = Inl e"
      "resolve rows fl now tid app sv = (default, sv)"
  using assms resolve_hit resolve_load resolve_fail
  by (cases "cache_lookup now tid app sv"; cases "load rows fl tid app") auto

lemma resolve_sound:
  assumes "cache_sound H now sv" "app \<noteq> Some 0"
  shows "cache_sound H now (snd (resolve (H now) fl now tid app sv))"
proof (cases "sv_pool sv")
  case True
  then show ?thesis
  proof (cases rule: resolve_cases [of sv now tid app "H now" fl])
  case (2 q)
  from 2(2) have "load (H now) no_faults tid app = Inr q" by (rule load_error_free)
  with 2 assms show ?thesis by (simp add: cache_sound_insert)
  qed (use assms in simp_all)
next
  case False
  with assms show ?thesis by (simp add: resolve_nil)
qed

text \<open>
  Staleness is bounded: what a resolve returns is the default of a failed load, or what the table
  said less than one time-to-live ago.
\<close>

lemma resolve_fresh:
  assumes "cache_sound H now sv" "app \<noteq> Some 0" "0 < sv_ttl sv" "sv_pool sv"
    and res: "fst (resolve (H now) fl now tid app sv) = p"
  shows "(p = default \<and> (\<exists>e. load (H now) fl tid app = Inl e)) \<or>
         (\<exists>c \<le> now. now - c < sv_ttl sv \<and> load (H c) no_faults tid app = Inr p)"
using assms(4) proof (cases rule: resolve_cases [of sv now tid app "H now" fl])
  case (1 p' c)
  then have "sv_cache sv (policy_key tid app) = Some (p, c)" "now - c < sv_ttl sv"
    using res by (auto simp: cache_lookup_Some)
  with cache_soundD [OF assms(1) _ assms(2)]
  have "c \<le> now \<and> now - c < sv_ttl sv \<and> load (H c) no_faults tid app = Inr p" by blast
  then show ?thesis by blast
next
  case (2 q)
  then have "load (H now) fl tid app = Inr p" using res by simp
  then have "now - now < sv_ttl sv \<and> load (H now) no_faults tid app = Inr p"
    using assms(3) load_error_free by simp
  then show ?thesis by blast
next
  case (3 e)
  then show ?thesis using res by auto
qed

lemma invalidate_sound: "cache_sound H now (invalidate sv)"
  by (simp add: cache_sound_def invalidate_empty)

text \<open>After an invalidation the next resolve reads the table.\<close>

lemma resolve_after_invalidate:
  "sv_pool sv \<Longrightarrow> fst (resolve rows fl now tid app (invalidate sv)) =
     (case load rows fl tid app of Inr q \<Rightarrow> q | Inl _ \<Rightarrow> default)"
  by (rule resolve_cases [of "invalidate sv" now tid app rows fl])
     (auto simp: invalidate_pool invalidate_empty cache_lookup_Some)

end

end
