(* ===== verification/SessionPolicy.thy ===== *)
theory SessionPolicy
  imports PolicyCache
begin

text \<open>
  The session-lifetime policy (\<^verbatim>\<open>internal/auth/sessionpolicy.go\<close>): the two idle clocks, the
  absolute cap, the deadlines derived from one clock reading, and the resolver. The table's
  \<^verbatim>\<open>CHECK\<close> constraints (migration 00068) are \<open>session_cols_ok\<close>, and \<open>policy_ok\<close> is
  what they guarantee of a loaded policy.
\<close>

record SessionPolicy =
  IdleTTL :: duration
  NonPersistentIdleTTL :: duration
  AbsoluteTTL :: duration
  MaxConcurrentSessions :: int
  AllowPersistent :: bool

definition DefaultSessionPolicy :: SessionPolicy where
  "DefaultSessionPolicy =
     \<lparr>IdleTTL = 7 * 24 * Hour, NonPersistentIdleTTL = 24 * Hour, AbsoluteTTL = 30 * 24 * Hour,
      MaxConcurrentSessions = 20, AllowPersistent = True\<rparr>"

definition IdleTTLFor :: "SessionPolicy \<Rightarrow> bool \<Rightarrow> duration" where
  "IdleTTLFor p persistent =
     (if persistent \<and> AllowPersistent p then IdleTTL p else NonPersistentIdleTTL p)"

definition Deadlines :: "SessionPolicy \<Rightarrow> time \<Rightarrow> bool \<Rightarrow> time \<times> time" where
  "Deadlines p authTime persistent =
     (let absolute = authTime + AbsoluteTTL p;
          idle = authTime + IdleTTLFor p persistent
      in (if idle > absolute then absolute else idle, absolute))"

subsection \<open>The policy table and the resolver\<close>

record session_policy_cols =
  idle_ttl_seconds :: int
  non_persistent_idle_ttl_seconds :: int
  absolute_ttl_seconds :: int
  max_concurrent_sessions :: int
  allow_persistent :: bool

type_synonym session_policies = "session_policy_cols policy_row list"

definition policyCacheTTL :: duration where
  "policyCacheTTL = 60 * Second"

definition NewSessionPolicyService :: "bool \<Rightarrow> SessionPolicy policy_service" where
  "NewSessionPolicyService pool = \<lparr>sv_cache = Map.empty, sv_ttl = policyCacheTTL, sv_pool = pool\<rparr>"

definition SessionPolicy_load :: "session_policies \<Rightarrow> faults \<Rightarrow> int \<Rightarrow> int option \<Rightarrow> SessionPolicy result" where
  "SessionPolicy_load rows fl tid app =
     (if fl ''load session policy'' then Inl (Wrapped ''load session policy'')
      else case select_policy tid app rows of
             None \<Rightarrow> Inl ErrNoPolicyRow
           | Some r \<Rightarrow> (let c = pr_cols r in
               Inr \<lparr>IdleTTL = idle_ttl_seconds c * Second,
                    NonPersistentIdleTTL = non_persistent_idle_ttl_seconds c * Second,
                    AbsoluteTTL = absolute_ttl_seconds c * Second,
                    MaxConcurrentSessions = max_concurrent_sessions c,
                    AllowPersistent = allow_persistent c\<rparr>))"

definition SessionPolicy_Resolve ::
  "session_policies \<Rightarrow> faults \<Rightarrow> time \<Rightarrow> int \<Rightarrow> int option \<Rightarrow> SessionPolicy policy_service \<Rightarrow>
   SessionPolicy \<times> SessionPolicy policy_service" where
  "SessionPolicy_Resolve rows fl now tid app sv =
     (if \<not> sv_pool sv then (DefaultSessionPolicy, sv)
      else case cache_lookup now tid app sv of
             Some (p, cachedAt) \<Rightarrow> (p, sv)
           | None \<Rightarrow>
               (case SessionPolicy_load rows fl tid app of
                  Inl _ \<Rightarrow> (DefaultSessionPolicy, sv)
                | Inr q \<Rightarrow> (q, sv\<lparr>sv_cache := (sv_cache sv)(policy_key tid app \<mapsto> (q, now))\<rparr>)))"

definition SessionPolicy_InvalidateCache :: "SessionPolicy policy_service \<Rightarrow> SessionPolicy policy_service" where
  "SessionPolicy_InvalidateCache sv = sv\<lparr>sv_cache := Map.empty\<rparr>"

interpretation session_policy: cached_resolver
  SessionPolicy_load SessionPolicy_Resolve DefaultSessionPolicy SessionPolicy_InvalidateCache
  by unfold_locales
     (auto simp: SessionPolicy_Resolve_def SessionPolicy_InvalidateCache_def SessionPolicy_load_def
        Let_def split: option.splits if_splits)

subsection \<open>What the constraints of the table guarantee\<close>

definition session_cols_ok :: "session_policy_cols \<Rightarrow> bool" where
  "session_cols_ok c \<longleftrightarrow>
     60 \<le> idle_ttl_seconds c \<and> idle_ttl_seconds c \<le> 7776000
     \<and> 60 \<le> non_persistent_idle_ttl_seconds c \<and> non_persistent_idle_ttl_seconds c \<le> 7776000
     \<and> 300 \<le> absolute_ttl_seconds c \<and> absolute_ttl_seconds c \<le> 7776000
     \<and> 1 \<le> max_concurrent_sessions c \<and> max_concurrent_sessions c \<le> 1000
     \<and> idle_ttl_seconds c \<le> absolute_ttl_seconds c
     \<and> non_persistent_idle_ttl_seconds c \<le> absolute_ttl_seconds c"

definition policy_ok :: "SessionPolicy \<Rightarrow> bool" where
  "policy_ok p \<longleftrightarrow>
     60 * Second \<le> IdleTTL p \<and> IdleTTL p \<le> AbsoluteTTL p
     \<and> 60 * Second \<le> NonPersistentIdleTTL p \<and> NonPersistentIdleTTL p \<le> AbsoluteTTL p
     \<and> AbsoluteTTL p \<le> 90 * 24 * Hour
     \<and> 1 \<le> MaxConcurrentSessions p \<and> MaxConcurrentSessions p \<le> 1000"

lemma default_policy_ok: "policy_ok DefaultSessionPolicy"
  by (simp add: policy_ok_def DefaultSessionPolicy_def)

lemma load_policy_ok:
  assumes "\<forall>r \<in> set rows. session_cols_ok (pr_cols r)" "SessionPolicy_load rows fl tid app = Inr p"
  shows "policy_ok p"
proof -
  obtain r where "select_policy tid app rows = Some r" and p: "p = \<lparr>IdleTTL = idle_ttl_seconds (pr_cols r) * Second,
      NonPersistentIdleTTL = non_persistent_idle_ttl_seconds (pr_cols r) * Second,
      AbsoluteTTL = absolute_ttl_seconds (pr_cols r) * Second,
      MaxConcurrentSessions = max_concurrent_sessions (pr_cols r),
      AllowPersistent = allow_persistent (pr_cols r)\<rparr>"
    using assms(2) by (auto simp: SessionPolicy_load_def Let_def split: if_splits option.splits)
  then have "session_cols_ok (pr_cols r)" using assms(1) select_policy_Some(1) by blast
  with p show ?thesis by (simp add: session_cols_ok_def policy_ok_def)
qed

lemma IdleTTLFor_le_absolute: "policy_ok p \<Longrightarrow> IdleTTLFor p b \<le> AbsoluteTTL p"
  by (simp add: IdleTTLFor_def policy_ok_def)

lemma IdleTTLFor_pos: "policy_ok p \<Longrightarrow> 0 < IdleTTLFor p b"
  by (simp add: IdleTTLFor_def policy_ok_def)

end
