(* ===== verification/SessionStore.thy ===== *)
theory SessionStore
  imports SessionPolicy
begin

text \<open>
  The two session tables (\<^verbatim>\<open>user_sessions\<close>, \<^verbatim>\<open>refresh_tokens\<close>; migrations 00009, 00070, 00087,
  00093) and the statements that \<^verbatim>\<open>internal/auth/session.go\<close> and \<^verbatim>\<open>service.go\<close> run on them: the two
  liveness predicates, the revocations, the concurrent-session cap and the inserts of the mint.
  A table is the list of its rows in insertion order. The bookkeeping columns that no statement
  reads (\<^verbatim>\<open>updated_at\<close>) are left out. \<open>session_db_ok\<close> is the invariant of the tables, and the
  locale \<open>revocation\<close> is the contract that every statement ending sessions meets.
\<close>

record user_session =
  us_id :: int
  us_user :: int
  us_tenant :: int
  us_app :: "int option"
  user_agent :: string
  device_hint :: "string option"
  ip_address :: "string option"
  auth_time :: time
  us_amr :: "string list"
  is_persistent :: bool
  idle_expires_at :: time
  absolute_expires_at :: time
  last_seen_at :: time
  us_org :: "int option"
  us_revoked_at :: "time option"
  us_revoked_reason :: "string option"

record refresh_token =
  rt_id :: int
  rt_user :: int
  rt_tenant :: int
  token_hash :: string
  expires_at :: time
  rt_session :: "int option"
  session_family_id :: int
  rt_app :: "int option"
  rt_audience :: "string option"
  rt_active_roles :: "string list option"
  last_used_at :: time
  created_at :: time
  rt_revoked_at :: "time option"
  rt_revoked_reason :: "string option"
  rt_deleted_at :: "time option"

record session_db =
  sessions :: "user_session list"
  tokens :: "refresh_token list"
  next_session_id :: int
  next_token_id :: int

subsection \<open>Liveness\<close>

definition LiveSessionWhere :: "time \<Rightarrow> user_session \<Rightarrow> bool" where
  "LiveSessionWhere now s \<longleftrightarrow>
     us_revoked_at s = None \<and> idle_expires_at s > now \<and> absolute_expires_at s > now"

definition LiveTokenWhere :: "time \<Rightarrow> refresh_token \<Rightarrow> bool" where
  "LiveTokenWhere now t \<longleftrightarrow>
     rt_revoked_at t = None \<and> rt_deleted_at t = None \<and> expires_at t > now"

text \<open>The revocation reasons the sources write.\<close>

definition RevokeReasonRotated :: string where "RevokeReasonRotated = ''rotated''"
definition RevokeReasonLogout :: string where "RevokeReasonLogout = ''logout''"
definition RevokeReasonUserRevoked :: string where "RevokeReasonUserRevoked = ''user_revoked''"
definition RevokeReasonReplay :: string where "RevokeReasonReplay = ''replay_detected''"
definition RevokeReasonCapEvicted :: string where "RevokeReasonCapEvicted = ''cap_evicted''"
definition RevokeReasonCredentialChange :: string where
  "RevokeReasonCredentialChange = ''credential_change''"
definition RevokeReasonSessionRejected :: string where
  "RevokeReasonSessionRejected = ''session_rejected''"

subsection \<open>Statements that end sessions\<close>

definition stamp_session :: "time \<Rightarrow> string \<Rightarrow> user_session \<Rightarrow> user_session" where
  "stamp_session now reason s = s\<lparr>us_revoked_at := Some now, us_revoked_reason := Some reason\<rparr>"

definition stamp_token :: "time \<Rightarrow> string \<Rightarrow> refresh_token \<Rightarrow> refresh_token" where
  "stamp_token now reason t = t\<lparr>rt_revoked_at := Some now, rt_revoked_reason := Some reason\<rparr>"

text \<open>
  \<^verbatim>\<open>UPDATE ... SET revoked_at = NOW(), revoked_reason = r WHERE p AND revoked_at IS NULL\<close> on each of
  the two tables.
\<close>

definition revoke_sessions_where ::
  "time \<Rightarrow> string \<Rightarrow> (user_session \<Rightarrow> bool) \<Rightarrow> user_session list \<Rightarrow> user_session list" where
  "revoke_sessions_where now reason p =
     update_where (\<lambda>s. p s \<and> us_revoked_at s = None) (stamp_session now reason)"

definition revoke_tokens_where ::
  "time \<Rightarrow> string \<Rightarrow> (refresh_token \<Rightarrow> bool) \<Rightarrow> refresh_token list \<Rightarrow> refresh_token list" where
  "revoke_tokens_where now reason p =
     update_where (\<lambda>t. p t \<and> rt_revoked_at t = None) (stamp_token now reason)"

definition revokeSession_tx :: "time \<Rightarrow> int \<Rightarrow> int \<Rightarrow> int \<Rightarrow> string \<Rightarrow> session_db \<Rightarrow> int \<times> session_db" where
  "revokeSession_tx now userID tenantID sessionID reason db =
     (let hit = (\<lambda>s. us_id s = sessionID \<and> us_user s = userID \<and> us_tenant s = tenantID);
          n = int (length (filter (\<lambda>s. hit s \<and> us_revoked_at s = None) (sessions db)))
      in if n = 0 then (0, db)
         else (n, db\<lparr>sessions := revoke_sessions_where now reason hit (sessions db),
                     tokens := revoke_tokens_where now reason (\<lambda>t. rt_session t = Some sessionID) (tokens db)\<rparr>))"

text \<open>The ids are what the statement's \<^verbatim>\<open>RETURNING id\<close> yields.\<close>

definition RevokeOtherSessions_tx :: "time \<Rightarrow> int \<Rightarrow> int \<Rightarrow> session_db \<Rightarrow> int list \<times> session_db" where
  "RevokeOtherSessions_tx now userID keep db =
     (let hit = (\<lambda>s. us_user s = userID \<and> us_id s \<noteq> keep);
          ids = map us_id (filter (\<lambda>s. hit s \<and> us_revoked_at s = None) (sessions db));
          db1 = db\<lparr>sessions := revoke_sessions_where now RevokeReasonUserRevoked hit (sessions db)\<rparr>
      in (ids, if ids = [] then db1
               else db1\<lparr>tokens := revoke_tokens_where now RevokeReasonUserRevoked
                                    (\<lambda>t. \<exists>i \<in> set ids. rt_session t = Some i) (tokens db1)\<rparr>))"

definition RevokeAllSessionsTx_db :: "time \<Rightarrow> int \<Rightarrow> int \<Rightarrow> string \<Rightarrow> session_db \<Rightarrow> session_db" where
  "RevokeAllSessionsTx_db now userID tenantID reason db =
     db\<lparr>sessions := revoke_sessions_where now reason
                      (\<lambda>s. us_user s = userID \<and> us_tenant s = tenantID) (sessions db),
        tokens := revoke_tokens_where now reason
                    (\<lambda>t. rt_user t = userID \<and> rt_tenant t = tenantID) (tokens db)\<rparr>"

text \<open>
  The cap ranks the live sessions of the account most recently active first and ends those at
  position \<open>maxSessions\<close> and beyond, which leaves room for the one about to be inserted.
\<close>

definition ranked_live :: "time \<Rightarrow> int \<Rightarrow> int \<Rightarrow> session_db \<Rightarrow> user_session list" where
  "ranked_live now userID tenantID db =
     sort_key (\<lambda>s. - last_seen_at s)
       (filter (\<lambda>s. us_user s = userID \<and> us_tenant s = tenantID \<and> LiveSessionWhere now s) (sessions db))"

definition enforceSessionCap :: "time \<Rightarrow> int \<Rightarrow> int \<Rightarrow> int \<Rightarrow> session_db \<Rightarrow> int list \<times> session_db" where
  "enforceSessionCap now userID tenantID maxSessions db =
     (if maxSessions \<le> 0 then ([], db)
      else let evicted = map us_id (drop (nat (maxSessions - 1)) (ranked_live now userID tenantID db));
               db1 = db\<lparr>sessions := revoke_sessions_where now RevokeReasonCapEvicted
                                      (\<lambda>s. us_id s \<in> set evicted) (sessions db)\<rparr>
           in (evicted, if evicted = [] then db1
                        else db1\<lparr>tokens := revoke_tokens_where now RevokeReasonCapEvicted
                                   (\<lambda>t. \<exists>i \<in> set evicted. rt_session t = Some i) (tokens db1)\<rparr>))"

subsection \<open>Statements of the mint\<close>

text \<open>
  The rotation's \<^verbatim>\<open>UPDATE user_sessions ... RETURNING absolute_expires_at\<close>; \<open>None\<close> is
  \<^verbatim>\<open>pgx.ErrNoRows\<close>.
\<close>

definition touch_session :: "time \<Rightarrow> time \<Rightarrow> int \<Rightarrow> session_db \<Rightarrow> (time \<times> session_db) option" where
  "touch_session now idle sid db =
     (let hit = (\<lambda>s. us_id s = sid \<and> us_revoked_at s = None) in
      case filter hit (sessions db) of
        [] \<Rightarrow> None
      | s # _ \<Rightarrow> Some (absolute_expires_at s,
          db\<lparr>sessions := update_where hit
               (\<lambda>s. s\<lparr>last_seen_at := now, idle_expires_at := min idle (absolute_expires_at s)\<rparr>)
               (sessions db)\<rparr>))"

text \<open>The caller's row comes without an id, which the identity column supplies.\<close>

definition insert_session :: "user_session \<Rightarrow> session_db \<Rightarrow> int \<times> session_db" where
  "insert_session row db =
     (next_session_id db,
      db\<lparr>sessions := sessions db @ [row\<lparr>us_id := next_session_id db\<rparr>],
         next_session_id := next_session_id db + 1\<rparr>)"

text \<open>\<^verbatim>\<open>token_hash\<close> is unique, so inserting a hash already in the table is refused.\<close>

definition insert_token :: "refresh_token \<Rightarrow> session_db \<Rightarrow> session_db option" where
  "insert_token row db =
     (if token_hash row \<in> token_hash ` set (tokens db) then None
      else Some (db\<lparr>tokens := tokens db @ [row\<lparr>rt_id := next_token_id db\<rparr>],
                    next_token_id := next_token_id db + 1\<rparr>))"

definition revoke_token_id :: "time \<Rightarrow> string \<Rightarrow> int \<Rightarrow> session_db \<Rightarrow> session_db" where
  "revoke_token_id now reason tid db =
     db\<lparr>tokens := update_where (\<lambda>t. rt_id t = tid) (stamp_token now reason) (tokens db)\<rparr>"

definition find_token :: "string \<Rightarrow> session_db \<Rightarrow> refresh_token option" where
  "find_token hash db = find (\<lambda>t. token_hash t = hash) (tokens db)"

definition find_session :: "int \<Rightarrow> session_db \<Rightarrow> user_session option" where
  "find_session sid db = find (\<lambda>s. us_id s = sid) (sessions db)"

subsection \<open>The invariant of the tables\<close>

definition token_ok :: "session_db \<Rightarrow> refresh_token \<Rightarrow> bool" where
  "token_ok db t \<longleftrightarrow>
     (\<forall>i. rt_session t = Some i \<longrightarrow>
        (\<exists>s \<in> set (sessions db). us_id s = i \<and> us_user s = rt_user t \<and> us_tenant s = rt_tenant t
           \<and> expires_at t \<le> absolute_expires_at s
           \<and> (us_revoked_at s \<noteq> None \<longrightarrow> rt_revoked_at t \<noteq> None)))"

definition session_db_ok :: "session_db \<Rightarrow> bool" where
  "session_db_ok db \<longleftrightarrow>
     distinct (map us_id (sessions db)) \<and> distinct (map rt_id (tokens db))
     \<and> distinct (map token_hash (tokens db))
     \<and> (\<forall>s \<in> set (sessions db). 0 < us_id s \<and> us_id s < next_session_id db
          \<and> idle_expires_at s \<le> absolute_expires_at s)
     \<and> (\<forall>t \<in> set (tokens db). rt_id t < next_token_id db \<and> token_ok db t)
     \<and> 0 < next_session_id db"

definition empty_session_db :: session_db where
  "empty_session_db = \<lparr>sessions = [], tokens = [], next_session_id = 1, next_token_id = 1\<rparr>"

lemma empty_session_db_ok: "session_db_ok empty_session_db"
  by (simp add: session_db_ok_def empty_session_db_def)

subsection \<open>Row-wise facts\<close>

lemma stamp_session_fields [simp]:
  "us_id (stamp_session now r s) = us_id s" "us_user (stamp_session now r s) = us_user s"
  "us_tenant (stamp_session now r s) = us_tenant s"
  "absolute_expires_at (stamp_session now r s) = absolute_expires_at s"
  "idle_expires_at (stamp_session now r s) = idle_expires_at s"
  "last_seen_at (stamp_session now r s) = last_seen_at s"
  "us_revoked_at (stamp_session now r s) = Some now"
  "us_revoked_reason (stamp_session now r s) = Some r"
  by (simp_all add: stamp_session_def)

lemma stamp_token_fields [simp]:
  "rt_id (stamp_token now r t) = rt_id t" "rt_user (stamp_token now r t) = rt_user t"
  "rt_tenant (stamp_token now r t) = rt_tenant t" "token_hash (stamp_token now r t) = token_hash t"
  "expires_at (stamp_token now r t) = expires_at t" "rt_session (stamp_token now r t) = rt_session t"
  "rt_revoked_at (stamp_token now r t) = Some now" "rt_revoked_reason (stamp_token now r t) = Some r"
  by (simp_all add: stamp_token_def)

lemma not_live_stamped [simp]:
  "\<not> LiveSessionWhere t (stamp_session now r s)" "\<not> LiveTokenWhere t (stamp_token now r k)"
  by (simp_all add: LiveSessionWhere_def LiveTokenWhere_def)

lemma live_not_revoked: "LiveSessionWhere t s \<Longrightarrow> us_revoked_at s = None"
  by (simp add: LiveSessionWhere_def)

lemma live_token_not_revoked: "LiveTokenWhere t k \<Longrightarrow> rt_revoked_at k = None"
  by (simp add: LiveTokenWhere_def)

lemma revoke_sessions_keys [table_simps]:
  "map us_id (revoke_sessions_where now r p ss) = map us_id ss"
  by (simp add: revoke_sessions_where_def map_update_where)

lemma revoke_tokens_keys [table_simps]:
  "map rt_id (revoke_tokens_where now r p ts) = map rt_id ts"
  "map token_hash (revoke_tokens_where now r p ts) = map token_hash ts"
  by (simp_all add: revoke_tokens_where_def map_update_where)

lemma live_after_revoke [table_simps]:
  "filter (LiveSessionWhere t) (revoke_sessions_where now r p ss) =
     filter (\<lambda>s. LiveSessionWhere t s \<and> \<not> p s) ss"
  by (induction ss) (auto simp: revoke_sessions_where_def update_where_def dest: live_not_revoked)

lemma live_tokens_after_revoke [table_simps]:
  "filter (LiveTokenWhere t) (revoke_tokens_where now r p ts) =
     filter (\<lambda>k. LiveTokenWhere t k \<and> \<not> p k) ts"
  by (induction ts) (auto simp: revoke_tokens_where_def update_where_def dest: live_token_not_revoked)

lemma revoke_tokens_none [simp]: "\<forall>t \<in> set ts. \<not> p t \<Longrightarrow> revoke_tokens_where now r p ts = ts"
  by (auto simp: revoke_tokens_where_def intro!: update_where_none filter_False)

lemma revoke_sessions_none [simp]:
  "\<forall>s \<in> set ss. p s \<longrightarrow> us_revoked_at s \<noteq> None \<Longrightarrow> revoke_sessions_where now r p ss = ss"
  by (auto simp: revoke_sessions_where_def intro!: update_where_none filter_False)

lemma mem_revoke_sessions:
  "s \<in> set (revoke_sessions_where now r p ss) \<longleftrightarrow>
     (\<exists>q \<in> set ss. s = (if p q \<and> us_revoked_at q = None then stamp_session now r q else q))"
  unfolding revoke_sessions_where_def set_update_where image_iff ..

lemma mem_revoke_tokens:
  "t \<in> set (revoke_tokens_where now r p ts) \<longleftrightarrow>
     (\<exists>q \<in> set ts. t = (if p q \<and> rt_revoked_at q = None then stamp_token now r q else q))"
  unfolding revoke_tokens_where_def set_update_where image_iff ..

lemma revoke_tokens_dead:
  assumes "t \<in> set (revoke_tokens_where now r p ts)" "p t" "\<And>q. p (stamp_token now r q) = p q"
  shows "rt_revoked_at t \<noteq> None"
proof -
  from assms(1) obtain q where "t = (if p q \<and> rt_revoked_at q = None then stamp_token now r q else q)"
    unfolding mem_revoke_tokens by blast
  then show ?thesis using assms(2) by (cases "p q \<and> rt_revoked_at q = None") auto
qed

lemma revoke_sessions_dead:
  assumes "s \<in> set (revoke_sessions_where now r p ss)" "p s" "\<And>q. p (stamp_session now r q) = p q"
  shows "us_revoked_at s \<noteq> None"
proof -
  from assms(1) obtain q where "s = (if p q \<and> us_revoked_at q = None then stamp_session now r q else q)"
    unfolding mem_revoke_sessions by blast
  then show ?thesis using assms(2) by (cases "p q \<and> us_revoked_at q = None") auto
qed

lemma find_map_key:
  "(\<And>x. k (f x) = k x) \<Longrightarrow> find (\<lambda>x. k x = a) (map f xs) = map_option f (find (\<lambda>x. k x = a) xs)"
  by (induction xs) auto

lemma find_session_revoked:
  "find (\<lambda>s. us_id s = i) (revoke_sessions_where now r p ss) =
     map_option (\<lambda>s. if p s \<and> us_revoked_at s = None then stamp_session now r s else s)
       (find (\<lambda>s. us_id s = i) ss)"
  unfolding revoke_sessions_where_def update_where_def by (rule find_map_key) simp

lemma find_token_revoked:
  "find (\<lambda>t. token_hash t = h) (revoke_tokens_where now r p ts) =
     map_option (\<lambda>t. if p t \<and> rt_revoked_at t = None then stamp_token now r t else t)
       (find (\<lambda>t. token_hash t = h) ts)"
  unfolding revoke_tokens_where_def update_where_def by (rule find_map_key) simp

lemma find_session_Some: "find_session i db = Some s \<Longrightarrow> s \<in> set (sessions db) \<and> us_id s = i"
  by (auto simp: find_session_def find_Some_iff)

lemma find_token_Some: "find_token h db = Some t \<Longrightarrow> t \<in> set (tokens db) \<and> token_hash t = h"
  by (auto simp: find_token_def find_Some_iff)

lemma find_key_mem:
  "distinct (map k xs) \<Longrightarrow> x \<in> set xs \<Longrightarrow> find (\<lambda>y. k y = k x) xs = Some x"
  by (induction xs) (auto simp: image_iff)

lemma find_session_mem: "session_db_ok db \<Longrightarrow> s \<in> set (sessions db) \<Longrightarrow> find_session (us_id s) db = Some s"
  by (simp add: session_db_ok_def find_session_def find_key_mem)

lemma find_token_mem: "session_db_ok db \<Longrightarrow> t \<in> set (tokens db) \<Longrightarrow> find_token (token_hash t) db = Some t"
  by (simp add: session_db_ok_def find_token_def find_key_mem)

lemma session_unique:
  "session_db_ok db \<Longrightarrow> s \<in> set (sessions db) \<Longrightarrow> q \<in> set (sessions db) \<Longrightarrow> us_id s = us_id q \<Longrightarrow> s = q"
  by (metis find_session_mem option.inject)

lemma token_session:
  assumes "session_db_ok db" "t \<in> set (tokens db)" "rt_session t = Some i"
  obtains s where "s \<in> set (sessions db)" "us_id s = i" "us_user s = rt_user t" "us_tenant s = rt_tenant t"
    "expires_at t \<le> absolute_expires_at s" "us_revoked_at s \<noteq> None \<longrightarrow> rt_revoked_at t \<noteq> None"
  using assms unfolding session_db_ok_def token_ok_def by blast

subsection \<open>The contract of a revocation\<close>

text \<open>
  Every statement that ends sessions does so row by row: the sessions \<open>S\<close> selects and the tokens
  \<open>T\<close> selects are stamped unless they already were, and the tokens of a selected session are
  selected too. What follows holds for each of them.
\<close>

locale revocation =
  fixes kill :: "session_db \<Rightarrow> session_db" and now :: time and reason :: string
    and S :: "session_db \<Rightarrow> user_session \<Rightarrow> bool" and T :: "session_db \<Rightarrow> refresh_token \<Rightarrow> bool"
  assumes sessions_kill: "sessions (kill db) = revoke_sessions_where now reason (S db) (sessions db)"
    and tokens_kill: "tokens (kill db) = revoke_tokens_where now reason (T db) (tokens db)"
    and ids_kill: "next_session_id (kill db) = next_session_id db" "next_token_id (kill db) = next_token_id db"
    and covers: "session_db_ok db \<Longrightarrow> s \<in> set (sessions db) \<Longrightarrow> S db s \<Longrightarrow> us_revoked_at s = None \<Longrightarrow>
      t \<in> set (tokens db) \<Longrightarrow> rt_session t = Some (us_id s) \<Longrightarrow> T db t"
begin

lemma find_session_kill:
  "find_session i (kill db) =
     map_option (\<lambda>s. if S db s \<and> us_revoked_at s = None then stamp_session now reason s else s)
       (find_session i db)"
  by (simp add: find_session_def sessions_kill find_session_revoked)

lemma find_token_kill:
  "find_token h (kill db) =
     map_option (\<lambda>t. if T db t \<and> rt_revoked_at t = None then stamp_token now reason t else t)
       (find_token h db)"
  by (simp add: find_token_def tokens_kill find_token_revoked)

text \<open>The live rows afterwards are exactly the live rows not selected.\<close>

lemma live_kill:
  "filter (LiveSessionWhere t) (sessions (kill db)) =
     filter (\<lambda>s. LiveSessionWhere t s \<and> \<not> S db s) (sessions db)"
  "filter (LiveTokenWhere t) (tokens (kill db)) =
     filter (\<lambda>k. LiveTokenWhere t k \<and> \<not> T db k) (tokens db)"
  by (simp_all add: sessions_kill tokens_kill table_simps)

lemma token_ok_kill:
  assumes ok: "session_db_ok db" and t: "t \<in> set (tokens db)"
  shows "token_ok (kill db) (if T db t \<and> rt_revoked_at t = None then stamp_token now reason t else t)"
proof -
  have "\<exists>s' \<in> set (sessions (kill db)). us_id s' = i \<and> us_user s' = rt_user t \<and> us_tenant s' = rt_tenant t
        \<and> expires_at t \<le> absolute_expires_at s'
        \<and> (us_revoked_at s' \<noteq> None \<longrightarrow> rt_revoked_at t \<noteq> None \<or> T db t)"
    if i: "rt_session t = Some i" for i
  proof -
    from token_session [OF ok t i] obtain s where
      s: "s \<in> set (sessions db)" "us_id s = i" "us_user s = rt_user t" "us_tenant s = rt_tenant t"
         "expires_at t \<le> absolute_expires_at s" "us_revoked_at s \<noteq> None \<longrightarrow> rt_revoked_at t \<noteq> None" .
    let ?s = "if S db s \<and> us_revoked_at s = None then stamp_session now reason s else s"
    have "?s \<in> set (sessions (kill db))"
      unfolding sessions_kill mem_revoke_sessions using s(1) by blast
    moreover have "us_revoked_at ?s \<noteq> None \<longrightarrow> rt_revoked_at t \<noteq> None \<or> T db t"
      using s i covers [OF ok s(1) _ _ t] by auto
    ultimately show ?thesis using s by (intro bexI [of _ ?s]) auto
  qed
  then show ?thesis by (auto simp: token_ok_def)
qed

lemma kill_ok:
  assumes "session_db_ok db"
  shows "session_db_ok (kill db)"
proof -
  have "map us_id (sessions (kill db)) = map us_id (sessions db)"
    "map rt_id (tokens (kill db)) = map rt_id (tokens db)"
    "map token_hash (tokens (kill db)) = map token_hash (tokens db)"
    by (simp_all add: sessions_kill tokens_kill table_simps)
  moreover have "\<forall>s \<in> set (sessions (kill db)). 0 < us_id s \<and> us_id s < next_session_id (kill db)
      \<and> idle_expires_at s \<le> absolute_expires_at s"
    using assms by (auto simp: session_db_ok_def sessions_kill mem_revoke_sessions ids_kill)
  moreover have "\<forall>t \<in> set (tokens (kill db)). rt_id t < next_token_id (kill db)"
    using assms by (auto simp: session_db_ok_def tokens_kill mem_revoke_tokens ids_kill)
  moreover have "\<forall>t \<in> set (tokens (kill db)). token_ok (kill db) t"
    using token_ok_kill [OF assms] by (auto simp: tokens_kill mem_revoke_tokens)
  ultimately show ?thesis
    using assms by (simp add: session_db_ok_def ids_kill)
qed

text \<open>Nothing that is revoked becomes live again, and its stamp is not overwritten.\<close>

lemma revoked_stays:
  "find_session i db = Some s \<Longrightarrow> us_revoked_at s \<noteq> None \<Longrightarrow> find_session i (kill db) = Some s"
  by (auto simp: find_session_kill)

lemma selected_dead:
  "find_session i db = Some s \<Longrightarrow> S db s \<Longrightarrow>
     \<exists>s'. find_session i (kill db) = Some s' \<and> us_revoked_at s' \<noteq> None"
  by (auto simp: find_session_kill)

lemma unselected_untouched:
  "find_session i db = Some s \<Longrightarrow> \<not> S db s \<Longrightarrow> find_session i (kill db) = Some s"
  by (auto simp: find_session_kill)

end

subsection \<open>The statements meet the contract\<close>

interpretation revoke_one: revocation
  "\<lambda>db. snd (revokeSession_tx now userID tenantID sessionID reason db)" now reason
  "\<lambda>db s. us_id s = sessionID \<and> us_user s = userID \<and> us_tenant s = tenantID"
  "\<lambda>db t. fst (revokeSession_tx now userID tenantID sessionID reason db) \<noteq> 0 \<and> rt_session t = Some sessionID"
  for now userID tenantID sessionID reason
proof
  fix db
  show "tokens (snd (revokeSession_tx now userID tenantID sessionID reason db)) =
    revoke_tokens_where now reason
      (\<lambda>t. fst (revokeSession_tx now userID tenantID sessionID reason db) \<noteq> 0 \<and> rt_session t = Some sessionID)
      (tokens db)"
    by (cases "fst (revokeSession_tx now userID tenantID sessionID reason db) = 0")
       (simp_all add: revokeSession_tx_def Let_def split: if_splits)
qed (auto simp: revokeSession_tx_def Let_def filter_empty_conv)

lemma RevokeOtherSessions_tx_tokens:
  "tokens (snd (RevokeOtherSessions_tx now userID keep db)) =
     (if fst (RevokeOtherSessions_tx now userID keep db) = [] then tokens db
      else revoke_tokens_where now RevokeReasonUserRevoked
             (\<lambda>t. \<exists>i \<in> set (fst (RevokeOtherSessions_tx now userID keep db)). rt_session t = Some i) (tokens db))"
  by (simp add: RevokeOtherSessions_tx_def Let_def)

interpretation revoke_others: revocation
  "\<lambda>db. snd (RevokeOtherSessions_tx now userID keep db)" now RevokeReasonUserRevoked
  "\<lambda>db s. us_user s = userID \<and> us_id s \<noteq> keep"
  "\<lambda>db t. \<exists>i \<in> set (fst (RevokeOtherSessions_tx now userID keep db)). rt_session t = Some i"
  for now userID keep
  by unfold_locales (simp add: RevokeOtherSessions_tx_def Let_def, simp add: RevokeOtherSessions_tx_tokens,
      auto simp: RevokeOtherSessions_tx_def Let_def)

interpretation revoke_all: revocation
  "RevokeAllSessionsTx_db now userID tenantID reason" now reason
  "\<lambda>db s. us_user s = userID \<and> us_tenant s = tenantID"
  "\<lambda>db t. rt_user t = userID \<and> rt_tenant t = tenantID"
  for now userID tenantID reason
proof
  fix db s t
  assume "session_db_ok db" "s \<in> set (sessions db)" "us_user s = userID \<and> us_tenant s = tenantID"
    "t \<in> set (tokens db)" "rt_session t = Some (us_id s)"
  then show "rt_user t = userID \<and> rt_tenant t = tenantID"
    by (metis token_session session_unique)
qed (simp_all add: RevokeAllSessionsTx_db_def)

interpretation cap: revocation
  "\<lambda>db. snd (enforceSessionCap now userID tenantID maxSessions db)" now RevokeReasonCapEvicted
  "\<lambda>db s. us_id s \<in> set (fst (enforceSessionCap now userID tenantID maxSessions db))"
  "\<lambda>db t. \<exists>i \<in> set (fst (enforceSessionCap now userID tenantID maxSessions db)). rt_session t = Some i"
  for now userID tenantID maxSessions
  by unfold_locales (auto simp: enforceSessionCap_def Let_def)

text \<open>
  How many sessions the cap leaves: at most \<open>maxSessions - 1\<close> live ones, so that the insert that
  follows stays within the ceiling.
\<close>

lemma set_ranked_live:
  "set (ranked_live now u t db) =
     {s \<in> set (sessions db). us_user s = u \<and> us_tenant s = t \<and> LiveSessionWhere now s}"
  by (auto simp: ranked_live_def)

lemma distinct_ranked_live:
  "session_db_ok db \<Longrightarrow> distinct (map us_id (ranked_live now u t db))"
  using distinct_map_filter [of us_id "sessions db" "\<lambda>s. us_user s = u \<and> us_tenant s = t \<and> LiveSessionWhere now s"]
  by (simp add: session_db_ok_def ranked_live_def distinct_map)

lemma cap_survivors:
  assumes ok: "session_db_ok db" and pos: "0 < maxSessions"
  shows "filter (\<lambda>s. us_user s = u \<and> us_tenant s = t \<and> LiveSessionWhere now s)
           (sessions (snd (enforceSessionCap now u t maxSessions db))) =
         filter (\<lambda>s. s \<in> set (take (nat (maxSessions - 1)) (ranked_live now u t db))) (sessions db)"
proof -
  let ?r = "ranked_live now u t db" and ?n = "nat (maxSessions - 1)"
  have ev: "fst (enforceSessionCap now u t maxSessions db) = map us_id (drop ?n ?r)"
    using pos by (simp add: enforceSessionCap_def Let_def)
  have split: "?r = take ?n ?r @ drop ?n ?r" by simp
  have keep: "us_user s = u \<and> us_tenant s = t \<and> LiveSessionWhere now s \<and> us_id s \<notin> set (map us_id (drop ?n ?r))
      \<longleftrightarrow> s \<in> set (take ?n ?r)" if "s \<in> set (sessions db)" for s
  proof -
    have "distinct (map us_id (take ?n ?r) @ map us_id (drop ?n ?r))"
      using distinct_ranked_live [OF ok] by (simp flip: map_append)
    then have dis: "us_id ` set (take ?n ?r) \<inter> us_id ` set (drop ?n ?r) = {}"
      unfolding distinct_append by simp
    have "s \<in> set ?r \<longleftrightarrow> us_user s = u \<and> us_tenant s = t \<and> LiveSessionWhere now s"
      using that by (simp add: set_ranked_live)
    moreover have "s \<in> set ?r \<longleftrightarrow> s \<in> set (take ?n ?r) \<or> s \<in> set (drop ?n ?r)"
      by (metis split set_append Un_iff)
    ultimately show ?thesis using dis by auto
  qed
  have "filter (\<lambda>s. us_user s = u \<and> us_tenant s = t \<and> LiveSessionWhere now s)
          (sessions (snd (enforceSessionCap now u t maxSessions db))) =
        filter (\<lambda>s. us_user s = u \<and> us_tenant s = t)
          (filter (LiveSessionWhere now) (sessions (snd (enforceSessionCap now u t maxSessions db))))"
    by (simp add: filter_filter conj_ac) 
  also have "\<dots> = filter (\<lambda>s. s \<in> set (take ?n ?r)) (sessions db)"
    using keep by (simp add: cap.live_kill ev filter_filter) (rule filter_cong, auto)
  finally show ?thesis .
qed

lemma cap_leaves_room:
  assumes "session_db_ok db" "0 < maxSessions"
  shows "int (length (filter (\<lambda>s. us_user s = u \<and> us_tenant s = t \<and> LiveSessionWhere now s)
           (sessions (snd (enforceSessionCap now u t maxSessions db))))) < maxSessions"
proof -
  let ?k = "set (take (nat (maxSessions - 1)) (ranked_live now u t db))"
  have d: "distinct (sessions db)" using assms(1) by (simp add: session_db_ok_def distinct_map)
  have "length (filter (\<lambda>s. s \<in> ?k) (sessions db)) = card (set (filter (\<lambda>s. s \<in> ?k) (sessions db)))"
    by (rule sym, rule distinct_card) (use d in simp)
  also have "\<dots> \<le> card ?k" by (rule card_mono) auto
  also have "\<dots> \<le> nat (maxSessions - 1)"
    by (rule order_trans [OF card_length]) simp
  finally show ?thesis using assms by (simp add: cap_survivors)
qed

subsection \<open>A small table for the examples\<close>

definition sample_session :: "int \<Rightarrow> int \<Rightarrow> int \<Rightarrow> user_session" where
  "sample_session i u seen =
     \<lparr>us_id = i, us_user = u, us_tenant = 3, us_app = None, user_agent = [], device_hint = None,
      ip_address = None, auth_time = 0, us_amr = [''pwd''], is_persistent = False,
      idle_expires_at = 1000 * Second, absolute_expires_at = 5000 * Second, last_seen_at = seen,
      us_org = None, us_revoked_at = None, us_revoked_reason = None\<rparr>"

definition sample_token :: "int \<Rightarrow> int \<Rightarrow> int \<Rightarrow> string \<Rightarrow> refresh_token" where
  "sample_token k i u h =
     \<lparr>rt_id = k, rt_user = u, rt_tenant = 3, token_hash = h, expires_at = 5000 * Second,
      rt_session = Some i, session_family_id = i, rt_app = None, rt_audience = None,
      rt_active_roles = None, last_used_at = 0, created_at = 0, rt_revoked_at = None,
      rt_revoked_reason = None, rt_deleted_at = None\<rparr>"

text \<open>User 7 holds sessions 1 and 2, user 8 holds session 3, each with one token.\<close>

definition sample_db :: session_db where
  "sample_db =
     \<lparr>sessions = [sample_session 1 7 10, sample_session 2 7 20, sample_session 3 8 30],
      tokens = [sample_token 1 1 7 ''a'', sample_token 2 2 7 ''b'', sample_token 3 3 8 ''c''],
      next_session_id = 4, next_token_id = 4\<rparr>"

lemmas sample_defs = sample_db_def sample_session_def sample_token_def

lemma sample_db_ok: "session_db_ok sample_db"
  by (simp add: session_db_ok_def token_ok_def sample_defs)

end
