(* ===== verification/Redis.thy ===== *)
theory Redis
  imports Prelude
begin

text \<open>
  Redis is a service the program talks to, so it is a parameter of the model: a record of the
  commands the sources send (\<^verbatim>\<open>GET\<close>/\<^verbatim>\<open>EXISTS\<close>/\<^verbatim>\<open>MGET\<close>, \<^verbatim>\<open>TTL\<close>, \<^verbatim>\<open>SET\<close> with an expiry or keeping the one there is,
  \<^verbatim>\<open>SETNX\<close>, \<^verbatim>\<open>DEL\<close>, \<^verbatim>\<open>INCR\<close>, \<^verbatim>\<open>EXPIRE\<close>) over a keyspace of any type. The locale
  \<open>redis_store\<close> states their documented behaviour, all of it through what a later read
  returns. \<open>keyspace_ops\<close> is the textbook implementation, a map from keys to values
  with an expiry instant (\<^verbatim>\<open>TTL\<close> rounds to whole seconds), and it satisfies the laws.
\<close>

record 'r redis_ops =
  rget :: "'r \<Rightarrow> time \<Rightarrow> string \<Rightarrow> string option"
  rttl :: "'r \<Rightarrow> time \<Rightarrow> string \<Rightarrow> duration"
  rset :: "'r \<Rightarrow> time \<Rightarrow> string \<Rightarrow> string \<Rightarrow> duration \<Rightarrow> 'r"
  rsetnx :: "'r \<Rightarrow> time \<Rightarrow> string \<Rightarrow> string \<Rightarrow> duration \<Rightarrow> bool \<times> 'r"
  rdel :: "'r \<Rightarrow> time \<Rightarrow> string \<Rightarrow> 'r"
  rincr :: "'r \<Rightarrow> time \<Rightarrow> string \<Rightarrow> int option \<times> 'r"
  rexpire :: "'r \<Rightarrow> time \<Rightarrow> string \<Rightarrow> duration \<Rightarrow> 'r"
  rsetkeep :: "'r \<Rightarrow> time \<Rightarrow> string \<Rightarrow> string \<Rightarrow> 'r"

subsection \<open>The contract\<close>

locale redis_store =
  fixes R :: "'r redis_ops"
  assumes get_set: "0 < d \<Longrightarrow> now \<le> t \<Longrightarrow>
      rget R (rset R s now k v d) t k' = (if k' = k then (if t < now + d then Some v else None)
                                          else rget R s t k')"
    and setnx: "0 < d \<Longrightarrow>
      rsetnx R s now k v d = (if rget R s now k = None then (True, rset R s now k v d) else (False, s))"
    and get_del: "now \<le> t \<Longrightarrow> rget R (rdel R s now k) t k' = (if k' = k then None else rget R s t k')"
    and get_gone: "rget R s now k = None \<Longrightarrow> now \<le> t \<Longrightarrow> rget R s t k = None"
    and ttl_live: "0 < rttl R s t k \<Longrightarrow> rget R s t k \<noteq> None"
    and ttl_set: "0 < d \<Longrightarrow> now \<le> t \<Longrightarrow> t + Second \<le> now + d \<Longrightarrow>
      0 < rttl R (rset R s now k v d) t k"
    and ttl_other: "k' \<noteq> k \<Longrightarrow> rttl R (rset R s now k v d) t k' = rttl R s t k'"
      "k' \<noteq> k \<Longrightarrow> rttl R (rdel R s now k) t k' = rttl R s t k'"
      "k' \<noteq> k \<Longrightarrow> rttl R (snd (rincr R s now k)) t k' = rttl R s t k'"
      "k' \<noteq> k \<Longrightarrow> rttl R (rexpire R s now k d) t k' = rttl R s t k'"
    and incr_absent: "rget R s now k = None \<Longrightarrow> now \<le> t \<Longrightarrow>
      fst (rincr R s now k) = Some 1 \<and>
      rget R (snd (rincr R s now k)) t k' = (if k' = k then Some (FormatInt 1) else rget R s t k')"
    and incr_present: "rget R s now k = Some v \<Longrightarrow> ParseInt v = Some n \<Longrightarrow> int64_range (n + 1) \<Longrightarrow> now \<le> t \<Longrightarrow>
      fst (rincr R s now k) = Some (n + 1) \<and>
      rget R (snd (rincr R s now k)) t k' =
        (if k' = k then map_option (\<lambda>_. FormatInt (n + 1)) (rget R s t k) else rget R s t k')"
    and incr_refused: "rget R s now k = Some v \<Longrightarrow> ParseInt v = None \<or> (\<exists>n. ParseInt v = Some n \<and> \<not> int64_range (n + 1)) \<Longrightarrow>
      rincr R s now k = (None, s)"
    and get_expire: "0 < d \<Longrightarrow> now \<le> t \<Longrightarrow>
      rget R (rexpire R s now k d) t k' =
        (if k' = k then (if t < now + d then rget R s now k else None) else rget R s t k')"
    and get_setkeep: "now \<le> t \<Longrightarrow>
      rget R (rsetkeep R s now k v) t k' =
        (if k' = k then (if rget R s now k = None then Some v else map_option (\<lambda>_. v) (rget R s t k)) else rget R s t k')"
begin

lemma get_set_same [simp]: "0 < d \<Longrightarrow> rget R (rset R s now k v d) now k = Some v"
  by (simp add: get_set)

lemma setnx_first: "0 < d \<Longrightarrow> fst (rsetnx R s now k v d) \<longleftrightarrow> rget R s now k = None"
  by (simp add: setnx)

text \<open>A key taken by \<^verbatim>\<open>SETNX\<close> stays taken until its expiry: a second taker is refused.\<close>

lemma setnx_excludes:
  assumes "0 < d" "0 < d'" "now \<le> t" "t < now + d" "fst (rsetnx R s now k v d)"
  shows "\<not> fst (rsetnx R (snd (rsetnx R s now k v d)) t k v' d')"
  using assms by (auto simp: setnx get_set split: if_splits)

text \<open>A refused \<^verbatim>\<open>SETNX\<close> leaves the keyspace alone, so it cannot extend the expiry.\<close>

lemma setnx_refused: "0 < d \<Longrightarrow> rget R s now k \<noteq> None \<Longrightarrow> rsetnx R s now k v d = (False, s)"
  by (auto simp: setnx)

text \<open>\<^verbatim>\<open>INCR\<close> and \<^verbatim>\<open>EXPIRE\<close> touch one key, whatever they find there.\<close>

lemma get_incr_other: "now \<le> t \<Longrightarrow> k' \<noteq> k \<Longrightarrow> rget R (snd (rincr R s now k)) t k' = rget R s t k'"
proof (cases "rget R s now k")
  case (Some v)
  assume "now \<le> t" "k' \<noteq> k"
  with Some show ?thesis using incr_present [OF Some, of _ t k'] incr_refused [OF Some]
    by (cases "ParseInt v") fastforce+
qed (simp add: incr_absent)

lemma get_expire_other: "0 < d \<Longrightarrow> now \<le> t \<Longrightarrow> k' \<noteq> k \<Longrightarrow> rget R (rexpire R s now k d) t k' = rget R s t k'"
  by (simp add: get_expire)

lemma ttl_setnx_other: "0 < d \<Longrightarrow> k' \<noteq> k \<Longrightarrow> rttl R (snd (rsetnx R s now k v d)) t k' = rttl R s t k'"
  by (simp add: setnx ttl_other)

lemma get_setnx_other:
  "0 < d \<Longrightarrow> now \<le> t \<Longrightarrow> k' \<noteq> k \<Longrightarrow> rget R (snd (rsetnx R s now k v d)) t k' = rget R s t k'"
  by (simp add: setnx get_set)

end

subsection \<open>The reference keyspace\<close>

type_synonym keyspace = "string \<Rightarrow> (string \<times> time option) option"

definition ks_get :: "keyspace \<Rightarrow> time \<Rightarrow> string \<Rightarrow> string option" where
  "ks_get s t k = (case s k of None \<Rightarrow> None
                   | Some (v, None) \<Rightarrow> Some v
                   | Some (v, Some e) \<Rightarrow> if t < e then Some v else None)"

definition ks_ttl :: "keyspace \<Rightarrow> time \<Rightarrow> string \<Rightarrow> duration" where
  "ks_ttl s t k = (case s k of None \<Rightarrow> -2
                   | Some (v, None) \<Rightarrow> -1
                   | Some (v, Some e) \<Rightarrow> if t < e then ((e - t + Second div 2) div Second) * Second else -2)"

definition ks_set :: "keyspace \<Rightarrow> time \<Rightarrow> string \<Rightarrow> string \<Rightarrow> duration \<Rightarrow> keyspace" where
  "ks_set s now k v d = s(k \<mapsto> (v, Some (now + d)))"

definition ks_setnx :: "keyspace \<Rightarrow> time \<Rightarrow> string \<Rightarrow> string \<Rightarrow> duration \<Rightarrow> bool \<times> keyspace" where
  "ks_setnx s now k v d = (if ks_get s now k = None then (True, ks_set s now k v d) else (False, s))"

definition ks_del :: "keyspace \<Rightarrow> time \<Rightarrow> string \<Rightarrow> keyspace" where
  "ks_del s now k = s(k := None)"

definition ks_incr :: "keyspace \<Rightarrow> time \<Rightarrow> string \<Rightarrow> int option \<times> keyspace" where
  "ks_incr s now k =
     (case ks_get s now k of
        None \<Rightarrow> (Some 1, s(k \<mapsto> (FormatInt 1, None)))
      | Some v \<Rightarrow> (case ParseInt v of
                     None \<Rightarrow> (None, s)
                   | Some n \<Rightarrow> if int64_range (n + 1)
                               then (Some (n + 1), s(k \<mapsto> (FormatInt (n + 1), snd (the (s k))))) else (None, s)))"

definition ks_expire :: "keyspace \<Rightarrow> time \<Rightarrow> string \<Rightarrow> duration \<Rightarrow> keyspace" where
  "ks_expire s now k d = (case ks_get s now k of
                            None \<Rightarrow> s(k := None)
                          | Some v \<Rightarrow> s(k \<mapsto> (v, Some (now + d))))"

text \<open>\<^verbatim>\<open>SET\<close> with \<^verbatim>\<open>KEEPTTL\<close>: the expiry of a live key stays, an absent key is created without one.\<close>

definition ks_setkeep :: "keyspace \<Rightarrow> time \<Rightarrow> string \<Rightarrow> string \<Rightarrow> keyspace" where
  "ks_setkeep s now k v = s(k \<mapsto> (v, if ks_get s now k = None then None else snd (the (s k))))"

definition keyspace_ops :: "keyspace redis_ops" where
  "keyspace_ops = \<lparr>rget = ks_get, rttl = ks_ttl, rset = ks_set, rsetnx = ks_setnx,
                   rdel = ks_del, rincr = ks_incr, rexpire = ks_expire, rsetkeep = ks_setkeep\<rparr>"

lemmas ks_defs = keyspace_ops_def ks_get_def ks_ttl_def ks_set_def ks_setnx_def ks_del_def
  ks_incr_def ks_expire_def ks_setkeep_def

interpretation ks: redis_store keyspace_ops
proof
  show "0 < d \<Longrightarrow> now \<le> t \<Longrightarrow> t + Second \<le> now + d \<Longrightarrow>
      0 < rttl keyspace_ops (rset keyspace_ops s now k v d) t k" for d now t s k v
    by (simp add: ks_defs pos_imp_zdiv_pos_iff)
qed (auto simp: ks_defs split: option.splits if_splits)

end
