(* ===== verification/Sessions.thy ===== *)
theory Sessions
  imports SessionStore Redis
begin

text \<open>
  Session revocation and the revoked-session denylist (\<^verbatim>\<open>internal/auth/session.go\<close>).

  Each operation takes the environment (the Redis commands, whether a Redis client is wired, the
  token hash), the calls that fail, and one clock reading that stands for \<^verbatim>\<open>NOW()\<close> and
  \<^verbatim>\<open>time.Now()\<close>. A transaction that fails, at any of its statements or at its commit, leaves the
  tables as they were. Metrics and log lines are not modelled.
\<close>

record 'r auth_env =
  env_redis :: "'r redis_ops"
  redisCli :: bool
  pkgDenier :: bool
  HashToken :: "string \<Rightarrow> string"

record 'r auth_state =
  st_db :: session_db
  st_redis :: 'r

definition AccessTokenTTL :: duration where
  "AccessTokenTTL = 15 * Minute"

subsection \<open>Denylist keys\<close>

definition sessionDenyKeyPrefix :: string where "sessionDenyKeyPrefix = ''session:revoked:''"
definition userDenyKeyPrefix :: string where "userDenyKeyPrefix = ''session:revoked:user:''"

definition sessionDenyKey :: "int \<Rightarrow> string" where
  "sessionDenyKey sessionID = sessionDenyKeyPrefix @ FormatInt sessionID"

definition userDenyKey :: "int \<Rightarrow> int \<Rightarrow> string" where
  "userDenyKey userID tenantID =
     userDenyKeyPrefix @ FormatInt tenantID @ '':'' @ FormatInt userID"

subsection \<open>Writing the denylist\<close>

text \<open>A write fails when the fault predicate holds at its key; the failure is swallowed.\<close>

definition denySession :: "'r auth_env \<Rightarrow> faults \<Rightarrow> time \<Rightarrow> int \<Rightarrow> 'r auth_state \<Rightarrow> 'r auth_state" where
  "denySession E fl now sessionID st =
     (if \<not> redisCli E then st
      else if fl (sessionDenyKey sessionID) then st
      else st\<lparr>st_redis := rset (env_redis E) (st_redis st) now (sessionDenyKey sessionID) ''1'' AccessTokenTTL\<rparr>)"

definition DenyAccountSessions ::
  "'r auth_env \<Rightarrow> faults \<Rightarrow> time \<Rightarrow> int \<Rightarrow> int \<Rightarrow> 'r auth_state \<Rightarrow> 'r auth_state" where
  "DenyAccountSessions E fl now userID tenantID st =
     (if \<not> pkgDenier E then st
      else if fl (userDenyKey userID tenantID) then st
      else st\<lparr>st_redis := rset (env_redis E) (st_redis st) now (userDenyKey userID tenantID) ''1'' AccessTokenTTL\<rparr>)"

definition revocationStamp :: "time \<Rightarrow> string" where
  "revocationStamp now = FormatInt (unix now)"

definition DenyUserSessions ::
  "'r auth_env \<Rightarrow> faults \<Rightarrow> time \<Rightarrow> int \<Rightarrow> int \<Rightarrow> 'r auth_state \<Rightarrow> 'r auth_state" where
  "DenyUserSessions E fl now userID tenantID st =
     (if \<not> redisCli E then st
      else if fl (userDenyKey userID tenantID) then st
      else st\<lparr>st_redis := rset (env_redis E) (st_redis st) now (userDenyKey userID tenantID)
                            (revocationStamp now) AccessTokenTTL\<rparr>)"

text \<open>
  One pipeline of \<open>DenyManyUserSessions\<close>: the commands that do not fail take effect; the result is
  how many failed.
\<close>

fun deny_pipeline ::
  "'r redis_ops \<Rightarrow> faults \<Rightarrow> time \<Rightarrow> string \<Rightarrow> int \<Rightarrow> int list \<Rightarrow> 'r \<Rightarrow> nat \<times> 'r" where
  "deny_pipeline R fl now stamp tenantID [] r = (0, r)"
| "deny_pipeline R fl now stamp tenantID (uid # uids) r =
     (if fl (userDenyKey uid tenantID)
      then (case deny_pipeline R fl now stamp tenantID uids r of (n, r') \<Rightarrow> (Suc n, r'))
      else deny_pipeline R fl now stamp tenantID uids
             (rset R r now (userDenyKey uid tenantID) stamp AccessTokenTTL))"

definition denyBatchSize :: nat where "denyBatchSize = 500"

text \<open>
  The loop over the batches. A batch whose \<^verbatim>\<open>Exec\<close> returns an error and no command results
  (\<open>lost\<close>, by the batch's first account) counts as failed whole.
\<close>

function deny_batches ::
  "'r redis_ops \<Rightarrow> (int \<Rightarrow> bool) \<Rightarrow> faults \<Rightarrow> time \<Rightarrow> string \<Rightarrow> int \<Rightarrow> int list \<Rightarrow> 'r \<Rightarrow> nat \<times> 'r" where
  "deny_batches R lost fl now stamp tenantID uids r =
     (if uids = [] then (0, r)
      else let batch = take denyBatchSize uids; rest = drop denyBatchSize uids;
               (n, r1) = (if lost (hd batch) then (length batch, r)
                          else deny_pipeline R fl now stamp tenantID batch r);
               (m, r2) = deny_batches R lost fl now stamp tenantID rest r1
           in (n + m, r2))"
  by pat_completeness auto
termination
  by (relation "measure (\<lambda>(R, lost, fl, now, stamp, tid, uids, r). length uids)")
     (auto simp: denyBatchSize_def)

definition DenyManyUserSessions ::
  "'r auth_env \<Rightarrow> (int \<Rightarrow> bool) \<Rightarrow> faults \<Rightarrow> time \<Rightarrow> int list \<Rightarrow> int \<Rightarrow> 'r auth_state \<Rightarrow> nat \<times> 'r auth_state" where
  "DenyManyUserSessions E lost fl now userIDs tenantID st =
     (if \<not> redisCli E \<or> userIDs = [] then (0, st)
      else case deny_batches (env_redis E) lost fl now (revocationStamp now) tenantID userIDs (st_redis st) of
             (failed, r) \<Rightarrow> (failed, st\<lparr>st_redis := r\<rparr>))"

subsection \<open>Reading the denylist\<close>

definition revocationSkewAllowance :: int where "revocationSkewAllowance = 2"

definition revokedBefore :: "string option \<Rightarrow> int \<Rightarrow> bool" where
  "revokedBefore raw issuedAt =
     (case raw of
        None \<Rightarrow> False
      | Some str \<Rightarrow>
          if issuedAt = 0 then False
          else case ParseInt str of
                 None \<Rightarrow> True
               | Some revokedAt \<Rightarrow> issuedAt < revokedAt + revocationSkewAllowance)"

definition SessionDenied ::
  "'r auth_env \<Rightarrow> faults \<Rightarrow> time \<Rightarrow> string \<Rightarrow> string \<Rightarrow> string \<Rightarrow> int \<Rightarrow> 'r auth_state \<Rightarrow> bool" where
  "SessionDenied E fl now sessionID userID tenantID issuedAt st =
     (if \<not> redisCli E then False
      else
        let sessionKey = (if sessionID \<noteq> [] then map_option sessionDenyKey (ParseInt sessionID) else None);
            accountKey = (case (ParseInt userID, ParseInt tenantID) of
                            (Some uid, Some tid) \<Rightarrow> Some (userDenyKey uid tid)
                          | _ \<Rightarrow> None);
            get = rget (env_redis E) (st_redis st) now
        in case (sessionKey, accountKey) of
             (Some sk, Some ak) \<Rightarrow>
               if fl ''session denylist: read'' then False
               else if get sk \<noteq> None then True
               else revokedBefore (get ak) issuedAt
           | (Some sk, None) \<Rightarrow> if fl ''session denylist: read'' then False else get sk \<noteq> None
           | (None, Some ak) \<Rightarrow>
               if fl ''session denylist: read'' then False else revokedBefore (get ak) issuedAt
           | (None, None) \<Rightarrow> False)"

subsection \<open>Revoking sessions\<close>

definition revokeSession ::
  "'r auth_env \<Rightarrow> faults \<Rightarrow> time \<Rightarrow> int \<Rightarrow> int \<Rightarrow> int \<Rightarrow> string \<Rightarrow> 'r auth_state \<Rightarrow>
   int result \<times> 'r auth_state" where
  "revokeSession E fl now userID tenantID sessionID reason st =
     (if fl ''begin revoke session'' then (Inl (Wrapped ''begin revoke session''), st)
      else if fl ''revoke session'' then (Inl (Wrapped ''revoke session''), st)
      else case revokeSession_tx now userID tenantID sessionID reason (st_db st) of
             (n, db') \<Rightarrow>
               if n = 0 then (Inr 0, st)
               else if fl ''revoke session tokens'' then (Inl (Wrapped ''revoke session tokens''), st)
               else if fl ''commit revoke session'' then (Inl (Wrapped ''commit revoke session''), st)
               else (Inr n, denySession E fl now sessionID (st\<lparr>st_db := db'\<rparr>)))"

definition keepNoSession :: int where "keepNoSession = -1"

definition RevokeOtherSessions ::
  "'r auth_env \<Rightarrow> faults \<Rightarrow> time \<Rightarrow> int \<Rightarrow> string \<Rightarrow> 'r auth_state \<Rightarrow> int result \<times> 'r auth_state" where
  "RevokeOtherSessions E fl now userID keepFamilyID st =
     (let keep = (if keepFamilyID \<noteq> [] then
                    (case ParseInt keepFamilyID of Some parsed \<Rightarrow> parsed | None \<Rightarrow> keepNoSession)
                  else keepNoSession) in
      if fl ''begin revoke other sessions'' then (Inl (Wrapped ''begin revoke other sessions''), st)
      else if fl ''revoke other sessions'' then (Inl (Wrapped ''revoke other sessions''), st)
      else case RevokeOtherSessions_tx now userID keep (st_db st) of
             (ids, db') \<Rightarrow>
               if fl ''scan revoked session'' \<and> ids \<noteq> [] then (Inl (Wrapped ''scan revoked session''), st)
               else if fl ''revoke other session tokens'' \<and> ids \<noteq> []
               then (Inl (Wrapped ''revoke other session tokens''), st)
               else if fl ''commit revoke other sessions''
               then (Inl (Wrapped ''commit revoke other sessions''), st)
               else (Inr (int (length ids)),
                     fold (denySession E fl now) ids (st\<lparr>st_db := db'\<rparr>)))"

definition revokeSessionByRefreshToken ::
  "'r auth_env \<Rightarrow> faults \<Rightarrow> time \<Rightarrow> string \<Rightarrow> string \<Rightarrow> 'r auth_state \<Rightarrow> int result \<times> 'r auth_state" where
  "revokeSessionByRefreshToken E fl now rawRefreshToken reason st =
     (if rawRefreshToken = [] then (Inr 0, st)
      else if fl ''resolve session to revoke'' then (Inl (Wrapped ''resolve session to revoke''), st)
      else case find_token (HashToken E rawRefreshToken) (st_db st) of
             None \<Rightarrow> (Inr 0, st)
           | Some t \<Rightarrow>
               revokeSession E fl now (rt_user t) (rt_tenant t)
                 (case rt_session t of Some i \<Rightarrow> i | None \<Rightarrow> session_family_id t) reason st)"

definition LogoutSession ::
  "'r auth_env \<Rightarrow> faults \<Rightarrow> time \<Rightarrow> string \<Rightarrow> 'r auth_state \<Rightarrow> int result \<times> 'r auth_state" where
  "LogoutSession E fl now rawRefreshToken st =
     revokeSessionByRefreshToken E fl now rawRefreshToken RevokeReasonLogout st"

definition RevokeIssuedSession ::
  "'r auth_env \<Rightarrow> faults \<Rightarrow> time \<Rightarrow> string \<Rightarrow> 'r auth_state \<Rightarrow> int result \<times> 'r auth_state" where
  "RevokeIssuedSession E fl now rawRefreshToken st =
     revokeSessionByRefreshToken E fl now rawRefreshToken RevokeReasonSessionRejected st"

definition Logout ::
  "'r auth_env \<Rightarrow> faults \<Rightarrow> time \<Rightarrow> string \<Rightarrow> 'r auth_state \<Rightarrow> unit result \<times> 'r auth_state" where
  "Logout E fl now rawRefreshToken st =
     (case LogoutSession E fl now rawRefreshToken st of
        (Inl e, st') \<Rightarrow> (Inl e, st') | (Inr _, st') \<Rightarrow> (Inr (), st'))"

text \<open>Runs inside the caller's transaction, which commits or rolls back the tables returned.\<close>

definition RevokeAllSessionsTx ::
  "faults \<Rightarrow> time \<Rightarrow> int \<Rightarrow> int \<Rightarrow> string \<Rightarrow> session_db \<Rightarrow> session_db result" where
  "RevokeAllSessionsTx fl now userID tenantID reason db =
     (if fl ''revoke account sessions'' then Inl (Wrapped ''revoke account sessions'')
      else if fl ''revoke account tokens'' then Inl (Wrapped ''revoke account tokens'')
      else Inr (RevokeAllSessionsTx_db now userID tenantID reason db))"

subsection \<open>Shared helpers\<close>

definition parseAppID :: "string \<Rightarrow> int option" where
  "parseAppID appID = (if appID = [] then None else ParseInt appID)"

definition parseAppIDValue :: "string \<Rightarrow> int" where
  "parseAppIDValue appID = (case parseAppID appID of Some i \<Rightarrow> i | None \<Rightarrow> 0)"

definition appIDClaim :: "int option \<Rightarrow> string" where
  "appIDClaim applicationID = (case applicationID of None \<Rightarrow> [] | Some i \<Rightarrow> FormatInt i)"

unbundle bit_operations_syntax

text \<open>\<^verbatim>\<open>int32(uint32(v) ^ uint32(v>>32))\<close> on 64-bit words; \<^verbatim>\<open>>>\<close> on a signed value is arithmetic.\<close>

definition fold64 :: "64 word \<Rightarrow> 32 word" where
  "fold64 v = ucast v XOR ucast (signed_drop_bit 32 v)"

definition sessionCapLockKey :: "64 word \<Rightarrow> 64 word \<Rightarrow> 32 word \<times> 32 word" where
  "sessionCapLockKey userID tenantID = (fold64 userID, fold64 tenantID)"

subsection \<open>The keys do not collide\<close>

lemma sessionDenyKey_inject:
  "int64_range i \<Longrightarrow> int64_range j \<Longrightarrow> sessionDenyKey i = sessionDenyKey j \<longleftrightarrow> i = j"
  using FormatInt_inject by (auto simp: sessionDenyKey_def)

lemma userDenyKey_inject:
  assumes "int64_range u" "int64_range t" "int64_range u'" "int64_range t'"
  shows "userDenyKey u t = userDenyKey u' t' \<longleftrightarrow> u = u' \<and> t = t'"
proof
  assume "userDenyKey u t = userDenyKey u' t'"
  then have "FormatInt t @ CHR '':'' # FormatInt u = FormatInt t' @ CHR '':'' # FormatInt u'"
    by (simp add: userDenyKey_def)
  then have "FormatInt t = FormatInt t' \<and> FormatInt u = FormatInt u'"
    by (rule append_sep_inject [rotated 2]) simp_all
  then show "u = u' \<and> t = t'" using assms FormatInt_inject by blast
qed simp

lemma denyKeys_disjoint [simp]:
  "sessionDenyKey i \<noteq> userDenyKey u t" "userDenyKey u t \<noteq> sessionDenyKey i"
proof -
  have "sessionDenyKey i \<noteq> userDenyKey u t"
  proof
    assume "sessionDenyKey i = userDenyKey u t"
    then have "FormatInt i = ''user:'' @ FormatInt t @ '':'' @ FormatInt u"
      by (simp add: sessionDenyKey_def userDenyKey_def sessionDenyKeyPrefix_def userDenyKeyPrefix_def)
    then have "hd (FormatInt i) = CHR ''u''" by simp
    then show False by (simp add: FormatInt_not_letter)
  qed
  then show "sessionDenyKey i \<noteq> userDenyKey u t" "userDenyKey u t \<noteq> sessionDenyKey i" by metis+
qed

subsection \<open>What a request sees of the denylist\<close>

text \<open>
  The denial of an access token with well-formed claims, in terms of the two keys.
\<close>

definition denied_by_keys :: "'r auth_env \<Rightarrow> time \<Rightarrow> int \<Rightarrow> int \<Rightarrow> int \<Rightarrow> int \<Rightarrow> 'r auth_state \<Rightarrow> bool" where
  "denied_by_keys E now sid uid tid iat st \<longleftrightarrow>
     rget (env_redis E) (st_redis st) now (sessionDenyKey sid) \<noteq> None
     \<or> revokedBefore (rget (env_redis E) (st_redis st) now (userDenyKey uid tid)) iat"

lemma SessionDenied_claims:
  assumes "int64_range sid" "int64_range uid" "int64_range tid" "redisCli E"
  shows "SessionDenied E no_faults now (FormatInt sid) (FormatInt uid) (FormatInt tid) iat st
           \<longleftrightarrow> denied_by_keys E now sid uid tid iat st"
  using assms by (auto simp: SessionDenied_def ParseInt_FormatInt denied_by_keys_def Let_def)

lemma AccessTokenTTL_pos [simp]: "0 < AccessTokenTTL"
  by (simp add: AccessTokenTTL_def)

text \<open>The service over a store that keeps the contract of Redis.\<close>

locale auth_service =
  fixes E :: "'r auth_env"
  assumes store: "redis_store (env_redis E)"
begin

lemmas redis_get_set = redis_store.get_set [OF store]

lemma get_denySession:
  assumes "now \<le> t"
  shows "rget (env_redis E) (st_redis (denySession E fl now i st)) t k =
     (if redisCli E \<and> \<not> fl (sessionDenyKey i) \<and> k = sessionDenyKey i
      then (if t < now + AccessTokenTTL then Some ''1'' else None)
      else rget (env_redis E) (st_redis st) t k)"
  using assms by (simp add: denySession_def redis_get_set)

lemma denySession_db [simp]: "st_db (denySession E fl now i st) = st_db st"
  by (simp add: denySession_def)

lemma fold_denySession_db [simp]: "st_db (fold (denySession E fl now) ids st) = st_db st"
  by (induction ids arbitrary: st) simp_all

lemma get_fold_denySession:
  assumes "now \<le> t"
  shows "rget (env_redis E) (st_redis (fold (denySession E fl now) ids st)) t k =
     (if redisCli E \<and> (\<exists>i \<in> set ids. \<not> fl (sessionDenyKey i) \<and> k = sessionDenyKey i)
      then (if t < now + AccessTokenTTL then Some ''1'' else None)
      else rget (env_redis E) (st_redis st) t k)"
  using assms by (induction ids arbitrary: st) (auto simp: get_denySession)

lemma get_DenyUserSessions:
  assumes "now \<le> t"
  shows "rget (env_redis E) (st_redis (DenyUserSessions E fl now u n st)) t k =
     (if redisCli E \<and> \<not> fl (userDenyKey u n) \<and> k = userDenyKey u n
      then (if t < now + AccessTokenTTL then Some (revocationStamp now) else None)
      else rget (env_redis E) (st_redis st) t k)"
  using assms by (simp add: DenyUserSessions_def redis_get_set)

lemma get_DenyAccountSessions:
  assumes "now \<le> t"
  shows "rget (env_redis E) (st_redis (DenyAccountSessions E fl now u n st)) t k =
     (if pkgDenier E \<and> \<not> fl (userDenyKey u n) \<and> k = userDenyKey u n
      then (if t < now + AccessTokenTTL then Some ''1'' else None)
      else rget (env_redis E) (st_redis st) t k)"
  using assms by (simp add: DenyAccountSessions_def redis_get_set)

lemma DenyUserSessions_exact:
  assumes "redisCli E" "now \<le> t" "t < now + AccessTokenTTL" "int64_range (unix now)"
    "int64_range uid" "int64_range tid"
  shows "denied_by_keys E t sid uid tid iat (DenyUserSessions E no_faults now uid tid st) \<longleftrightarrow>
     rget (env_redis E) (st_redis st) t (sessionDenyKey sid) \<noteq> None \<or> (iat \<noteq> 0 \<and> iat < unix now + 2)"
  using assms
  by (simp add: denied_by_keys_def get_DenyUserSessions revokedBefore_def revocationStamp_def
      ParseInt_FormatInt revocationSkewAllowance_def)

lemma DenyAccountSessions_exact:
  assumes "pkgDenier E" "now \<le> t" "t < now + AccessTokenTTL" "int64_range uid" "int64_range tid"
  shows "denied_by_keys E t sid uid tid iat (DenyAccountSessions E no_faults now uid tid st) \<longleftrightarrow>
     rget (env_redis E) (st_redis st) t (sessionDenyKey sid) \<noteq> None \<or> (iat \<noteq> 0 \<and> iat < 3)"
proof -
  have "ParseInt ''1'' = Some 1" by code_simp
  then show ?thesis
    using assms by (simp add: denied_by_keys_def get_DenyAccountSessions revokedBefore_def
        revocationSkewAllowance_def)
qed

end

definition keyspace_env :: "(string \<Rightarrow> string) \<Rightarrow> keyspace auth_env" where
  "keyspace_env h = \<lparr>env_redis = keyspace_ops, redisCli = True, pkgDenier = True, HashToken = h\<rparr>"

interpretation ks_env: auth_service "keyspace_env h" for h
  by (rule auth_service.intro) (simp add: keyspace_env_def ks.redis_store_axioms)

subsection \<open>Pipelined denial equals one denial after the other\<close>

lemma deny_pipeline_fold:
  "deny_pipeline (env_redis E) fl now (revocationStamp now) n uids (st_redis st) =
     (length (filter (\<lambda>u. fl (userDenyKey u n)) uids),
      st_redis (fold (\<lambda>u. DenyUserSessions E fl now u n) uids st))"
  if "redisCli E"
proof (induction uids arbitrary: st)
  case (Cons u uids)
  have "st_redis (DenyUserSessions E fl now u n st) =
      (if fl (userDenyKey u n) then st_redis st
       else rset (env_redis E) (st_redis st) now (userDenyKey u n) (revocationStamp now) AccessTokenTTL)"
    using that by (simp add: DenyUserSessions_def)
  with Cons.IH [of st] Cons.IH [of "DenyUserSessions E fl now u n st"] show ?case
    by (auto simp: DenyUserSessions_def split: if_splits)
qed simp

lemma deny_batches_pipeline:
  "deny_batches R (\<lambda>_. False) fl now stamp n uids r = deny_pipeline R fl now stamp n uids r"
proof (induction R "\<lambda>_ :: int. False" fl now stamp n uids r rule: deny_batches.induct)
  case (1 R fl now stamp n uids r)
  have split: "deny_pipeline R fl now stamp n (xs @ ys) r =
      (let (a, r1) = deny_pipeline R fl now stamp n xs r; (b, r2) = deny_pipeline R fl now stamp n ys r1
       in (a + b, r2))" for xs ys r
    by (induction xs arbitrary: r) (auto split: prod.splits)
  show ?case
    using 1 split [of "take denyBatchSize uids" "drop denyBatchSize uids" r]
    by (subst deny_batches.simps) (auto simp: Let_def split: prod.splits)
qed

declare deny_batches.simps [simp del]

lemma DenyMany_fold:
  assumes "redisCli E"
  shows "DenyManyUserSessions E (\<lambda>_. False) fl now uids n st =
     (length (filter (\<lambda>u. fl (userDenyKey u n)) uids), fold (\<lambda>u. DenyUserSessions E fl now u n) uids st)"
proof -
  have db: "st_db (fold (\<lambda>u. DenyUserSessions E fl now u n) uids st) = st_db st"
    by (induction uids arbitrary: st) (simp_all add: DenyUserSessions_def)
  show ?thesis
    using assms db
    by (auto simp: DenyManyUserSessions_def deny_batches_pipeline deny_pipeline_fold)
qed

subsection \<open>Revocations, state by state\<close>

lemma revokeSession_cases:
  obtains (fault) e where "revokeSession E fl now u n i r st = (Inl (Wrapped e), st)"
  | (nothing) "fst (revokeSession_tx now u n i r (st_db st)) = 0" "revokeSession E fl now u n i r st = (Inr 0, st)"
  | (ended) "fst (revokeSession_tx now u n i r (st_db st)) \<noteq> 0"
      "revokeSession E fl now u n i r st =
         (Inr (fst (revokeSession_tx now u n i r (st_db st))),
          denySession E fl now i (st\<lparr>st_db := snd (revokeSession_tx now u n i r (st_db st))\<rparr>))"
proof -
  obtain k db' where tx: "revokeSession_tx now u n i r (st_db st) = (k, db')" by fastforce
  have "(\<exists>e. revokeSession E fl now u n i r st = (Inl (Wrapped e), st))
      \<or> (k = 0 \<and> revokeSession E fl now u n i r st = (Inr 0, st))
      \<or> (k \<noteq> 0 \<and> revokeSession E fl now u n i r st = (Inr k, denySession E fl now i (st\<lparr>st_db := db'\<rparr>)))"
    by (simp add: revokeSession_def tx)
  with that tx show ?thesis by auto
qed

lemma revokeSession_none:
  "fst (revokeSession_tx now u n i r db) = 0 \<longleftrightarrow>
     (\<forall>s \<in> set (sessions db). us_id s = i \<and> us_user s = u \<and> us_tenant s = n \<longrightarrow> us_revoked_at s \<noteq> None)"
  by (auto simp: revokeSession_tx_def Let_def filter_empty_conv)

lemma parseAppID_appIDClaim:
  "(\<And>i. a = Some i \<Longrightarrow> int64_range i) \<Longrightarrow> parseAppID (appIDClaim a) = a"
  by (cases a) (simp_all add: parseAppID_def appIDClaim_def ParseInt_FormatInt)

definition sample_state :: "keyspace auth_state" where
  "sample_state = \<lparr>st_db = sample_db, st_redis = Map.empty\<rparr>"

lemma sample_state_ok: "session_db_ok (st_db sample_state)"
  by (simp add: sample_state_def sample_db_ok)

lemma keyspace_env_fields [simp]:
  "redisCli (keyspace_env h)" "pkgDenier (keyspace_env h)" "env_redis (keyspace_env h) = keyspace_ops"
  "HashToken (keyspace_env h) = h"
  by (simp_all add: keyspace_env_def)

subsection \<open>Properties\<close>

context auth_service
begin

lemma SessionDenied_after_denySession:
  assumes "redisCli E" "int64_range i" "now \<le> t" "t < now + AccessTokenTTL" "\<not> fl (sessionDenyKey i)"
  shows "SessionDenied E no_faults t (FormatInt i) uid tid iat (denySession E fl now i st)"
  using assms
  by (auto simp: SessionDenied_def ParseInt_FormatInt get_denySession Let_def split: option.splits)

lemma SessionDenied_after_fold:
  assumes "redisCli E" "int64_range i" "now \<le> t" "t < now + AccessTokenTTL" "i \<in> set ids"
  shows "SessionDenied E no_faults t (FormatInt i) uid tid iat (fold (denySession E no_faults now) ids st)"
  using assms
  by (auto simp: SessionDenied_def ParseInt_FormatInt get_fold_denySession Let_def split: option.splits)

end

lemma revoke_one_tokens_dead:
  assumes "session_db_ok db" "t \<in> set (tokens (snd (revokeSession_tx now u n i r db)))"
    "rt_session t = Some i" "fst (revokeSession_tx now u n i r db) \<noteq> 0"
  shows "rt_revoked_at t \<noteq> None"
  using assms by (auto simp: revoke_one.tokens_kill mem_revoke_tokens)

lemma revoke_one_session_stamped:
  assumes ok: "session_db_ok db" and n: "fst (revokeSession_tx now u n i r db) \<noteq> 0"
  shows "\<exists>s. find_session i (snd (revokeSession_tx now u n i r db)) = Some s
           \<and> us_revoked_at s = Some now \<and> us_revoked_reason s = Some r"
proof -
  from n obtain s where s: "s \<in> set (sessions db)" "us_id s = i" "us_user s = u" "us_tenant s = n"
      "us_revoked_at s = None"
    by (auto simp: revokeSession_none)
  with find_session_mem [OF ok s(1)] show ?thesis by (simp add: revoke_one.find_session_kill)
qed

lemma revoke_one_count:
  assumes ok: "session_db_ok db"
  shows "fst (revokeSession_tx now u n i r db) \<in> {0, 1}"
proof -
  have "length (filter (\<lambda>s. us_id s = i \<and> us_user s = u \<and> us_tenant s = n \<and> us_revoked_at s = None) (sessions db)) \<le> 1"
    by (rule filter_key_le_1) (use ok in \<open>simp add: session_db_ok_def\<close>)
  then show ?thesis by (auto simp: revokeSession_tx_def Let_def le_Suc_eq)
qed

lemma revokeSession_effect:
  assumes svc: "auth_service E" "redisCli E" and ok: "session_db_ok (st_db st)" and i: "int64_range i"
    and s: "find_session i (st_db st) = Some s" "us_user s = u" "us_tenant s = n" "us_revoked_at s = None"
    and run: "revokeSession E no_faults now u n i r st = (res, st')"
  shows "res = Inr 1 \<and> session_db_ok (st_db st')
    \<and> find_session i (st_db st') = Some (stamp_session now r s)
    \<and> (\<forall>t \<in> set (tokens (st_db st')). rt_session t = Some i \<longrightarrow> rt_revoked_at t \<noteq> None)
    \<and> (\<forall>j. j \<noteq> i \<longrightarrow> find_session j (st_db st') = find_session j (st_db st))
    \<and> (\<forall>t uid tid iat. now \<le> t \<longrightarrow> t < now + AccessTokenTTL \<longrightarrow>
         SessionDenied E no_faults t (FormatInt i) uid tid iat st')"
proof -
  let ?tx = "revokeSession_tx now u n i r (st_db st)"
  have n: "fst ?tx = 1"
    using revoke_one_count [OF ok, of now u n i r] s find_session_Some [OF s(1)]
    by (auto simp: revokeSession_none)
  then have eq: "res = Inr 1" "st' = denySession E no_faults now i (st\<lparr>st_db := snd ?tx\<rparr>)"
    using run by (auto simp: revokeSession_def split: prod.splits)
  have db: "st_db st' = snd ?tx" by (simp add: eq auth_service.denySession_db [OF svc(1)])
  have other: "find_session j (st_db st') = find_session j (st_db st)" if "j \<noteq> i" for j
    using that by (cases "find_session j (st_db st)")
      (auto simp: db revoke_one.find_session_kill dest: find_session_Some)
  have "session_db_ok (st_db st')" unfolding db by (rule revoke_one.kill_ok [OF ok])
  moreover have "find_session i (st_db st') = Some (stamp_session now r s)"
    using s find_session_Some [OF s(1)] by (simp add: db revoke_one.find_session_kill)
  moreover have "\<forall>t \<in> set (tokens (st_db st')). rt_session t = Some i \<longrightarrow> rt_revoked_at t \<noteq> None"
    using revoke_one_tokens_dead [OF ok] n by (auto simp: db)
  ultimately show ?thesis
    using other eq auth_service.SessionDenied_after_denySession [OF svc i, of now _ no_faults] by simp
qed

text \<open>
  C9: Revoking a session ends it and nothing else. When no call fails and the named session of the
  named user and tenant is not yet revoked, exactly one session is reported; its row carries the
  instant and the reason; no refresh token of it is unrevoked; every other session row is as before;
  the tables keep their invariant; and for the lifetime of an access token every request with the
  session's \<^verbatim>\<open>sid\<close> is refused, whatever its other claims.
\<close>

theorem revokeSession_ends:
  assumes svc: "auth_service E" "redisCli E" and ok: "session_db_ok (st_db st)" and i: "int64_range i"
    and s: "find_session i (st_db st) = Some s" "us_user s = u" "us_tenant s = n" "us_revoked_at s = None"
    and run: "revokeSession E no_faults now u n i r st = (res, st')"
  shows "res = Inr 1 \<and> session_db_ok (st_db st')
    \<and> find_session i (st_db st') = Some (stamp_session now r s)
    \<and> (\<forall>t \<in> set (tokens (st_db st')). rt_session t = Some i \<longrightarrow> rt_revoked_at t \<noteq> None)
    \<and> (\<forall>j. j \<noteq> i \<longrightarrow> find_session j (st_db st') = find_session j (st_db st))
    \<and> (\<forall>t uid tid iat. now \<le> t \<longrightarrow> t < now + AccessTokenTTL \<longrightarrow>
         SessionDenied E no_faults t (FormatInt i) uid tid iat st')"
  using assms by (rule revokeSession_effect)

theorem revokeSession_ends_witness:
  "\<exists>st'. revokeSession (keyspace_env id) no_faults 100 7 3 1 ''logout'' sample_state = (Inr 1, st')
     \<and> find_session 1 (st_db st') = Some (stamp_session 100 ''logout'' (sample_session 1 7 10))
     \<and> SessionDenied (keyspace_env id) no_faults 200 (FormatInt 1) [] [] 5 st'"
proof -
  obtain res st' where run: "revokeSession (keyspace_env id) no_faults 100 7 3 1 ''logout'' sample_state = (res, st')"
    by fastforce
  have s: "find_session 1 (st_db sample_state) = Some (sample_session 1 7 10)"
    by (simp add: find_session_def sample_state_def sample_defs)
  from revokeSession_ends [OF ks_env.auth_service_axioms _ sample_state_ok _ s _ _ _ run]
  show ?thesis using run by (auto simp: int64_range_def sample_session_def AccessTokenTTL_def)
qed

lemma ParseInt_Nil [simp]: "ParseInt [] = None"
  by (simp add: ParseInt_def split_sign_def)

lemma RevokeOtherSessions_run:
  assumes "ParseInt keepID = Some k \<or> ParseInt keepID = None \<and> k = keepNoSession"
  shows "RevokeOtherSessions E no_faults now u keepID st =
     (Inr (int (length (fst (RevokeOtherSessions_tx now u k (st_db st))))),
      fold (denySession E no_faults now) (fst (RevokeOtherSessions_tx now u k (st_db st)))
        (st\<lparr>st_db := snd (RevokeOtherSessions_tx now u k (st_db st))\<rparr>))"
  using assms by (auto simp: RevokeOtherSessions_def Let_def split: prod.splits option.splits)

text \<open>
  "Sign out everywhere else" ends every other session of the user, in every tenant. The kept
  session is the one whose id the \<^verbatim>\<open>sid\<close> claim renders; an empty or malformed claim keeps none. The
  count is the number of sessions that were not yet revoked, sessions of other users and the kept
  one are untouched, the tables keep their invariant (so the refresh tokens of the ended sessions are
  revoked too), and each ended session's access tokens are refused for their remaining lifetime.
\<close>

theorem RevokeOtherSessions_total:
  assumes svc: "auth_service E" "redisCli E" and ok: "session_db_ok (st_db st)"
    and keep: "ParseInt keepID = Some k \<or> ParseInt keepID = None \<and> k = keepNoSession"
    and run: "RevokeOtherSessions E no_faults now u keepID st = (res, st')"
  shows "res = Inr (int (length (filter (\<lambda>s. us_user s = u \<and> us_id s \<noteq> k \<and> us_revoked_at s = None)
                              (sessions (st_db st)))))
    \<and> session_db_ok (st_db st')
    \<and> (\<forall>s \<in> set (sessions (st_db st')). us_user s = u \<longrightarrow> us_id s \<noteq> k \<longrightarrow> us_revoked_at s \<noteq> None)
    \<and> (\<forall>s \<in> set (sessions (st_db st)). us_user s \<noteq> u \<or> us_id s = k \<longrightarrow> s \<in> set (sessions (st_db st')))
    \<and> (\<forall>s \<in> set (sessions (st_db st)). \<forall>t uid tid iat.
         us_user s = u \<longrightarrow> us_id s \<noteq> k \<longrightarrow> us_revoked_at s = None \<longrightarrow> int64_range (us_id s) \<longrightarrow>
         now \<le> t \<longrightarrow> t < now + AccessTokenTTL \<longrightarrow>
         SessionDenied E no_faults t (FormatInt (us_id s)) uid tid iat st')"
proof -
  let ?tx = "RevokeOtherSessions_tx now u k (st_db st)"
  have ids: "fst ?tx = map us_id (filter (\<lambda>s. us_user s = u \<and> us_id s \<noteq> k \<and> us_revoked_at s = None)
                                    (sessions (st_db st)))"
    by (simp add: RevokeOtherSessions_tx_def Let_def)
  from run have eq: "res = Inr (int (length (fst ?tx)))"
    "st' = fold (denySession E no_faults now) (fst ?tx) (st\<lparr>st_db := snd ?tx\<rparr>)"
    by (simp_all add: RevokeOtherSessions_run [OF keep])
  have db: "st_db st' = snd ?tx" by (simp add: eq auth_service.fold_denySession_db [OF svc(1)])
  have dead: "\<forall>s \<in> set (sessions (st_db st')). us_user s = u \<longrightarrow> us_id s \<noteq> k \<longrightarrow> us_revoked_at s \<noteq> None"
    unfolding db revoke_others.sessions_kill by (auto dest: revoke_sessions_dead)
  have same: "s \<in> set (sessions (st_db st'))" if "s \<in> set (sessions (st_db st))" "us_user s \<noteq> u \<or> us_id s = k" for s
    unfolding db revoke_others.sessions_kill mem_revoke_sessions using that by (intro bexI [of _ s]) auto
  have deny: "SessionDenied E no_faults t (FormatInt (us_id s)) uid tid iat st'"
    if "s \<in> set (sessions (st_db st))" "us_user s = u" "us_id s \<noteq> k" "us_revoked_at s = None"
      "int64_range (us_id s)" "now \<le> t" "t < now + AccessTokenTTL" for s t uid tid iat
    unfolding eq(2)
    by (rule auth_service.SessionDenied_after_fold [OF svc that(5-7)]) (use that ids in auto)
  have "session_db_ok (st_db st')" unfolding db by (rule revoke_others.kill_ok [OF ok])
  then show ?thesis using dead same deny by (simp add: eq(1) ids)
qed

theorem RevokeOtherSessions_total_witness:
  "\<exists>st'. RevokeOtherSessions (keyspace_env id) no_faults 100 7 (FormatInt 2) sample_state = (Inr 1, st')
     \<and> (\<forall>s \<in> set (sessions (st_db st')). us_user s = 7 \<longrightarrow> us_id s \<noteq> 2 \<longrightarrow> us_revoked_at s \<noteq> None)
     \<and> SessionDenied (keyspace_env id) no_faults 200 (FormatInt 1) [] [] 5 st'"
proof -
  obtain res st' where run: "RevokeOtherSessions (keyspace_env id) no_faults 100 7 (FormatInt 2) sample_state = (res, st')"
    by fastforce
  have k: "ParseInt (FormatInt 2) = Some 2 \<or> ParseInt (FormatInt 2) = None \<and> 2 = keepNoSession"
    by (simp add: ParseInt_FormatInt int64_range_def)
  have m: "sample_session 1 7 10 \<in> set (sessions (st_db sample_state))"
    by (simp add: sample_state_def sample_db_def)
  note total = RevokeOtherSessions_total [OF ks_env.auth_service_axioms _ sample_state_ok k run, simplified]
  have "res = Inr 1" using total by (simp add: sample_state_def sample_defs)
  moreover have "SessionDenied (keyspace_env id) no_faults 200 (FormatInt 1) [] [] 5 st'"
    using total m by (auto dest!: bspec [OF _ m] simp: sample_session_def AccessTokenTTL_def int64_range_def)
  ultimately show ?thesis using run total by simp
qed

text \<open>
  Logging out with any token of a chain ends the session. For a stored refresh token, live,
  rotated or expired alike, whose session is not revoked, a logout revokes that session and reports
  one; logging out again, with the same or any other token of the session, reports none and changes
  nothing.
\<close>

theorem LogoutSession_total:
  assumes svc: "auth_service E" "redisCli E" and ok: "session_db_ok (st_db st)"
    and t: "find_token (HashToken E raw) (st_db st) = Some t" "rt_session t = Some i" "int64_range i"
    and s: "find_session i (st_db st) = Some s" "us_revoked_at s = None"
    and raw: "raw \<noteq> []" "raw2 \<noteq> []"
    and t2: "find_token (HashToken E raw2) (st_db st) = Some t2" "rt_session t2 = Some i"
    and run: "LogoutSession E no_faults now raw st = (res, st')"
  shows "res = Inr 1 \<and> find_session i (st_db st') = Some (stamp_session now RevokeReasonLogout s)
    \<and> LogoutSession E no_faults now2 raw2 st' = (Inr 0, st')"
proof -
  from t s(1) ok have own: "us_user s = rt_user t" "us_tenant s = rt_tenant t"
    using token_session [OF ok _ t(2)] find_token_Some [OF t(1)] find_session_Some [OF s(1)]
    by (metis session_unique)+
  have "revokeSession E no_faults now (rt_user t) (rt_tenant t) i RevokeReasonLogout st = (res, st')"
    using run t raw by (simp add: LogoutSession_def revokeSessionByRefreshToken_def)
  note ends = revokeSession_effect [OF svc ok t(3) s(1) own s(2) this]
  then have st': "find_session i (st_db st') = Some (stamp_session now RevokeReasonLogout s)" by blast
  have "find_token (HashToken E raw2) (st_db st') \<noteq> None \<and>
        (\<forall>q. find_token (HashToken E raw2) (st_db st') = Some q \<longrightarrow> rt_session q = Some i)"
  proof -
    have "st_db st' = snd (revokeSession_tx now (rt_user t) (rt_tenant t) i RevokeReasonLogout (st_db st))"
      using \<open>revokeSession E no_faults now (rt_user t) (rt_tenant t) i RevokeReasonLogout st = (res, st')\<close>
      by (auto simp: revokeSession_def revokeSession_tx_def Let_def auth_service.denySession_db [OF svc(1)]
          split: if_splits)
    then show ?thesis using t2 by (auto simp: revoke_one.find_token_kill)
  qed
  then obtain q where q: "find_token (HashToken E raw2) (st_db st') = Some q" "rt_session q = Some i" by blast
  have "\<forall>x \<in> set (sessions (st_db st')). us_id x = i \<longrightarrow> us_revoked_at x \<noteq> None"
    using st' ends find_session_mem by fastforce
  then have "fst (revokeSession_tx now2 (rt_user q) (rt_tenant q) i RevokeReasonLogout (st_db st')) = 0"
    by (auto simp: revokeSession_none)
  then have "LogoutSession E no_faults now2 raw2 st' = (Inr 0, st')"
    using q raw by (auto simp: LogoutSession_def revokeSessionByRefreshToken_def revokeSession_def
        split: prod.splits)
  with ends st' show ?thesis by blast
qed

theorem LogoutSession_total_witness:
  "\<exists>st'. LogoutSession (keyspace_env id) no_faults 100 ''a'' sample_state = (Inr 1, st')
     \<and> LogoutSession (keyspace_env id) no_faults 150 ''a'' st' = (Inr 0, st')"
proof -
  obtain res st' where run: "LogoutSession (keyspace_env id) no_faults 100 ''a'' sample_state = (res, st')"
    by fastforce
  have t: "find_token (HashToken (keyspace_env id) ''a'') (st_db sample_state) = Some (sample_token 1 1 7 ''a'')"
    by (simp add: find_token_def sample_state_def sample_defs)
  have s: "find_session 1 (st_db sample_state) = Some (sample_session 1 7 10)"
    by (simp add: find_session_def sample_state_def sample_defs)
  have f: "rt_session (sample_token 1 1 7 ''a'') = Some 1" "us_revoked_at (sample_session 1 7 10) = None"
    by (simp_all add: sample_defs)
  from LogoutSession_total [OF ks_env.auth_service_axioms _ sample_state_ok t f(1) _ s f(2) _ _ t f(1) run, of 150]
  show ?thesis using run by (simp add: int64_range_def)
qed

text \<open>
  An account-wide denial refuses exactly the tokens in circulation. For the lifetime of an access
  token after \<^verbatim>\<open>DenyUserSessions\<close>, a token of the account with an issue time is refused if and only
  if it was issued before the second after next of the denial, or its own session is denied; a token
  of any other account is judged as before.
\<close>

theorem DenyUserSessions_refuses:
  assumes svc: "auth_service E" "redisCli E" and t: "now \<le> t" "t < now + AccessTokenTTL"
    and rng: "int64_range (unix now)" "int64_range sid" "int64_range uid" "int64_range tid"
      "int64_range uid2" "int64_range tid2"
    and other: "uid2 \<noteq> uid \<or> tid2 \<noteq> tid" and st': "st' = DenyUserSessions E no_faults now uid tid st"
  shows "(SessionDenied E no_faults t (FormatInt sid) (FormatInt uid) (FormatInt tid) iat st' \<longleftrightarrow>
            rget (env_redis E) (st_redis st) t (sessionDenyKey sid) \<noteq> None \<or> (iat \<noteq> 0 \<and> iat < unix now + 2))
    \<and> (SessionDenied E no_faults t (FormatInt sid) (FormatInt uid2) (FormatInt tid2) iat st' \<longleftrightarrow>
         SessionDenied E no_faults t (FormatInt sid) (FormatInt uid2) (FormatInt tid2) iat st)"
proof -
  have "userDenyKey uid2 tid2 \<noteq> userDenyKey uid tid"
    using other rng by (simp add: userDenyKey_inject)
  then have "denied_by_keys E t sid uid2 tid2 iat st' \<longleftrightarrow> denied_by_keys E t sid uid2 tid2 iat st"
    using t by (simp add: denied_by_keys_def st' auth_service.get_DenyUserSessions [OF svc(1)])
  then show ?thesis
    using rng svc t by (simp add: SessionDenied_claims auth_service.DenyUserSessions_exact st')
qed

theorem DenyUserSessions_refuses_witness:
  "SessionDenied (keyspace_env id) no_faults (1700000300 * Second) (FormatInt 1) (FormatInt 7) (FormatInt 3) 1699999900
     (DenyUserSessions (keyspace_env id) no_faults (1700000000 * Second) 7 3 sample_state)
   \<and> \<not> SessionDenied (keyspace_env id) no_faults (1700000300 * Second) (FormatInt 1) (FormatInt 7) (FormatInt 3) 1700000100
     (DenyUserSessions (keyspace_env id) no_faults (1700000000 * Second) 7 3 sample_state)"
proof -
  note exact = DenyUserSessions_refuses [OF ks_env.auth_service_axioms _ _ _ _ _ _ _ _ _ _ refl,
      of id "1700000000 * Second" "1700000300 * Second" 1 7 3 8 3 _ sample_state]
  show ?thesis
    using exact [of 1699999900] exact [of 1700000100]
    by (simp add: int64_range_def unix_def AccessTokenTTL_def sample_state_def ks_defs)
qed

text \<open>
  The package-level account denial refuses no real token. \<^verbatim>\<open>DenyAccountSessions\<close> stores the
  marker \<^verbatim>\<open>"1"\<close> under the account's key, which the reader takes for a revocation at second 1 of the
  epoch: a token of the account issued at second 3 or later is refused only if its own session is on the
  denylist, exactly as if the account had not been denied. Operator blocks, lockouts, password
  resets and email changes go through this function.
\<close>

theorem DenyAccountSessions_refuses_nothing:
  assumes svc: "auth_service E" "redisCli E" "pkgDenier E" and t: "now \<le> t" "t < now + AccessTokenTTL"
    and rng: "int64_range sid" "int64_range uid" "int64_range tid" and iat: "3 \<le> iat"
  shows "SessionDenied E no_faults t (FormatInt sid) (FormatInt uid) (FormatInt tid) iat
           (DenyAccountSessions E no_faults now uid tid st) \<longleftrightarrow>
         rget (env_redis E) (st_redis st) t (sessionDenyKey sid) \<noteq> None"
  using assms by (simp add: SessionDenied_claims auth_service.DenyAccountSessions_exact)

theorem DenyAccountSessions_refuses_nothing_witness:
  "\<not> SessionDenied (keyspace_env id) no_faults (1700000001 * Second) (FormatInt 1) (FormatInt 7) (FormatInt 3) 1699999999
     (DenyAccountSessions (keyspace_env id) no_faults (1700000000 * Second) 7 3 sample_state)"
  using DenyAccountSessions_refuses_nothing [OF ks_env.auth_service_axioms,
      of id "1700000000 * Second" "1700000001 * Second" 1 7 3 1699999999 sample_state]
  by (simp add: int64_range_def AccessTokenTTL_def sample_state_def ks_defs)

text \<open>
  Denying many accounts in pipelines of 500 equals denying them one after the other, when every
  pipeline reaches the server: the reported failures are exactly the commands that failed, and the
  keyspace is the one that one \<^verbatim>\<open>DenyUserSessions\<close> per account would leave.
\<close>

theorem DenyManyUserSessions_sequential:
  assumes "redisCli E"
  shows "DenyManyUserSessions E (\<lambda>_. False) fl now userIDs tenantID st =
     (length (filter (\<lambda>u. fl (userDenyKey u tenantID)) userIDs),
      fold (\<lambda>u. DenyUserSessions E fl now u tenantID) userIDs st)"
  using assms by (rule DenyMany_fold)

theorem DenyManyUserSessions_sequential_witness:
  "DenyManyUserSessions (keyspace_env id) (\<lambda>_. False) (\<lambda>k. k = userDenyKey 8 3) 100 [7, 8, 9] 3 sample_state =
     (1, fold (\<lambda>u. DenyUserSessions (keyspace_env id) (\<lambda>k. k = userDenyKey 8 3) 100 u 3) [7, 8, 9] sample_state)"
  using DenyManyUserSessions_sequential [of "keyspace_env id" "\<lambda>k. k = userDenyKey 8 3" 100 "[7, 8, 9]" 3 sample_state]
  by (simp add: userDenyKey_inject int64_range_def)

subsection \<open>Advisory-lock keys\<close>

lemma fold64_bit:
  assumes "n < 32"
  shows "bit (fold64 v) n \<longleftrightarrow> bit v n \<noteq> bit v (n + 32)"
proof -
  have "min (n + 32) 63 = n + 32" using assms by simp
  then show ?thesis
    using assms by (auto simp: fold64_def bit_simps bit_xor_iff bit_ucast_iff bit_signed_drop_bit_iff add.commute)
qed

text \<open>
  The advisory-lock key does not drop the high half of an id: two 64-bit ids that agree on their
  low 32 bits have the same folded key only if they are equal, and folding is the identity on the
  ids below \<open>2 ^ 32\<close>.
\<close>

theorem sessionCapLockKey_keeps_high_bits:
  fixes u v :: "64 word" and w :: "32 word"
  assumes "(ucast u :: 32 word) = ucast v" "fst (sessionCapLockKey u t) = fst (sessionCapLockKey v t)"
  shows "u = v \<and> fst (sessionCapLockKey (ucast w) t) = w"
proof -
  have low: "bit u n = bit v n" if "n < 32" for n
    using arg_cong [OF assms(1), of "\<lambda>x. bit x n"] that by (simp add: bit_ucast_iff)
  have fold: "bit (fold64 u) n = bit (fold64 v) n" for n
    using assms(2) by (simp add: sessionCapLockKey_def)
  have "bit u n = bit v n" if n: "n < 64" for n
  proof (cases "n < 32")
    case False
    then have "n - 32 < 32" "n - 32 + 32 = n" using n by simp_all
    with fold [of "n - 32"] low [of "n - 32"] show ?thesis by (auto simp: fold64_bit)
  qed (rule low)
  then have "u = v" by (intro bit_word_eqI) simp
  moreover have "fold64 (ucast w) = w"
    by (rule bit_word_eqI) (auto simp: fold64_bit bit_ucast_iff dest: bit_imp_le_length)
  ultimately show ?thesis by (simp add: sessionCapLockKey_def)
qed

theorem sessionCapLockKey_keeps_high_bits_witness:
  "fst (sessionCapLockKey (ucast (7 :: 32 word)) 3) = (7 :: 32 word)"
  using sessionCapLockKey_keeps_high_bits [of 5 5 3 7, OF refl refl] by simp

end
