(* ===== verification/Authority.thy ===== *)
theory Authority
  imports Sessions "HOL-Library.Option_ord" "HOL-Library.List_Lexorder" "HOL-Library.Char_ord"
begin

text \<open>
  Who may act in a tenant and with which permissions: users, roles, permissions and the two models
  of administrative grants (\<^verbatim>\<open>tenant_admins\<close> of migration 00062 and its successor
  \<^verbatim>\<open>admin_grants\<close> of 00078). The sources are \<^verbatim>\<open>tenant_context.go\<close>, \<^verbatim>\<open>admin_grants.go\<close>,
  \<^verbatim>\<open>tenant_admin.go\<close> and the loaders of \<^verbatim>\<open>service.go\<close>.

  A query that selects \<^verbatim>\<open>DISTINCT ... ORDER BY 1\<close> returns its names without repetition in byte order
  (the C collation). A nil slice is \<open>None\<close> where the sources distinguish it from an empty one. A query
  fails when the fault predicate holds at the prefix of the error it is wrapped in.
\<close>

record user_row =
  u_id :: int
  u_tenant :: int
  u_application :: "int option"
  u_email :: string
  u_role :: "int option"
  u_active :: bool
  u_deleted :: "time option"
  u_blocked :: "time option"
  u_token_version :: int

record role_row =
  r_id :: int
  r_tenant :: int
  r_application :: "int option"
  r_name :: string
  r_system :: bool
  r_deleted :: "time option"

record permission_row =
  p_id :: int
  p_application :: "int option"
  p_name :: string
  p_deleted :: "time option"

record user_role_row =
  ur_user :: int
  ur_role :: int
  ur_tenant :: int
  ur_granted_at :: time

record user_permission_row =
  up_user :: int
  up_permission :: int
  up_tenant :: int

record admin_grant_row =
  g_user :: int
  g_tenant :: int
  g_role :: string
  g_application :: "int option"
  g_activated :: "time option"
  g_deleted :: "time option"

record tenant_admin_row =
  ta_id :: int
  ta_user :: int
  ta_tenant :: int
  ta_role :: string
  ta_activated :: "time option"
  ta_deleted :: "time option"

record tenant_row =
  t_id :: int
  t_active :: bool
  t_deleted :: "time option"

text \<open>\<open>role_permissions\<close> pairs a role with a permission, \<open>app_scopes\<close> a tenant administrator with an application.\<close>

record authority_db =
  users :: "user_row list"
  tenants :: "tenant_row list"
  roles :: "role_row list"
  permissions :: "permission_row list"
  role_permissions :: "(int \<times> int) list"
  user_roles :: "user_role_row list"
  user_permissions :: "user_permission_row list"
  admin_grants :: "admin_grant_row list"
  tenant_admins :: "tenant_admin_row list"
  app_scopes :: "(int \<times> int) list"

definition AdminRoleOwner :: string where "AdminRoleOwner = ''owner''"
definition AdminRoleCoOwner :: string where "AdminRoleCoOwner = ''co_owner''"
definition AdminScopeTenant :: string where "AdminScopeTenant = ''tenant''"
definition AdminScopeApps :: string where "AdminScopeApps = ''apps''"

subsection \<open>Authority over a tenant\<close>

definition live_user :: "user_row \<Rightarrow> bool" where
  "live_user u \<longleftrightarrow> u_active u \<and> u_deleted u = None"

definition live_grant :: "int \<Rightarrow> int \<Rightarrow> admin_grant_row \<Rightarrow> bool" where
  "live_grant uid tid g \<longleftrightarrow>
     g_user g = uid \<and> g_tenant g = tid \<and> g_deleted g = None \<and> g_activated g \<noteq> None"

text \<open>The permissions of a role, as the join through \<open>role_permissions\<close> yields them.\<close>

definition perms_of_role :: "authority_db \<Rightarrow> int \<Rightarrow> permission_row list" where
  "perms_of_role db rid = filter (\<lambda>p. (rid, p_id p) \<in> set (role_permissions db)) (permissions db)"

definition platform_role :: "authority_db \<Rightarrow> user_row \<Rightarrow> bool" where
  "platform_role db u \<longleftrightarrow>
     (\<exists>r \<in> set (roles db). u_role u = Some (r_id r) \<and> r_tenant r = u_tenant u \<and> r_deleted r = None
        \<and> r_application r = None
        \<and> (\<exists>p \<in> set (perms_of_role db (r_id r)). p_application p = None \<and> p_name p = ''tenant:manage''))"

definition tenantAuthorityPredicate :: "authority_db \<Rightarrow> int \<Rightarrow> user_row \<Rightarrow> bool" where
  "tenantAuthorityPredicate db tid u \<longleftrightarrow>
     u_tenant u = tid \<or> (\<exists>g \<in> set (admin_grants db). live_grant (u_id u) tid g) \<or> platform_role db u"

definition refreshUserHasAuthority :: "faults \<Rightarrow> int \<Rightarrow> int \<Rightarrow> authority_db \<Rightarrow> bool result" where
  "refreshUserHasAuthority fl uid tid db =
     (if fl ''check refresh authority'' then Inl (Wrapped ''check refresh authority'')
      else Inr (0 < length (filter (\<lambda>u. u_id u = uid \<and> live_user u \<and> tenantAuthorityPredicate db tid u) (users db))))"

subsection \<open>Roles and permissions of a user\<close>

definition names_sorted :: "string list \<Rightarrow> string list" where
  "names_sorted names = sort (remdups names)"

text \<open>The two halves of the query: through the roles the user holds in the home tenant, and direct grants in the target.\<close>

definition role_in_scope :: "string list option \<Rightarrow> role_row \<Rightarrow> bool" where
  "role_in_scope activeRoles r = (case activeRoles of None \<Rightarrow> True | Some ns \<Rightarrow> r_name r \<in> set ns)"

definition role_perm_rows :: "authority_db \<Rightarrow> string list option \<Rightarrow> user_row \<Rightarrow> permission_row list" where
  "role_perm_rows db activeRoles a =
     concat (map (\<lambda>ur. if \<exists>r \<in> set (roles db). r_id r = ur_role ur \<and> r_deleted r = None \<and> role_in_scope activeRoles r
                       then perms_of_role db (ur_role ur) else [])
       (filter (\<lambda>ur. ur_user ur = u_id a \<and> ur_tenant ur = u_tenant a) (user_roles db)))"

definition direct_perm_rows :: "authority_db \<Rightarrow> int \<Rightarrow> user_row \<Rightarrow> permission_row list" where
  "direct_perm_rows db tid a =
     filter (\<lambda>p. \<exists>up \<in> set (user_permissions db). up_user up = u_id a \<and> up_permission up = p_id p \<and> up_tenant up = tid)
       (permissions db)"

definition authority_rows :: "int \<Rightarrow> int \<Rightarrow> authority_db \<Rightarrow> user_row list" where
  "authority_rows uid tid db = filter (\<lambda>u. u_id u = uid \<and> tenantAuthorityPredicate db tid u) (users db)"

definition loadPermissionsScoped ::
  "faults \<Rightarrow> int \<Rightarrow> int \<Rightarrow> string list option \<Rightarrow> authority_db \<Rightarrow> string list result" where
  "loadPermissionsScoped fl uid tid activeRoles db =
     (if fl ''load permissions'' then Inl (Wrapped ''load permissions'')
      else
        let authority = authority_rows uid tid db
        in Inr (names_sorted (map p_name
             (concat (map (role_perm_rows db activeRoles) (filter live_user authority))
              @ concat (map (direct_perm_rows db tid) authority)))))"

definition loadPermissions :: "faults \<Rightarrow> int \<Rightarrow> int \<Rightarrow> authority_db \<Rightarrow> string list result" where
  "loadPermissions fl uid tid db = loadPermissionsScoped fl uid tid None db"

text \<open>\<^verbatim>\<open>ORDER BY ur.granted_at, r.id\<close>: a sort by the role, then a stable one by the grant.\<close>

definition loadRoles :: "faults \<Rightarrow> int \<Rightarrow> int \<Rightarrow> authority_db \<Rightarrow> string list result" where
  "loadRoles fl uid tid db =
     (if fl ''load roles'' then Inl (Wrapped ''load roles'')
      else
        let held = concat (map (\<lambda>ur. map (\<lambda>r. (ur, r))
                     (filter (\<lambda>r. r_id r = ur_role ur \<and> r_deleted r = None) (roles db)))
                     (filter (\<lambda>ur. ur_user ur = uid \<and> ur_tenant ur = tid) (user_roles db)))
        in Inr (map (r_name \<circ> snd) (sort_key (ur_granted_at \<circ> fst) (sort_key (r_id \<circ> snd) held))))"

fun active_roles_loop :: "string list \<Rightarrow> string list \<Rightarrow> string list \<Rightarrow> string list option" where
  "active_roles_loop held active [] = Some active"
| "active_roles_loop held active (r # rs) =
     (if r \<notin> set held then None
      else if r \<in> set active then active_roles_loop held active rs
      else active_roles_loop held (active @ [r]) rs)"

text \<open>\<open>Inr None\<close> is the nil slice: the full union of the user's roles.\<close>

definition resolveActiveRoles :: "string list \<Rightarrow> string list \<Rightarrow> string list option result" where
  "resolveActiveRoles requested held =
     (if requested = [] then Inr None
      else case active_roles_loop held [] requested of
             None \<Rightarrow> Inl (Wrapped ''invalid credentials'')
           | Some active \<Rightarrow> Inr (Some active))"

subsection \<open>Administrative reach\<close>

definition grants_in :: "int \<Rightarrow> int \<Rightarrow> authority_db \<Rightarrow> admin_grant_row list" where
  "grants_in uid tid db = sort_key g_application (filter (live_grant uid tid) (admin_grants db))"

fun scope_loop :: "bool \<Rightarrow> string list \<Rightarrow> admin_grant_row list \<Rightarrow> string \<times> string list option" where
  "scope_loop isAdmin apps [] = (if isAdmin then (AdminScopeApps, Some apps) else ([], None))"
| "scope_loop isAdmin apps (g # gs) =
     (if g_role g = AdminRoleOwner then (AdminScopeTenant, None)
      else scope_loop True (case g_application g of None \<Rightarrow> apps | Some a \<Rightarrow> apps @ [FormatInt a]) gs)"

definition loadAdminScopeFromGrants ::
  "faults \<Rightarrow> int \<Rightarrow> int \<Rightarrow> authority_db \<Rightarrow> (string \<times> string list option) result" where
  "loadAdminScopeFromGrants fl uid tid db =
     (if fl ''load admin grants'' then Inl (Wrapped ''load admin grants'')
      else Inr (scope_loop False [] (grants_in uid tid db)))"

definition loadAdminScope ::
  "faults \<Rightarrow> int \<Rightarrow> int \<Rightarrow> authority_db \<Rightarrow> (string \<times> string list option) result" where
  "loadAdminScope fl uid tid db =
     (if fl ''load admin scope'' then Inl (Wrapped ''load admin scope'')
      else case find (\<lambda>a. ta_user a = uid \<and> ta_tenant a = tid \<and> ta_deleted a = None \<and> ta_activated a \<noteq> None)
                  (tenant_admins db) of
             None \<Rightarrow> Inr ([], None)
           | Some a \<Rightarrow>
               if ta_role a = AdminRoleOwner then Inr (AdminScopeTenant, None)
               else if fl ''load admin app grants'' then Inl (Wrapped ''load admin app grants'')
               else Inr (AdminScopeApps,
                         Some (map FormatInt (sort (map snd (filter (\<lambda>s. fst s = ta_id a) (app_scopes db)))))))"

text \<open>
  While the flag is off the legacy answer is authoritative; the shadow resolution from the grants only
  writes log lines.
\<close>

definition resolveAdminScope ::
  "bool \<Rightarrow> faults \<Rightarrow> int \<Rightarrow> int \<Rightarrow> authority_db \<Rightarrow> (string \<times> string list option) result" where
  "resolveAdminScope grantsEnabled fl uid tid db =
     (if grantsEnabled then loadAdminScopeFromGrants fl uid tid db else loadAdminScope fl uid tid db)"

record AdminTenantReach =
  atr_TenantID :: int
  atr_Role :: string
  atr_Applications :: "int list"

text \<open>
  One step of the loop over the grants, on the reach collected so far in the order the tenants were
  first seen (the map and the order slice of the source).
\<close>

definition reach_update :: "admin_grant_row \<Rightarrow> AdminTenantReach \<Rightarrow> AdminTenantReach" where
  "reach_update g c =
     (if g_role g = AdminRoleOwner then c\<lparr>atr_Role := AdminRoleOwner, atr_Applications := []\<rparr>
      else if atr_Role c = AdminRoleOwner then c
      else (case g_application g of None \<Rightarrow> c | Some a \<Rightarrow> c\<lparr>atr_Applications := atr_Applications c @ [a]\<rparr>))"

definition reach_step :: "AdminTenantReach list \<Rightarrow> admin_grant_row \<Rightarrow> AdminTenantReach list" where
  "reach_step acc g =
     (let acc1 = (if \<exists>c \<in> set acc. atr_TenantID c = g_tenant g then acc
                  else acc @ [\<lparr>atr_TenantID = g_tenant g, atr_Role = g_role g, atr_Applications = []\<rparr>])
      in map (\<lambda>c. if atr_TenantID c = g_tenant g then reach_update g c else c) acc1)"

definition ListAdminReach :: "faults \<Rightarrow> int \<Rightarrow> authority_db \<Rightarrow> AdminTenantReach list result" where
  "ListAdminReach fl uid db =
     (if fl ''list admin reach'' then Inl (Wrapped ''list admin reach'')
      else Inr (foldl reach_step []
             (sort_key g_tenant (sort_key g_application
               (filter (\<lambda>g. live_grant uid (g_tenant g) g) (admin_grants db))))))"

definition HasAdminGrant :: "faults \<Rightarrow> int \<Rightarrow> int \<Rightarrow> authority_db \<Rightarrow> (bool \<times> string) result" where
  "HasAdminGrant fl uid tid db =
     (if fl ''check admin grant'' then Inl (Wrapped ''check admin grant'')
      else case grants_in uid tid db of [] \<Rightarrow> Inr (False, []) | g # _ \<Rightarrow> Inr (True, g_role g))"

definition DefaultAdminTenant :: "faults \<Rightarrow> int \<Rightarrow> authority_db \<Rightarrow> int result" where
  "DefaultAdminTenant fl uid db =
     (if fl ''default admin tenant'' then Inl (Wrapped ''default admin tenant'')
      else case sort_key (\<lambda>g. if g_role g = AdminRoleOwner then 0 else 1 :: nat)
                  (sort_key g_tenant (filter (\<lambda>g. live_grant uid (g_tenant g) g) (admin_grants db))) of
             [] \<Rightarrow> Inl ErrNoAdminReach | g # _ \<Rightarrow> Inr (g_tenant g))"

subsection \<open>Permissions outside the home tenant\<close>

definition home_tenant :: "int \<Rightarrow> authority_db \<Rightarrow> int option" where
  "home_tenant uid db = map_option u_tenant (find (\<lambda>u. u_id u = uid) (users db))"

definition loadAdminPermissionsForTenant ::
  "faults \<Rightarrow> int \<Rightarrow> int \<Rightarrow> string \<Rightarrow> bool \<Rightarrow> authority_db \<Rightarrow> string list result" where
  "loadAdminPermissionsForTenant fl uid tid adminRole platformAdmin db =
     (if platformAdmin then
        (case home_tenant uid db of
           None \<Rightarrow> Inl (Wrapped ''load home tenant'')
         | Some home \<Rightarrow> if fl ''load home tenant'' then Inl (Wrapped ''load home tenant'')
                        else loadPermissions fl uid home db)
      else if fl ''load admin permissions'' then Inl (Wrapped ''load admin permissions'')
      else
        let perms = names_sorted (map p_name (concat (map (\<lambda>r. perms_of_role db (r_id r))
              (filter (\<lambda>r. r_tenant r = tid \<and> r_name r = adminRole \<and> r_application r = None \<and> r_deleted r = None)
                 (roles db)))))
        in if perms = [] then Inl ErrNoGrantInTenant else Inr perms)"

definition permissionsForRefresh ::
  "faults \<Rightarrow> int \<Rightarrow> int \<Rightarrow> string list option \<Rightarrow> authority_db \<Rightarrow> string list result" where
  "permissionsForRefresh fl uid tid activeRoles db =
     (case home_tenant uid db of
        None \<Rightarrow> Inl (Wrapped ''load home tenant for refresh'')
      | Some home \<Rightarrow>
          if fl ''load home tenant for refresh'' then Inl (Wrapped ''load home tenant for refresh'')
          else if home = tid then loadPermissionsScoped fl uid tid activeRoles db
          else (case HasAdminGrant fl uid tid db of
                  Inl e \<Rightarrow> Inl (Wrapped ''check grant for refresh'')
                | Inr (ok, grantRole) \<Rightarrow>
                    if ok then loadAdminPermissionsForTenant fl uid tid grantRole False db
                    else loadPermissionsScoped fl uid home activeRoles db))"

text \<open>The user load that \<^verbatim>\<open>Refresh\<close>, \<^verbatim>\<open>RefreshWithLock\<close> and the grace window share; \<open>None\<close> is no row.\<close>

record refresh_user =
  ru_email :: string
  ru_role :: string
  ru_application :: "int option"

definition load_refresh_user :: "int \<Rightarrow> int \<Rightarrow> authority_db \<Rightarrow> refresh_user option" where
  "load_refresh_user uid tid db =
     (case find (\<lambda>u. u_id u = uid \<and> live_user u \<and> tenantAuthorityPredicate db tid u) (users db) of
        None \<Rightarrow> None
      | Some u \<Rightarrow>
          Some \<lparr>ru_email = u_email u,
                ru_role = (case u_role u of None \<Rightarrow> []
                           | Some rid \<Rightarrow> (case find (\<lambda>r. r_id r = rid \<and> r_deleted r = None) (roles db) of
                                          None \<Rightarrow> [] | Some r \<Rightarrow> r_name r)),
                ru_application = u_application u\<rparr>)"

subsection \<open>Accepting an administrative grant\<close>

text \<open>
  The writes run in the caller's transaction, which the caller rolls back on an error. \<open>None\<close> pending
  is the common case and changes nothing.
\<close>

definition activatePendingAdminGrant ::
  "faults \<Rightarrow> time \<Rightarrow> int \<Rightarrow> int \<Rightarrow> authority_db \<Rightarrow> session_db \<Rightarrow> (authority_db \<times> session_db) result" where
  "activatePendingAdminGrant fl now uid tid db sdb =
     (if fl ''look up pending admin grant'' then Inl (Wrapped ''look up pending admin grant'')
      else case find (\<lambda>a. ta_user a = uid \<and> ta_tenant a = tid \<and> ta_deleted a = None \<and> ta_activated a = None)
                  (tenant_admins db) of
        None \<Rightarrow> Inr (db, sdb)
      | Some a \<Rightarrow>
          (case find (\<lambda>r. r_tenant r = tid \<and> r_name r = ta_role a \<and> r_application r = None \<and> r_deleted r = None)
                  (roles db) of
             None \<Rightarrow> Inl (Wrapped ''resolve role'')
           | Some r \<Rightarrow>
               if fl ''resolve role'' then Inl (Wrapped ''resolve role'')
               else if fl ''activate admin grant'' then Inl (Wrapped ''activate admin grant'')
               else if fl ''activate admin grant mirror'' then Inl (Wrapped ''activate admin grant mirror'')
               else if fl ''attach administrative role'' then Inl (Wrapped ''attach administrative role'')
               else
                 let db1 = db\<lparr>tenant_admins := update_where (\<lambda>x. ta_id x = ta_id a)
                                 (\<lambda>x. x\<lparr>ta_activated := Some now\<rparr>) (tenant_admins db),
                              admin_grants := update_where (\<lambda>g. g_user g = ta_user a \<and> g_tenant g = ta_tenant a
                                 \<and> g_role g = ta_role a \<and> g_deleted g = None \<and> g_activated g = None)
                                 (\<lambda>g. g\<lparr>g_activated := Some now\<rparr>) (admin_grants db)\<rparr>;
                     hit = (\<lambda>u. u_id u = uid \<and> u_deleted u = None);
                     db2 = db1\<lparr>users := update_where hit
                                 (\<lambda>u. u\<lparr>u_role := Some (r_id r), u_token_version := u_token_version u + 1\<rparr>) (users db1)\<rparr>;
                     db3 = db2\<lparr>user_roles := user_roles db2 @
                                 (if \<exists>ur \<in> set (user_roles db2). ur_user ur = uid \<and> ur_role ur = r_id r then []
                                  else map (\<lambda>u. \<lparr>ur_user = u_id u, ur_role = r_id r, ur_tenant = u_tenant u, ur_granted_at = now\<rparr>)
                                         (filter (\<lambda>u. u_id u = uid) (users db2)))\<rparr>
                 in if filter hit (users db1) = [] then Inl (Wrapped ''attach administrative role'')
                    else if fl ''attach administrative role: record grant''
                    then Inl (Wrapped ''attach administrative role: record grant'')
                    else (case RevokeAllSessionsTx fl now uid tid RevokeReasonCredentialChange sdb of
                            Inl e \<Rightarrow> Inl (Wrapped ''revoke sessions on admin grant activation'')
                          | Inr sdb' \<Rightarrow> Inr (db3, sdb'))))"

subsection \<open>Scoping a session to roles\<close>

lemma active_roles_loop_spec:
  "active_roles_loop held active rs = Some out \<Longrightarrow>
     set rs \<subseteq> set held \<and> set out = set active \<union> set rs \<and> (distinct active \<longrightarrow> distinct out)
     \<and> (\<exists>new. out = active @ new \<and> subseq new rs)"
proof (induction held active rs rule: active_roles_loop.induct)
  case (2 held active r rs)
  then show ?case
    by (fastforce split: if_splits)
qed simp

lemma active_roles_loop_None:
  "active_roles_loop held active rs = None \<longleftrightarrow> \<not> set rs \<subseteq> set held"
  by (induction held active rs rule: active_roles_loop.induct) auto

text \<open>
  Scoping a session to roles only ever narrows it. The request is refused, with the error of a
  wrong password, exactly when it names a role the user does not hold; otherwise the session carries
  precisely the requested roles, each once and in the order asked for, and all of them held. An empty
  request leaves the session unscoped.
\<close>

theorem resolveActiveRoles_narrows:
  "resolveActiveRoles requested held =
     (if requested = [] then Inr None
      else if \<not> set requested \<subseteq> set held then Inl (Wrapped ''invalid credentials'')
      else Inr (Some (the (active_roles_loop held [] requested))))
   \<and> (\<forall>active. resolveActiveRoles requested held = Inr (Some active) \<longrightarrow>
        set active = set requested \<and> set active \<subseteq> set held \<and> distinct active \<and> subseq active requested)"
  using active_roles_loop_spec [of held "[]" requested] active_roles_loop_None [of held "[]" requested]
  by (auto simp: resolveActiveRoles_def split: option.splits)

theorem resolveActiveRoles_narrows_witness:
  "resolveActiveRoles [''b'', ''a'', ''b''] [''a'', ''b'', ''c''] = Inr (Some [''b'', ''a''])
   \<and> subseq [''b'', ''a''] [''b'', ''a'', ''b'']"
proof -
  have "resolveActiveRoles [''b'', ''a'', ''b''] [''a'', ''b'', ''c''] = Inr (Some [''b'', ''a''])"
    by (simp add: resolveActiveRoles_def)
  with resolveActiveRoles_narrows [of "[''b'', ''a'', ''b'']" "[''a'', ''b'', ''c'']"] show ?thesis by simp
qed

subsection \<open>Permission loading\<close>

lemma set_names_sorted [simp]: "set (names_sorted ns) = set ns"
  by (simp add: names_sorted_def)

lemma names_sorted_wf [simp]: "sorted (names_sorted ns)" "distinct (names_sorted ns)"
  by (simp_all add: names_sorted_def)

lemma role_perm_rows_mono:
  assumes "\<And>r. role_in_scope a r \<Longrightarrow> role_in_scope b r"
  shows "set (role_perm_rows db a u) \<subseteq> set (role_perm_rows db b u)"
proof -
  have imp: "\<exists>r \<in> set (roles db). r_id r = i \<and> r_deleted r = None \<and> role_in_scope b r"
    if "\<exists>r \<in> set (roles db). r_id r = i \<and> r_deleted r = None \<and> role_in_scope a r" for i
    using that assms by blast
  show ?thesis
    unfolding role_perm_rows_def set_concat set_map image_image
    by (rule UN_mono [OF subset_refl]) (use imp in \<open>auto split: if_splits\<close>)
qed

lemma role_perm_rows_scoped:
  "set (role_perm_rows db (Some ns) a) \<subseteq> set (role_perm_rows db None a)"
  "set ns \<subseteq> set ms \<Longrightarrow> set (role_perm_rows db (Some ns) a) \<subseteq> set (role_perm_rows db (Some ms) a)"
  by (rule role_perm_rows_mono, simp add: role_in_scope_def)
     (rule role_perm_rows_mono, auto simp: role_in_scope_def)

lemma loadPermissionsScoped_run:
  assumes "\<not> fl ''load permissions''"
  shows "\<exists>ps. loadPermissionsScoped fl uid tid activeRoles db = Inr ps \<and> sorted ps \<and> distinct ps
    \<and> set ps = p_name ` ((\<Union>a \<in> {u \<in> set (authority_rows uid tid db). live_user u}. set (role_perm_rows db activeRoles a))
                        \<union> (\<Union>a \<in> set (authority_rows uid tid db). set (direct_perm_rows db tid a)))"
  using assms by (simp add: loadPermissionsScoped_def Let_def image_Un)

text \<open>
  What a load scoped to the role names \<open>ns\<close> confers, said of the tables: a name of a permission of an undeleted role that is
  held in the user's own tenant and is named in \<open>ns\<close>, while the account is live, or of a permission granted to the person in the
  target tenant.
\<close>

definition confers :: "authority_db \<Rightarrow> int \<Rightarrow> int \<Rightarrow> string list \<Rightarrow> string \<Rightarrow> bool" where
  "confers db uid tid ns x \<longleftrightarrow>
     (\<exists>u \<in> set (users db). u_id u = uid \<and> tenantAuthorityPredicate db tid u
        \<and> (live_user u \<and> (\<exists>ur \<in> set (user_roles db). \<exists>r \<in> set (roles db). \<exists>p \<in> set (permissions db).
              ur_user ur = uid \<and> ur_tenant ur = u_tenant u \<and> r_id r = ur_role ur \<and> r_deleted r = None \<and> r_name r \<in> set ns
              \<and> (r_id r, p_id p) \<in> set (role_permissions db) \<and> p_name p = x)
           \<or> (\<exists>up \<in> set (user_permissions db). \<exists>p \<in> set (permissions db).
                up_user up = uid \<and> up_tenant up = tid \<and> up_permission up = p_id p \<and> p_name p = x)))"

lemma mem_role_perm_rows:
  "p \<in> set (role_perm_rows db (Some ns) u) \<longleftrightarrow> p \<in> set (permissions db)
     \<and> (\<exists>ur \<in> set (user_roles db). \<exists>r \<in> set (roles db). ur_user ur = u_id u \<and> ur_tenant ur = u_tenant u \<and> r_id r = ur_role ur
          \<and> r_deleted r = None \<and> r_name r \<in> set ns \<and> (r_id r, p_id p) \<in> set (role_permissions db))"
  by (auto simp: role_perm_rows_def perms_of_role_def role_in_scope_def split: if_splits) metis

lemma image_Un_names:
  "x \<in> f ` ((\<Union>a \<in> {u \<in> A. L u}. R a) \<union> (\<Union>a \<in> A. D a)) \<longleftrightarrow> (\<exists>a \<in> A. L a \<and> (\<exists>p \<in> R a. f p = x) \<or> (\<exists>p \<in> D a. f p = x))"
  by blast

lemma scoped_names:
  "x \<in> p_name ` ((\<Union>a \<in> {u \<in> set (authority_rows uid tid db). live_user u}. set (role_perm_rows db (Some ns) a))
      \<union> (\<Union>a \<in> set (authority_rows uid tid db). set (direct_perm_rows db tid a))) \<longleftrightarrow> confers db uid tid ns x"
proof -
  have a: "a \<in> set (authority_rows uid tid db) \<longleftrightarrow> a \<in> set (users db) \<and> u_id a = uid \<and> tenantAuthorityPredicate db tid a" for a
    by (auto simp: authority_rows_def)
  have d: "p \<in> set (direct_perm_rows db tid a) \<longleftrightarrow> p \<in> set (permissions db)
      \<and> (\<exists>up \<in> set (user_permissions db). up_user up = u_id a \<and> up_tenant up = tid \<and> up_permission up = p_id p)" for p a
    by (auto simp: direct_perm_rows_def)
  have role: "(\<exists>p \<in> set (role_perm_rows db (Some ns) u). p_name p = x) \<longleftrightarrow> (\<exists>ur \<in> set (user_roles db). \<exists>r \<in> set (roles db). \<exists>p \<in> set (permissions db).
      ur_user ur = u_id u \<and> ur_tenant ur = u_tenant u \<and> r_id r = ur_role ur \<and> r_deleted r = None \<and> r_name r \<in> set ns
      \<and> (r_id r, p_id p) \<in> set (role_permissions db) \<and> p_name p = x)" for u
    unfolding Bex_def mem_role_perm_rows by blast
  have direct: "(\<exists>p \<in> set (direct_perm_rows db tid u). p_name p = x) \<longleftrightarrow> (\<exists>up \<in> set (user_permissions db). \<exists>p \<in> set (permissions db).
      up_user up = u_id u \<and> up_tenant up = tid \<and> up_permission up = p_id p \<and> p_name p = x)" for u
    unfolding Bex_def d by blast
  have rows: "(\<exists>u \<in> set (authority_rows uid tid db). Q u) \<longleftrightarrow> (\<exists>u \<in> set (users db). u_id u = uid \<and> tenantAuthorityPredicate db tid u \<and> Q u)" for Q
    unfolding Bex_def a by blast
  show ?thesis unfolding image_Un_names role direct rows confers_def
    by (rule bex_cong [OF refl], intro conj_cong refl) simp
qed

text \<open>
  C32: A session scoped to roles holds exactly what those roles and the direct grants confer. The load scoped to \<open>ns\<close> returns a
  sorted, duplicate-free list of exactly the names \<open>confers\<close> describes, so a permission that only a role outside \<open>ns\<close> carries is
  not among them. It is contained in the unscoped load, contains every direct grant of the target tenant, and grows with the scope.
  A user with neither the home tenant, nor an activated grant, nor a platform role receives nothing, scoped or not.
\<close>

theorem loadPermissionsScoped_narrows:
  assumes "\<not> fl ''load permissions''"
  shows "\<exists>ps qs. loadPermissionsScoped fl uid tid (Some ns) db = Inr ps \<and> loadPermissions fl uid tid db = Inr qs
    \<and> sorted ps \<and> distinct ps \<and> (\<forall>x. x \<in> set ps \<longleftrightarrow> confers db uid tid ns x) \<and> set ps \<subseteq> set qs
    \<and> (\<forall>a \<in> set (authority_rows uid tid db). p_name ` set (direct_perm_rows db tid a) \<subseteq> set ps)
    \<and> (\<forall>ms rs. set ns \<subseteq> set ms \<longrightarrow> loadPermissionsScoped fl uid tid (Some ms) db = Inr rs \<longrightarrow> set ps \<subseteq> set rs)
    \<and> ((\<forall>u \<in> set (users db). u_id u = uid \<longrightarrow> \<not> tenantAuthorityPredicate db tid u) \<longrightarrow> ps = [] \<and> qs = [])"
proof -
  let ?R = "\<lambda>sc. \<Union>a \<in> {u \<in> set (authority_rows uid tid db). live_user u}. set (role_perm_rows db sc a)"
  let ?D = "\<Union>a \<in> set (authority_rows uid tid db). set (direct_perm_rows db tid a)"
  obtain ps where ps: "loadPermissionsScoped fl uid tid (Some ns) db = Inr ps" "sorted ps" "distinct ps"
      "set ps = p_name ` (?R (Some ns) \<union> ?D)"
    using loadPermissionsScoped_run [of fl uid tid "Some ns" db, OF assms] by blast
  obtain qs where qs: "loadPermissions fl uid tid db = Inr qs" "set qs = p_name ` (?R None \<union> ?D)"
    using loadPermissionsScoped_run [of fl uid tid None db, OF assms] unfolding loadPermissions_def by blast
  have sub: "?R (Some ns) \<subseteq> ?R None"
    by (rule UN_mono [OF subset_refl]) (rule role_perm_rows_scoped(1))
  have grow: "set ps \<subseteq> set rs" if "set ns \<subseteq> set ms" "loadPermissionsScoped fl uid tid (Some ms) db = Inr rs" for ms rs
  proof -
    have "set rs = p_name ` (?R (Some ms) \<union> ?D)"
      using loadPermissionsScoped_run [of fl uid tid "Some ms" db, OF assms] that(2) by auto
    moreover have "?R (Some ns) \<subseteq> ?R (Some ms)"
      by (rule UN_mono [OF subset_refl]) (rule role_perm_rows_scoped(2) [OF that(1)])
    ultimately show ?thesis unfolding ps(4) by (simp only:) (rule image_mono, rule Un_mono, assumption, rule subset_refl)
  qed
  have "ps = [] \<and> qs = []" if "\<forall>u \<in> set (users db). u_id u = uid \<longrightarrow> \<not> tenantAuthorityPredicate db tid u"
  proof -
    have "authority_rows uid tid db = []" using that by (auto simp: authority_rows_def filter_empty_conv)
    then show ?thesis using ps(4) qs(2) by simp
  qed
  moreover have "set ps \<subseteq> set qs" unfolding ps(4) qs(2) by (rule image_mono, rule Un_mono [OF sub subset_refl])
  moreover have "\<forall>a \<in> set (authority_rows uid tid db). p_name ` set (direct_perm_rows db tid a) \<subseteq> set ps"
    unfolding ps(4) by (intro ballI image_mono) auto
  moreover have "\<forall>x. x \<in> set ps \<longleftrightarrow> confers db uid tid ns x" unfolding ps(4) scoped_names by blast
  ultimately show ?thesis using ps(1-3) qs(1) grow by (intro exI [of _ ps] exI [of _ qs]) simp
qed

subsection \<open>The two models of administrative reach\<close>

definition grants_shape :: "authority_db \<Rightarrow> bool" where
  "grants_shape db \<longleftrightarrow>
     (\<forall>g \<in> set (admin_grants db). (g_role g = AdminRoleOwner \<and> g_application g = None)
        \<or> (g_role g = AdminRoleCoOwner \<and> g_application g \<noteq> None))"

text \<open>
  The grants of a user in a tenant mirror the legacy rows: none for none, an owner row for an owner,
  and for a co-owner one row per application in scope.
\<close>

definition mirrored :: "int \<Rightarrow> int \<Rightarrow> authority_db \<Rightarrow> bool" where
  "mirrored uid tid db \<longleftrightarrow>
     (case find (\<lambda>a. ta_user a = uid \<and> ta_tenant a = tid \<and> ta_deleted a = None \<and> ta_activated a \<noteq> None) (tenant_admins db) of
        None \<Rightarrow> grants_in uid tid db = []
      | Some a \<Rightarrow>
          if ta_role a = AdminRoleOwner then \<exists>g \<in> set (grants_in uid tid db). g_role g = AdminRoleOwner
          else (\<forall>g \<in> set (grants_in uid tid db). g_role g \<noteq> AdminRoleOwner)
            \<and> mset (List.map_filter g_application (grants_in uid tid db)) =
              mset (map snd (filter (\<lambda>s. fst s = ta_id a) (app_scopes db))))"

lemma scope_loop_spec:
  "scope_loop isAdmin apps gs =
     (if \<exists>g \<in> set gs. g_role g = AdminRoleOwner then (AdminScopeTenant, None)
      else if isAdmin \<or> gs \<noteq> [] then (AdminScopeApps, Some (apps @ map FormatInt (List.map_filter g_application gs)))
      else ([], None))"
  by (induction isAdmin apps gs rule: scope_loop.induct) (auto split: option.splits)

lemma sorted_map_filter:
  fixes f :: "'a \<Rightarrow> 'b :: linorder option"
  shows "sorted (map f xs) \<Longrightarrow> sorted (List.map_filter f xs)"
  by (induction xs) (auto simp: List.map_filter_def split: option.splits)

lemma grants_in_sorted: "sorted (map g_application (grants_in uid tid db))"
  by (simp add: grants_in_def)

lemma set_grants_in: "set (grants_in uid tid db) = {g \<in> set (admin_grants db). live_grant uid tid g}"
  by (simp add: grants_in_def)

text \<open>
  Reading administrative reach from \<^verbatim>\<open>admin_grants\<close> gives the answer of the legacy tables for every
  user whose grants mirror their legacy rows, with one exception: a co-owner with no application left,
  for whom the legacy reader reports a restricted administrator with an empty list and the new one an
  ordinary user. Turning the flag on therefore changes no other token's administrative claims.
\<close>

theorem admin_scope_models_agree:
  assumes "grants_shape db" "mirrored uid tid db"
  shows "resolveAdminScope True no_faults uid tid db =
     (if resolveAdminScope False no_faults uid tid db = Inr (AdminScopeApps, Some []) then Inr ([], None)
      else resolveAdminScope False no_faults uid tid db)"
proof (cases "find (\<lambda>a. ta_user a = uid \<and> ta_tenant a = tid \<and> ta_deleted a = None \<and> ta_activated a \<noteq> None) (tenant_admins db)")
  case None
  then show ?thesis
    using assms(2) by (simp add: mirrored_def resolveAdminScope_def loadAdminScopeFromGrants_def loadAdminScope_def)
next
  case (Some a)
  let ?gs = "grants_in uid tid db" and ?apps = "map snd (filter (\<lambda>s. fst s = ta_id a) (app_scopes db))"
  show ?thesis
  proof (cases "ta_role a = AdminRoleOwner")
    case True
    then show ?thesis
      using assms(2) Some by (simp add: mirrored_def resolveAdminScope_def loadAdminScopeFromGrants_def loadAdminScope_def
          scope_loop_spec)
  next
    case False
    then have no_owner: "\<forall>g \<in> set ?gs. g_role g \<noteq> AdminRoleOwner" and m: "mset (List.map_filter g_application ?gs) = mset ?apps"
      using assms(2) Some by (simp_all add: mirrored_def)
    have apps: "List.map_filter g_application ?gs = sort ?apps"
      by (rule properties_for_sort [symmetric, OF m sorted_map_filter [OF grants_in_sorted]])
    have "\<forall>g \<in> set ?gs. g_application g \<noteq> None"
      using no_owner assms(1) by (auto simp: set_grants_in grants_shape_def)
    then have "List.map_filter g_application ?gs = [] \<longleftrightarrow> ?gs = []"
      by (cases ?gs) (auto split: option.splits)
    then show ?thesis
      using False Some no_owner apps
      by (auto simp: resolveAdminScope_def loadAdminScopeFromGrants_def loadAdminScope_def scope_loop_spec)
  qed
qed

text \<open>
  User 5 lives in tenant 1 with a platform role, user 7 in tenant 3 with two roles, a direct permission
  and a co-ownership of application 40 in tenant 9, and user 8 is the invited owner of tenant 9.
\<close>

definition sample_user :: "int \<Rightarrow> int \<Rightarrow> int option \<Rightarrow> user_row" where
  "sample_user i t r =
     \<lparr>u_id = i, u_tenant = t, u_application = None, u_email = ''e'', u_role = r, u_active = True, u_deleted = None,
      u_blocked = None, u_token_version = 1\<rparr>"

definition sample_role :: "int \<Rightarrow> int \<Rightarrow> string \<Rightarrow> role_row" where
  "sample_role i t n = \<lparr>r_id = i, r_tenant = t, r_application = None, r_name = n, r_system = False, r_deleted = None\<rparr>"

definition sample_authority :: authority_db where
  "sample_authority =
     \<lparr>users = [sample_user 5 1 (Some 20), sample_user 7 3 (Some 21), sample_user 8 3 None],
      tenants = [\<lparr>t_id = 1, t_active = True, t_deleted = None\<rparr>, \<lparr>t_id = 3, t_active = True, t_deleted = None\<rparr>,
                 \<lparr>t_id = 9, t_active = True, t_deleted = None\<rparr>],
      roles = [sample_role 20 1 ''platform'', sample_role 21 3 ''user'', sample_role 22 3 ''auditor'',
               sample_role 23 9 ''owner'', sample_role 24 9 ''co_owner''],
      permissions = [\<lparr>p_id = 30, p_application = None, p_name = ''tenant:manage'', p_deleted = None\<rparr>,
                     \<lparr>p_id = 31, p_application = None, p_name = ''doc:read'', p_deleted = None\<rparr>,
                     \<lparr>p_id = 32, p_application = None, p_name = ''log:read'', p_deleted = None\<rparr>,
                     \<lparr>p_id = 33, p_application = None, p_name = ''app:write'', p_deleted = None\<rparr>],
      role_permissions = [(20, 30), (21, 31), (22, 32), (23, 33), (24, 31)],
      user_roles = [\<lparr>ur_user = 5, ur_role = 20, ur_tenant = 1, ur_granted_at = 0\<rparr>,
                    \<lparr>ur_user = 7, ur_role = 22, ur_tenant = 3, ur_granted_at = 9\<rparr>,
                    \<lparr>ur_user = 7, ur_role = 21, ur_tenant = 3, ur_granted_at = 4\<rparr>],
      user_permissions = [\<lparr>up_user = 7, up_permission = 33, up_tenant = 3\<rparr>],
      admin_grants = [\<lparr>g_user = 7, g_tenant = 9, g_role = ''co_owner'', g_application = Some 40, g_activated = Some 1, g_deleted = None\<rparr>,
                      \<lparr>g_user = 8, g_tenant = 9, g_role = ''owner'', g_application = None, g_activated = None, g_deleted = None\<rparr>],
      tenant_admins = [\<lparr>ta_id = 50, ta_user = 7, ta_tenant = 9, ta_role = ''co_owner'', ta_activated = Some 1, ta_deleted = None\<rparr>,
                       \<lparr>ta_id = 51, ta_user = 8, ta_tenant = 9, ta_role = ''owner'', ta_activated = None, ta_deleted = None\<rparr>],
      app_scopes = [(50, 40)]\<rparr>"

theorem loadPermissionsScoped_narrows_witness:
  "loadPermissionsScoped no_faults 7 3 (Some [''user'']) sample_authority = Inr [''app:write'', ''doc:read'']
   \<and> loadPermissions no_faults 7 3 sample_authority = Inr [''app:write'', ''doc:read'', ''log:read'']
   \<and> \<not> confers sample_authority 7 3 [''user''] ''log:read''"
proof -
  have runs: "loadPermissionsScoped no_faults 7 3 (Some [''user'']) sample_authority = Inr [''app:write'', ''doc:read'']"
    "loadPermissions no_faults 7 3 sample_authority = Inr [''app:write'', ''doc:read'', ''log:read'']" by code_simp+
  have "\<not> no_faults ''load permissions''" by simp
  from loadPermissionsScoped_narrows [where fl = no_faults, OF this, of 7 3 "[''user'']" sample_authority]
  obtain ps where "Inr [''app:write'', ''doc:read''] = (Inr ps :: string list result)" "\<forall>x. x \<in> set ps \<longleftrightarrow> confers sample_authority 7 3 [''user''] x"
    unfolding runs by (elim exE conjE)
  then have "''log:read'' \<in> set [''app:write'', ''doc:read''] \<longleftrightarrow> confers sample_authority 7 3 [''user''] ''log:read''" by (metis sum.inject(2))
  moreover have "''log:read'' \<notin> set [''app:write'', ''doc:read'']" by simp
  ultimately show ?thesis using runs by metis
qed

theorem admin_scope_models_agree_witness:
  "resolveAdminScope True no_faults 7 9 sample_authority = Inr (AdminScopeApps, Some [''40''])"
proof -
  have "grants_shape sample_authority" "mirrored 7 9 sample_authority" by code_simp+
  note agree = admin_scope_models_agree [OF this]
  have "resolveAdminScope False no_faults 7 9 sample_authority = Inr (AdminScopeApps, Some [''40''])" by code_simp
  then show ?thesis unfolding agree by simp
qed

subsection \<open>The tenants a user administers\<close>

definition reach_entry :: "admin_grant_row list \<Rightarrow> AdminTenantReach \<Rightarrow> bool" where
  "reach_entry mine c \<longleftrightarrow>
     (if AdminRoleOwner \<in> g_role ` set mine then atr_Role c = AdminRoleOwner \<and> atr_Applications c = []
      else mine \<noteq> [] \<and> atr_Role c = g_role (hd mine) \<and> atr_Applications c = List.map_filter g_application mine)"

definition reach_of :: "admin_grant_row list \<Rightarrow> AdminTenantReach \<Rightarrow> bool" where
  "reach_of gs c \<longleftrightarrow> reach_entry (filter (\<lambda>g. g_tenant g = atr_TenantID c) gs) c"

lemma map_filter_snoc: "List.map_filter f (xs @ [x]) = List.map_filter f xs @ (case f x of None \<Rightarrow> [] | Some y \<Rightarrow> [y])"
  by (induction xs) (auto split: option.splits)

lemma set_map_filter: "set (List.map_filter f xs) = {y. \<exists>x \<in> set xs. f x = Some y}"
  by (induction xs) (auto split: option.splits)

lemma reach_update_id [simp]: "atr_TenantID (reach_update g c) = atr_TenantID c"
  by (simp add: reach_update_def split: option.splits)

lemma reach_entry_snoc:
  assumes "reach_entry mine c"
  shows "reach_entry (mine @ [g]) (reach_update g c)"
proof (cases "AdminRoleOwner \<in> g_role ` set mine")
  case True
  with assms show ?thesis by (auto simp: reach_entry_def reach_update_def)
next
  case False
  with assms have c: "mine \<noteq> []" "atr_Role c = g_role (hd mine)" "atr_Applications c = List.map_filter g_application mine"
    by (simp_all add: reach_entry_def)
  then have "atr_Role c \<noteq> AdminRoleOwner" using False by (metis hd_in_set image_eqI)
  with c False show ?thesis
    by (auto simp: reach_entry_def reach_update_def map_filter_snoc split: option.splits)
qed

lemma reach_entry_new:
  "reach_entry [g] (reach_update g \<lparr>atr_TenantID = t, atr_Role = g_role g, atr_Applications = []\<rparr>)"
  by (auto simp: reach_entry_def reach_update_def split: option.splits)

lemma reach_of_other: "atr_TenantID c \<noteq> g_tenant g \<Longrightarrow> reach_of (gs @ [g]) c = reach_of gs c"
  by (simp add: reach_of_def)

lemma reach_of_update:
  assumes "atr_TenantID c = g_tenant g" "reach_of gs c"
  shows "reach_of (gs @ [g]) (reach_update g c)"
  using reach_entry_snoc [OF assms(2) [unfolded reach_of_def]] assms(1) by (simp add: reach_of_def)

lemma reach_of_new:
  assumes "g_tenant g \<notin> g_tenant ` set gs"
  shows "reach_of (gs @ [g]) (reach_update g \<lparr>atr_TenantID = g_tenant g, atr_Role = g_role g, atr_Applications = []\<rparr>)"
proof -
  have "filter (\<lambda>x. g_tenant x = g_tenant g) gs = []" using assms by (auto simp: filter_empty_conv image_iff)
  then show ?thesis using reach_entry_new by (simp add: reach_of_def)
qed

lemma reach_fold:
  "distinct (map atr_TenantID (foldl reach_step [] gs))
   \<and> set (map atr_TenantID (foldl reach_step [] gs)) = g_tenant ` set gs
   \<and> (\<forall>c \<in> set (foldl reach_step [] gs). reach_of gs c)"
proof (induction gs rule: rev_induct)
  case (snoc g gs)
  let ?acc = "foldl reach_step [] gs"
  let ?new = "\<lparr>atr_TenantID = g_tenant g, atr_Role = g_role g, atr_Applications = []\<rparr>"
  let ?seen = "\<exists>c \<in> set ?acc. atr_TenantID c = g_tenant g"
  let ?upd = "\<lambda>c. if atr_TenantID c = g_tenant g then reach_update g c else c"
  have step: "foldl reach_step [] (gs @ [g]) = map ?upd (if ?seen then ?acc else ?acc @ [?new])"
    by (simp add: reach_step_def Let_def)
  have ids: "map atr_TenantID (map ?upd cs) = map atr_TenantID cs" for cs by simp
  have "?seen \<longleftrightarrow> g_tenant g \<in> set (map atr_TenantID ?acc)" by (force simp: image_iff)
  then have seen: "?seen \<longleftrightarrow> g_tenant g \<in> g_tenant ` set gs" using snoc.IH by simp
  have old: "reach_of (gs @ [g]) (?upd c)" if "c \<in> set ?acc" for c
  proof (cases "atr_TenantID c = g_tenant g")
    case True
    have "reach_of gs c" using snoc.IH that by blast
    with reach_of_update [OF True this] True show ?thesis by simp
  next
    case False
    have "reach_of gs c" using snoc.IH that by blast
    with reach_of_other [OF False] False show ?thesis by simp
  qed
  have new: "reach_of (gs @ [g]) (?upd ?new)" if "\<not> ?seen"
    using reach_of_new [OF that [unfolded seen]] by simp
  have "\<forall>c \<in> set (foldl reach_step [] (gs @ [g])). reach_of (gs @ [g]) c"
  proof
    fix c assume "c \<in> set (foldl reach_step [] (gs @ [g]))"
    then obtain x where c: "c = ?upd x" and x: "x \<in> set (if ?seen then ?acc else ?acc @ [?new])"
      unfolding step set_map by blast
    show "reach_of (gs @ [g]) c"
    proof (cases "x \<in> set ?acc")
      case True
      then show ?thesis unfolding c by (rule old)
    next
      case False
      then have "\<not> ?seen" "x = ?new" using x by (auto split: if_splits)
      then show ?thesis unfolding c using new by simp
    qed
  qed
  moreover have "distinct (map atr_TenantID (foldl reach_step [] (gs @ [g])))"
    using snoc.IH seen unfolding step ids by auto
  moreover have "set (map atr_TenantID (foldl reach_step [] (gs @ [g]))) = g_tenant ` set (gs @ [g])"
    using snoc.IH seen unfolding step ids by auto
  ultimately show ?case by blast
qed simp

text \<open>
  The directory of reachable tenants and the switch guard agree. Every tenant the listing reports is
  one \<^verbatim>\<open>HasAdminGrant\<close> admits the user to and vice versa, each tenant appears once, an entry is an owner
  entry (with no application list) exactly when an activated owner grant exists, and a co-owner entry
  lists exactly the applications granted.
\<close>

theorem ListAdminReach_matches_grants:
  "\<exists>reach. ListAdminReach no_faults uid db = Inr reach \<and> distinct (map atr_TenantID reach)
     \<and> (\<forall>tid. (\<exists>role. HasAdminGrant no_faults uid tid db = Inr (True, role)) = (tid \<in> atr_TenantID ` set reach))
     \<and> (\<forall>c \<in> set reach.
          (if \<exists>g \<in> set (admin_grants db). live_grant uid (atr_TenantID c) g \<and> g_role g = AdminRoleOwner
           then atr_Role c = AdminRoleOwner \<and> atr_Applications c = []
           else atr_Role c \<noteq> AdminRoleOwner \<and>
             set (atr_Applications c) = {a. \<exists>g \<in> set (admin_grants db). live_grant uid (atr_TenantID c) g \<and> g_application g = Some a}))"
proof -
  let ?gs = "sort_key g_tenant (sort_key g_application (filter (\<lambda>g. live_grant uid (g_tenant g) g) (admin_grants db)))"
  let ?reach = "foldl reach_step [] ?gs"
  have set_gs: "set ?gs = {g \<in> set (admin_grants db). live_grant uid (g_tenant g) g}" by simp
  have grant: "(\<exists>role. HasAdminGrant no_faults uid tid db = Inr (True, role)) \<longleftrightarrow> tid \<in> g_tenant ` set ?gs" for tid
  proof -
    have "(\<exists>role. HasAdminGrant no_faults uid tid db = Inr (True, role)) \<longleftrightarrow> set (grants_in uid tid db) \<noteq> {}"
      by (auto simp: HasAdminGrant_def split: list.splits)
    then show ?thesis unfolding set_gs set_grants_in by (auto simp: live_grant_def)
  qed
  have entry: "if \<exists>g \<in> set (admin_grants db). live_grant uid (atr_TenantID c) g \<and> g_role g = AdminRoleOwner
           then atr_Role c = AdminRoleOwner \<and> atr_Applications c = []
           else atr_Role c \<noteq> AdminRoleOwner \<and>
             set (atr_Applications c) = {a. \<exists>g \<in> set (admin_grants db). live_grant uid (atr_TenantID c) g \<and> g_application g = Some a}"
    if "c \<in> set ?reach" for c
  proof -
    let ?mine = "filter (\<lambda>g. g_tenant g = atr_TenantID c) ?gs"
    have mine: "set ?mine = {g \<in> set (admin_grants db). live_grant uid (atr_TenantID c) g}"
      unfolding set_filter set_gs by (auto simp: live_grant_def)
    have r: "reach_of ?gs c" using reach_fold [of ?gs] that by blast
    have owner: "AdminRoleOwner \<in> g_role ` set ?mine \<longleftrightarrow>
        (\<exists>g \<in> set (admin_grants db). live_grant uid (atr_TenantID c) g \<and> g_role g = AdminRoleOwner)"
      unfolding mine by (force simp: image_iff)
    have apps: "set (List.map_filter g_application ?mine) =
        {a. \<exists>g \<in> set (admin_grants db). live_grant uid (atr_TenantID c) g \<and> g_application g = Some a}"
      unfolding set_map_filter mine by auto
    have "g_role (hd ?mine) \<noteq> AdminRoleOwner" if "AdminRoleOwner \<notin> g_role ` set ?mine" "?mine \<noteq> []"
      using that hd_in_set [OF that(2)] by force
    with r show ?thesis
      unfolding reach_of_def reach_entry_def owner apps [symmetric] by (auto split: if_splits)
  qed
  show ?thesis
    using reach_fold [of ?gs] grant entry by (intro exI [of _ ?reach]) (simp add: ListAdminReach_def)
qed

theorem ListAdminReach_matches_grants_witness:
  "ListAdminReach no_faults 7 sample_authority = Inr [\<lparr>atr_TenantID = 9, atr_Role = ''co_owner'', atr_Applications = [40]\<rparr>]
   \<and> (\<exists>role. HasAdminGrant no_faults 7 9 sample_authority = Inr (True, role))"
proof -
  have run: "ListAdminReach no_faults 7 sample_authority = Inr [\<lparr>atr_TenantID = 9, atr_Role = ''co_owner'', atr_Applications = [40]\<rparr>]"
    by code_simp
  with ListAdminReach_matches_grants [of 7 sample_authority] show ?thesis by auto
qed

subsection \<open>Accepting a grant\<close>

lemma activate_run:
  assumes a: "find (\<lambda>a. ta_user a = uid \<and> ta_tenant a = tid \<and> ta_deleted a = None \<and> ta_activated a = None) (tenant_admins db) = Some a"
    and run: "activatePendingAdminGrant fl now uid tid db sdb = Inr (db', sdb')"
  obtains r where "find (\<lambda>r. r_tenant r = tid \<and> r_name r = ta_role a \<and> r_application r = None \<and> r_deleted r = None) (roles db) = Some r"
    "\<exists>u \<in> set (users db). u_id u = uid \<and> u_deleted u = None"
    "users db' = update_where (\<lambda>u. u_id u = uid \<and> u_deleted u = None)
       (\<lambda>u. u\<lparr>u_role := Some (r_id r), u_token_version := u_token_version u + 1\<rparr>) (users db)"
    "admin_grants db' = update_where (\<lambda>g. g_user g = ta_user a \<and> g_tenant g = ta_tenant a \<and> g_role g = ta_role a
       \<and> g_deleted g = None \<and> g_activated g = None) (\<lambda>g. g\<lparr>g_activated := Some now\<rparr>) (admin_grants db)"
    "user_roles db' = user_roles db @
       (if \<exists>ur \<in> set (user_roles db). ur_user ur = uid \<and> ur_role ur = r_id r then []
        else map (\<lambda>u. \<lparr>ur_user = u_id u, ur_role = r_id r, ur_tenant = u_tenant u, ur_granted_at = now\<rparr>)
               (filter (\<lambda>u. u_id u = uid) (users db')))"
    "sdb' = RevokeAllSessionsTx_db now uid tid RevokeReasonCredentialChange sdb"
  using run a unfolding activatePendingAdminGrant_def RevokeAllSessionsTx_def Let_def
  by (auto simp: filter_empty_conv split: if_splits option.splits)

lemma update_where_mem: "x \<in> set (update_where p f xs) \<Longrightarrow> \<exists>y \<in> set xs. x = (if p y then f y else y)"
  by (auto simp: set_update_where)

text \<open>
  Accepting a pending grant confers exactly what it promises. Every live row of the user carries the
  tenant's role for the grant and a higher token version, the role is recorded among the user's roles, no
  matching mirror row is left pending, and no session or refresh token the user has in the administered
  tenant survives.
\<close>

theorem activatePendingAdminGrant_confers:
  assumes a: "find (\<lambda>a. ta_user a = uid \<and> ta_tenant a = tid \<and> ta_deleted a = None \<and> ta_activated a = None) (tenant_admins db) = Some a"
    and run: "activatePendingAdminGrant fl now uid tid db sdb = Inr (db', sdb')"
  shows "\<exists>r \<in> set (roles db). r_tenant r = tid \<and> r_name r = ta_role a \<and> r_application r = None
     \<and> (\<forall>u \<in> set (users db'). u_id u = uid \<and> u_deleted u = None \<longrightarrow> u_role u = Some (r_id r))
     \<and> (\<exists>ur \<in> set (user_roles db'). ur_user ur = uid \<and> ur_role ur = r_id r)
     \<and> (\<forall>g \<in> set (admin_grants db'). \<not> (g_user g = uid \<and> g_tenant g = tid \<and> g_role g = ta_role a
          \<and> g_deleted g = None \<and> g_activated g = None))
     \<and> (\<forall>s \<in> set (sessions sdb'). us_user s = uid \<and> us_tenant s = tid \<longrightarrow> us_revoked_at s \<noteq> None)
     \<and> (\<forall>t \<in> set (tokens sdb'). rt_user t = uid \<and> rt_tenant t = tid \<longrightarrow> rt_revoked_at t \<noteq> None)"
proof -
  obtain r where r: "find (\<lambda>r. r_tenant r = tid \<and> r_name r = ta_role a \<and> r_application r = None \<and> r_deleted r = None) (roles db) = Some r"
    and some: "\<exists>u \<in> set (users db). u_id u = uid \<and> u_deleted u = None"
    and us: "users db' = update_where (\<lambda>u. u_id u = uid \<and> u_deleted u = None)
       (\<lambda>u. u\<lparr>u_role := Some (r_id r), u_token_version := u_token_version u + 1\<rparr>) (users db)"
    and gs: "admin_grants db' = update_where (\<lambda>g. g_user g = ta_user a \<and> g_tenant g = ta_tenant a \<and> g_role g = ta_role a
       \<and> g_deleted g = None \<and> g_activated g = None) (\<lambda>g. g\<lparr>g_activated := Some now\<rparr>) (admin_grants db)"
    and urs: "user_roles db' = user_roles db @
       (if \<exists>ur \<in> set (user_roles db). ur_user ur = uid \<and> ur_role ur = r_id r then []
        else map (\<lambda>u. \<lparr>ur_user = u_id u, ur_role = r_id r, ur_tenant = u_tenant u, ur_granted_at = now\<rparr>)
               (filter (\<lambda>u. u_id u = uid) (users db')))"
    and s: "sdb' = RevokeAllSessionsTx_db now uid tid RevokeReasonCredentialChange sdb"
    by (rule activate_run [OF a run])
  have ta: "ta_user a = uid" "ta_tenant a = tid" using a by (auto simp: find_Some_iff)
  have "r \<in> set (roles db)" "r_tenant r = tid" "r_name r = ta_role a" "r_application r = None"
    using r by (auto simp: find_Some_iff)
  moreover have "\<forall>u \<in> set (users db'). u_id u = uid \<and> u_deleted u = None \<longrightarrow> u_role u = Some (r_id r)"
    unfolding us by (auto dest!: update_where_mem split: if_splits)
  moreover have "\<exists>u \<in> set (users db'). u_id u = uid"
  proof -
    obtain u where "u \<in> set (users db)" "u_id u = uid" "u_deleted u = None" using some by blast
    then have "u\<lparr>u_role := Some (r_id r), u_token_version := u_token_version u + 1\<rparr> \<in> set (users db')"
      unfolding us set_update_where by (intro image_eqI [of _ _ u]) simp_all
    then show ?thesis by (rule bexI [rotated]) (simp add: \<open>u_id u = uid\<close>)
  qed
  then have "\<exists>ur \<in> set (user_roles db'). ur_user ur = uid \<and> ur_role ur = r_id r"
  proof (cases "\<exists>ur \<in> set (user_roles db). ur_user ur = uid \<and> ur_role ur = r_id r")
    case False
    obtain u where "u \<in> set (users db')" "u_id u = uid" using \<open>\<exists>u \<in> set (users db'). u_id u = uid\<close> by blast
    then have "\<lparr>ur_user = u_id u, ur_role = r_id r, ur_tenant = u_tenant u, ur_granted_at = now\<rparr> \<in> set (user_roles db')"
      unfolding urs if_not_P [OF False] by simp
    then show ?thesis by (rule bexI [rotated]) (simp add: \<open>u_id u = uid\<close>)
  qed (auto simp: urs)
  moreover have "\<forall>g \<in> set (admin_grants db'). \<not> (g_user g = uid \<and> g_tenant g = tid \<and> g_role g = ta_role a
          \<and> g_deleted g = None \<and> g_activated g = None)"
    unfolding gs ta by (auto dest!: update_where_mem split: if_splits)
  moreover have "\<forall>x \<in> set (sessions sdb'). us_user x = uid \<and> us_tenant x = tid \<longrightarrow> us_revoked_at x \<noteq> None"
    unfolding s revoke_all.sessions_kill by (intro ballI impI, erule revoke_sessions_dead) simp_all
  moreover have "\<forall>t \<in> set (tokens sdb'). rt_user t = uid \<and> rt_tenant t = tid \<longrightarrow> rt_revoked_at t \<noteq> None"
    unfolding s revoke_all.tokens_kill by (intro ballI impI, erule revoke_tokens_dead) simp_all
  ultimately show ?thesis by blast
qed

theorem activatePendingAdminGrant_confers_witness:
  "\<exists>db' sdb'. activatePendingAdminGrant no_faults 100 8 9 sample_authority sample_db = Inr (db', sdb')
     \<and> (\<exists>ur \<in> set (user_roles db'). ur_user ur = 8 \<and> ur_role ur = 23)"
proof -
  let ?a = "\<lparr>ta_id = 51, ta_user = 8, ta_tenant = 9, ta_role = ''owner'', ta_activated = None, ta_deleted = None\<rparr>"
  have a: "find (\<lambda>a. ta_user a = 8 \<and> ta_tenant a = 9 \<and> ta_deleted a = None \<and> ta_activated a = None)
      (tenant_admins sample_authority) = Some ?a" by (simp add: sample_authority_def)
  obtain db' sdb' where run: "activatePendingAdminGrant no_faults 100 8 9 sample_authority sample_db = Inr (db', sdb')"
    by (simp add: activatePendingAdminGrant_def sample_authority_def sample_role_def sample_user_def RevokeAllSessionsTx_def Let_def)
  have "r_id r = 23" if "r \<in> set (roles sample_authority)" "r_tenant r = 9" "r_name r = ''owner''" for r
    using that by (auto simp: sample_authority_def sample_role_def)
  with activatePendingAdminGrant_confers [OF a run] run show ?thesis by fastforce
qed

text \<open>
  Accepting a grant in another tenant ends none of the account's sessions at home. The revocation is
  keyed on the administered tenant, so a session or refresh token whose tenant is different is as live as
  before and keeps rotating, although the grant was meant to end every live session of the account.
\<close>

theorem activation_spares_other_tenants:
  assumes run: "activatePendingAdminGrant fl now uid tid db sdb = Inr (db', sdb')" and other: "home \<noteq> tid"
  shows "filter (\<lambda>s. us_tenant s = home) (sessions sdb') = filter (\<lambda>s. us_tenant s = home) (sessions sdb)
    \<and> filter (\<lambda>t. rt_tenant t = home) (tokens sdb') = filter (\<lambda>t. rt_tenant t = home) (tokens sdb)"
proof -
  have ss: "filter (\<lambda>s. us_tenant s = home) (revoke_sessions_where now r (\<lambda>s. us_user s = uid \<and> us_tenant s = tid) ss)
      = filter (\<lambda>s. us_tenant s = home) ss" for r ss
    using other by (induction ss) (auto simp: revoke_sessions_where_def update_where_def)
  have ts: "filter (\<lambda>s. rt_tenant s = home) (revoke_tokens_where now r (\<lambda>s. rt_user s = uid \<and> rt_tenant s = tid) ts)
      = filter (\<lambda>s. rt_tenant s = home) ts" for r ts
    using other by (induction ts) (auto simp: revoke_tokens_where_def update_where_def)
  from run have "sdb' = sdb \<or> sdb' = RevokeAllSessionsTx_db now uid tid RevokeReasonCredentialChange sdb"
    unfolding activatePendingAdminGrant_def RevokeAllSessionsTx_def Let_def
    by (auto split: if_splits option.splits)
  then show ?thesis by (auto simp: revoke_all.sessions_kill revoke_all.tokens_kill ss ts)
qed

theorem activation_spares_other_tenants_witness:
  "\<exists>db' sdb'. activatePendingAdminGrant no_faults 100 8 9 sample_authority sample_db = Inr (db', sdb')
     \<and> filter (\<lambda>s. us_tenant s = 3) (sessions sdb') = sessions sample_db"
proof -
  obtain db' sdb' where run: "activatePendingAdminGrant no_faults 100 8 9 sample_authority sample_db = Inr (db', sdb')"
    by (simp add: activatePendingAdminGrant_def sample_authority_def sample_role_def sample_user_def RevokeAllSessionsTx_def Let_def)
  with activation_spares_other_tenants [OF run, of 3] show ?thesis by (simp add: sample_defs)
qed

end
