(* ===== verification/Audience.thy ===== *)
theory Audience
  imports Prelude
begin

text \<open>
  Audiences (\<^verbatim>\<open>internal/auth/audience.go\<close>): the identifier grammar and its generation from tenant
  and application names, the grants a client holds on other applications' audiences
  (\<^verbatim>\<open>oauth_client_grants\<close>, migration 00087), the resolution of a token's audience at mint time, and
  the scope filters of \<^verbatim>\<open>authzserver.go\<close> and \<^verbatim>\<open>application.go\<close> it relies on.
\<close>

definition AudienceSelf :: string where "AudienceSelf = ''api://emc-auth''"
definition ReservedAudiencePrefix :: string where "ReservedAudiencePrefix = ''api://emc-auth''"
definition AudienceSchemeDefault :: string where "AudienceSchemeDefault = ''api://''"
definition audienceLabelMax :: nat where "audienceLabelMax = 40"
definition maxGrantsPerClient :: nat where "maxGrantsPerClient = 50"

subsection \<open>The grammar of identifiers\<close>

definition label_char :: "char \<Rightarrow> bool" where
  "label_char c \<longleftrightarrow> is_lower c \<or> is_digit c"

text \<open>\<^verbatim>\<open>[a-z0-9](?:[a-z0-9-]{0,38}[a-z0-9])?\<close>\<close>

definition valid_label :: "string \<Rightarrow> bool" where
  "valid_label l \<longleftrightarrow>
     l \<noteq> [] \<and> length l \<le> audienceLabelMax \<and> label_char (hd l) \<and> label_char (last l)
     \<and> list_all (\<lambda>c. label_char c \<or> c = CHR ''-'') l"

text \<open>The pattern \<^verbatim>\<open>^<scheme><label>/<label>$\<close>; a label holds no slash, so the first one separates them.\<close>

definition audiencePattern :: "string \<Rightarrow> string \<Rightarrow> bool" where
  "audiencePattern scheme aud \<longleftrightarrow>
     HasPrefix aud scheme \<and>
     (case Cut CHR ''/'' (drop (length scheme) aud) of
        (a, Some b) \<Rightarrow> valid_label a \<and> valid_label b
      | (a, None) \<Rightarrow> False)"

text \<open>\<^verbatim>\<open>^[a-z][a-z0-9+.-]{0,15}://$\<close>\<close>

definition validAudienceScheme :: "string \<Rightarrow> bool" where
  "validAudienceScheme s \<longleftrightarrow>
     (let body = take (length s - 3) s in
      4 \<le> length s \<and> length s \<le> 19 \<and> drop (length s - 3) s = ''://''
      \<and> is_lower (hd body)
      \<and> list_all (\<lambda>c. is_lower c \<or> is_digit c \<or> c \<in> {CHR ''+'', CHR ''.'', CHR ''-''}) (tl body))"

definition WithScheme :: "string \<Rightarrow> string \<Rightarrow> string" where
  "WithScheme new current = (if validAudienceScheme new then new else current)"

text \<open>\<^verbatim>\<open>nonAlnumRun.ReplaceAllString(raw, "-")\<close>: each maximal run of other characters is one hyphen.\<close>

function squash :: "string \<Rightarrow> string" where
  "squash [] = []"
| "squash (c # cs) =
     (if is_alnum c then c # squash cs else CHR ''-'' # squash (dropWhile (\<lambda>x. \<not> is_alnum x) cs))"
  by pat_completeness auto
termination
  by (relation "measure length") (auto simp: le_imp_less_Suc length_dropWhile_le)

definition trim_left :: "string \<Rightarrow> string" where
  "trim_left = dropWhile (\<lambda>c. c = CHR ''-'')"

definition trim_right :: "string \<Rightarrow> string" where
  "trim_right s = rev (dropWhile (\<lambda>c. c = CHR ''-'') (rev s))"

definition AudienceSlug :: "string \<Rightarrow> string" where
  "AudienceSlug raw = trim_right (trim_left (ToLower (squash raw)))"

definition IsReservedAudience :: "string \<Rightarrow> bool" where
  "IsReservedAudience audience \<longleftrightarrow> HasPrefix audience ReservedAudiencePrefix"

definition ValidateAudience :: "string \<Rightarrow> string \<Rightarrow> unit result" where
  "ValidateAudience scheme audience =
     (if \<not> audiencePattern scheme audience then Inl ErrInvalidAudienceFormat
      else if IsReservedAudience audience then Inl ErrReservedAudience
      else Inr ())"

definition GenerateAudience :: "string \<Rightarrow> string \<Rightarrow> string \<Rightarrow> string result" where
  "GenerateAudience scheme tenantSlug appName =
     (let tenant = AudienceSlug tenantSlug in
      if tenant = [] \<or> length tenant > audienceLabelMax then Inl ErrInvalidAudienceFormat
      else
        let app0 = AudienceSlug appName;
            app = (if length app0 > audienceLabelMax then trim_right (take audienceLabelMax app0) else app0)
        in if app = [] then Inr []
           else let candidate = scheme @ tenant @ ''/'' @ app
                in case ValidateAudience scheme candidate of Inl e \<Rightarrow> Inl e | Inr _ \<Rightarrow> Inr candidate)"

subsection \<open>Scopes\<close>

definition reservedOIDCScopes :: "string list" where
  "reservedOIDCScopes = [''openid'', ''profile'', ''email'', ''offline_access'']"

definition scope_ok :: "string \<Rightarrow> bool" where
  "scope_ok sc \<longleftrightarrow>
     sc \<noteq> [] \<and> length sc \<le> 100 \<and>
     (sc \<in> set reservedOIDCScopes \<or>
      (case Cut CHR '':'' sc of
         (resource, Some action) \<Rightarrow> resource \<noteq> [] \<and> action \<noteq> []
       | (resource, None) \<Rightarrow> False))"

definition validateScopes :: "string list \<Rightarrow> unit result" where
  "validateScopes scopes =
     (if length scopes > 50 then Inl ErrInvalidScope
      else if list_all scope_ok scopes then Inr () else Inl ErrInvalidScope)"

fun filter_scopes_loop :: "string list \<Rightarrow> string list \<Rightarrow> string list \<Rightarrow> string list" where
  "filter_scopes_loop allowed seen [] = []"
| "filter_scopes_loop allowed seen (s # ss) =
     (if s = [] \<or> s \<in> set seen \<or> s \<notin> set allowed then filter_scopes_loop allowed seen ss
      else s # filter_scopes_loop allowed (s # seen) ss)"

definition FilterScopes :: "string list \<Rightarrow> string list \<Rightarrow> string list" where
  "FilterScopes requested registered = filter_scopes_loop registered [] requested"

definition FilterPermissionsForClient :: "string list \<Rightarrow> bool \<Rightarrow> string list" where
  "FilterPermissionsForClient perms firstParty = (if firstParty then perms else [])"

subsection \<open>Clients and grants\<close>

record oauth_client =
  oc_id :: int
  oc_tenant :: int
  oc_client_id :: string
  oc_name :: string
  oc_audience :: "string option"
  oc_require_audience :: bool
  oc_first_party :: bool
  oc_deleted :: bool

record client_grant =
  cg_id :: int
  cg_tenant :: int
  cg_client :: int
  cg_audience :: string
  cg_scopes :: "string list"

record audience_db =
  clients :: "oauth_client list"
  grants :: "client_grant list"
  next_grant_id :: int

definition CreateGrant ::
  "string \<Rightarrow> faults \<Rightarrow> int \<Rightarrow> int \<Rightarrow> string \<Rightarrow> string list \<Rightarrow> audience_db \<Rightarrow> client_grant result \<times> audience_db" where
  "CreateGrant scheme fl tenantID appRowID audience scopes db =
     (case ValidateAudience scheme audience of Inl e \<Rightarrow> (Inl e, db) | Inr _ \<Rightarrow>
      case validateScopes scopes of Inl e \<Rightarrow> (Inl e, db) | Inr _ \<Rightarrow>
      if fl ''count client grants'' then (Inl (Wrapped ''count client grants''), db)
      else if length (filter (\<lambda>g. cg_client g = appRowID \<and> cg_tenant g = tenantID) (grants db)) \<ge> maxGrantsPerClient
      then (Inl ErrTooManyGrants, db)
      else if fl ''create client grant'' then (Inl (Wrapped ''create client grant''), db)
      else if \<exists>g \<in> set (grants db). cg_client g = appRowID \<and> cg_audience g = audience
      then (Inl ErrGrantExists, db)
      else if \<not> (\<exists>c \<in> set (clients db). oc_tenant c = tenantID \<and> oc_audience c = Some audience)
              \<or> \<not> (\<exists>c \<in> set (clients db). oc_id c = appRowID)
      then (Inl ErrInvalidTarget, db)
      else let g = \<lparr>cg_id = next_grant_id db, cg_tenant = tenantID, cg_client = appRowID,
                    cg_audience = audience, cg_scopes = scopes\<rparr>
           in (Inr g, db\<lparr>grants := grants db @ [g], next_grant_id := next_grant_id db + 1\<rparr>))"

definition UpdateGrant ::
  "faults \<Rightarrow> int \<Rightarrow> int \<Rightarrow> int \<Rightarrow> string list \<Rightarrow> audience_db \<Rightarrow> client_grant result \<times> audience_db" where
  "UpdateGrant fl tenantID appRowID grantID scopes db =
     (case validateScopes scopes of Inl e \<Rightarrow> (Inl e, db) | Inr _ \<Rightarrow>
      let hit = (\<lambda>g. cg_id g = grantID \<and> cg_client g = appRowID \<and> cg_tenant g = tenantID) in
      if fl ''update client grant'' then (Inl (Wrapped ''update client grant''), db)
      else case filter hit (grants db) of
             [] \<Rightarrow> (Inl ErrGrantNotFound, db)
           | g # _ \<Rightarrow> (Inr (g\<lparr>cg_scopes := scopes\<rparr>),
                        db\<lparr>grants := update_where hit (\<lambda>g. g\<lparr>cg_scopes := scopes\<rparr>) (grants db)\<rparr>))"

definition DeleteGrant ::
  "faults \<Rightarrow> int \<Rightarrow> int \<Rightarrow> int \<Rightarrow> audience_db \<Rightarrow> unit result \<times> audience_db" where
  "DeleteGrant fl tenantID appRowID grantID db =
     (let hit = (\<lambda>g. cg_id g = grantID \<and> cg_client g = appRowID \<and> cg_tenant g = tenantID) in
      if fl ''delete client grant'' then (Inl (Wrapped ''delete client grant''), db)
      else if filter hit (grants db) = [] then (Inl ErrGrantNotFound, db)
      else (Inr (), db\<lparr>grants := filter (\<lambda>g. \<not> hit g) (grants db)\<rparr>))"

definition AudienceInTenant :: "faults \<Rightarrow> int \<Rightarrow> string \<Rightarrow> audience_db \<Rightarrow> bool result" where
  "AudienceInTenant fl tenantID audience db =
     (if fl ''audience in tenant'' then Inl (Wrapped ''audience in tenant'')
      else Inr (\<exists>c \<in> set (clients db). oc_tenant c = tenantID \<and> oc_audience c = Some audience \<and> \<not> oc_deleted c))"

definition ClientRequiresAudience :: "faults \<Rightarrow> int \<Rightarrow> int \<Rightarrow> audience_db \<Rightarrow> bool result" where
  "ClientRequiresAudience fl tenantID appRowID db =
     (if fl ''client requires audience'' then Inl (Wrapped ''client requires audience'')
      else case filter (\<lambda>c. oc_id c = appRowID \<and> oc_tenant c = tenantID \<and> \<not> oc_deleted c) (clients db) of
             [] \<Rightarrow> Inr True
           | c # _ \<Rightarrow> Inr (oc_require_audience c))"

subsection \<open>Resolution at mint time\<close>

datatype AudienceSource =
    AudienceSourceRequested
  | AudienceSourceClientSelf
  | AudienceSourceServer
  | AudienceSourceNone
  | AudienceSourcePinned

text \<open>A nil \<^verbatim>\<open>GrantedScopes\<close> (no grant-level narrowing) is \<open>None\<close>, an empty grant is \<open>Some []\<close>.\<close>

record MintAudience =
  ma_Value :: string
  ma_GrantedScopes :: "string list option"
  ma_Source :: AudienceSource
  ma_FirstParty :: bool

record AudienceRequest =
  ar_AppRowID :: int
  ar_Requested :: string
  ar_Pinned :: string

definition loadClientAudience :: "faults \<Rightarrow> int \<Rightarrow> audience_db \<Rightarrow> oauth_client result" where
  "loadClientAudience fl appRowID db =
     (if fl ''load client audience'' then Inl (Wrapped ''load client audience'')
      else case find (\<lambda>c. oc_id c = appRowID) (clients db) of
             None \<Rightarrow> Inl ErrAppNotFound
           | Some c \<Rightarrow> Inr c)"

definition resolveTargetGrant ::
  "string \<Rightarrow> faults \<Rightarrow> int \<Rightarrow> string \<Rightarrow> audience_db \<Rightarrow> string list result" where
  "resolveTargetGrant scheme fl appRowID audience db =
     (if \<not> audiencePattern scheme audience \<or> IsReservedAudience audience then Inl ErrInvalidTarget
      else if fl ''resolve audience grant'' then Inl (Wrapped ''resolve audience grant'')
      else case find (\<lambda>g. cg_client g = appRowID \<and> cg_audience g = audience
                          \<and> (\<exists>c \<in> set (clients db). oc_id c = cg_client g \<and> cg_tenant g = oc_tenant c))
                  (grants db) of
             None \<Rightarrow> Inl ErrInvalidTarget
           | Some g \<Rightarrow> Inr (cg_scopes g))"

definition ResolveMintAudience ::
  "string \<Rightarrow> faults \<Rightarrow> AudienceRequest \<Rightarrow> audience_db \<Rightarrow> MintAudience result" where
  "ResolveMintAudience scheme fl req db =
     (if ar_AppRowID req = 0 then
        (if ar_Requested req \<noteq> [] \<and> ar_Requested req \<noteq> AudienceSelf then Inl ErrInvalidTarget
         else Inr \<lparr>ma_Value = AudienceSelf, ma_GrantedScopes = None,
                   ma_Source = AudienceSourceServer, ma_FirstParty = True\<rparr>)
      else case loadClientAudience fl (ar_AppRowID req) db of
        Inl e \<Rightarrow> Inl e
      | Inr client \<Rightarrow>
          let own = (case oc_audience client of None \<Rightarrow> [] | Some a \<Rightarrow> a);
              requested = (if ar_Requested req = [] \<and> ar_Pinned req \<noteq> [] \<and> ar_Pinned req \<noteq> own
                           then ar_Pinned req else ar_Requested req)
          in if requested \<noteq> [] then
               (if ar_Pinned req \<noteq> [] \<and> ar_Requested req \<noteq> [] \<and> ar_Requested req \<noteq> ar_Pinned req
                then Inl ErrInvalidTarget
                else case resolveTargetGrant scheme fl (ar_AppRowID req) requested db of
                       Inl e \<Rightarrow> Inl e
                     | Inr scopes \<Rightarrow>
                         Inr \<lparr>ma_Value = requested, ma_GrantedScopes = Some scopes,
                              ma_Source = (if ar_Requested req = [] then AudienceSourcePinned
                                           else AudienceSourceRequested),
                              ma_FirstParty = oc_first_party client\<rparr>)
             else if own \<noteq> [] then
               Inr \<lparr>ma_Value = own, ma_GrantedScopes = None, ma_Source = AudienceSourceClientSelf,
                    ma_FirstParty = oc_first_party client\<rparr>
             else if oc_require_audience client then Inl ErrAudienceRequired
             else Inr \<lparr>ma_Value = [], ma_GrantedScopes = None, ma_Source = AudienceSourceNone,
                       ma_FirstParty = oc_first_party client\<rparr>)"

text \<open>The metric label of a denial; the existence check reads every tenant's clients.\<close>

definition denialLabel :: "string \<Rightarrow> faults \<Rightarrow> string \<Rightarrow> audience_db \<Rightarrow> string" where
  "denialLabel scheme fl audience db =
     (if audience = [] then ''none''
      else if IsReservedAudience audience \<or> audience = AudienceSelf \<or> HasPrefix audience ''emc-auth''
      then ''reserved''
      else if \<not> audiencePattern scheme audience then ''malformed''
      else if fl ''audience denial'' then ''unknown''
      else if \<exists>c \<in> set (clients db). oc_audience c = Some audience then audience
      else ''unknown'')"

subsection \<open>Slugs are labels\<close>

abbreviation hyphen_or_label :: "char \<Rightarrow> bool" where
  "hyphen_or_label c \<equiv> label_char c \<or> c = CHR ''-''"

lemma squash_chars: "c \<in> set (squash s) \<Longrightarrow> is_alnum c \<or> c = CHR ''-''"
  by (induction s rule: squash.induct) (auto split: if_splits)

lemma to_lower_hyphen [simp]: "to_lower CHR ''-'' = CHR ''-''"
  by (rule to_lower_fixed) (simp add: is_upper_def in_range_def)

lemma ToLower_squash_chars: "c \<in> set (ToLower (squash s)) \<Longrightarrow> hyphen_or_label c"
  using squash_chars to_lower_alnum by (fastforce simp: ToLower_def label_char_def)

lemma set_trim: "set (trim_left s) \<subseteq> set s" "set (trim_right s) \<subseteq> set s"
  using set_dropWhileD by (fastforce simp: trim_left_def trim_right_def)+

lemma hd_trim_left: "trim_left s \<noteq> [] \<Longrightarrow> hd (trim_left s) \<noteq> CHR ''-''"
  unfolding trim_left_def by (rule hd_dropWhile)

lemma last_trim_right: "trim_right s \<noteq> [] \<Longrightarrow> last (trim_right s) \<noteq> CHR ''-''"
  unfolding trim_right_def last_rev using hd_dropWhile by blast

lemma trim_right_prefix: "\<exists>ys. s = trim_right s @ ys"
proof -
  have "s = rev (dropWhile (\<lambda>c. c = CHR ''-'') (rev s)) @ rev (takeWhile (\<lambda>c. c = CHR ''-'') (rev s))"
    by (metis rev_append rev_rev_ident takeWhile_dropWhile_id)
  then show ?thesis unfolding trim_right_def by blast
qed

lemma hd_trim_right: "trim_right s \<noteq> [] \<Longrightarrow> hd (trim_right s) = hd s"
  using trim_right_prefix [of s] by (metis hd_append2)

lemma length_trim_right: "length (trim_right s) \<le> length s"
  using trim_right_prefix [of s] by (metis le_add1 length_append)

text \<open>A string of hyphens and label characters, trimmed and short enough, is a label.\<close>

lemma valid_label_trim:
  assumes "\<And>c. c \<in> set s \<Longrightarrow> hyphen_or_label c" "trim_right s \<noteq> []" "hd s \<noteq> CHR ''-''"
    "length (trim_right s) \<le> audienceLabelMax"
  shows "valid_label (trim_right s)"
proof -
  have all: "c \<in> set (trim_right s) \<Longrightarrow> hyphen_or_label c" for c
    using set_trim(2) assms(1) by blast
  have "label_char (hd (trim_right s))" "label_char (last (trim_right s))"
    using all [OF hd_in_set [OF assms(2)]] all [OF last_in_set [OF assms(2)]]
      assms(3) hd_trim_right [OF assms(2)] last_trim_right [OF assms(2)] by auto
  then show ?thesis using assms(2,4) all by (auto simp: valid_label_def list_all_iff)
qed

lemma AudienceSlug_chars: "c \<in> set (AudienceSlug raw) \<Longrightarrow> hyphen_or_label c"
  using set_trim ToLower_squash_chars unfolding AudienceSlug_def by blast

lemma hd_AudienceSlug: "AudienceSlug raw \<noteq> [] \<Longrightarrow> hd (AudienceSlug raw) \<noteq> CHR ''-''"
  unfolding AudienceSlug_def using hd_trim_right hd_trim_left
  by (metis append_is_Nil_conv trim_right_prefix)

lemma AudienceSlug_valid:
  assumes "AudienceSlug raw \<noteq> []" "length (AudienceSlug raw) \<le> audienceLabelMax"
  shows "valid_label (AudienceSlug raw)"
proof -
  let ?s = "trim_left (ToLower (squash raw))"
  have "hd ?s \<noteq> CHR ''-''"
    using assms(1) hd_trim_left unfolding AudienceSlug_def by (metis append_is_Nil_conv trim_right_prefix)
  moreover have "c \<in> set ?s \<Longrightarrow> hyphen_or_label c" for c
    using set_trim(1) ToLower_squash_chars by blast
  ultimately show ?thesis
    using assms valid_label_trim [of ?s] unfolding AudienceSlug_def by blast
qed

lemma truncated_slug_valid:
  assumes "trim_right (take audienceLabelMax (AudienceSlug raw)) \<noteq> []"
  shows "valid_label (trim_right (take audienceLabelMax (AudienceSlug raw)))"
proof (rule valid_label_trim)
  have "AudienceSlug raw \<noteq> []" using assms by (auto simp: trim_right_def)
  then show "hd (take audienceLabelMax (AudienceSlug raw)) \<noteq> CHR ''-''"
    using hd_AudienceSlug by (simp add: audienceLabelMax_def)
  show "hyphen_or_label c" if "c \<in> set (take audienceLabelMax (AudienceSlug raw))" for c
    using that AudienceSlug_chars in_set_takeD by fast
  show "length (trim_right (take audienceLabelMax (AudienceSlug raw))) \<le> audienceLabelMax"
    by (rule order_trans [OF length_trim_right]) simp
qed (rule assms)

lemma slash_not_in_label: "valid_label l \<Longrightarrow> CHR ''/'' \<notin> set l"
  by (auto simp: valid_label_def list_all_iff label_char_def is_lower_def is_digit_def in_range_def)

lemma audiencePattern_iff:
  "audiencePattern scheme aud \<longleftrightarrow> (\<exists>t a. aud = scheme @ t @ ''/'' @ a \<and> valid_label t \<and> valid_label a)"
proof
  assume h: "audiencePattern scheme aud"
  then obtain r where r: "aud = scheme @ r" by (auto simp: audiencePattern_def HasPrefix_iff)
  with h obtain t a where "Cut CHR ''/'' r = (t, Some a)" "valid_label t" "valid_label a"
    by (auto simp: audiencePattern_def split: option.splits)
  with r Cut_Some show "\<exists>t a. aud = scheme @ t @ ''/'' @ a \<and> valid_label t \<and> valid_label a" by fastforce
next
  assume "\<exists>t a. aud = scheme @ t @ ''/'' @ a \<and> valid_label t \<and> valid_label a"
  then show "audiencePattern scheme aud"
    using Cut_append slash_not_in_label by (auto simp: audiencePattern_def)
qed

subsection \<open>Properties\<close>

text \<open>
  Generation yields only registrable identifiers. A generated audience is either empty (the
  application's name has no letter or digit) or \<open>scheme\<close>, a valid label, a slash and a valid
  label, and it passes validation; generation fails only for a tenant slug that has no label or more
  than 40 characters of it, or for a name in the reserved namespace.
\<close>

theorem GenerateAudience_valid:
  "case GenerateAudience scheme tenantSlug appName of
     Inr c \<Rightarrow> c = [] \<or> ((\<exists>t a. c = scheme @ t @ ''/'' @ a \<and> valid_label t \<and> valid_label a)
                         \<and> ValidateAudience scheme c = Inr ())
   | Inl e \<Rightarrow> (e = ErrInvalidAudienceFormat
                 \<and> (AudienceSlug tenantSlug = [] \<or> length (AudienceSlug tenantSlug) > audienceLabelMax))
               \<or> (e = ErrReservedAudience \<and> (\<exists>app. IsReservedAudience (scheme @ AudienceSlug tenantSlug @ ''/'' @ app)))"
proof (cases "AudienceSlug tenantSlug = [] \<or> length (AudienceSlug tenantSlug) > audienceLabelMax")
  case True
  then show ?thesis by (simp add: GenerateAudience_def)
next
  case False
  define app where "app = (if length (AudienceSlug appName) > audienceLabelMax
    then trim_right (take audienceLabelMax (AudienceSlug appName)) else AudienceSlug appName)"
  have t: "valid_label (AudienceSlug tenantSlug)" using False AudienceSlug_valid by simp
  have gen: "GenerateAudience scheme tenantSlug appName =
      (if app = [] then Inr []
       else case ValidateAudience scheme (scheme @ AudienceSlug tenantSlug @ ''/'' @ app) of
              Inl e \<Rightarrow> Inl e | Inr _ \<Rightarrow> Inr (scheme @ AudienceSlug tenantSlug @ ''/'' @ app))"
    unfolding GenerateAudience_def Let_def app_def [symmetric] using False by simp
  show ?thesis
  proof (cases "app = []")
    case True
    then show ?thesis by (simp add: gen)
  next
    case nonempty: False
    then have a: "valid_label app"
      using truncated_slug_valid AudienceSlug_valid by (auto simp: app_def split: if_splits)
    then have pat: "audiencePattern scheme (scheme @ AudienceSlug tenantSlug @ ''/'' @ app)"
      using t audiencePattern_iff by blast
    show ?thesis
    proof (cases "IsReservedAudience (scheme @ AudienceSlug tenantSlug @ ''/'' @ app)")
      case True
      with nonempty pat show ?thesis by (auto simp: gen ValidateAudience_def)
    next
      case False
      with nonempty pat a t show ?thesis by (auto simp: gen ValidateAudience_def)
    qed
  qed
qed

lemma loadClientAudience_Some:
  "loadClientAudience fl i db = Inr c \<Longrightarrow> c \<in> set (clients db) \<and> oc_id c = i"
  by (auto simp: loadClientAudience_def find_Some_iff split: if_splits option.splits)

lemma resolveTargetGrant_Some:
  assumes "resolveTargetGrant scheme fl i aud db = Inr sc"
  obtains g c where "g \<in> set (grants db)" "cg_client g = i" "cg_audience g = aud" "cg_scopes g = sc"
    "c \<in> set (clients db)" "oc_id c = i" "cg_tenant g = oc_tenant c"
    "audiencePattern scheme aud" "\<not> IsReservedAudience aud"
  using assms
  by (auto simp: resolveTargetGrant_def find_Some_iff split: if_splits option.splits) (metis nth_mem)

text \<open>
  C22: A token names only an audience its client may use. When resolution succeeds for a client, the
  audience is the client's own (or none, when it has none and does not require one), with no
  narrowing of scopes, or one for which the tables hold a grant to this client by the client's own
  tenant, with exactly the scopes of that grant; without a client it is the server's own audience.
  A reserved audience is never granted.
\<close>

theorem ResolveMintAudience_sound:
  assumes "ResolveMintAudience scheme fl req db = Inr m"
  shows "(ar_AppRowID req = 0 \<and> ma_Value m = AudienceSelf \<and> ma_GrantedScopes m = None)
    \<or> (\<exists>c \<in> set (clients db). oc_id c = ar_AppRowID req \<and> ma_FirstParty m = oc_first_party c
         \<and> ma_GrantedScopes m = None
         \<and> (oc_audience c = Some (ma_Value m) \<or> ma_Value m = [] \<and> \<not> oc_require_audience c))
    \<or> (\<exists>g \<in> set (grants db). \<exists>c \<in> set (clients db). cg_client g = ar_AppRowID req \<and> oc_id c = ar_AppRowID req
         \<and> cg_tenant g = oc_tenant c \<and> cg_audience g = ma_Value m \<and> ma_GrantedScopes m = Some (cg_scopes g)
         \<and> \<not> IsReservedAudience (ma_Value m))"
proof (cases "ar_AppRowID req = 0")
  case True
  with assms show ?thesis by (auto simp: ResolveMintAudience_def split: if_splits)
next
  case False
  with assms obtain c where load: "loadClientAudience fl (ar_AppRowID req) db = Inr c"
    by (auto simp: ResolveMintAudience_def split: sum.splits)
  note c = loadClientAudience_Some [OF load]
  show ?thesis
  proof (cases "ma_GrantedScopes m")
    case None
    with assms False load have "ma_FirstParty m = oc_first_party c"
      "oc_audience c = Some (ma_Value m) \<or> ma_Value m = [] \<and> \<not> oc_require_audience c"
      by (auto simp: ResolveMintAudience_def Let_def split: if_splits sum.splits option.splits)
    with c None show ?thesis by blast
  next
    case (Some sc)
    with assms False load have "resolveTargetGrant scheme fl (ar_AppRowID req) (ma_Value m) db = Inr sc"
      by (auto simp: ResolveMintAudience_def Let_def split: if_splits sum.splits)
    with Some show ?thesis by (elim resolveTargetGrant_Some) blast
  qed
qed

definition sample_audience_db :: audience_db where
  "sample_audience_db =
     \<lparr>clients = [\<lparr>oc_id = 1, oc_tenant = 3, oc_client_id = ''web'', oc_name = ''Web'',
                   oc_audience = Some ''api://acme/web'', oc_require_audience = False,
                   oc_first_party = True, oc_deleted = False\<rparr>,
                  \<lparr>oc_id = 2, oc_tenant = 3, oc_client_id = ''pay'', oc_name = ''Pay'',
                   oc_audience = Some ''api://acme/pay'', oc_require_audience = True,
                   oc_first_party = False, oc_deleted = False\<rparr>],
      grants = [\<lparr>cg_id = 1, cg_tenant = 3, cg_client = 1, cg_audience = ''api://acme/pay'',
                  cg_scopes = [''pay:read'']\<rparr>],
      next_grant_id = 2\<rparr>"

theorem ResolveMintAudience_sound_witness:
  "\<exists>m. ResolveMintAudience AudienceSchemeDefault no_faults
          \<lparr>ar_AppRowID = 1, ar_Requested = ''api://acme/pay'', ar_Pinned = []\<rparr> sample_audience_db = Inr m
     \<and> (\<exists>g \<in> set (grants sample_audience_db). cg_audience g = ma_Value m \<and> ma_GrantedScopes m = Some (cg_scopes g))"
proof -
  have "ResolveMintAudience AudienceSchemeDefault no_faults
          \<lparr>ar_AppRowID = 1, ar_Requested = ''api://acme/pay'', ar_Pinned = []\<rparr> sample_audience_db =
        Inr \<lparr>ma_Value = ''api://acme/pay'', ma_GrantedScopes = Some [''pay:read''],
             ma_Source = AudienceSourceRequested, ma_FirstParty = True\<rparr>"
    by code_simp
  then obtain m where m: "ResolveMintAudience AudienceSchemeDefault no_faults
          \<lparr>ar_AppRowID = 1, ar_Requested = ''api://acme/pay'', ar_Pinned = []\<rparr> sample_audience_db = Inr m"
    "ma_GrantedScopes m = Some [''pay:read'']" by simp
  with ResolveMintAudience_sound [OF m(1)] show ?thesis by auto
qed

lemma pinned_value:
  "ResolveMintAudience scheme fl req db = Inr m \<Longrightarrow> ar_AppRowID req \<noteq> 0 \<Longrightarrow> ar_Pinned req \<noteq> [] \<Longrightarrow>
     ma_Value m = ar_Pinned req"
  by (auto simp: ResolveMintAudience_def Let_def split: if_splits sum.splits option.splits)

text \<open>
  A refresh cannot move a chain to another audience. When the refresh token is pinned to an
  audience and the client resolves at all, the new token names exactly the pinned audience, whatever
  the request asked for; a request for any other audience is refused, and a pinned audience other
  than the client's own is honoured only while its grant still stands.
\<close>

theorem ResolveMintAudience_pinned:
  assumes "ar_AppRowID req \<noteq> 0" "ar_Pinned req \<noteq> []"
    and load: "loadClientAudience fl (ar_AppRowID req) db = Inr c"
  shows "(ar_Requested req \<noteq> [] \<and> ar_Requested req \<noteq> ar_Pinned req \<longrightarrow>
            ResolveMintAudience scheme fl req db = Inl ErrInvalidTarget)
    \<and> (\<forall>m. ResolveMintAudience scheme fl req db = Inr m \<longrightarrow> ma_Value m = ar_Pinned req)
    \<and> ((\<exists>m. ResolveMintAudience scheme fl req db = Inr m) \<longrightarrow>
         oc_audience c = Some (ar_Pinned req)
         \<or> (\<exists>sc. resolveTargetGrant scheme fl (ar_AppRowID req) (ar_Pinned req) db = Inr sc))"
proof -
  have "ma_Value m = ar_Pinned req \<and> (oc_audience c = Some (ar_Pinned req)
         \<or> (\<exists>sc. resolveTargetGrant scheme fl (ar_AppRowID req) (ar_Pinned req) db = Inr sc))"
    if "ResolveMintAudience scheme fl req db = Inr m" for m
    using that assms
    by (auto simp: ResolveMintAudience_def Let_def split: if_splits sum.splits option.splits)
  moreover have "ResolveMintAudience scheme fl req db = Inl ErrInvalidTarget"
    if "ar_Requested req \<noteq> []" "ar_Requested req \<noteq> ar_Pinned req"
    using that assms by (simp add: ResolveMintAudience_def Let_def)
  ultimately show ?thesis by blast
qed

theorem ResolveMintAudience_pinned_witness:
  "ResolveMintAudience AudienceSchemeDefault no_faults
     \<lparr>ar_AppRowID = 1, ar_Requested = ''api://acme/web'', ar_Pinned = ''api://acme/pay''\<rparr> sample_audience_db
   = Inl ErrInvalidTarget"
proof -
  have "\<exists>c. loadClientAudience no_faults 1 sample_audience_db = Inr c"
    by (simp add: loadClientAudience_def sample_audience_db_def)
  then obtain c where "loadClientAudience no_faults 1 sample_audience_db = Inr c" ..
  with ResolveMintAudience_pinned [of "\<lparr>ar_AppRowID = 1, ar_Requested = ''api://acme/web'', ar_Pinned = ''api://acme/pay''\<rparr>"
      no_faults sample_audience_db c AudienceSchemeDefault]
  show ?thesis by simp
qed

subsection \<open>Grants\<close>

text \<open>
  The invariant of the grant table: identities and (client, audience) pairs are unique, every grant
  names an audience registered in its own tenant, no reserved one, with well-formed scopes, and no
  client holds more than the maximum in a tenant.
\<close>

definition grant_row_ok :: "audience_db \<Rightarrow> client_grant \<Rightarrow> bool" where
  "grant_row_ok db g \<longleftrightarrow>
     cg_id g < next_grant_id db \<and> \<not> IsReservedAudience (cg_audience g) \<and> validateScopes (cg_scopes g) = Inr ()
     \<and> (\<exists>c \<in> set (clients db). oc_tenant c = cg_tenant g \<and> oc_audience c = Some (cg_audience g))"

definition grants_held :: "audience_db \<Rightarrow> int \<Rightarrow> int \<Rightarrow> nat" where
  "grants_held db app tid = length (filter (\<lambda>g. cg_client g = app \<and> cg_tenant g = tid) (grants db))"

definition grants_ok :: "audience_db \<Rightarrow> bool" where
  "grants_ok db \<longleftrightarrow>
     distinct (map cg_id (grants db)) \<and> distinct (map (\<lambda>g. (cg_client g, cg_audience g)) (grants db))
     \<and> list_all (grant_row_ok db) (grants db)
     \<and> (\<forall>app tid. grants_held db app tid \<le> maxGrantsPerClient)"

lemma CreateGrant_ok:
  assumes "grants_ok db"
  shows "grants_ok (snd (CreateGrant scheme fl tid app aud sc db))"
proof (cases "fst (CreateGrant scheme fl tid app aud sc db)")
  case (Inl e)
  then have "snd (CreateGrant scheme fl tid app aud sc db) = db"
    by (auto simp: CreateGrant_def Let_def split: sum.splits if_splits)
  with assms show ?thesis by simp
next
  case (Inr g)
  then have v: "ValidateAudience scheme aud = Inr ()" "validateScopes sc = Inr ()"
    and few: "grants_held db app tid < maxGrantsPerClient"
    and fresh: "\<forall>g \<in> set (grants db). \<not> (cg_client g = app \<and> cg_audience g = aud)"
    and fk: "\<exists>c \<in> set (clients db). oc_tenant c = tid \<and> oc_audience c = Some aud"
    and res: "g = \<lparr>cg_id = next_grant_id db, cg_tenant = tid, cg_client = app, cg_audience = aud, cg_scopes = sc\<rparr>"
      "snd (CreateGrant scheme fl tid app aud sc db) =
        db\<lparr>grants := grants db @ [g], next_grant_id := next_grant_id db + 1\<rparr>"
    by (auto simp: CreateGrant_def Let_def grants_held_def split: sum.splits if_splits)
  from assms have id: "next_grant_id db \<notin> cg_id ` set (grants db)"
    by (auto simp: grants_ok_def list_all_iff grant_row_ok_def)
  have "(app, aud) \<notin> (\<lambda>g. (cg_client g, cg_audience g)) ` set (grants db)" using fresh by auto
  moreover have "\<not> IsReservedAudience aud" using v by (simp add: ValidateAudience_def split: if_splits)
  ultimately show ?thesis
    using assms few fk id v unfolding res
    by (auto simp: grants_ok_def list_all_iff grant_row_ok_def grants_held_def)
qed

lemma UpdateGrant_ok:
  assumes "grants_ok db"
  shows "grants_ok (snd (UpdateGrant fl tid app gid sc db))"
proof (cases "fst (UpdateGrant fl tid app gid sc db)")
  case (Inl e)
  then have "snd (UpdateGrant fl tid app gid sc db) = db"
    by (auto simp: UpdateGrant_def Let_def split: sum.splits if_splits list.splits)
  with assms show ?thesis by simp
next
  case (Inr g)
  let ?hit = "\<lambda>g. cg_id g = gid \<and> cg_client g = app \<and> cg_tenant g = tid"
  let ?db = "db\<lparr>grants := update_where ?hit (\<lambda>g. g\<lparr>cg_scopes := sc\<rparr>) (grants db)\<rparr>"
  from Inr have v: "validateScopes sc = Inr ()" and db: "snd (UpdateGrant fl tid app gid sc db) = ?db"
    by (auto simp: UpdateGrant_def Let_def split: sum.splits if_splits list.splits)
  have "grants_held ?db a t = grants_held db a t" for a t
    unfolding grants_held_def by (simp add: length_filter_update_where)
  moreover have "list_all (grant_row_ok ?db) (grants ?db)"
    using assms v by (auto simp: grants_ok_def list_all_iff grant_row_ok_def set_update_where)
  ultimately show ?thesis
    using assms by (simp add: db grants_ok_def map_update_where)
qed

lemma DeleteGrant_ok:
  assumes "grants_ok db"
  shows "grants_ok (snd (DeleteGrant fl tid app gid db))"
proof -
  have "grants_ok (db\<lparr>grants := filter p (grants db)\<rparr>)" for p
  proof -
    have "grants_held (db\<lparr>grants := filter p (grants db)\<rparr>) a t \<le> grants_held db a t" for a t
    proof -
      have "filter (\<lambda>g. cg_client g = a \<and> cg_tenant g = t) (filter p (grants db)) =
            filter p (filter (\<lambda>g. cg_client g = a \<and> cg_tenant g = t) (grants db))"
        by (simp add: filter_filter conj_commute)
      moreover have "length (filter p xs) \<le> length xs" for xs :: "client_grant list" by simp
      ultimately show ?thesis by (simp add: grants_held_def del: filter_filter)
    qed
    moreover have "\<forall>a t. grants_held db a t \<le> maxGrantsPerClient" using assms by (simp add: grants_ok_def)
    ultimately have "\<forall>a t. grants_held (db\<lparr>grants := filter p (grants db)\<rparr>) a t \<le> maxGrantsPerClient"
      using order_trans by blast
    with assms show ?thesis
      by (auto simp: grants_ok_def list_all_iff grant_row_ok_def distinct_map_filter)
  qed
  then show ?thesis using assms by (simp add: DeleteGrant_def Let_def)
qed

text \<open>
  The grant table stays sound under administration. Creating, updating and deleting grants,
  whatever their arguments and whichever calls fail, keep the invariant: at most 50 grants per client
  and tenant, one per client and audience, each naming an audience registered in the grant's own
  tenant and none in the reserved namespace.
\<close>

theorem grant_operations_ok:
  assumes "grants_ok db"
  shows "grants_ok (snd (CreateGrant scheme fl tid app aud sc db))
    \<and> grants_ok (snd (UpdateGrant fl tid app gid sc db))
    \<and> grants_ok (snd (DeleteGrant fl tid app gid db))"
  using CreateGrant_ok [OF assms] UpdateGrant_ok [OF assms] DeleteGrant_ok [OF assms] by blast

theorem grant_operations_ok_witness:
  "grants_ok (snd (CreateGrant AudienceSchemeDefault no_faults 3 2 ''api://acme/web'' [''web:read''] sample_audience_db))"
proof -
  have "grants_held sample_audience_db a t \<le> 1" for a t
    by (simp add: grants_held_def sample_audience_db_def)
  then have "\<forall>a t. grants_held sample_audience_db a t \<le> maxGrantsPerClient"
    unfolding maxGrantsPerClient_def by (meson le_trans one_le_numeral)
  moreover have "validateScopes [''pay:read''] = Inr ()" "\<not> IsReservedAudience ''api://acme/pay''" by code_simp+
  ultimately have "grants_ok sample_audience_db"
    by (simp add: grants_ok_def grant_row_ok_def sample_audience_db_def)
  then show ?thesis using grant_operations_ok by blast
qed

subsection \<open>Scope narrowing\<close>

lemma filter_scopes_loop_spec:
  "distinct (filter_scopes_loop allowed seen ss)
   \<and> set (filter_scopes_loop allowed seen ss) = {s \<in> set ss. s \<noteq> [] \<and> s \<in> set allowed \<and> s \<notin> set seen}
   \<and> subseq (filter_scopes_loop allowed seen ss) ss"
  by (induction ss arbitrary: seen) auto

text \<open>
  Scope filtering only narrows. The granted scopes are the requested ones that the registration
  allows, each once, in the order of the request; in particular none is granted that was not
  requested and none that is not registered.
\<close>

theorem FilterScopes_narrows:
  "distinct (FilterScopes requested registered)
   \<and> set (FilterScopes requested registered) = {s \<in> set requested. s \<noteq> [] \<and> s \<in> set registered}
   \<and> subseq (FilterScopes requested registered) requested"
  using filter_scopes_loop_spec [of registered "[]" requested] by (simp add: FilterScopes_def)

end
