(* ===== verification/Device.thy ===== *)
theory Device
  imports Prelude
begin

text \<open>
  Device attribution: the client identity a request carries (\<^verbatim>\<open>internal/requestctx\<close>) and the label
  that \<^verbatim>\<open>DeviceHint\<close> (\<^verbatim>\<open>internal/auth/session.go\<close>) derives from a User-Agent header.
\<close>

record RequestInfo =
  ri_IPAddress :: string
  ri_UserAgent :: string

definition maxUserAgentLen :: nat where "maxUserAgentLen = 512"

definition WithRequestInfo :: "string \<Rightarrow> string \<Rightarrow> RequestInfo" where
  "WithRequestInfo ip userAgent =
     \<lparr>ri_IPAddress = ip,
      ri_UserAgent = (if length userAgent > maxUserAgentLen then take maxUserAgentLen userAgent else userAgent)\<rparr>"

text \<open>\<^verbatim>\<open>strings.Contains\<close>\<close>

definition Contains :: "string \<Rightarrow> string \<Rightarrow> bool" where
  "Contains s sub \<longleftrightarrow> sublist sub s"

text \<open>The second switch of the source: the operating system, empty when none is recognised.\<close>

definition device_os :: "string \<Rightarrow> string" where
  "device_os ua =
     (if Contains ua ''iPhone'' \<or> Contains ua ''iPad'' \<or> Contains ua ''iPod'' then ''iOS''
      else if Contains ua ''Android'' then ''Android''
      else if Contains ua ''Windows'' then ''Windows''
      else if Contains ua ''Mac OS X'' \<or> Contains ua ''Macintosh'' then ''macOS''
      else if Contains ua ''Linux'' then ''Linux''
      else [])"

text \<open>The first switch: \<open>Inr\<close> a browser name, to be completed by the system, \<open>Inl\<close> a final label.\<close>

definition device_browser :: "string \<Rightarrow> string + string" where
  "device_browser ua =
     (if Contains ua ''Edg/'' then Inr ''Edge''
      else if Contains ua ''OPR/'' then Inr ''Opera''
      else if Contains ua ''Chrome/'' then Inr ''Chrome''
      else if Contains ua ''Firefox/'' then Inr ''Firefox''
      else if Contains ua ''Safari/'' then Inr ''Safari''
      else if Contains ua ''curl/'' then Inr ''curl''
      else if ua = ''node'' \<or> HasPrefix ua ''node/'' \<or> Contains ua ''undici'' then Inl ''Node.js client''
      else if Contains ua ''axios/'' then Inl ''Node.js client (axios)''
      else if Contains ua ''python-requests/'' \<or> Contains ua ''httpx/'' \<or> Contains ua ''aiohttp/''
      then Inl ''Python client''
      else if Contains ua ''Go-http-client/'' then Inl ''Go client''
      else if Contains ua ''okhttp/'' then Inr ''okhttp''
      else if Contains ua ''PostmanRuntime/'' then Inl ''Postman''
      else if Contains ua ''Insomnia/'' then Inl ''Insomnia''
      else if Contains ua ''java/'' \<or> Contains ua ''Java/'' then Inl ''Java client''
      else Inl (if length ua > 32 then take 32 ua else ua))"

definition DeviceHint :: "string \<Rightarrow> string" where
  "DeviceHint ua =
     (if ua = [] then []
      else case device_browser ua of
             Inl label \<Rightarrow> label
           | Inr browser \<Rightarrow>
               (let os = device_os ua in if os = [] then browser else browser @ '' on '' @ os))"

lemma device_os_bound: "length (device_os ua) \<le> 7"
  by (simp add: device_os_def)

lemma device_browser_bound:
  "case device_browser ua of Inl l \<Rightarrow> length l \<le> 32 \<and> (ua \<noteq> [] \<longrightarrow> l \<noteq> []) | Inr b \<Rightarrow> length b \<le> 7 \<and> b \<noteq> []"
  by (simp add: device_browser_def)

text \<open>
  The device label is short, and it is empty exactly when the header is: at most 32 characters,
  whatever the client sends.
\<close>

theorem DeviceHint_bound: "length (DeviceHint ua) \<le> 32 \<and> (DeviceHint ua = [] \<longleftrightarrow> ua = [])"
  using device_browser_bound [of ua] device_os_bound [of ua]
  by (auto simp: DeviceHint_def Let_def split: sum.splits)

end
