(* ===== verification/Mint.thy ===== *)
theory Mint
  imports Authority Audience Device
begin

text \<open>
  Minting a token pair (\<^verbatim>\<open>issueTokenPairWithScope\<close>, \<^verbatim>\<open>internal/auth/service.go\<close>): the claims, the
  audience, the session's deadlines, the transaction that opens or touches the session and stores the
  refresh token, and the denial of the sessions the cap displaced.

  What the mint obtains from components outside this theory is an argument of the definitions, a
  field of \<open>mint_env\<close>: the organisation resolved for the user, the membership lock, the JWT signer, and
  the random refresh token.
\<close>

definition AMRPassword :: string where "AMRPassword = ''pwd''"
definition AMROTP :: string where "AMROTP = ''otp''"
definition AMRMFA :: string where "AMRMFA = ''mfa''"

record orgSessionRequest =
  org_requested :: string
  org_boundID :: "int option"
  org_personal :: bool
  org_skip :: bool

text \<open>Go's zero time is \<open>None\<close>, and so is a nil slice of active roles.\<close>

record sessionContext =
  sc_sessionID :: "int option"
  sc_persistent :: bool
  sc_amr :: "string list"
  sc_authTime :: "time option"
  sc_grant :: string
  sc_activeRoles :: "string list option"
  sc_audience :: string
  sc_pinnedAudience :: string
  sc_filterPerms :: bool
  sc_org :: orgSessionRequest
  sc_absoluteCap :: "time option"

record mintOrganization =
  mo_rowID :: int
  mo_publicID :: string
  mo_slug :: string
  mo_roles :: "string list"
  mo_permissions :: "string list"

record Claims =
  cl_UserID :: string
  cl_TenantID :: string
  cl_AppID :: string
  cl_Email :: string
  cl_Role :: string
  cl_Roles :: "string list"
  cl_ActiveRoles :: "string list option"
  cl_Permissions :: "string list"
  cl_Scope :: string
  cl_AdminScope :: string
  cl_AdminApps :: "string list option"
  cl_OrgID :: string
  cl_OrgName :: string
  cl_OrgRoles :: "string list"
  cl_OrgPermissions :: "string list"
  cl_SessionID :: string

record AuthResult =
  AccessToken :: string
  RefreshToken :: string
  TokenType :: string
  ExpiresIn :: int
  ExpiresAt :: int

record 'r mint_env =
  me_auth :: "'r auth_env"
  me_scheme :: string
  me_policies :: session_policies
  me_audience_db :: audience_db
  me_device :: RequestInfo
  me_authority :: authority_db
  me_grantsEnabled :: bool
  me_resolveOrganization ::
    "int \<Rightarrow> int \<Rightarrow> string \<Rightarrow> string \<Rightarrow> string list \<Rightarrow> sessionContext \<Rightarrow> string \<Rightarrow> string \<Rightarrow> mintOrganization option result"
  me_lockMembership :: "int \<Rightarrow> int \<Rightarrow> int \<Rightarrow> goerror option"
  me_sign :: "int \<Rightarrow> string \<Rightarrow> string \<Rightarrow> Claims \<Rightarrow> string result"

record 'r mint_state =
  ms_auth :: "'r auth_state"
  ms_policy :: "SessionPolicy policy_service"

subsection \<open>Scope strings\<close>

definition is_space :: "char \<Rightarrow> bool" where
  "is_space c \<longleftrightarrow> in_range 9 13 c \<or> c = CHR '' ''"

text \<open>\<^verbatim>\<open>strings.Fields\<close> on ASCII text, with the field being read as an accumulator.\<close>

fun fields_loop :: "string \<Rightarrow> string \<Rightarrow> string list" where
  "fields_loop cur [] = (if cur = [] then [] else [rev cur])"
| "fields_loop cur (c # cs) =
     (if is_space c then (if cur = [] then fields_loop [] cs else rev cur # fields_loop [] cs)
      else fields_loop (c # cur) cs)"

definition Fields :: "string \<Rightarrow> string list" where
  "Fields s = fields_loop [] s"

fun Join :: "string list \<Rightarrow> string" where
  "Join [] = []"
| "Join [s] = s"
| "Join (s # ss) = s @ '' '' @ Join ss"

subsection \<open>Deadlines of the minted session\<close>

definition mint_deadlines :: "SessionPolicy \<Rightarrow> time \<Rightarrow> sessionContext \<Rightarrow> time \<times> time" where
  "mint_deadlines policy now sess =
     (let authTime = (case sc_authTime sess of None \<Rightarrow> now | Some t \<Rightarrow> t);
          abs0 = snd (Deadlines policy authTime (sc_persistent sess));
          absolute = (case sc_absoluteCap sess of
                        None \<Rightarrow> abs0
                      | Some c \<Rightarrow> if abs0 > c then c else abs0);
          idle = now + IdleTTLFor policy (sc_persistent sess)
      in (if idle > absolute then absolute else idle, absolute))"

subsection \<open>The transaction\<close>

definition new_session_row ::
  "RequestInfo \<Rightarrow> time \<Rightarrow> int \<Rightarrow> int \<Rightarrow> sessionContext \<Rightarrow> string \<Rightarrow> time \<Rightarrow> time \<Rightarrow> int option \<Rightarrow> user_session" where
  "new_session_row device now userID tenantID sess appID idle absolute orgRowID =
     \<lparr>us_id = 0, us_user = userID, us_tenant = tenantID, us_app = parseAppID appID,
      user_agent = ri_UserAgent device,
      device_hint = (let h = DeviceHint (ri_UserAgent device) in if h = [] then None else Some h),
      ip_address = (if ri_IPAddress device = [] then None else Some (ri_IPAddress device)),
      auth_time = (case sc_authTime sess of None \<Rightarrow> now | Some t \<Rightarrow> t),
      us_amr = sc_amr sess, is_persistent = sc_persistent sess,
      idle_expires_at = idle, absolute_expires_at = absolute, last_seen_at = now,
      us_org = orgRowID, us_revoked_at = None, us_revoked_reason = None\<rparr>"

text \<open>
  The session half: the rotation touches the session, a new login enforces the cap, re-checks the
  membership and inserts the session. The result is the session's id, the deadline of the token to
  be stored, and the sessions evicted.
\<close>

definition mint_session ::
  "'r mint_env \<Rightarrow> faults \<Rightarrow> time \<Rightarrow> int \<Rightarrow> int \<Rightarrow> sessionContext \<Rightarrow> string \<Rightarrow> SessionPolicy \<Rightarrow>
   int option \<Rightarrow> session_db \<Rightarrow> (int \<times> time \<times> int list \<times> session_db) result" where
  "mint_session M fl now userID tenantID sess appID policy orgRowID db =
     (case mint_deadlines policy now sess of (idle, absolute) \<Rightarrow>
      (case sc_sessionID sess of
        Some sid \<Rightarrow>
          if fl ''touch session'' then Inl (Wrapped ''touch session'')
          else (case touch_session now idle sid db of
                  None \<Rightarrow> Inl ErrInvalidRefreshToken
                | Some (expires, db1) \<Rightarrow> Inr (sid, expires, [], db1))
      | None \<Rightarrow>
          if fl ''acquire session cap lock'' then Inl (Wrapped ''acquire session cap lock'')
          else if fl ''enforce session cap'' then Inl (Wrapped ''enforce session cap'')
          else (case enforceSessionCap now userID tenantID (MaxConcurrentSessions policy) db of
                  (evicted, db1) \<Rightarrow>
                    if evicted \<noteq> [] \<and> fl ''scan evicted session'' then Inl (Wrapped ''scan evicted session'')
                    else if evicted \<noteq> [] \<and> fl ''revoke evicted session tokens''
                    then Inl (Wrapped ''revoke evicted session tokens'')
                    else (case (case orgRowID of None \<Rightarrow> None
                                | Some o' \<Rightarrow> me_lockMembership M o' userID (parseAppIDValue appID)) of
                            Some e \<Rightarrow> Inl e
                          | None \<Rightarrow>
                              if fl ''create session'' then Inl (Wrapped ''create session'')
                              else (case insert_session
                                           (new_session_row (me_device M) now userID tenantID sess appID idle absolute orgRowID)
                                           db1 of
                                      (sid, db2) \<Rightarrow> Inr (sid, absolute, evicted, db2))))))"

definition new_token_row ::
  "time \<Rightarrow> int \<Rightarrow> int \<Rightarrow> string \<Rightarrow> time \<Rightarrow> int \<Rightarrow> string \<Rightarrow> string \<Rightarrow> string list option \<Rightarrow> refresh_token" where
  "new_token_row now userID tenantID hash expires sid appID aud activeRoles =
     \<lparr>rt_id = 0, rt_user = userID, rt_tenant = tenantID, token_hash = hash, expires_at = expires,
      rt_session = Some sid, session_family_id = sid, rt_app = parseAppID appID,
      rt_audience = (if aud = [] then None else Some aud), rt_active_roles = activeRoles,
      last_used_at = now, created_at = now, rt_revoked_at = None, rt_revoked_reason = None,
      rt_deleted_at = None\<rparr>"

text \<open>The whole transaction, with the signing inside it: any failure rolls the tables back.\<close>

definition mint_tx ::
  "'r mint_env \<Rightarrow> faults \<Rightarrow> time \<Rightarrow> string \<Rightarrow> int \<Rightarrow> int \<Rightarrow> sessionContext \<Rightarrow> string \<Rightarrow> SessionPolicy \<Rightarrow>
   int option \<Rightarrow> string \<Rightarrow> Claims \<Rightarrow> session_db \<Rightarrow> (string \<times> int list \<times> session_db) result" where
  "mint_tx M fl now rawRefresh userID tenantID sess appID policy orgRowID aud claims db =
     (if fl ''begin session tx'' then Inl (Wrapped ''begin session tx'')
      else case mint_session M fl now userID tenantID sess appID policy orgRowID db of
        Inl e \<Rightarrow> Inl e
      | Inr (sid, expires, evicted, db1) \<Rightarrow>
          if fl ''persist refresh token'' then Inl (Wrapped ''persist refresh token'')
          else (case insert_token (new_token_row now userID tenantID (HashToken (me_auth M) rawRefresh)
                                     expires sid appID aud (sc_activeRoles sess)) db1 of
                  None \<Rightarrow> Inl (Wrapped ''persist refresh token'')
                | Some db2 \<Rightarrow>
                    (case me_sign M tenantID aud (sc_grant sess) (claims\<lparr>cl_SessionID := FormatInt sid\<rparr>) of
                       Inl e \<Rightarrow> Inl (Wrapped ''sign access token'')
                     | Inr access \<Rightarrow>
                         if fl ''commit refresh token'' then Inl (Wrapped ''commit refresh token'')
                         else Inr (access, evicted, db2))))"

subsection \<open>The mint\<close>

text \<open>
  The part before the transaction: the grant guard, the administrative scope, the roles (a failure
  to load them falls back to the primary role), the organisation, the audience, and the narrowing of
  permissions and scopes. The \<open>sid\<close> claim is filled in by the transaction.
\<close>

definition mint_claims ::
  "int \<Rightarrow> int \<Rightarrow> string \<Rightarrow> string \<Rightarrow> string list \<Rightarrow> sessionContext \<Rightarrow> string \<Rightarrow> string \<Rightarrow> string \<times> string list option \<Rightarrow>
   string list result \<Rightarrow> mintOrganization option \<Rightarrow> MintAudience \<Rightarrow> Claims" where
  "mint_claims userID tenantID email role perms sess appID scope admin loaded org aud =
     (let roles0 = (case loaded of Inl _ \<Rightarrow> [] | Inr rs \<Rightarrow> rs);
          narrow = (\<lambda>ps. if sc_filterPerms sess then FilterPermissionsForClient ps (ma_FirstParty aud) else ps)
      in \<lparr>cl_UserID = FormatInt userID, cl_TenantID = FormatInt tenantID, cl_AppID = appID,
          cl_Email = email, cl_Role = role,
          cl_Roles = (if roles0 = [] \<and> role \<noteq> [] then [role] else roles0),
          cl_ActiveRoles = sc_activeRoles sess,
          cl_Permissions = narrow perms,
          cl_Scope = (case ma_GrantedScopes aud of
                        None \<Rightarrow> scope
                      | Some gs \<Rightarrow> if scope \<noteq> [] then Join (FilterScopes (Fields scope) gs) else scope),
          cl_AdminScope = fst admin, cl_AdminApps = snd admin,
          cl_OrgID = (case org of None \<Rightarrow> [] | Some g \<Rightarrow> mo_publicID g),
          cl_OrgName = (case org of None \<Rightarrow> [] | Some g \<Rightarrow> mo_slug g),
          cl_OrgRoles = (case org of None \<Rightarrow> [] | Some g \<Rightarrow> mo_roles g),
          cl_OrgPermissions = (case org of None \<Rightarrow> [] | Some g \<Rightarrow> narrow (mo_permissions g)),
          cl_SessionID = []\<rparr>)"

definition mint_prepare ::
  "'r mint_env \<Rightarrow> faults \<Rightarrow> int \<Rightarrow> int \<Rightarrow> string \<Rightarrow> string \<Rightarrow> string list \<Rightarrow> sessionContext \<Rightarrow> string \<Rightarrow> string \<Rightarrow>
   (mintOrganization option \<times> MintAudience \<times> Claims) result" where
  "mint_prepare M fl userID tenantID email role perms sess appID scope =
     (if sc_grant sess = [] then Inl ErrMissingGrantType
      else (case resolveAdminScope (me_grantsEnabled M) fl userID tenantID (me_authority M) of
              Inl e \<Rightarrow> Inl e
            | Inr admin \<Rightarrow>
                (case me_resolveOrganization M userID tenantID email role perms sess appID scope of
                   Inl e \<Rightarrow> Inl e
                 | Inr org \<Rightarrow>
                     (case ResolveMintAudience (me_scheme M) fl
                             \<lparr>ar_AppRowID = parseAppIDValue appID, ar_Requested = sc_audience sess,
                              ar_Pinned = sc_pinnedAudience sess\<rparr> (me_audience_db M) of
                        Inl e \<Rightarrow> Inl e
                      | Inr aud \<Rightarrow>
                          Inr (org, aud, mint_claims userID tenantID email role perms sess appID scope admin
                                           (loadRoles fl userID tenantID (me_authority M)) org aud)))))"

text \<open>
  The mint. \<open>rawRefresh\<close> is the value \<^verbatim>\<open>GenerateRefreshToken\<close> returns, \<open>None\<close> when the random source
  fails. The sessions the cap displaced are denied only after the commit.
\<close>

definition issueTokenPairWithScope ::
  "'r mint_env \<Rightarrow> faults \<Rightarrow> time \<Rightarrow> string option \<Rightarrow> int \<Rightarrow> int \<Rightarrow> string \<Rightarrow> string \<Rightarrow> string list \<Rightarrow>
   sessionContext \<Rightarrow> string \<Rightarrow> string \<Rightarrow> 'r mint_state \<Rightarrow> AuthResult result \<times> 'r mint_state" where
  "issueTokenPairWithScope M fl now rawRefresh userID tenantID email role perms sess appID scope st =
     (case mint_prepare M fl userID tenantID email role perms sess appID scope of
        Inl e \<Rightarrow> (Inl e, st)
      | Inr (org, aud, claims) \<Rightarrow>
          (case rawRefresh of
             None \<Rightarrow> (Inl (Wrapped ''generate refresh token''), st)
           | Some raw \<Rightarrow>
               (case SessionPolicy_Resolve (me_policies M) fl now tenantID (parseAppID appID) (ms_policy st) of
                  (policy, sv) \<Rightarrow>
                    (case mint_tx M fl now raw userID tenantID sess appID policy (map_option mo_rowID org)
                            (ma_Value aud) claims (st_db (ms_auth st)) of
                       Inl e \<Rightarrow> (Inl e, st\<lparr>ms_policy := sv\<rparr>)
                     | Inr (access, evicted, db') \<Rightarrow>
                         (Inr \<lparr>AccessToken = access, RefreshToken = raw, TokenType = ''Bearer'',
                               ExpiresIn = whole_seconds AccessTokenTTL, ExpiresAt = unix (now + AccessTokenTTL)\<rparr>,
                          st\<lparr>ms_policy := sv,
                             ms_auth := fold (denySession (me_auth M) fl now) evicted
                                          ((ms_auth st)\<lparr>st_db := db'\<rparr>)\<rparr>)))))"

definition issueTokenPair ::
  "'r mint_env \<Rightarrow> faults \<Rightarrow> time \<Rightarrow> string option \<Rightarrow> int \<Rightarrow> int \<Rightarrow> string \<Rightarrow> string \<Rightarrow> string list \<Rightarrow>
   sessionContext \<Rightarrow> string \<Rightarrow> 'r mint_state \<Rightarrow> AuthResult result \<times> 'r mint_state" where
  "issueTokenPair M fl now rawRefresh userID tenantID email role perms sess appID st =
     issueTokenPairWithScope M fl now rawRefresh userID tenantID email role perms sess appID [] st"

subsection \<open>The statements of the mint keep the tables well-formed\<close>

lemma touch_session_None_iff:
  assumes "session_db_ok db"
  shows "touch_session now idle sid db = None \<longleftrightarrow>
     (\<forall>s. find_session sid db = Some s \<longrightarrow> us_revoked_at s \<noteq> None)"
proof -
  have "touch_session now idle sid db = None \<longleftrightarrow>
      filter (\<lambda>s. us_id s = sid \<and> us_revoked_at s = None) (sessions db) = []"
    by (simp add: touch_session_def Let_def split: list.splits)
  then have "touch_session now idle sid db = None \<longleftrightarrow>
      (\<forall>s \<in> set (sessions db). us_id s = sid \<longrightarrow> us_revoked_at s \<noteq> None)"
    by (auto simp: filter_empty_conv)
  then show ?thesis
    using find_session_mem [OF assms] find_session_Some by blast
qed

lemma touch_session_SomeD:
  assumes ok: "session_db_ok db" and run: "touch_session now idle sid db = Some (e, db')"
  obtains s where "find_session sid db = Some s" "us_revoked_at s = None" "e = absolute_expires_at s"
    "db' = db\<lparr>sessions := update_where (\<lambda>s. us_id s = sid \<and> us_revoked_at s = None)
               (\<lambda>s. s\<lparr>last_seen_at := now, idle_expires_at := min idle (absolute_expires_at s)\<rparr>) (sessions db)\<rparr>"
proof -
  from run obtain s rest where f: "filter (\<lambda>s. us_id s = sid \<and> us_revoked_at s = None) (sessions db) = s # rest"
    and e: "e = absolute_expires_at s"
    and db': "db' = db\<lparr>sessions := update_where (\<lambda>s. us_id s = sid \<and> us_revoked_at s = None)
               (\<lambda>s. s\<lparr>last_seen_at := now, idle_expires_at := min idle (absolute_expires_at s)\<rparr>) (sessions db)\<rparr>"
    by (auto simp: touch_session_def Let_def split: list.splits)
  have "s \<in> set (filter (\<lambda>s. us_id s = sid \<and> us_revoked_at s = None) (sessions db))" unfolding f by simp
  then show ?thesis using that [OF _ _ e db'] find_session_mem [OF ok] by auto
qed

text \<open>A token stays well-formed when every session keeps its owner, its deadline and its liveness.\<close>

lemma token_ok_mono:
  assumes "token_ok db t"
    and "\<And>s. s \<in> set (sessions db) \<Longrightarrow> \<exists>s' \<in> set (sessions db'). us_id s' = us_id s \<and> us_user s' = us_user s
          \<and> us_tenant s' = us_tenant s \<and> absolute_expires_at s' = absolute_expires_at s
          \<and> us_revoked_at s' = us_revoked_at s"
  shows "token_ok db' t"
  using assms unfolding token_ok_def by (metis (no_types, lifting))

lemma touch_session_ok:
  assumes ok: "session_db_ok db" and run: "touch_session now idle sid db = Some (e, db')"
  shows "session_db_ok db'"
proof -
  let ?hit = "\<lambda>s. us_id s = sid \<and> us_revoked_at s = None"
  let ?f = "\<lambda>s. s\<lparr>last_seen_at := now, idle_expires_at := min idle (absolute_expires_at s)\<rparr>"
  from touch_session_SomeD [OF ok run]
  have db': "db' = db\<lparr>sessions := update_where ?hit ?f (sessions db)\<rparr>" by blast
  have mem: "(if ?hit s then ?f s else s) \<in> set (sessions db')" if "s \<in> set (sessions db)" for s
    using that by (auto simp: db' set_update_where)
  have "token_ok db' t" if "token_ok db t" for t
  proof (rule token_ok_mono [OF that])
    fix s assume "s \<in> set (sessions db)"
    from mem [OF this] show "\<exists>s' \<in> set (sessions db'). us_id s' = us_id s \<and> us_user s' = us_user s
          \<and> us_tenant s' = us_tenant s \<and> absolute_expires_at s' = absolute_expires_at s
          \<and> us_revoked_at s' = us_revoked_at s"
      by (rule bexI [rotated]) simp
  qed
  then show ?thesis
    using ok by (auto simp: session_db_ok_def db' map_update_where set_update_where)
qed

lemma insert_session_ok:
  assumes ok: "session_db_ok db" and row: "idle_expires_at row \<le> absolute_expires_at row"
    and run: "insert_session row db = (sid, db')"
  shows "session_db_ok db'"
proof -
  have db': "db' = db\<lparr>sessions := sessions db @ [row\<lparr>us_id := next_session_id db\<rparr>],
      next_session_id := next_session_id db + 1\<rparr>"
    using run by (auto simp: insert_session_def)
  have "token_ok db' t" if "token_ok db t" for t
    by (rule token_ok_mono [OF that]) (auto simp: db')
  then show ?thesis using ok row by (fastforce simp: session_db_ok_def db')
qed

lemma insert_token_ok:
  assumes ok: "session_db_ok db" and row: "token_ok db row" and run: "insert_token row db = Some db'"
  shows "session_db_ok db'"
proof -
  have db': "db' = db\<lparr>tokens := tokens db @ [row\<lparr>rt_id := next_token_id db\<rparr>], next_token_id := next_token_id db + 1\<rparr>"
    and fresh: "token_hash row \<notin> token_hash ` set (tokens db)"
    using run by (auto simp: insert_token_def split: if_splits)
  have "token_ok db' t" if "token_ok db t" for t
    by (rule token_ok_mono [OF that]) (auto simp: db')
  moreover have "token_ok db' (row\<lparr>rt_id := next_token_id db\<rparr>)"
    using row by (auto simp: db' token_ok_def)
  ultimately show ?thesis using ok fresh by (fastforce simp: session_db_ok_def db')
qed

lemma find_session_insert:
  assumes "session_db_ok db" "insert_session row db = (sid, db')"
  shows "find_session sid db' = Some (row\<lparr>us_id := sid\<rparr>)"
proof -
  have "find (\<lambda>s. us_id s = sid) (sessions db) = None"
    using assms by (auto simp: find_None_iff session_db_ok_def insert_session_def)
  then show ?thesis
    using assms(2) by (auto simp: find_session_def insert_session_def find_append)
qed

lemma find_token_insert:
  assumes "insert_token row db = Some db'"
  shows "find_token (token_hash row) db' = Some (row\<lparr>rt_id := next_token_id db\<rparr>)"
proof -
  have "token_hash row \<notin> token_hash ` set (tokens db)"
    using assms by (auto simp: insert_token_def split: if_splits)
  then have "find (\<lambda>t. token_hash t = token_hash row) (tokens db) = None"
    unfolding find_None_iff by (metis image_eqI)
  then show ?thesis
    using assms by (auto simp: find_token_def insert_token_def find_append split: if_splits)
qed

lemma mint_deadlines_order: "mint_deadlines p now sess = (idle, absolute) \<Longrightarrow> idle \<le> absolute"
  by (auto simp: mint_deadlines_def Let_def split: if_splits)

subsection \<open>The transaction, by kind of mint\<close>

text \<open>What the caller of a rotation guarantees: the session named is the account's own.\<close>

definition mint_caller_ok :: "int \<Rightarrow> int \<Rightarrow> sessionContext \<Rightarrow> session_db \<Rightarrow> bool" where
  "mint_caller_ok userID tenantID sess db \<longleftrightarrow>
     (case sc_sessionID sess of None \<Rightarrow> True
      | Some sid \<Rightarrow> (case find_session sid db of None \<Rightarrow> True
                     | Some s \<Rightarrow> us_user s = userID \<and> us_tenant s = tenantID))"

lemma mint_session_rotation:
  assumes sid: "sc_sessionID sess = Some sid" and d: "mint_deadlines policy now sess = (idle, absolute)"
    and run: "mint_session M fl now u t sess appID policy org db = Inr (sid', expires, evicted, db1)"
  shows "sid' = sid \<and> evicted = [] \<and> touch_session now idle sid db = Some (expires, db1)"
  using run by (auto simp: mint_session_def sid d split: if_splits option.splits)

lemma mint_session_new:
  assumes sid: "sc_sessionID sess = None" and d: "mint_deadlines policy now sess = (idle, absolute)"
    and run: "mint_session M fl now u t sess appID policy org db = Inr (sid', expires, evicted, db1)"
  shows "expires = absolute \<and> evicted = fst (enforceSessionCap now u t (MaxConcurrentSessions policy) db)
    \<and> (sid', db1) = insert_session (new_session_row (me_device M) now u t sess appID idle absolute org)
                     (snd (enforceSessionCap now u t (MaxConcurrentSessions policy) db))"
  using run by (auto simp: mint_session_def sid d split: if_splits option.splits prod.splits)

text \<open>Either way the session exists, is the account's, is not revoked and lasts as long as the token.\<close>

lemma mint_session_ok:
  assumes ok: "session_db_ok db" and caller: "mint_caller_ok u t sess db"
    and run: "mint_session M fl now u t sess appID policy org db = Inr (sid, expires, evicted, db1)"
  shows "session_db_ok db1"
    and "\<exists>s. find_session sid db1 = Some s \<and> us_user s = u \<and> us_tenant s = t
           \<and> us_revoked_at s = None \<and> absolute_expires_at s = expires"
proof -
  obtain idle absolute where d: "mint_deadlines policy now sess = (idle, absolute)" by fastforce
  have "session_db_ok db1 \<and> (\<exists>s. find_session sid db1 = Some s \<and> us_user s = u \<and> us_tenant s = t
           \<and> us_revoked_at s = None \<and> absolute_expires_at s = expires)"
  proof (cases "sc_sessionID sess")
    case None
    let ?db = "snd (enforceSessionCap now u t (MaxConcurrentSessions policy) db)"
    let ?row = "new_session_row (me_device M) now u t sess appID idle absolute org"
    from mint_session_new [OF None d run]
    have e: "expires = absolute" and ins: "insert_session ?row ?db = (sid, db1)" by simp_all
    have okc: "session_db_ok ?db" using cap.kill_ok [OF ok] .
    have "idle_expires_at ?row \<le> absolute_expires_at ?row"
      using mint_deadlines_order [OF d] by (simp add: new_session_row_def)
    with insert_session_ok [OF okc _ ins] find_session_insert [OF okc ins] e show ?thesis
      by (simp add: new_session_row_def)
  next
    case (Some sid0)
    from mint_session_rotation [OF Some d run]
    have sid: "sid = sid0" and touch: "touch_session now idle sid db = Some (expires, db1)" by simp_all
    obtain s where s: "find_session sid db = Some s" "us_revoked_at s = None" "expires = absolute_expires_at s"
      and db1: "db1 = db\<lparr>sessions := update_where (\<lambda>s. us_id s = sid \<and> us_revoked_at s = None)
               (\<lambda>s. s\<lparr>last_seen_at := now, idle_expires_at := min idle (absolute_expires_at s)\<rparr>) (sessions db)\<rparr>"
      by (rule touch_session_SomeD [OF ok touch])
    let ?s = "s\<lparr>last_seen_at := now, idle_expires_at := min idle (absolute_expires_at s)\<rparr>"
    have ok1: "session_db_ok db1" by (rule touch_session_ok [OF ok touch])
    have "?s \<in> set (sessions db1)"
      using s find_session_Some by (force simp: db1 set_update_where)
    with find_session_mem [OF ok1 this] find_session_Some [OF s(1)] have "find_session sid db1 = Some ?s" by simp
    then show ?thesis
      using ok1 s caller by (simp add: mint_caller_ok_def Some sid)
  qed
  then show "session_db_ok db1" "\<exists>s. find_session sid db1 = Some s \<and> us_user s = u \<and> us_tenant s = t
           \<and> us_revoked_at s = None \<and> absolute_expires_at s = expires" by simp_all
qed

lemma mint_tx_InrD:
  assumes "mint_tx M fl now raw u t sess appID policy org aud claims db = Inr (access, evicted, db')"
  obtains sid expires db1 where
    "mint_session M fl now u t sess appID policy org db = Inr (sid, expires, evicted, db1)"
    "insert_token (new_token_row now u t (HashToken (me_auth M) raw) expires sid appID aud (sc_activeRoles sess)) db1 = Some db'"
    "me_sign M t aud (sc_grant sess) (claims\<lparr>cl_SessionID := FormatInt sid\<rparr>) = Inr access"
  using assms unfolding mint_tx_def
  by (auto split: if_splits sum.splits option.splits prod.splits)

lemma mint_tx_ok:
  assumes ok: "session_db_ok db" and caller: "mint_caller_ok u t sess db"
    and run: "mint_tx M fl now raw u t sess appID policy org aud claims db = Inr (access, evicted, db')"
  shows "session_db_ok db'"
proof -
  from run obtain sid expires db1 where
    m: "mint_session M fl now u t sess appID policy org db = Inr (sid, expires, evicted, db1)"
    and i: "insert_token (new_token_row now u t (HashToken (me_auth M) raw) expires sid appID aud (sc_activeRoles sess)) db1 = Some db'"
    by (rule mint_tx_InrD)
  obtain s where "find_session sid db1 = Some s" "us_user s = u" "us_tenant s = t"
    "us_revoked_at s = None" "absolute_expires_at s = expires"
    using mint_session_ok(2) [OF ok caller m] by blast
  then have "token_ok db1 (new_token_row now u t (HashToken (me_auth M) raw) expires sid appID aud (sc_activeRoles sess))"
    using find_session_Some by (force simp: token_ok_def new_token_row_def)
  then show ?thesis
    by (rule insert_token_ok [OF mint_session_ok(1) [OF ok caller m] _ i])
qed

subsection \<open>The mint, by outcome\<close>

lemma issue_cases:
  assumes run: "issueTokenPairWithScope M fl now rawRefresh u t email role perms sess appID scope st = (res, st')"
  obtains (failed) e where "res = Inl e" "ms_auth st' = ms_auth st"
  | (minted) r policy org aud claims access evicted db' where
      "res = Inr r" "rawRefresh = Some (RefreshToken r)" "AccessToken r = access"
      "policy = fst (SessionPolicy_Resolve (me_policies M) fl now t (parseAppID appID) (ms_policy st))"
      "mint_prepare M fl u t email role perms sess appID scope = Inr (org, aud, claims)"
      "mint_tx M fl now (RefreshToken r) u t sess appID policy (map_option mo_rowID org) (ma_Value aud) claims
         (st_db (ms_auth st)) = Inr (access, evicted, db')"
      "ms_auth st' = fold (denySession (me_auth M) fl now) evicted ((ms_auth st)\<lparr>st_db := db'\<rparr>)"
proof (cases "mint_prepare M fl u t email role perms sess appID scope")
  case (Inl e)
  then show ?thesis using run failed by (auto simp: issueTokenPairWithScope_def)
next
  case (Inr p)
  obtain org aud claims where p: "p = (org, aud, claims)" by (cases p) auto
  obtain policy sv where pol: "SessionPolicy_Resolve (me_policies M) fl now t (parseAppID appID) (ms_policy st) = (policy, sv)"
    by fastforce
  note def = run [unfolded issueTokenPairWithScope_def Inr p sum.case prod.case pol]
  show ?thesis
  proof (cases rawRefresh)
    case None
    then show ?thesis using def failed by auto
  next
    case (Some raw)
    show ?thesis
    proof (cases "mint_tx M fl now raw u t sess appID policy (map_option mo_rowID org) (ma_Value aud) claims (st_db (ms_auth st))")
      case (Inl e)
      then show ?thesis using def failed Some by auto
    next
      case tx: (Inr q)
      obtain access evicted db' where q: "q = (access, evicted, db')" by (cases q) auto
      let ?r = "\<lparr>AccessToken = access, RefreshToken = raw, TokenType = ''Bearer'',
                 ExpiresIn = whole_seconds AccessTokenTTL, ExpiresAt = unix (now + AccessTokenTTL)\<rparr>"
      have "res = Inr ?r" "ms_auth st' = fold (denySession (me_auth M) fl now) evicted ((ms_auth st)\<lparr>st_db := db'\<rparr>)"
        using def Some tx q by auto
      with Some tx q pol Inr p show ?thesis by (intro minted [of ?r access policy org aud claims evicted db']) simp_all
    qed
  qed
qed

lemma fold_deny_keeps_db [simp]: "st_db (fold (denySession E fl now) ids st) = st_db st"
  by (induction ids arbitrary: st) (simp_all add: denySession_def)

text \<open>The token row a successful mint stores, under the hash of the raw token it returns.\<close>

lemma minted_token:
  assumes ok: "session_db_ok db" and caller: "mint_caller_ok u t sess db"
    and run: "mint_tx M fl now raw u t sess appID policy org aud claims db = Inr (access, evicted, db')"
  obtains k sid s where
    "find_token (HashToken (me_auth M) raw) db' = Some k" "rt_session k = Some sid" "find_session sid db' = Some s"
    "us_user s = u" "us_tenant s = t" "us_revoked_at s = None" "expires_at k = absolute_expires_at s"
    "rt_user k = u" "rt_tenant k = t" "rt_app k = parseAppID appID" "rt_active_roles k = sc_activeRoles sess"
    "rt_audience k = (if aud = [] then None else Some aud)" "rt_revoked_at k = None" "rt_deleted_at k = None"
    "me_sign M t aud (sc_grant sess) (claims\<lparr>cl_SessionID := FormatInt sid\<rparr>) = Inr access"
    "sc_sessionID sess = Some i \<longrightarrow> sid = i"
proof -
  from run obtain sid expires db1 where
    m: "mint_session M fl now u t sess appID policy org db = Inr (sid, expires, evicted, db1)"
    and i: "insert_token (new_token_row now u t (HashToken (me_auth M) raw) expires sid appID aud (sc_activeRoles sess)) db1 = Some db'"
    and sign: "me_sign M t aud (sc_grant sess) (claims\<lparr>cl_SessionID := FormatInt sid\<rparr>) = Inr access"
    by (rule mint_tx_InrD)
  obtain s where s: "find_session sid db1 = Some s" "us_user s = u" "us_tenant s = t"
    "us_revoked_at s = None" "absolute_expires_at s = expires"
    using mint_session_ok(2) [OF ok caller m] by blast
  have "sessions db' = sessions db1" using i by (auto simp: insert_token_def split: if_splits)
  then have "find_session sid db' = Some s" using s by (simp add: find_session_def)
  moreover obtain idle absolute where "mint_deadlines policy now sess = (idle, absolute)" by fastforce
  then have "sc_sessionID sess = Some i \<longrightarrow> sid = i"
    using mint_session_rotation [OF _ _ m] by blast
  ultimately show ?thesis
    using that find_token_insert [OF i] s sign by (simp add: new_token_row_def)
qed

subsection \<open>The mint, whoever owns the session\<close>

text \<open>
  The part of the table invariant that does not speak of owners. A tenant switch mints for another tenant than the one its session
  was opened in, so the full invariant asks for a caller that names its own session; this part does not.
\<close>

definition token_bound :: "session_db \<Rightarrow> refresh_token \<Rightarrow> bool" where
  "token_bound db t \<longleftrightarrow>
     (\<forall>i. rt_session t = Some i \<longrightarrow>
        (\<exists>s \<in> set (sessions db). us_id s = i \<and> expires_at t \<le> absolute_expires_at s
           \<and> (us_revoked_at s \<noteq> None \<longrightarrow> rt_revoked_at t \<noteq> None)))"

definition tables_ok :: "session_db \<Rightarrow> bool" where
  "tables_ok db \<longleftrightarrow>
     distinct (map us_id (sessions db)) \<and> distinct (map rt_id (tokens db)) \<and> distinct (map token_hash (tokens db))
     \<and> (\<forall>s \<in> set (sessions db). 0 < us_id s \<and> us_id s < next_session_id db \<and> idle_expires_at s \<le> absolute_expires_at s)
     \<and> (\<forall>t \<in> set (tokens db). rt_id t < next_token_id db \<and> token_bound db t)
     \<and> 0 < next_session_id db"

lemma session_db_tables: "session_db_ok db \<Longrightarrow> tables_ok db"
  unfolding session_db_ok_def tables_ok_def token_ok_def token_bound_def by blast

text \<open>A token stays bound when every session keeps its deadline, and its liveness unless the token is revoked too.\<close>

lemma token_bound_mono:
  assumes "token_bound db t" "rt_session t' = rt_session t" "expires_at t' = expires_at t"
    and "\<And>s. s \<in> set (sessions db) \<Longrightarrow> \<exists>s' \<in> set (sessions db'). us_id s' = us_id s \<and> absolute_expires_at s' = absolute_expires_at s
          \<and> (rt_session t = Some (us_id s) \<longrightarrow> (us_revoked_at s \<noteq> None \<longrightarrow> rt_revoked_at t \<noteq> None) \<longrightarrow>
               us_revoked_at s' \<noteq> None \<longrightarrow> rt_revoked_at t' \<noteq> None)"
  shows "token_bound db' t'"
  unfolding token_bound_def assms(2,3)
proof (intro allI impI)
  fix i assume i: "rt_session t = Some i"
  with assms(1) obtain s where s: "s \<in> set (sessions db)" "us_id s = i" "expires_at t \<le> absolute_expires_at s"
    "us_revoked_at s \<noteq> None \<longrightarrow> rt_revoked_at t \<noteq> None" unfolding token_bound_def by blast
  from assms(4) [OF s(1)] i s show "\<exists>s \<in> set (sessions db'). us_id s = i \<and> expires_at t \<le> absolute_expires_at s
      \<and> (us_revoked_at s \<noteq> None \<longrightarrow> rt_revoked_at t' \<noteq> None)" by auto
qed

lemma touch_session_tables:
  assumes ok: "tables_ok db" and run: "touch_session now idle sid db = Some (e, db')"
  shows "tables_ok db'"
    and "\<exists>q s. find_session sid db = Some q \<and> find_session sid db' = Some s \<and> us_user s = us_user q \<and> us_tenant s = us_tenant q
      \<and> us_revoked_at s = None \<and> absolute_expires_at s = absolute_expires_at q \<and> e = absolute_expires_at q"
proof -
  let ?hit = "\<lambda>s. us_id s = sid \<and> us_revoked_at s = None"
  let ?f = "\<lambda>s. s\<lparr>last_seen_at := now, idle_expires_at := min idle (absolute_expires_at s)\<rparr>"
  from run obtain q rest where f: "filter ?hit (sessions db) = q # rest" and e: "e = absolute_expires_at q"
    and db': "db' = db\<lparr>sessions := update_where ?hit ?f (sessions db)\<rparr>"
    by (auto simp: touch_session_def Let_def split: list.splits)
  have "q \<in> set (filter ?hit (sessions db))" unfolding f by simp
  then have q: "q \<in> set (sessions db)" "us_id q = sid" "us_revoked_at q = None" by simp_all
  have mem: "(if ?hit s then ?f s else s) \<in> set (sessions db')" if "s \<in> set (sessions db)" for s
    using that by (auto simp: db' set_update_where)
  have "token_bound db' t" if "token_bound db t" for t
  proof (rule token_bound_mono [OF that refl refl])
    fix s assume "s \<in> set (sessions db)"
    from mem [OF this] show "\<exists>s' \<in> set (sessions db'). us_id s' = us_id s \<and> absolute_expires_at s' = absolute_expires_at s
        \<and> (rt_session t = Some (us_id s) \<longrightarrow> (us_revoked_at s \<noteq> None \<longrightarrow> rt_revoked_at t \<noteq> None) \<longrightarrow> us_revoked_at s' \<noteq> None \<longrightarrow> rt_revoked_at t \<noteq> None)"
      by (rule bexI [rotated]) simp
  qed
  with ok show ok': "tables_ok db'" by (auto simp: tables_ok_def db' map_update_where set_update_where)
  have find: "find_session (us_id s) d = Some s" if "tables_ok d" "s \<in> set (sessions d)" for s d
    using that by (simp add: tables_ok_def find_session_def find_key_mem)
  have "find_session sid db = Some q" using find [OF ok q(1)] q(2) by simp
  moreover have "find_session sid db' = Some (?f q)" using find [OF ok' mem [OF q(1)]] q by simp
  ultimately show "\<exists>q s. find_session sid db = Some q \<and> find_session sid db' = Some s \<and> us_user s = us_user q \<and> us_tenant s = us_tenant q
      \<and> us_revoked_at s = None \<and> absolute_expires_at s = absolute_expires_at q \<and> e = absolute_expires_at q"
    using e q(3) by auto
qed

lemma insert_session_tables:
  assumes ok: "tables_ok db" and row: "idle_expires_at row \<le> absolute_expires_at row" and run: "insert_session row db = (sid, db')"
  shows "tables_ok db'" "find_session sid db' = Some (row\<lparr>us_id := sid\<rparr>)"
proof -
  have db': "db' = db\<lparr>sessions := sessions db @ [row\<lparr>us_id := next_session_id db\<rparr>], next_session_id := next_session_id db + 1\<rparr>"
    and sid: "sid = next_session_id db"
    using run by (auto simp: insert_session_def)
  have "token_bound db' t" if "token_bound db t" for t
    by (rule token_bound_mono [OF that refl refl]) (auto simp: db')
  then show "tables_ok db'" using ok row by (fastforce simp: tables_ok_def db')
  have "find (\<lambda>s. us_id s = sid) (sessions db) = None" using ok by (auto simp: find_None_iff tables_ok_def sid)
  then show "find_session sid db' = Some (row\<lparr>us_id := sid\<rparr>)" by (auto simp: find_session_def db' sid find_append)
qed

lemma insert_token_tables:
  assumes ok: "tables_ok db" and row: "token_bound db row" and run: "insert_token row db = Some db'"
  shows "tables_ok db'"
proof -
  have db': "db' = db\<lparr>tokens := tokens db @ [row\<lparr>rt_id := next_token_id db\<rparr>], next_token_id := next_token_id db + 1\<rparr>"
    and fresh: "token_hash row \<notin> token_hash ` set (tokens db)"
    using run by (auto simp: insert_token_def split: if_splits)
  have "token_bound db' t" if "token_bound db t" for t
    by (rule token_bound_mono [OF that refl refl]) (auto simp: db')
  moreover have "token_bound db' (row\<lparr>rt_id := next_token_id db\<rparr>)" using row by (auto simp: db' token_bound_def)
  ultimately show ?thesis using ok fresh by (fastforce simp: tables_ok_def db')
qed

lemma cap_tables:
  assumes ok: "tables_ok db"
  shows "tables_ok (snd (enforceSessionCap now u t m db))"
proof -
  let ?ev = "fst (enforceSessionCap now u t m db)" and ?db = "snd (enforceSessionCap now u t m db)"
  let ?g = "\<lambda>k. if (\<exists>i \<in> set ?ev. rt_session k = Some i) \<and> rt_revoked_at k = None then stamp_token now RevokeReasonCapEvicted k else k"
  have s: "sessions ?db = revoke_sessions_where now RevokeReasonCapEvicted (\<lambda>s. us_id s \<in> set ?ev) (sessions db)"
    and k: "tokens ?db = revoke_tokens_where now RevokeReasonCapEvicted (\<lambda>k. \<exists>i \<in> set ?ev. rt_session k = Some i) (tokens db)"
    and n: "next_session_id ?db = next_session_id db" "next_token_id ?db = next_token_id db"
    using cap.sessions_kill cap.tokens_kill by (auto simp: enforceSessionCap_def Let_def)
  have bound: "token_bound ?db (?g k)" if "k \<in> set (tokens db)" for k
  proof (rule token_bound_mono [of db k])
    show "token_bound db k" using ok that by (simp add: tables_ok_def)
    fix q assume "q \<in> set (sessions db)"
    then have "(if us_id q \<in> set ?ev \<and> us_revoked_at q = None then stamp_session now RevokeReasonCapEvicted q else q) \<in> set (sessions ?db)"
      unfolding s mem_revoke_sessions by blast
    then show "\<exists>s' \<in> set (sessions ?db). us_id s' = us_id q \<and> absolute_expires_at s' = absolute_expires_at q
        \<and> (rt_session k = Some (us_id q) \<longrightarrow> (us_revoked_at q \<noteq> None \<longrightarrow> rt_revoked_at k \<noteq> None) \<longrightarrow> us_revoked_at s' \<noteq> None \<longrightarrow> rt_revoked_at (?g k) \<noteq> None)"
      by (rule bexI [rotated]) auto
  qed auto
  have tk: "rt_id x < next_token_id db \<and> token_bound ?db x" if "x \<in> set (tokens ?db)" for x
  proof -
    from that obtain k where "k \<in> set (tokens db)" "x = ?g k" unfolding k mem_revoke_tokens by blast
    then show ?thesis using bound [of k] ok by (auto simp: tables_ok_def)
  qed
  have ss: "0 < us_id x \<and> us_id x < next_session_id db \<and> idle_expires_at x \<le> absolute_expires_at x" if "x \<in> set (sessions ?db)" for x
    using that ok unfolding s mem_revoke_sessions tables_ok_def by auto
  have "map us_id (sessions ?db) = map us_id (sessions db)" "map rt_id (tokens ?db) = map rt_id (tokens db)"
    "map token_hash (tokens ?db) = map token_hash (tokens db)"
    unfolding s k by (rule revoke_sessions_keys revoke_tokens_keys)+
  with ok tk ss n show ?thesis by (simp add: tables_ok_def)
qed

text \<open>The session of a mint: a new one of the account, or the one named, which keeps its owner and its deadline.\<close>

definition mint_session_of :: "int \<Rightarrow> int \<Rightarrow> sessionContext \<Rightarrow> session_db \<Rightarrow> user_session \<Rightarrow> bool" where
  "mint_session_of u t sess db s \<longleftrightarrow>
     (case sc_sessionID sess of
        None \<Rightarrow> us_user s = u \<and> us_tenant s = t
      | Some i \<Rightarrow> us_id s = i \<and> (\<exists>q. find_session i db = Some q \<and> us_user s = us_user q \<and> us_tenant s = us_tenant q
                                   \<and> absolute_expires_at s = absolute_expires_at q))"

lemma mint_session_tables:
  assumes ok: "tables_ok db" and run: "mint_session M fl now u t sess appID policy org db = Inr (sid, expires, evicted, db1)"
  shows "tables_ok db1"
    and "\<exists>s. find_session sid db1 = Some s \<and> us_revoked_at s = None \<and> absolute_expires_at s = expires \<and> mint_session_of u t sess db s"
proof -
  obtain idle absolute where d: "mint_deadlines policy now sess = (idle, absolute)" by fastforce
  have "tables_ok db1 \<and> (\<exists>s. find_session sid db1 = Some s \<and> us_revoked_at s = None \<and> absolute_expires_at s = expires \<and> mint_session_of u t sess db s)"
  proof (cases "sc_sessionID sess")
    case None
    let ?row = "new_session_row (me_device M) now u t sess appID idle absolute org"
    from mint_session_new [OF None d run]
    have e: "expires = absolute" and ins: "insert_session ?row (snd (enforceSessionCap now u t (MaxConcurrentSessions policy) db)) = (sid, db1)" by simp_all
    have "idle_expires_at ?row \<le> absolute_expires_at ?row" using mint_deadlines_order [OF d] by (simp add: new_session_row_def)
    from insert_session_tables [OF cap_tables [OF ok] this ins] e None show ?thesis
      by (simp add: new_session_row_def mint_session_of_def)
  next
    case (Some i)
    from mint_session_rotation [OF Some d run] have sid: "sid = i" and touch: "touch_session now idle i db = Some (expires, db1)" by simp_all
    from touch_session_tables [OF ok touch] Some find_session_Some show ?thesis unfolding sid mint_session_of_def by fastforce
  qed
  then show "tables_ok db1"
    and "\<exists>s. find_session sid db1 = Some s \<and> us_revoked_at s = None \<and> absolute_expires_at s = expires \<and> mint_session_of u t sess db s" by simp_all
qed

lemma mint_tx_tables:
  assumes ok: "tables_ok db" and run: "mint_tx M fl now raw u t sess appID policy org aud claims db = Inr (access, evicted, db')"
  shows "tables_ok db'"
    and "\<exists>k sid s. find_token (HashToken (me_auth M) raw) db' = Some k \<and> rt_user k = u \<and> rt_tenant k = t \<and> rt_revoked_at k = None
      \<and> rt_active_roles k = sc_activeRoles sess \<and> rt_audience k = (if aud = [] then None else Some aud) \<and> rt_session k = Some sid
      \<and> find_session sid db' = Some s \<and> us_revoked_at s = None \<and> expires_at k = absolute_expires_at s \<and> mint_session_of u t sess db s
      \<and> me_sign M t aud (sc_grant sess) (claims\<lparr>cl_SessionID := FormatInt sid\<rparr>) = Inr access"
proof -
  from run obtain sid expires db1 where
    m: "mint_session M fl now u t sess appID policy org db = Inr (sid, expires, evicted, db1)"
    and i: "insert_token (new_token_row now u t (HashToken (me_auth M) raw) expires sid appID aud (sc_activeRoles sess)) db1 = Some db'"
    and sign: "me_sign M t aud (sc_grant sess) (claims\<lparr>cl_SessionID := FormatInt sid\<rparr>) = Inr access"
    by (rule mint_tx_InrD)
  obtain s where s: "find_session sid db1 = Some s" "us_revoked_at s = None" "absolute_expires_at s = expires" "mint_session_of u t sess db s"
    using mint_session_tables(2) [OF ok m] by blast
  then have "token_bound db1 (new_token_row now u t (HashToken (me_auth M) raw) expires sid appID aud (sc_activeRoles sess))"
    using find_session_Some by (force simp: token_bound_def new_token_row_def)
  then show "tables_ok db'" by (rule insert_token_tables [OF mint_session_tables(1) [OF ok m] _ i])
  have "sessions db' = sessions db1" using i by (auto simp: insert_token_def split: if_splits)
  then have "find_session sid db' = Some s" using s by (simp add: find_session_def)
  with find_token_insert [OF i] s sign
  show "\<exists>k sid s. find_token (HashToken (me_auth M) raw) db' = Some k \<and> rt_user k = u \<and> rt_tenant k = t \<and> rt_revoked_at k = None
      \<and> rt_active_roles k = sc_activeRoles sess \<and> rt_audience k = (if aud = [] then None else Some aud) \<and> rt_session k = Some sid
      \<and> find_session sid db' = Some s \<and> us_revoked_at s = None \<and> expires_at k = absolute_expires_at s \<and> mint_session_of u t sess db s
      \<and> me_sign M t aud (sc_grant sess) (claims\<lparr>cl_SessionID := FormatInt sid\<rparr>) = Inr access"
    by (auto simp: new_token_row_def)
qed

text \<open>
  C4: A mint is all or nothing. Whatever calls fail, the tables stay well-formed (unique keys, every token bound to a session that
  outlives it and revoked with it), and where the session named is the account's own, every token also keeps the owner of its
  session; a mint that returns an error has left the tables and the denylist as they were; and a mint that succeeds has
  stored, under the hash of the token it returns, one unrevoked refresh token of the account that
  belongs to an unrevoked session, a new one of the account or the one named with its owner and deadline unchanged, expires exactly
  at that session's absolute deadline, carries the audience resolved for the mint and the active roles, and whose access token was
  signed with that session's \<^verbatim>\<open>sid\<close>.
\<close>

theorem issueTokenPairWithScope_atomic:
  assumes ok: "tables_ok (st_db (ms_auth st))"
    and run: "issueTokenPairWithScope M fl now rawRefresh u t email role perms sess appID scope st = (res, st')"
  shows "tables_ok (st_db (ms_auth st'))
    \<and> (session_db_ok (st_db (ms_auth st)) \<and> mint_caller_ok u t sess (st_db (ms_auth st)) \<longrightarrow> session_db_ok (st_db (ms_auth st')))
    \<and> (case res of
         Inl e \<Rightarrow> ms_auth st' = ms_auth st
       | Inr r \<Rightarrow> \<exists>k sid s org aud claims.
           find_token (HashToken (me_auth M) (RefreshToken r)) (st_db (ms_auth st')) = Some k
           \<and> rt_user k = u \<and> rt_tenant k = t \<and> rt_revoked_at k = None
           \<and> rt_active_roles k = sc_activeRoles sess
           \<and> rt_session k = Some sid \<and> find_session sid (st_db (ms_auth st')) = Some s
           \<and> mint_session_of u t sess (st_db (ms_auth st)) s \<and> us_revoked_at s = None
           \<and> expires_at k = absolute_expires_at s
           \<and> mint_prepare M fl u t email role perms sess appID scope = Inr (org, aud, claims)
           \<and> rt_audience k = (if ma_Value aud = [] then None else Some (ma_Value aud))
           \<and> me_sign M t (ma_Value aud) (sc_grant sess) (claims\<lparr>cl_SessionID := FormatInt sid\<rparr>) = Inr (AccessToken r))"
  using run
proof (cases rule: issue_cases)
  case (failed e)
  then show ?thesis using ok by simp
next
  case (minted r policy org aud claims access evicted db')
  have db': "st_db (ms_auth st') = db'" using minted(7) by simp
  have "session_db_ok (st_db (ms_auth st)) \<and> mint_caller_ok u t sess (st_db (ms_auth st)) \<longrightarrow> session_db_ok db'"
    using mint_tx_ok [OF _ _ minted(6)] by blast
  with mint_tx_tables [OF ok minted(6)] minted(1,3,5) show ?thesis unfolding db' by auto
qed

subsection \<open>A concrete mint for the examples\<close>

definition sample_context :: sessionContext where
  "sample_context =
     \<lparr>sc_sessionID = None, sc_persistent = False, sc_amr = [''pwd''], sc_authTime = None, sc_grant = ''password'',
      sc_activeRoles = None, sc_audience = [], sc_pinnedAudience = [], sc_filterPerms = False,
      sc_org = \<lparr>org_requested = [], org_boundID = None, org_personal = False, org_skip = False\<rparr>,
      sc_absoluteCap = None\<rparr>"

text \<open>The one policy row caps user sessions at two; the signer returns the session id.\<close>

definition sample_policies :: session_policies where
  "sample_policies =
     [\<lparr>pr_tenant = Some 3, pr_app = None,
       pr_cols = \<lparr>idle_ttl_seconds = 600, non_persistent_idle_ttl_seconds = 300, absolute_ttl_seconds = 3600,
                  max_concurrent_sessions = 2, allow_persistent = True\<rparr>\<rparr>]"

definition sample_mint_env :: "keyspace mint_env" where
  "sample_mint_env =
     \<lparr>me_auth = keyspace_env id, me_scheme = AudienceSchemeDefault, me_policies = sample_policies,
      me_audience_db = sample_audience_db,
      me_device = \<lparr>ri_IPAddress = ''10.0.0.1'', ri_UserAgent = ''curl''\<rparr>,
      me_authority = sample_authority, me_grantsEnabled = True,
      me_resolveOrganization = (\<lambda>u t e r p c a s. Inr None), me_lockMembership = (\<lambda>g u a. None),
      me_sign = (\<lambda>t aud gty c. Inr (cl_SessionID c))\<rparr>"

definition sample_mint_state :: "keyspace mint_state" where
  "sample_mint_state = \<lparr>ms_auth = sample_state, ms_policy = NewSessionPolicyService True\<rparr>"

lemma sample_mint_state_ok [simp]: "session_db_ok (st_db (ms_auth sample_mint_state))"
  by (simp add: sample_mint_state_def sample_state_ok)

text \<open>A third login of user 7, under a cap of two.\<close>

lemma sample_mint_run:
  "fst (issueTokenPair sample_mint_env no_faults 100 (Some ''n'') 7 3 ''e'' ''user'' [] sample_context [] sample_mint_state) =
     Inr \<lparr>AccessToken = ''4'', RefreshToken = ''n'', TokenType = ''Bearer'', ExpiresIn = 900, ExpiresAt = 900\<rparr>"
  by code_simp

theorem issueTokenPairWithScope_atomic_witness:
  "\<exists>st' k. issueTokenPairWithScope sample_mint_env no_faults 100 (Some ''n'') 7 3 ''e'' ''user'' [] sample_context [] [] sample_mint_state
        = (Inr \<lparr>AccessToken = ''4'', RefreshToken = ''n'', TokenType = ''Bearer'', ExpiresIn = 900, ExpiresAt = 900\<rparr>, st')
     \<and> find_token ''n'' (st_db (ms_auth st')) = Some k \<and> rt_user k = 7 \<and> session_db_ok (st_db (ms_auth st'))"
proof -
  obtain res st' where run: "issueTokenPairWithScope sample_mint_env no_faults 100 (Some ''n'') 7 3 ''e'' ''user'' []
      sample_context [] [] sample_mint_state = (res, st')" by fastforce
  have res: "res = Inr \<lparr>AccessToken = ''4'', RefreshToken = ''n'', TokenType = ''Bearer'', ExpiresIn = 900, ExpiresAt = 900\<rparr>"
    using sample_mint_run run by (simp add: issueTokenPair_def)
  have "mint_caller_ok 7 3 sample_context (st_db (ms_auth sample_mint_state))"
    by (simp add: mint_caller_ok_def sample_context_def)
  with issueTokenPairWithScope_atomic [OF session_db_tables [OF sample_mint_state_ok] run] run show ?thesis
    unfolding res by (auto simp: sample_mint_env_def)
qed

subsection \<open>A new login and the cap\<close>

lemma evicted_least_recent:
  assumes "s \<in> set (drop n (ranked_live now u t db))" "q \<in> set (take n (ranked_live now u t db))"
  shows "last_seen_at s \<le> last_seen_at q"
proof -
  let ?r = "ranked_live now u t db" and ?k = "\<lambda>s. - last_seen_at s"
  have "sorted (map ?k (take n ?r) @ map ?k (drop n ?r))"
    unfolding map_append [symmetric] append_take_drop_id by (simp add: ranked_live_def)
  then show ?thesis using assms by (auto simp: sorted_append)
qed

lemma new_login_tables:
  assumes new: "sc_sessionID sess = None"
    and run: "mint_tx M fl now raw u t sess appID policy org aud claims db = Inr (access, evicted, db')"
  obtains row where "us_user row = u" "us_tenant row = t"
    "evicted = fst (enforceSessionCap now u t (MaxConcurrentSessions policy) db)"
    "sessions db' = sessions (snd (enforceSessionCap now u t (MaxConcurrentSessions policy) db)) @ [row]"
proof -
  from run obtain sid expires db1 where
    m: "mint_session M fl now u t sess appID policy org db = Inr (sid, expires, evicted, db1)"
    and i: "insert_token (new_token_row now u t (HashToken (me_auth M) raw) expires sid appID aud (sc_activeRoles sess)) db1 = Some db'"
    by (rule mint_tx_InrD)
  obtain idle absolute where d: "mint_deadlines policy now sess = (idle, absolute)" by fastforce
  have "sessions db' = sessions db1" using i by (auto simp: insert_token_def split: if_splits)
  with mint_session_new [OF new d m] show ?thesis
    by (intro that [of "new_session_row (me_device M) now u t sess appID idle absolute org \<lparr>us_id := sid\<rparr>"])
       (auto simp: insert_session_def new_session_row_def)
qed

lemma cap_find:
  assumes ok: "session_db_ok db" and s: "s \<in> set (sessions db)" "LiveSessionWhere now s"
    "us_user s = u" "us_tenant s = t" and pos: "0 < m"
  shows "if s \<in> set (drop (nat (m - 1)) (ranked_live now u t db))
         then find_session (us_id s) (snd (enforceSessionCap now u t m db)) = Some (stamp_session now RevokeReasonCapEvicted s)
           \<and> us_id s \<in> set (fst (enforceSessionCap now u t m db))
         else find_session (us_id s) (snd (enforceSessionCap now u t m db)) = Some s"
proof -
  have ev: "us_id s \<in> set (fst (enforceSessionCap now u t m db)) \<longleftrightarrow> s \<in> set (drop (nat (m - 1)) (ranked_live now u t db))"
  proof -
    have "q \<in> set (sessions db)" if "q \<in> set (drop (nat (m - 1)) (ranked_live now u t db))" for q
      using in_set_dropD [OF that] by (simp add: set_ranked_live)
    then show ?thesis
      using pos session_unique [OF ok s(1)] by (auto simp: enforceSessionCap_def Let_def)
  qed
  show ?thesis
    using live_not_revoked [OF s(2)] by (simp add: cap.find_session_kill find_session_mem [OF ok s(1)] ev)
qed

text \<open>
  C13: A login never takes an account over its cap, and makes room by ending the sessions idle longest.
  After a successful login under a positive cap, at most that many sessions of the account are live.
  Each session that was live before is either untouched, or was evicted: then it is revoked with the
  cap's reason, no surviving session was active less recently, and every request bearing its \<^verbatim>\<open>sid\<close>
  is refused for the lifetime of an access token.
\<close>

theorem login_respects_session_cap:
  assumes svc: "auth_service (me_auth M)" "redisCli (me_auth M)" and ok: "session_db_ok (st_db (ms_auth st))"
    and new: "sc_sessionID sess = None"
    and cap: "0 < MaxConcurrentSessions (fst (SessionPolicy_Resolve (me_policies M) no_faults now t (parseAppID appID) (ms_policy st)))"
    and run: "issueTokenPairWithScope M no_faults now rawRefresh u t email role perms sess appID scope st = (Inr r, st')"
  shows "int (length (filter (\<lambda>s. us_user s = u \<and> us_tenant s = t \<and> LiveSessionWhere now s) (sessions (st_db (ms_auth st')))))
           \<le> MaxConcurrentSessions (fst (SessionPolicy_Resolve (me_policies M) no_faults now t (parseAppID appID) (ms_policy st)))
    \<and> (\<forall>s \<in> set (sessions (st_db (ms_auth st))). us_user s = u \<and> us_tenant s = t \<and> LiveSessionWhere now s \<longrightarrow>
         find_session (us_id s) (st_db (ms_auth st')) = Some s
         \<or> find_session (us_id s) (st_db (ms_auth st')) = Some (stamp_session now RevokeReasonCapEvicted s)
           \<and> (\<forall>q \<in> set (sessions (st_db (ms_auth st))). us_user q = u \<and> us_tenant q = t \<and> LiveSessionWhere now q
                \<and> find_session (us_id q) (st_db (ms_auth st')) = Some q \<longrightarrow> last_seen_at s \<le> last_seen_at q)
           \<and> (int64_range (us_id s) \<longrightarrow> (\<forall>\<tau> uid tid iat. now \<le> \<tau> \<longrightarrow> \<tau> < now + AccessTokenTTL \<longrightarrow>
                SessionDenied (me_auth M) no_faults \<tau> (FormatInt (us_id s)) uid tid iat (ms_auth st'))))"
  using run
proof (cases rule: issue_cases)
  case (minted r policy org aud claims access evicted db')
  let ?db = "st_db (ms_auth st)" and ?m = "MaxConcurrentSessions policy"
  let ?cap = "enforceSessionCap now u t ?m ?db" and ?drop = "set (drop (nat (?m - 1)) (ranked_live now u t ?db))"
  have pos: "0 < ?m" using cap minted(4) by simp
  obtain row where row: "us_user row = u" "us_tenant row = t" and ev: "evicted = fst ?cap"
    and ss: "sessions db' = sessions (snd ?cap) @ [row]"
    by (rule new_login_tables [OF new minted(6)])
  have db': "st_db (ms_auth st') = db'" using minted(7) by simp
  have count: "int (length (filter (\<lambda>s. us_user s = u \<and> us_tenant s = t \<and> LiveSessionWhere now s) (sessions db'))) \<le> ?m"
    using cap_leaves_room [OF ok pos, of u t now] by (simp add: ss)
  have kept: "find_session i db' = Some x" if "find_session i (snd ?cap) = Some x" for i x
    using that by (simp add: find_session_def ss find_append)
  have each: "if s \<in> ?drop then find_session (us_id s) db' = Some (stamp_session now RevokeReasonCapEvicted s) \<and> us_id s \<in> set evicted
      else find_session (us_id s) db' = Some s"
    if "s \<in> set (sessions ?db)" "us_user s = u \<and> us_tenant s = t \<and> LiveSessionWhere now s" for s
    using cap_find [OF ok that(1) _ _ _ pos, of now u t] that(2) kept ev by (simp split: if_splits)
  have recent: "last_seen_at s \<le> last_seen_at q"
    if "s \<in> ?drop" "q \<in> set (sessions ?db)" "us_user q = u \<and> us_tenant q = t \<and> LiveSessionWhere now q"
       "find_session (us_id q) db' = Some q" for s q
  proof -
    have "stamp_session now RevokeReasonCapEvicted q \<noteq> q" using that(3) by (metis not_live_stamped(1))
    with each [OF that(2,3)] that(4) have "q \<notin> ?drop" by (auto split: if_splits)
    moreover have "q \<in> set (ranked_live now u t ?db)" using that(2,3) by (simp add: set_ranked_live)
    ultimately have "q \<in> set (take (nat (?m - 1)) (ranked_live now u t ?db))"
      by (metis append_take_drop_id Un_iff set_append)
    then show ?thesis by (rule evicted_least_recent [OF that(1)])
  qed
  have denied: "SessionDenied (me_auth M) no_faults \<tau> (FormatInt i) uid tid iat (ms_auth st')"
    if "i \<in> set evicted" "int64_range i" "now \<le> \<tau>" "\<tau> < now + AccessTokenTTL" for i \<tau> uid tid iat
    unfolding minted(7) by (rule auth_service.SessionDenied_after_fold [OF svc that(2,3,4,1)])
  show ?thesis
    unfolding db' using count minted(4) each recent denied by (fastforce split: if_splits)
qed simp

theorem login_respects_session_cap_witness:
  "\<exists>st'. issueTokenPairWithScope sample_mint_env no_faults 100 (Some ''n'') 7 3 ''e'' ''user'' [] sample_context [] [] sample_mint_state
        = (Inr \<lparr>AccessToken = ''4'', RefreshToken = ''n'', TokenType = ''Bearer'', ExpiresIn = 900, ExpiresAt = 900\<rparr>, st')
     \<and> length (filter (\<lambda>s. us_user s = 7 \<and> us_tenant s = 3 \<and> LiveSessionWhere 100 s) (sessions (st_db (ms_auth st')))) \<le> 2"
proof -
  obtain res st' where run: "issueTokenPairWithScope sample_mint_env no_faults 100 (Some ''n'') 7 3 ''e'' ''user'' []
      sample_context [] [] sample_mint_state = (res, st')" by fastforce
  have res: "res = Inr \<lparr>AccessToken = ''4'', RefreshToken = ''n'', TokenType = ''Bearer'', ExpiresIn = 900, ExpiresAt = 900\<rparr>"
    using sample_mint_run run by (simp add: issueTokenPair_def)
  have svc: "auth_service (me_auth sample_mint_env)" "redisCli (me_auth sample_mint_env)"
    by (simp_all add: sample_mint_env_def ks_env.auth_service_axioms)
  have cap: "MaxConcurrentSessions (fst (SessionPolicy_Resolve (me_policies sample_mint_env) no_faults 100 3 (parseAppID [])
      (ms_policy sample_mint_state))) = 2" by code_simp
  have new: "sc_sessionID sample_context = None" by (simp add: sample_context_def)
  from login_respects_session_cap [OF svc sample_mint_state_ok new _ run [unfolded res]] cap run
  show ?thesis unfolding res by simp
qed

subsection \<open>Rotation\<close>

lemma rotation_sessions:
  assumes ok: "session_db_ok db" and sid: "sc_sessionID sess = Some sid" and s: "find_session sid db = Some s"
    and run: "mint_tx M fl now raw u t sess appID policy org aud claims db = Inr (access, evicted, db')"
  obtains idle k where "us_revoked_at s = None" "idle \<le> absolute_expires_at s"
    "sessions db' = update_where (\<lambda>q. us_id q = sid) (\<lambda>q. q\<lparr>last_seen_at := now, idle_expires_at := idle\<rparr>) (sessions db)"
    "find_token (HashToken (me_auth M) raw) db' = Some k" "rt_session k = Some sid" "expires_at k = absolute_expires_at s"
proof -
  obtain idle absolute where d: "mint_deadlines policy now sess = (idle, absolute)" by fastforce
  from run obtain sid' expires db1 where
    m: "mint_session M fl now u t sess appID policy org db = Inr (sid', expires, evicted, db1)"
    and i: "insert_token (new_token_row now u t (HashToken (me_auth M) raw) expires sid' appID aud (sc_activeRoles sess)) db1 = Some db'"
    by (rule mint_tx_InrD)
  from mint_session_rotation [OF sid d m] have sid': "sid' = sid" and touch: "touch_session now idle sid db = Some (expires, db1)"
    by simp_all
  obtain s' where s': "find_session sid db = Some s'" "us_revoked_at s' = None" "expires = absolute_expires_at s'"
    and db1: "db1 = db\<lparr>sessions := update_where (\<lambda>s. us_id s = sid \<and> us_revoked_at s = None)
               (\<lambda>s. s\<lparr>last_seen_at := now, idle_expires_at := min idle (absolute_expires_at s)\<rparr>) (sessions db)\<rparr>"
    by (rule touch_session_SomeD [OF ok touch])
  have only: "us_id q = sid \<longleftrightarrow> q = s" if "q \<in> set (sessions db)" for q
    using session_unique [OF ok that, of s] find_session_Some [OF s] by auto
  have "sessions db' = sessions db1" using i by (auto simp: insert_token_def split: if_splits)
  also have "\<dots> = update_where (\<lambda>q. us_id q = sid) (\<lambda>q. q\<lparr>last_seen_at := now, idle_expires_at := min idle (absolute_expires_at s)\<rparr>)
      (sessions db)"
    using only s' s by (auto simp: db1 update_where_def)
  finally have tables: "sessions db' = \<dots>" .
  let ?k = "(new_token_row now u t (HashToken (me_auth M) raw) expires sid' appID aud (sc_activeRoles sess))\<lparr>rt_id := next_token_id db1\<rparr>"
  have "find_token (HashToken (me_auth M) raw) db' = Some ?k" "rt_session ?k = Some sid" "expires_at ?k = absolute_expires_at s"
    using find_token_insert [OF i] s s' sid' by (simp_all add: new_token_row_def)
  moreover have "us_revoked_at s = None" using s s' by simp
  ultimately show ?thesis using that [OF _ _ tables, of ?k] by simp
qed

text \<open>
  C14: Rotating a refresh token slides the idle deadline and nothing else. A rotation succeeds only on
  a session that is not revoked; it leaves the session's row as it was but for the last activity, which
  becomes now, and the idle deadline, which never passes the absolute one; every other session row is
  untouched; and the new refresh token expires at the absolute deadline fixed when the session began.
\<close>

theorem rotation_slides_idle_only:
  assumes ok: "session_db_ok (st_db (ms_auth st))" and sid: "sc_sessionID sess = Some sid"
    and s: "find_session sid (st_db (ms_auth st)) = Some s" "us_user s = u" "us_tenant s = t"
    and run: "issueTokenPairWithScope M fl now rawRefresh u t email role perms sess appID scope st = (Inr r, st')"
  shows "us_revoked_at s = None
    \<and> (\<exists>idle \<le> absolute_expires_at s.
         sessions (st_db (ms_auth st')) =
           update_where (\<lambda>q. us_id q = sid) (\<lambda>q. q\<lparr>last_seen_at := now, idle_expires_at := idle\<rparr>) (sessions (st_db (ms_auth st))))
    \<and> (\<exists>k. find_token (HashToken (me_auth M) (RefreshToken r)) (st_db (ms_auth st')) = Some k
         \<and> rt_session k = Some sid \<and> expires_at k = absolute_expires_at s)"
  using run
proof (cases rule: issue_cases)
  case (minted r' policy org aud claims access evicted db')
  have r: "r' = r" using minted(1) by simp
  have db': "st_db (ms_auth st') = db'" using minted(7) by simp
  obtain idle k where "us_revoked_at s = None" "idle \<le> absolute_expires_at s"
    "sessions db' = update_where (\<lambda>q. us_id q = sid) (\<lambda>q. q\<lparr>last_seen_at := now, idle_expires_at := idle\<rparr>)
       (sessions (st_db (ms_auth st)))"
    "find_token (HashToken (me_auth M) (RefreshToken r)) db' = Some k" "rt_session k = Some sid" "expires_at k = absolute_expires_at s"
    using minted(6) unfolding r by (rule rotation_sessions [OF ok sid s(1)])
  then show ?thesis unfolding db' by blast
qed simp

theorem rotation_slides_idle_only_witness:
  "\<exists>st'. issueTokenPairWithScope sample_mint_env no_faults 100 (Some ''n'') 7 3 ''e'' ''user'' [] (sample_context\<lparr>sc_sessionID := Some 1\<rparr>)
          [] [] sample_mint_state
        = (Inr \<lparr>AccessToken = ''1'', RefreshToken = ''n'', TokenType = ''Bearer'', ExpiresIn = 900, ExpiresAt = 900\<rparr>, st')
     \<and> (\<exists>k. find_token ''n'' (st_db (ms_auth st')) = Some k \<and> expires_at k = 5000 * Second)"
proof -
  let ?c = "sample_context\<lparr>sc_sessionID := Some 1\<rparr>"
  let ?r = "\<lparr>AccessToken = ''1'', RefreshToken = ''n'', TokenType = ''Bearer'', ExpiresIn = 900, ExpiresAt = 900\<rparr>"
  have "fst (issueTokenPairWithScope sample_mint_env no_faults 100 (Some ''n'') 7 3 ''e'' ''user'' [] ?c [] [] sample_mint_state) = Inr ?r"
    by code_simp
  then obtain st' where run: "issueTokenPairWithScope sample_mint_env no_faults 100 (Some ''n'') 7 3 ''e'' ''user'' [] ?c [] []
      sample_mint_state = (Inr ?r, st')" by (metis prod.collapse)
  have s: "find_session 1 (st_db (ms_auth sample_mint_state)) = Some (sample_session 1 7 10)"
    by (simp add: find_session_def sample_mint_state_def sample_state_def sample_defs)
  have c: "sc_sessionID ?c = Some 1" by simp
  from rotation_slides_idle_only [OF sample_mint_state_ok c s _ _ run] show ?thesis
    using run by (auto simp: sample_session_def sample_mint_env_def)
qed

end
