(* ===== verification/Refresh.thy ===== *)
theory Refresh
  imports Mint
begin

text \<open>
  Refresh-token rotation (\<^verbatim>\<open>Refresh\<close>, \<^verbatim>\<open>RefreshWithLock\<close>, \<^verbatim>\<open>checkGraceWindow\<close>,
  \<^verbatim>\<open>ResolveTokenOwner\<close> and \<^verbatim>\<open>RevokeRefreshTokenForTenant\<close> of \<^verbatim>\<open>internal/auth/service.go\<close>).

  The reads and writes of a rotation outside the mint are separate statements, so \<open>Refresh\<close> is the
  composition of its steps \<open>Refresh_lookup\<close>, \<open>Refresh_consume\<close> and \<open>Refresh_finish\<close>, which another request
  may run between. \<open>RefreshWithLock\<close> takes what the other requests do at its two waiting points as
  arguments: \<open>pre\<close> between its first read and the lock, \<open>wait\<close> while it sleeps because the lock is held.
\<close>

definition GrantRefreshToken :: string where "GrantRefreshToken = ''refresh_token''"
definition gracePeriod :: duration where "gracePeriod = 10 * Second"

record GraceResult =
  gr_UserID :: int
  gr_TenantID :: int
  gr_Email :: string
  gr_Role :: string
  gr_Permissions :: "string list"
  gr_SessionID :: int
  gr_OrgID :: string
  gr_OrgName :: string
  gr_OrgRoles :: "string list"
  gr_OrgPermissions :: "string list"

datatype refresh_outcome = Rotated AuthResult | Grace GraceResult

subsection \<open>The steps of a rotation\<close>

definition no_org :: orgSessionRequest where
  "no_org = \<lparr>org_requested = [], org_boundID = None, org_personal = False, org_skip = False\<rparr>"

text \<open>The session facts a rotation carries into the mint.\<close>

definition carried_context ::
  "int \<Rightarrow> bool \<Rightarrow> time \<Rightarrow> string list \<Rightarrow> string option \<Rightarrow> string list option \<Rightarrow> sessionContext" where
  "carried_context sid persistent authTime amr pinnedAudience activeRoles =
     \<lparr>sc_sessionID = Some sid, sc_persistent = persistent, sc_amr = amr, sc_authTime = Some authTime,
      sc_grant = GrantRefreshToken, sc_activeRoles = activeRoles, sc_audience = [],
      sc_pinnedAudience = (case pinnedAudience of None \<Rightarrow> [] | Some a \<Rightarrow> a), sc_filterPerms = False,
      sc_org = no_org, sc_absoluteCap = None\<rparr>"

definition token_session_row :: "session_db \<Rightarrow> refresh_token \<Rightarrow> user_session option" where
  "token_session_row db t = (case rt_session t of None \<Rightarrow> None | Some i \<Rightarrow> find_session i db)"

definition Refresh_lookup :: "faults \<Rightarrow> time \<Rightarrow> string \<Rightarrow> session_db \<Rightarrow> (refresh_token \<times> user_session) result" where
  "Refresh_lookup fl now hash db =
     (if fl ''lookup refresh token'' then Inl (Wrapped ''lookup refresh token'')
      else case find_token hash db of
             None \<Rightarrow> Inl ErrInvalidRefreshToken
           | Some t \<Rightarrow> (case token_session_row db t of
                          None \<Rightarrow> Inl ErrInvalidRefreshToken
                        | Some s \<Rightarrow> if LiveTokenWhere now t \<and> LiveSessionWhere now s then Inr (t, s)
                                    else Inl ErrInvalidRefreshToken))"

definition Refresh_consume :: "time \<Rightarrow> int \<Rightarrow> 'r mint_state \<Rightarrow> 'r mint_state" where
  "Refresh_consume now tokenID st =
     st\<lparr>ms_auth := (ms_auth st)\<lparr>st_db := revoke_token_id now RevokeReasonRotated tokenID (st_db (ms_auth st))\<rparr>\<rparr>"

definition Refresh_finish ::
  "'r mint_env \<Rightarrow> faults \<Rightarrow> time \<Rightarrow> string option \<Rightarrow> int \<Rightarrow> int \<Rightarrow> sessionContext \<Rightarrow> 'r mint_state \<Rightarrow>
   AuthResult result \<times> 'r mint_state" where
  "Refresh_finish M fl now rawNew userID tenantID carried st =
     (if fl ''fetch user for refresh'' then (Inl (Wrapped ''fetch user for refresh''), st)
      else case load_refresh_user userID tenantID (me_authority M) of
             None \<Rightarrow> (Inl (Wrapped ''user not found or inactive''), st)
           | Some u \<Rightarrow>
               let perms = (case permissionsForRefresh fl userID tenantID (sc_activeRoles carried) (me_authority M) of
                              Inl _ \<Rightarrow> [] | Inr ps \<Rightarrow> ps)
               in issueTokenPair M fl now rawNew userID tenantID (ru_email u) (ru_role u) perms carried
                    (appIDClaim (ru_application u)) st)"

definition Refresh ::
  "'r mint_env \<Rightarrow> faults \<Rightarrow> time \<Rightarrow> string option \<Rightarrow> string \<Rightarrow> 'r mint_state \<Rightarrow> AuthResult result \<times> 'r mint_state" where
  "Refresh M fl now rawNew rawRefreshToken st =
     (case Refresh_lookup fl now (HashToken (me_auth M) rawRefreshToken) (st_db (ms_auth st)) of
        Inl e \<Rightarrow> (Inl e, st)
      | Inr (t, s) \<Rightarrow>
          if fl ''revoke old refresh token'' then (Inl (Wrapped ''revoke old refresh token''), st)
          else Refresh_finish M fl now rawNew (us_user s) (us_tenant s)
                 (carried_context (us_id s) (is_persistent s) (auth_time s) (us_amr s) (rt_audience t) (rt_active_roles t))
                 (Refresh_consume now (rt_id t) st))"

subsection \<open>The locked rotation\<close>

text \<open>\<open>sessOrg\<close> is \<^verbatim>\<open>sessionOrganization\<close>: the organisation of the session, revalidated.\<close>

definition checkGraceWindow ::
  "'r mint_env \<Rightarrow> (int \<Rightarrow> int \<Rightarrow> int \<Rightarrow> mintOrganization option result) \<Rightarrow> faults \<Rightarrow> time \<Rightarrow> int \<Rightarrow> int \<Rightarrow> int \<Rightarrow>
   string list option \<Rightarrow> session_db \<Rightarrow> GraceResult result" where
  "checkGraceWindow M sessOrg fl now userID tenantID sessionID activeRoles db =
     (if fl ''grace window query'' then Inl (Wrapped ''grace window query'')
      else if \<not> (\<exists>t \<in> set (tokens db). rt_session t = Some sessionID \<and> created_at t > now - gracePeriod \<and> LiveTokenWhere now t
                   \<and> (\<exists>s \<in> set (sessions db). us_id s = sessionID \<and> us_user s = userID \<and> us_tenant s = tenantID
                        \<and> LiveSessionWhere now s))
      then Inl ErrInvalidRefreshToken
      else if fl ''fetch user for grace window'' then Inl (Wrapped ''fetch user for grace window'')
      else case load_refresh_user userID tenantID (me_authority M) of
             None \<Rightarrow> Inl (Wrapped ''user not found or inactive'')
           | Some u \<Rightarrow>
               let perms = (case permissionsForRefresh fl userID tenantID activeRoles (me_authority M) of
                              Inl _ \<Rightarrow> [] | Inr ps \<Rightarrow> ps)
               in (case sessOrg userID tenantID sessionID of
                     Inl e \<Rightarrow> Inl e
                   | Inr org \<Rightarrow>
                       Inr \<lparr>gr_UserID = userID, gr_TenantID = tenantID, gr_Email = ru_email u, gr_Role = ru_role u,
                            gr_Permissions = perms, gr_SessionID = sessionID,
                            gr_OrgID = (case org of None \<Rightarrow> [] | Some g \<Rightarrow> mo_publicID g),
                            gr_OrgName = (case org of None \<Rightarrow> [] | Some g \<Rightarrow> mo_slug g),
                            gr_OrgRoles = (case org of None \<Rightarrow> [] | Some g \<Rightarrow> mo_roles g),
                            gr_OrgPermissions = (case org of None \<Rightarrow> [] | Some g \<Rightarrow> mo_permissions g)\<rparr>))"

definition renewalLockKey :: "int \<Rightarrow> string" where
  "renewalLockKey sid = ''renewal:lock:session:'' @ FormatInt sid"

definition renewalLockTTL :: duration where "renewalLockTTL = 5 * Second"

text \<open>300 milliseconds.\<close>

definition renewalWait :: duration where "renewalWait = 3 * Second div 10"

definition with_redis :: "('r \<Rightarrow> 'r) \<Rightarrow> 'r mint_state \<Rightarrow> 'r mint_state" where
  "with_redis f st = st\<lparr>ms_auth := (ms_auth st)\<lparr>st_redis := f (st_redis (ms_auth st))\<rparr>\<rparr>"

text \<open>
  The part under the lock: the re-read, the replay branch, the lifetime checks on the values of the
  first read (\<open>t\<close> and \<open>os\<close>), and the rotation.
\<close>

definition locked_rotation ::
  "'r mint_env \<Rightarrow> faults \<Rightarrow> time \<Rightarrow> string option \<Rightarrow> refresh_token \<Rightarrow> user_session option \<Rightarrow> int \<Rightarrow> 'r mint_state \<Rightarrow>
   AuthResult result \<times> 'r mint_state" where
  "locked_rotation M fl now rawNew t os sid st =
     (case find (\<lambda>x. rt_id x = rt_id t) (tokens (st_db (ms_auth st))) of
        None \<Rightarrow> (Inl (Wrapped ''re-read token after lock''), st)
      | Some cur \<Rightarrow>
          if fl ''re-read token after lock'' then (Inl (Wrapped ''re-read token after lock''), st)
          else if rt_revoked_at cur \<noteq> None
          then (Inl ErrTokenReplay,
                st\<lparr>ms_auth := snd (revokeSession (me_auth M) fl now (rt_user t) (rt_tenant t) sid RevokeReasonReplay (ms_auth st))\<rparr>)
          else if expires_at t < now
             \<or> (case os of None \<Rightarrow> False
                | Some s \<Rightarrow> us_revoked_at s \<noteq> None \<or> absolute_expires_at s < now \<or> idle_expires_at s < now)
          then (Inl ErrInvalidRefreshToken, st)
          else if fl ''revoke old refresh token'' then (Inl (Wrapped ''revoke old refresh token''), st)
          else Refresh_finish M fl now rawNew (rt_user t) (rt_tenant t)
                 (case os of
                    None \<Rightarrow> carried_context sid False (created_at t) [] (rt_audience t) (rt_active_roles t)
                  | Some s \<Rightarrow> carried_context sid (is_persistent s) (auth_time s) (us_amr s) (rt_audience t) (rt_active_roles t))
                 (Refresh_consume now (rt_id t) st))"

definition RefreshWithLock ::
  "'r mint_env \<Rightarrow> (int \<Rightarrow> int \<Rightarrow> int \<Rightarrow> mintOrganization option result) \<Rightarrow> faults \<Rightarrow> time \<Rightarrow> string option \<Rightarrow> bool \<Rightarrow>
   ('r mint_state \<Rightarrow> 'r mint_state) \<Rightarrow> ('r mint_state \<Rightarrow> 'r mint_state) \<Rightarrow> string \<Rightarrow> 'r mint_state \<Rightarrow>
   refresh_outcome result \<times> 'r mint_state" where
  "RefreshWithLock M sessOrg fl now rawNew lockCli pre wait rawToken st =
     (if fl ''lookup refresh token'' then (Inl (Wrapped ''lookup refresh token''), st)
      else case find_token (HashToken (me_auth M) rawToken) (st_db (ms_auth st)) of
        None \<Rightarrow> (Inl ErrInvalidRefreshToken, st)
      | Some t \<Rightarrow>
          let os = token_session_row (st_db (ms_auth st)) t;
              sid = (case rt_session t of Some i \<Rightarrow> i | None \<Rightarrow> session_family_id t);
              R = env_redis (me_auth M); key = renewalLockKey sid; st1 = pre st
          in if \<not> lockCli
             then (case locked_rotation M fl now rawNew t os sid st1 of (res, st2) \<Rightarrow> (map_sum id Rotated res, st2))
             else if fl key then (Inl ErrServiceUnavailable, st1)
             else (case rsetnx R (st_redis (ms_auth st1)) now key ''1'' renewalLockTTL of
                     (False, r) \<Rightarrow>
                       let st2 = wait (with_redis (\<lambda>_. r) st1)
                       in (map_sum id Grace
                             (checkGraceWindow M sessOrg fl (now + renewalWait) (rt_user t) (rt_tenant t) sid
                                (rt_active_roles t) (st_db (ms_auth st2))), st2)
                   | (True, r) \<Rightarrow>
                       (case locked_rotation M fl now rawNew t os sid (with_redis (\<lambda>_. r) st1) of
                          (res, st2) \<Rightarrow> (map_sum id Rotated res, with_redis (\<lambda>r. rdel R r now key) st2))))"

subsection \<open>Attribution and revocation by token\<close>

record TokenOwner =
  to_UserID :: int
  to_TenantID :: int
  to_Email :: string

definition ResolveTokenOwner :: "'r mint_env \<Rightarrow> faults \<Rightarrow> string \<Rightarrow> session_db \<Rightarrow> TokenOwner option" where
  "ResolveTokenOwner M fl rawToken db =
     (if rawToken = [] then None
      else if fl ''resolve token owner'' then None
      else case find_token (HashToken (me_auth M) rawToken) db of
             None \<Rightarrow> None
           | Some t \<Rightarrow> Some \<lparr>to_UserID = rt_user t, to_TenantID = rt_tenant t,
               to_Email = (case find (\<lambda>u. u_id u = rt_user t) (users (me_authority M)) of None \<Rightarrow> [] | Some u \<Rightarrow> u_email u)\<rparr>)"

text \<open>\<^verbatim>\<open>NULLIF($3, 0)\<close> makes application 0 match no row with an application.\<close>

definition RevokeRefreshTokenForTenant ::
  "'r auth_env \<Rightarrow> faults \<Rightarrow> time \<Rightarrow> string \<Rightarrow> int \<Rightarrow> int \<Rightarrow> session_db \<Rightarrow> bool result \<times> session_db" where
  "RevokeRefreshTokenForTenant E fl now rawRefreshToken tenantID appRowID db =
     (if fl ''revoke refresh token'' then (Inl (Wrapped ''revoke refresh token''), db)
      else
        let hit = (\<lambda>t. token_hash t = HashToken E rawRefreshToken \<and> rt_tenant t = tenantID \<and> rt_revoked_at t = None
                     \<and> (rt_app t = None \<or> (appRowID \<noteq> 0 \<and> rt_app t = Some appRowID)))
        in (Inr (0 < length (filter hit (tokens db))),
            db\<lparr>tokens := update_where hit (\<lambda>t. t\<lparr>rt_revoked_at := Some now\<rparr>) (tokens db)\<rparr>))"

subsection \<open>Consuming the presented token\<close>

lemma find_token_revoke_id:
  "find_token h (revoke_token_id now r tid db) =
     map_option (\<lambda>t. if rt_id t = tid then stamp_token now r t else t) (find_token h db)"
proof -
  have "find (\<lambda>t. token_hash t = h) (update_where (\<lambda>t. rt_id t = tid) (stamp_token now r) ts) =
      map_option (\<lambda>t. if rt_id t = tid then stamp_token now r t else t) (find (\<lambda>t. token_hash t = h) ts)" for ts
    by (induction ts) (auto simp: update_where_def)
  then show ?thesis by (simp add: find_token_def revoke_token_id_def)
qed

lemma consume_ok:
  assumes ok: "session_db_ok db"
  shows "session_db_ok (revoke_token_id now r tid db)"
proof -
  have tok: "token_ok (db\<lparr>tokens := ts\<rparr>) t \<longleftrightarrow> token_ok db t" for t ts
    by (simp add: token_ok_def)
  have "token_ok db (stamp_token now r t)" if "token_ok db t" for t
    using that by (auto simp: token_ok_def)
  then show ?thesis
    using ok by (auto simp: session_db_ok_def tok revoke_token_id_def map_update_where set_update_where)
qed

lemma st_db_consume [simp]:
  "st_db (ms_auth (Refresh_consume now tid st)) = revoke_token_id now RevokeReasonRotated tid (st_db (ms_auth st))"
  "st_redis (ms_auth (Refresh_consume now tid st)) = st_redis (ms_auth st)"
  by (simp_all add: Refresh_consume_def)

lemma find_session_consume [simp]: "find_session i (revoke_token_id now r tid db) = find_session i db"
  by (simp add: find_session_def revoke_token_id_def)

text \<open>A rotation only appends its token: every row already there stays as it was.\<close>

lemma rotation_keeps_tokens:
  assumes sid: "sc_sessionID sess = Some i"
    and run: "mint_tx M fl now raw u t sess appID policy org aud claims db = Inr (access, evicted, db')"
    and old: "find_token h db = Some k"
  shows "find_token h db' = Some k"
proof -
  from run obtain sid' expires db1 where
    m: "mint_session M fl now u t sess appID policy org db = Inr (sid', expires, evicted, db1)"
    and ins: "insert_token (new_token_row now u t (HashToken (me_auth M) raw) expires sid' appID aud (sc_activeRoles sess)) db1 = Some db'"
    by (rule mint_tx_InrD)
  obtain idle absolute where d: "mint_deadlines policy now sess = (idle, absolute)" by fastforce
  have "tokens db1 = tokens db"
    using mint_session_rotation [OF sid d m] by (auto simp: touch_session_def Let_def split: list.splits)
  then show ?thesis
    using ins old by (auto simp: insert_token_def find_token_def find_append split: if_splits)
qed

lemma rotation_evicts_nothing:
  assumes "sc_sessionID sess = Some i"
    and run: "mint_tx M fl now raw u t sess appID policy org aud claims db = Inr (access, evicted, db')"
  shows "evicted = []"
proof -
  obtain idle absolute where d: "mint_deadlines policy now sess = (idle, absolute)" by fastforce
  from run obtain sid' expires db1 where
    "mint_session M fl now u t sess appID policy org db = Inr (sid', expires, evicted, db1)" by (rule mint_tx_InrD)
  with mint_session_rotation [OF assms(1) d this] show ?thesis by simp
qed

subsection \<open>Finishing a rotation\<close>

lemma Refresh_finish_cases:
  assumes run: "Refresh_finish M fl now rawNew u t carried st = (res, st')"
  obtains (no_user) e where "res = Inl e" "st' = st"
  | (mint) x perms where "load_refresh_user u t (me_authority M) = Some x"
      "issueTokenPairWithScope M fl now rawNew u t (ru_email x) (ru_role x) perms carried
         (appIDClaim (ru_application x)) [] st = (res, st')"
proof (cases "fl ''fetch user for refresh''")
  case True
  then show ?thesis using run no_user by (auto simp: Refresh_finish_def)
next
  case fl: False
  show ?thesis
  proof (cases "load_refresh_user u t (me_authority M)")
    case None
    then show ?thesis using run no_user fl by (auto simp: Refresh_finish_def)
  next
    case (Some x)
    then show ?thesis using run mint fl by (auto simp: Refresh_finish_def issueTokenPair_def Let_def)
  qed
qed

lemma finish_keeps:
  assumes ok: "session_db_ok (st_db (ms_auth st))" and sid: "sc_sessionID carried = Some i"
    and caller: "mint_caller_ok u t carried (st_db (ms_auth st))"
    and run: "Refresh_finish M fl now rawNew u t carried st = (res, st')"
  shows "session_db_ok (st_db (ms_auth st'))" and "st_redis (ms_auth st') = st_redis (ms_auth st)"
    and "find_token h (st_db (ms_auth st)) = Some k \<Longrightarrow> find_token h (st_db (ms_auth st')) = Some k"
proof -
  have "session_db_ok (st_db (ms_auth st')) \<and> st_redis (ms_auth st') = st_redis (ms_auth st)
    \<and> (find_token h (st_db (ms_auth st)) = Some k \<longrightarrow> find_token h (st_db (ms_auth st')) = Some k)"
    using run
  proof (cases rule: Refresh_finish_cases)
    case (no_user e)
    then show ?thesis using ok by simp
  next
    case (mint x perms)
    from mint(2) show ?thesis
    proof (cases rule: issue_cases)
      case (failed e)
      then show ?thesis using ok by simp
    next
      case (minted r policy org aud claims access evicted db')
      have ev: "evicted = []" by (rule rotation_evicts_nothing [OF sid minted(6)])
      have "ms_auth st' = (ms_auth st)\<lparr>st_db := db'\<rparr>" using minted(7) unfolding ev by simp
      then show ?thesis
        using mint_tx_ok [OF ok caller minted(6)] rotation_keeps_tokens [OF sid minted(6)] by simp
    qed
  qed
  then show "session_db_ok (st_db (ms_auth st'))" "st_redis (ms_auth st') = st_redis (ms_auth st)"
    "find_token h (st_db (ms_auth st)) = Some k \<Longrightarrow> find_token h (st_db (ms_auth st')) = Some k" by simp_all
qed

lemma finish_keeps_session:
  assumes ok: "session_db_ok (st_db (ms_auth st))" and sid: "sc_sessionID carried = Some i"
    and s: "find_session i (st_db (ms_auth st)) = Some s" "us_revoked_at s = None"
    and run: "Refresh_finish M fl now rawNew u t carried st = (res, st')"
  shows "\<exists>s'. find_session i (st_db (ms_auth st')) = Some s' \<and> us_revoked_at s' = None"
  using run
proof (cases rule: Refresh_finish_cases)
  case (no_user e)
  then show ?thesis using s by simp
next
  case (mint x perms)
  from mint(2) show ?thesis
  proof (cases rule: issue_cases)
    case (failed e)
    then show ?thesis using s by simp
  next
    case (minted r policy org aud claims access evicted db')
    have db': "st_db (ms_auth st') = db'" using minted(7) by simp
    from mint_tx_tables(2) [OF session_db_tables [OF ok] minted(6)] obtain j x where
      "find_session j db' = Some x" "us_revoked_at x = None" "us_id x = i" by (auto simp: mint_session_of_def sid)
    then show ?thesis unfolding db' using find_session_Some by metis
  qed
qed

lemma carried_sid [simp]: "sc_sessionID (carried_context sid p a m aud rs) = Some sid"
  by (simp add: carried_context_def)

lemma Refresh_lookup_InrD:
  assumes "Refresh_lookup fl now h db = Inr (t, s)"
  shows "find_token h db = Some t" "rt_session t = Some (us_id s)" "find_session (us_id s) db = Some s"
    "LiveTokenWhere now t" "LiveSessionWhere now s"
proof -
  have *: "find_token h db = Some t" "token_session_row db t = Some s" "LiveTokenWhere now t" "LiveSessionWhere now s"
    using assms by (auto simp: Refresh_lookup_def split: if_splits option.splits)
  then obtain i where i: "rt_session t = Some i" "find_session i db = Some s"
    by (auto simp: token_session_row_def split: option.splits)
  with find_session_Some [OF i(2)] * show "find_token h db = Some t" "rt_session t = Some (us_id s)" "find_session (us_id s) db = Some s"
    "LiveTokenWhere now t" "LiveSessionWhere now s" by simp_all
qed

lemma Refresh_lookup_revoked:
  "find_token h db = Some t \<Longrightarrow> rt_revoked_at t \<noteq> None \<Longrightarrow> Refresh_lookup no_faults now h db = Inl ErrInvalidRefreshToken"
  by (auto simp: Refresh_lookup_def LiveTokenWhere_def split: option.splits)

text \<open>
  C15: A refresh token is single-use, and \<^verbatim>\<open>Refresh\<close> does not treat its replay as a theft. Once a refresh has found the token live
  and marked it rotated, the token is spent whatever happens next, even if the user is gone or the mint fails: the tables keep their
  invariant, the row carries the rotation stamp, and presenting the same token to \<^verbatim>\<open>Refresh\<close> again, at any later time, is refused as an
  invalid token. The session is still unrevoked at that point, and the replay changes nothing, so the successor token stays usable:
  \<^verbatim>\<open>Refresh\<close> never answers \<^verbatim>\<open>ErrTokenReplay\<close> and never revokes the family, against what the token endpoint that calls it says.
\<close>

theorem Refresh_single_use:
  assumes ok: "session_db_ok (st_db (ms_auth st))"
    and look: "Refresh_lookup fl now (HashToken (me_auth M) raw) (st_db (ms_auth st)) = Inr (t, s)"
    and fl: "\<not> fl ''revoke old refresh token''"
    and run: "Refresh M fl now rawNew raw st = (res, st')"
  shows "session_db_ok (st_db (ms_auth st'))
    \<and> find_token (HashToken (me_auth M) raw) (st_db (ms_auth st')) = Some (stamp_token now RevokeReasonRotated t)
    \<and> (\<exists>s'. find_session (us_id s) (st_db (ms_auth st')) = Some s' \<and> us_revoked_at s' = None)
    \<and> (\<forall>now2 rawNew2. Refresh M no_faults now2 rawNew2 raw st' = (Inl ErrInvalidRefreshToken, st'))"
proof -
  note t = Refresh_lookup_InrD [OF look]
  let ?st = "Refresh_consume now (rt_id t) st"
  let ?c = "carried_context (us_id s) (is_persistent s) (auth_time s) (us_amr s) (rt_audience t) (rt_active_roles t)"
  have fin: "Refresh_finish M fl now rawNew (us_user s) (us_tenant s) ?c ?st = (res, st')"
    using run look fl by (simp add: Refresh_def)
  have caller: "mint_caller_ok (us_user s) (us_tenant s) ?c (st_db (ms_auth ?st))"
    by (simp add: mint_caller_ok_def t)
  have ok1: "session_db_ok (st_db (ms_auth ?st))" using consume_ok [OF ok] by simp
  have spent: "find_token (HashToken (me_auth M) raw) (st_db (ms_auth ?st)) = Some (stamp_token now RevokeReasonRotated t)"
    by (simp add: find_token_revoke_id t)
  note keep = finish_keeps [OF ok1 carried_sid caller fin]
  have found: "find_token (HashToken (me_auth M) raw) (st_db (ms_auth st')) = Some (stamp_token now RevokeReasonRotated t)"
    by (rule keep(3) [OF spent])
  moreover have "Refresh M no_faults now2 rawNew2 raw st' = (Inl ErrInvalidRefreshToken, st')" for now2 rawNew2
    using Refresh_lookup_revoked [OF found, of now2] by (simp add: Refresh_def)
  moreover have "\<exists>s'. find_session (us_id s) (st_db (ms_auth st')) = Some s' \<and> us_revoked_at s' = None"
    by (rule finish_keeps_session [OF ok1 carried_sid _ _ fin]) (use t in \<open>auto simp: LiveSessionWhere_def\<close>)
  ultimately show ?thesis using keep(1) by blast
qed

lemma find_update_key:
  "find (\<lambda>q. us_id q = i) ss = Some s \<Longrightarrow>
     find (\<lambda>q. us_id q = i) (update_where (\<lambda>q. us_id q = i) (\<lambda>q. q\<lparr>last_seen_at := n, idle_expires_at := d\<rparr>) ss) =
       Some (s\<lparr>last_seen_at := n, idle_expires_at := d\<rparr>)"
  by (induction ss) (auto simp: update_where_def split: if_splits)

lemma sample_lookup:
  "Refresh_lookup no_faults 100 ''a'' (st_db (ms_auth sample_mint_state)) = Inr (sample_token 1 1 7 ''a'', sample_session 1 7 10)"
  by (simp add: Refresh_lookup_def token_session_row_def find_token_def find_session_def sample_mint_state_def sample_state_def
      sample_defs LiveTokenWhere_def LiveSessionWhere_def)

lemma sample_env_hash [simp]: "HashToken (me_auth sample_mint_env) = id"
  by (simp add: sample_mint_env_def)

theorem Refresh_single_use_witness:
  "\<exists>st'. Refresh sample_mint_env no_faults 100 (Some ''n'') ''a'' sample_mint_state =
      (Inr \<lparr>AccessToken = ''1'', RefreshToken = ''n'', TokenType = ''Bearer'', ExpiresIn = 900, ExpiresAt = 900\<rparr>, st')
     \<and> Refresh sample_mint_env no_faults 200 (Some ''m'') ''a'' st' = (Inl ErrInvalidRefreshToken, st')
     \<and> (\<exists>s'. find_session 1 (st_db (ms_auth st')) = Some s' \<and> us_revoked_at s' = None)"
proof -
  have "fst (Refresh sample_mint_env no_faults 100 (Some ''n'') ''a'' sample_mint_state) =
      Inr \<lparr>AccessToken = ''1'', RefreshToken = ''n'', TokenType = ''Bearer'', ExpiresIn = 900, ExpiresAt = 900\<rparr>" by code_simp
  then obtain st' where run: "Refresh sample_mint_env no_faults 100 (Some ''n'') ''a'' sample_mint_state =
      (Inr \<lparr>AccessToken = ''1'', RefreshToken = ''n'', TokenType = ''Bearer'', ExpiresIn = 900, ExpiresAt = 900\<rparr>, st')"
    by (metis prod.collapse)
  have look: "Refresh_lookup no_faults 100 (HashToken (me_auth sample_mint_env) ''a'') (st_db (ms_auth sample_mint_state))
      = Inr (sample_token 1 1 7 ''a'', sample_session 1 7 10)" using sample_lookup by simp
  from Refresh_single_use [OF sample_mint_state_ok look _ run] run show ?thesis by (simp add: sample_session_def)
qed

text \<open>
  A refresh changes only what it should. The new refresh token belongs to the same session and
  account, carries the same active roles, expires at the session's unchanged absolute deadline, and for an
  application's user keeps the audience its predecessor was pinned to. The session keeps its
  authentication time, methods, device and owner.
\<close>

theorem Refresh_carries_session:
  assumes ok: "session_db_ok (st_db (ms_auth st))"
    and look: "Refresh_lookup fl now (HashToken (me_auth M) raw) (st_db (ms_auth st)) = Inr (t, s)"
    and run: "Refresh M fl now rawNew raw st = (Inr r, st')"
  shows "\<exists>k idle x. find_token (HashToken (me_auth M) (RefreshToken r)) (st_db (ms_auth st')) = Some k
     \<and> rt_session k = rt_session t \<and> rt_user k = us_user s \<and> rt_tenant k = us_tenant s
     \<and> rt_active_roles k = rt_active_roles t \<and> expires_at k = absolute_expires_at s
     \<and> find_session (us_id s) (st_db (ms_auth st')) = Some (s\<lparr>last_seen_at := now, idle_expires_at := idle\<rparr>)
     \<and> idle \<le> absolute_expires_at s
     \<and> load_refresh_user (us_user s) (us_tenant s) (me_authority M) = Some x
     \<and> (\<forall>a app. rt_audience t = Some a \<and> a \<noteq> [] \<and> ru_application x = Some app \<and> app \<noteq> 0 \<and> int64_range app
          \<longrightarrow> rt_audience k = Some a)"
proof -
  note t = Refresh_lookup_InrD [OF look]
  let ?st = "Refresh_consume now (rt_id t) st"
  let ?c = "carried_context (us_id s) (is_persistent s) (auth_time s) (us_amr s) (rt_audience t) (rt_active_roles t)"
  have fin: "Refresh_finish M fl now rawNew (us_user s) (us_tenant s) ?c ?st = (Inr r, st')"
    using run look by (simp add: Refresh_def split: if_splits)
  have ok1: "session_db_ok (st_db (ms_auth ?st))" using consume_ok [OF ok] by simp
  have caller: "mint_caller_ok (us_user s) (us_tenant s) ?c (st_db (ms_auth ?st))"
    by (simp add: mint_caller_ok_def t)
  from fin show ?thesis
  proof (cases rule: Refresh_finish_cases)
    case (mint x perms)
    from mint(2) show ?thesis
    proof (cases rule: issue_cases)
      case (minted r' policy org aud claims access evicted db')
      have r: "r' = r" using minted(1) by simp
      have db': "st_db (ms_auth st') = db'" using minted(7) by simp
      obtain k sid s' where k: "find_token (HashToken (me_auth M) (RefreshToken r)) db' = Some k" "rt_session k = Some sid"
        "find_session sid db' = Some s'" "expires_at k = absolute_expires_at s'" "rt_user k = us_user s" "rt_tenant k = us_tenant s"
        "rt_active_roles k = rt_active_roles t" "rt_audience k = (if ma_Value aud = [] then None else Some (ma_Value aud))"
        "sid = us_id s"
        using minted(6) unfolding r by (rule minted_token [OF ok1 caller, where i = "us_id s"]) (auto simp: carried_context_def)
      have s0: "find_session (us_id s) (st_db (ms_auth ?st)) = Some s" by (simp add: t)
      obtain idle where idle: "idle \<le> absolute_expires_at s" "sessions db' = update_where (\<lambda>q. us_id q = us_id s)
          (\<lambda>q. q\<lparr>last_seen_at := now, idle_expires_at := idle\<rparr>) (sessions (st_db (ms_auth ?st)))"
        using minted(6) by (rule rotation_sessions [OF ok1 carried_sid s0])
      have here: "find_session (us_id s) db' = Some (s\<lparr>last_seen_at := now, idle_expires_at := idle\<rparr>)"
        unfolding find_session_def idle(2) using s0 by (simp add: find_session_def find_update_key)
      have aud: "rt_audience k = Some a"
        if "rt_audience t = Some a" "a \<noteq> []" "ru_application x = Some app" "app \<noteq> 0" "int64_range app" for a app
      proof -
        have app: "parseAppIDValue (appIDClaim (ru_application x)) = app"
          using parseAppID_appIDClaim [of "ru_application x"] that by (simp add: parseAppIDValue_def)
        have "ResolveMintAudience (me_scheme M) fl \<lparr>ar_AppRowID = app, ar_Requested = [], ar_Pinned = a\<rparr> (me_audience_db M) = Inr aud"
          using minted(5) app that(1) unfolding mint_prepare_def
          by (auto simp: carried_context_def split: if_splits sum.splits)
        from pinned_value [OF this] that k(8) show ?thesis by simp
      qed
      have "absolute_expires_at s' = absolute_expires_at s" using here k(3,9) by auto
      then show ?thesis
        unfolding db' using k here idle(1) mint(1) aud t(2)
        by (intro exI [of _ k] exI [of _ idle] exI [of _ x]) simp
    qed simp
  qed simp
qed

theorem Refresh_carries_session_witness:
  "\<exists>st' k. Refresh sample_mint_env no_faults 100 (Some ''n'') ''a'' sample_mint_state =
      (Inr \<lparr>AccessToken = ''1'', RefreshToken = ''n'', TokenType = ''Bearer'', ExpiresIn = 900, ExpiresAt = 900\<rparr>, st')
     \<and> find_token ''n'' (st_db (ms_auth st')) = Some k \<and> rt_session k = Some 1 \<and> expires_at k = 5000 * Second"
proof -
  have "fst (Refresh sample_mint_env no_faults 100 (Some ''n'') ''a'' sample_mint_state) =
      Inr \<lparr>AccessToken = ''1'', RefreshToken = ''n'', TokenType = ''Bearer'', ExpiresIn = 900, ExpiresAt = 900\<rparr>" by code_simp
  then obtain st' where run: "Refresh sample_mint_env no_faults 100 (Some ''n'') ''a'' sample_mint_state =
      (Inr \<lparr>AccessToken = ''1'', RefreshToken = ''n'', TokenType = ''Bearer'', ExpiresIn = 900, ExpiresAt = 900\<rparr>, st')"
    by (metis prod.collapse)
  have look: "Refresh_lookup no_faults 100 (HashToken (me_auth sample_mint_env) ''a'') (st_db (ms_auth sample_mint_state))
      = Inr (sample_token 1 1 7 ''a'', sample_session 1 7 10)" using sample_lookup by simp
  have "rt_session (sample_token 1 1 7 ''a'') = Some 1" "absolute_expires_at (sample_session 1 7 10) = 5000 * Second"
    by (simp_all add: sample_defs)
  with Refresh_carries_session [OF sample_mint_state_ok look run] run show ?thesis by auto
qed

text \<open>
  Without the lock, two requests presenting the same refresh token can both be served. If the second
  request reads the token before the first one marks it rotated, its own mark does not test that the token
  is still unrevoked, so both mints succeed and the session ends up with two live refresh tokens.
\<close>

theorem Refresh_race_mints_twice:
  "let M = sample_mint_env; st = sample_mint_state;
       first = Refresh_lookup no_faults 100 ''a'' (st_db (ms_auth st));
       second = Refresh_lookup no_faults 100 ''a'' (st_db (ms_auth st));
       finish = (\<lambda>look new st. case look of Inl e \<Rightarrow> (Inl e, st)
                  | Inr (t, s) \<Rightarrow> Refresh_finish M no_faults 100 new (us_user s) (us_tenant s)
                      (carried_context (us_id s) (is_persistent s) (auth_time s) (us_amr s) (rt_audience t) (rt_active_roles t))
                      (Refresh_consume 100 (rt_id t) st));
       (r1, st1) = finish first (Some ''n'') st;
       (r2, st2) = finish second (Some ''m'') st1
   in map_sum id RefreshToken r1 = Inr ''n'' \<and> map_sum id RefreshToken r2 = Inr ''m''
      \<and> map token_hash (filter (\<lambda>t. LiveTokenWhere 100 t \<and> rt_session t = Some 1) (tokens (st_db (ms_auth st2)))) = [''n'', ''m'']"
  by code_simp

subsection \<open>The renewal lock\<close>

lemma renewalLockKey_neq [simp]:
  "sessionDenyKey i \<noteq> renewalLockKey j" "userDenyKey u t \<noteq> renewalLockKey j"
  by (simp_all add: sessionDenyKey_def userDenyKey_def renewalLockKey_def sessionDenyKeyPrefix_def userDenyKeyPrefix_def)

lemma renewalLockTTL_pos [simp]: "0 < renewalLockTTL"
  by (simp add: renewalLockTTL_def)

lemma with_redis_fields [simp]:
  "st_db (ms_auth (with_redis f st)) = st_db (ms_auth st)" "st_redis (ms_auth (with_redis f st)) = f (st_redis (ms_auth st))"
  by (simp_all add: with_redis_def)

lemma with_redis_same [simp]: "with_redis (\<lambda>_. st_redis (ms_auth st)) st = st"
  by (simp add: with_redis_def)

text \<open>Releasing the lock leaves every denial in place.\<close>

lemma SessionDenied_release:
  assumes "redis_store (env_redis E)" "now \<le> \<tau>"
  shows "SessionDenied E no_faults \<tau> i u t iat (a\<lparr>st_redis := rdel (env_redis E) (st_redis a) now (renewalLockKey j)\<rparr>)
     = SessionDenied E no_faults \<tau> i u t iat a"
proof -
  have "rget (env_redis E) (rdel (env_redis E) r now (renewalLockKey j)) \<tau> k = rget (env_redis E) r \<tau> k"
    if "k \<noteq> renewalLockKey j" for r k
    using redis_store.get_del [OF assms] that by simp
  then show ?thesis
    by (simp add: SessionDenied_def Let_def split: option.splits)
qed

lemma RefreshWithLock_acquired:
  assumes store: "redis_store (env_redis (me_auth M))"
    and t: "find_token (HashToken (me_auth M) raw) (st_db (ms_auth st)) = Some t" "rt_session t = Some i"
    and free: "rget (env_redis (me_auth M)) (st_redis (ms_auth st)) now (renewalLockKey i) = None"
    and rot: "locked_rotation M no_faults now rawNew t (token_session_row (st_db (ms_auth st)) t) i
       (with_redis (\<lambda>r. rset (env_redis (me_auth M)) r now (renewalLockKey i) ''1'' renewalLockTTL) st) = (res, st2)"
  shows "RefreshWithLock M sessOrg no_faults now rawNew True id wait raw st =
     (map_sum id Rotated res, with_redis (\<lambda>r. rdel (env_redis (me_auth M)) r now (renewalLockKey i)) st2)"
  using t rot free
  by (simp add: RefreshWithLock_def Let_def redis_store.setnx [OF store] with_redis_def)

text \<open>The replay branch: the session ends and its access tokens are denied.\<close>

lemma locked_replay:
  assumes svc: "auth_service (me_auth M)" "redisCli (me_auth M)" and ok: "session_db_ok (st_db (ms_auth st))"
    and t: "find_token (HashToken (me_auth M) raw) (st_db (ms_auth st)) = Some t" "rt_session t = Some i" "rt_revoked_at t \<noteq> None"
    and s: "find_session i (st_db (ms_auth st)) = Some s" "us_revoked_at s = None" and i: "int64_range i"
    and free: "rget (env_redis (me_auth M)) (st_redis (ms_auth st)) now (renewalLockKey i) = None"
    and run: "RefreshWithLock M sessOrg no_faults now rawNew True id wait raw st = (res, st')"
  shows "res = Inl ErrTokenReplay \<and> session_db_ok (st_db (ms_auth st'))
    \<and> find_session i (st_db (ms_auth st')) = Some (stamp_session now RevokeReasonReplay s)
    \<and> (\<forall>k \<in> set (tokens (st_db (ms_auth st'))). rt_session k = Some i \<longrightarrow> rt_revoked_at k \<noteq> None)
    \<and> (\<forall>\<tau> uid tid iat. now \<le> \<tau> \<longrightarrow> \<tau> < now + AccessTokenTTL \<longrightarrow>
         SessionDenied (me_auth M) no_faults \<tau> (FormatInt i) uid tid iat (ms_auth st'))
    \<and> rget (env_redis (me_auth M)) (st_redis (ms_auth st')) now (renewalLockKey i) = None"
proof -
  let ?R = "env_redis (me_auth M)" and ?key = "renewalLockKey i"
  let ?st = "with_redis (\<lambda>r. rset ?R r now ?key ''1'' renewalLockTTL) st"
  note store = auth_service.store [OF svc(1)]
  have mem: "t \<in> set (tokens (st_db (ms_auth st)))" using find_token_Some [OF t(1)] by simp
  have own: "us_user s = rt_user t" "us_tenant s = rt_tenant t"
    using token_session [OF ok mem t(2)] find_session_mem [OF ok] s(1) by (metis option.inject)+
  have cur: "find (\<lambda>x. rt_id x = rt_id t) (tokens (st_db (ms_auth ?st))) = Some t"
    using find_key_mem [of rt_id "tokens (st_db (ms_auth st))" t] ok mem by (simp add: session_db_ok_def)
  obtain n a where rv: "revokeSession (me_auth M) no_faults now (rt_user t) (rt_tenant t) i RevokeReasonReplay (ms_auth ?st) = (n, a)"
    by fastforce
  have "session_db_ok (st_db (ms_auth ?st))" "find_session i (st_db (ms_auth ?st)) = Some s" using ok s by simp_all
  note ends = revokeSession_effect [OF svc this(1) i this(2) own s(2) rv]
  have "locked_rotation M no_faults now rawNew t (token_session_row (st_db (ms_auth st)) t) i ?st =
      (Inl ErrTokenReplay, ?st\<lparr>ms_auth := a\<rparr>)"
    using cur t(3) rv by (simp add: locked_rotation_def)
  from RefreshWithLock_acquired [OF store t(1,2) free this]
  have res: "res = Inl ErrTokenReplay" and st': "ms_auth st' = a\<lparr>st_redis := rdel ?R (st_redis a) now ?key\<rparr>"
    using run by (auto simp: with_redis_def)
  have "rget ?R (st_redis (ms_auth st')) now ?key = None"
    by (simp add: st' redis_store.get_del [OF store])
  then show ?thesis
    using res ends SessionDenied_release [OF store] by (simp add: st')
qed

text \<open>
  A replayed refresh token ends the session. When the lock is free and the presented token is already
  revoked while its session is not, the locked rotation mints nothing and answers with the replay error; the
  session is revoked with the replay reason, none of its refresh tokens is left unrevoked, its access
  tokens are refused for their whole lifetime, the tables keep their invariant, and the lock is free again.
\<close>

theorem RefreshWithLock_replay_ends_session:
  assumes svc: "auth_service (me_auth M)" "redisCli (me_auth M)" and ok: "session_db_ok (st_db (ms_auth st))"
    and t: "find_token (HashToken (me_auth M) raw) (st_db (ms_auth st)) = Some t" "rt_session t = Some i" "rt_revoked_at t \<noteq> None"
    and s: "find_session i (st_db (ms_auth st)) = Some s" "us_revoked_at s = None" and i: "int64_range i"
    and free: "rget (env_redis (me_auth M)) (st_redis (ms_auth st)) now (renewalLockKey i) = None"
    and run: "RefreshWithLock M sessOrg no_faults now rawNew True id wait raw st = (res, st')"
  shows "res = Inl ErrTokenReplay \<and> session_db_ok (st_db (ms_auth st'))
    \<and> find_session i (st_db (ms_auth st')) = Some (stamp_session now RevokeReasonReplay s)
    \<and> (\<forall>k \<in> set (tokens (st_db (ms_auth st'))). rt_session k = Some i \<longrightarrow> rt_revoked_at k \<noteq> None)
    \<and> (\<forall>\<tau> uid tid iat. now \<le> \<tau> \<longrightarrow> \<tau> < now + AccessTokenTTL \<longrightarrow>
         SessionDenied (me_auth M) no_faults \<tau> (FormatInt i) uid tid iat (ms_auth st'))
    \<and> rget (env_redis (me_auth M)) (st_redis (ms_auth st')) now (renewalLockKey i) = None"
  using assms by (rule locked_replay)

definition sample_rotated_state :: "keyspace mint_state" where
  "sample_rotated_state = Refresh_consume 50 1 sample_mint_state"

lemma sample_rows:
  "find_token ''a'' (st_db (ms_auth sample_mint_state)) = Some (sample_token 1 1 7 ''a'')"
  "find_session 1 (st_db (ms_auth sample_mint_state)) = Some (sample_session 1 7 10)"
  by (simp_all add: find_token_def find_session_def sample_mint_state_def sample_state_def sample_defs)

lemma sample_services [simp]:
  "auth_service (me_auth sample_mint_env)" "redisCli (me_auth sample_mint_env)"
  "env_redis (me_auth sample_mint_env) = keyspace_ops"
  by (simp_all add: sample_mint_env_def ks_env.auth_service_axioms)

theorem RefreshWithLock_replay_ends_session_witness:
  "\<exists>st'. RefreshWithLock sample_mint_env (\<lambda>_ _ _. Inr None) no_faults 100 (Some ''n'') True id id ''a'' sample_rotated_state =
      (Inl ErrTokenReplay, st')
     \<and> find_session 1 (st_db (ms_auth st')) = Some (stamp_session 100 RevokeReasonReplay (sample_session 1 7 10))"
proof -
  let ?t = "stamp_token 50 RevokeReasonRotated (sample_token 1 1 7 ''a'')"
  obtain res st' where run: "RefreshWithLock sample_mint_env (\<lambda>_ _ _. Inr None) no_faults 100 (Some ''n'') True id id ''a''
      sample_rotated_state = (res, st')" by fastforce
  have ok: "session_db_ok (st_db (ms_auth sample_rotated_state))"
    by (simp add: sample_rotated_state_def consume_ok)
  have t: "find_token (HashToken (me_auth sample_mint_env) ''a'') (st_db (ms_auth sample_rotated_state)) = Some ?t"
    by (simp add: sample_rotated_state_def find_token_revoke_id sample_rows) (simp add: sample_token_def)
  have f: "rt_session ?t = Some 1" "rt_revoked_at ?t \<noteq> None" by (simp_all add: sample_token_def)
  have s: "find_session 1 (st_db (ms_auth sample_rotated_state)) = Some (sample_session 1 7 10)" "us_revoked_at (sample_session 1 7 10) = None"
    by (simp_all add: sample_rotated_state_def sample_rows) (simp add: sample_session_def)
  have free: "rget (env_redis (me_auth sample_mint_env)) (st_redis (ms_auth sample_rotated_state)) 100 (renewalLockKey 1) = None"
    by (simp add: sample_rotated_state_def sample_mint_state_def sample_state_def ks_defs)
  from RefreshWithLock_replay_ends_session [OF _ _ ok t f s _ free run] run show ?thesis by (simp add: int64_range_def)
qed

lemma locked_rotated:
  assumes ok: "session_db_ok (st_db (ms_auth st))" and t: "t \<in> set (tokens (st_db (ms_auth st)))" "rt_session t = Some i"
    and s: "find_session i (st_db (ms_auth st)) = Some s"
    and run: "locked_rotation M fl now rawNew t (Some s) i st = (Inr r, st')"
  shows "session_db_ok (st_db (ms_auth st')) \<and> st_redis (ms_auth st') = st_redis (ms_auth st) \<and> us_revoked_at s = None
    \<and> find_token (token_hash t) (st_db (ms_auth st')) = Some (stamp_token now RevokeReasonRotated t)
    \<and> (\<exists>idle. find_session i (st_db (ms_auth st')) = Some (s\<lparr>last_seen_at := now, idle_expires_at := idle\<rparr>))"
proof -
  let ?c = "carried_context i (is_persistent s) (auth_time s) (us_amr s) (rt_audience t) (rt_active_roles t)"
  let ?st = "Refresh_consume now (rt_id t) st"
  have fin: "Refresh_finish M fl now rawNew (rt_user t) (rt_tenant t) ?c ?st = (Inr r, st')"
    using run by (simp add: locked_rotation_def split: option.splits if_splits)
  have own: "us_user s = rt_user t" "us_tenant s = rt_tenant t"
    using token_session [OF ok t] find_session_mem [OF ok] s by (metis option.inject)+
  have ok1: "session_db_ok (st_db (ms_auth ?st))" using consume_ok [OF ok] by simp
  have caller: "mint_caller_ok (rt_user t) (rt_tenant t) ?c (st_db (ms_auth ?st))"
    by (simp add: mint_caller_ok_def s own)
  note keep = finish_keeps [OF ok1 carried_sid caller fin]
  have "find_token (token_hash t) (st_db (ms_auth ?st)) = Some (stamp_token now RevokeReasonRotated t)"
    by (simp add: find_token_revoke_id find_token_mem [OF ok t(1)])
  moreover have s1: "find_session i (st_db (ms_auth ?st)) = Some s" by (simp add: s)
  from fin have "us_revoked_at s = None \<and> (\<exists>idle. find_session i (st_db (ms_auth st')) = Some (s\<lparr>last_seen_at := now, idle_expires_at := idle\<rparr>))"
  proof (cases rule: Refresh_finish_cases)
    case (mint x perms)
    from mint(2) show ?thesis
    proof (cases rule: issue_cases)
      case (minted r' policy org aud claims access evicted db')
      obtain idle where idle: "us_revoked_at s = None" "sessions db' = update_where (\<lambda>q. us_id q = i)
          (\<lambda>q. q\<lparr>last_seen_at := now, idle_expires_at := idle\<rparr>) (sessions (st_db (ms_auth ?st)))"
        using minted(6) by (rule rotation_sessions [OF ok1 carried_sid s1])
      have "find_session i db' = Some (s\<lparr>last_seen_at := now, idle_expires_at := idle\<rparr>)"
        unfolding find_session_def idle(2) using s1 by (simp add: find_session_def find_update_key)
      then show ?thesis using idle(1) minted(7) by auto
    qed simp
  qed simp
  ultimately show ?thesis using keep by simp
qed

text \<open>
  C6: Theft of a refresh token is detected. If a locked rotation succeeds and the spent token is presented
  again at any later time, the second presentation is answered with the replay error and ends the session:
  the session is revoked, every refresh token of it, the fresh one included, is revoked, and its access
  tokens are refused.
\<close>

theorem RefreshWithLock_detects_theft:
  assumes svc: "auth_service (me_auth M)" "redisCli (me_auth M)" and ok: "session_db_ok (st_db (ms_auth st))"
    and t: "find_token (HashToken (me_auth M) raw) (st_db (ms_auth st)) = Some t" "rt_session t = Some i" and i: "int64_range i"
    and free: "rget (env_redis (me_auth M)) (st_redis (ms_auth st)) now (renewalLockKey i) = None"
    and first: "RefreshWithLock M sessOrg no_faults now rawNew True id wait raw st = (Inr (Rotated r), st1)"
    and later: "now \<le> now2" and second: "RefreshWithLock M sessOrg no_faults now2 rawNew2 True id wait raw st1 = (res, st2)"
  shows "res = Inl ErrTokenReplay
    \<and> (\<exists>s. find_session i (st_db (ms_auth st2)) = Some s \<and> us_revoked_reason s = Some RevokeReasonReplay)
    \<and> (\<forall>k \<in> set (tokens (st_db (ms_auth st2))). rt_session k = Some i \<longrightarrow> rt_revoked_at k \<noteq> None)
    \<and> (\<forall>\<tau> uid tid iat. now2 \<le> \<tau> \<longrightarrow> \<tau> < now2 + AccessTokenTTL \<longrightarrow>
         SessionDenied (me_auth M) no_faults \<tau> (FormatInt i) uid tid iat (ms_auth st2))"
proof -
  let ?R = "env_redis (me_auth M)" and ?key = "renewalLockKey i"
  let ?st = "with_redis (\<lambda>r. rset ?R r now ?key ''1'' renewalLockTTL) st"
  note store = auth_service.store [OF svc(1)]
  have mem: "t \<in> set (tokens (st_db (ms_auth ?st)))" and h: "token_hash t = HashToken (me_auth M) raw"
    using find_token_Some [OF t(1)] by simp_all
  obtain s where s: "find_session i (st_db (ms_auth st)) = Some s"
    using token_session [OF ok _ t(2)] find_session_mem [OF ok] mem by (metis with_redis_fields(1))
  obtain res1 st1' where rot: "locked_rotation M no_faults now rawNew t (token_session_row (st_db (ms_auth st)) t) i ?st = (res1, st1')"
    by fastforce
  have "res1 = Inr r" and st1: "st1 = with_redis (\<lambda>r. rdel ?R r now ?key) st1'"
    using RefreshWithLock_acquired [OF store t free rot] first by (cases res1; simp)+
  with rot s t(2) have "locked_rotation M no_faults now rawNew t (Some s) i ?st = (Inr r, st1')"
    by (simp add: token_session_row_def)
  from locked_rotated [OF _ mem t(2) _ this] ok s obtain idle where
    ok1: "session_db_ok (st_db (ms_auth st1))" and "us_revoked_at s = None"
    and t1: "find_token (HashToken (me_auth M) raw) (st_db (ms_auth st1)) = Some (stamp_token now RevokeReasonRotated t)"
    and s1: "find_session i (st_db (ms_auth st1)) = Some (s\<lparr>last_seen_at := now, idle_expires_at := idle\<rparr>)"
    unfolding h st1 by auto
  have "rget ?R (st_redis (ms_auth st1)) now ?key = None"
    by (simp add: st1 redis_store.get_del [OF store])
  then have free1: "rget ?R (st_redis (ms_auth st1)) now2 ?key = None"
    using redis_store.get_gone [OF store _ later] by blast
  from locked_replay [OF svc ok1 t1 _ _ s1 _ i free1 second] t(2) \<open>us_revoked_at s = None\<close> show ?thesis by simp
qed

theorem RefreshWithLock_detects_theft_witness:
  "\<exists>r st1 st2. RefreshWithLock sample_mint_env (\<lambda>_ _ _. Inr None) no_faults 100 (Some ''n'') True id id ''a'' sample_mint_state =
       (Inr (Rotated r), st1)
     \<and> RefreshWithLock sample_mint_env (\<lambda>_ _ _. Inr None) no_faults 200 (Some ''m'') True id id ''a'' st1 = (Inl ErrTokenReplay, st2)"
proof -
  let ?run = "\<lambda>now new st. RefreshWithLock sample_mint_env (\<lambda>_ _ _. Inr None) no_faults now new True id id ''a'' st"
  have "fst (?run 100 (Some ''n'') sample_mint_state) =
      Inr (Rotated \<lparr>AccessToken = ''1'', RefreshToken = ''n'', TokenType = ''Bearer'', ExpiresIn = 900, ExpiresAt = 900\<rparr>)"
    by code_simp
  then obtain r st1 where first: "?run 100 (Some ''n'') sample_mint_state = (Inr (Rotated r), st1)" by (metis prod.collapse)
  obtain res st2 where second: "?run 200 (Some ''m'') st1 = (res, st2)" by fastforce
  have t: "find_token (HashToken (me_auth sample_mint_env) ''a'') (st_db (ms_auth sample_mint_state)) = Some (sample_token 1 1 7 ''a'')"
    "rt_session (sample_token 1 1 7 ''a'') = Some 1" by (simp_all add: sample_rows) (simp add: sample_token_def)
  have free: "rget (env_redis (me_auth sample_mint_env)) (st_redis (ms_auth sample_mint_state)) 100 (renewalLockKey 1) = None"
    by (simp add: sample_mint_state_def sample_state_def ks_defs)
  from RefreshWithLock_detects_theft [OF _ _ sample_mint_state_ok t _ free first _ second] first second
  show ?thesis by (simp add: int64_range_def)
qed

text \<open>
  C30: The lock excludes a second rotation. While the session's renewal lock is held, a request changes
  nothing of its own and never mints: it can only return the identity of the presented token's account, and
  only if a token of that session was issued within the grace period and both it and the session are live
  at the end of the wait. If Redis cannot be reached the request is refused outright.
\<close>

theorem RefreshWithLock_excludes:
  assumes store: "redis_store (env_redis (me_auth M))"
    and t: "find_token (HashToken (me_auth M) raw) (st_db (ms_auth st)) = Some t" "rt_session t = Some i"
    and held: "rget (env_redis (me_auth M)) (st_redis (ms_auth (pre st))) now (renewalLockKey i) \<noteq> None"
    and fl: "\<not> fl ''lookup refresh token''"
    and run: "RefreshWithLock M sessOrg fl now rawNew True pre wait raw st = (res, st')"
  shows "if fl (renewalLockKey i) then res = Inl ErrServiceUnavailable \<and> st' = pre st
    else st' = wait (pre st) \<and> (\<forall>r. res \<noteq> Inr (Rotated r))
      \<and> (\<forall>g. res = Inr (Grace g) \<longrightarrow> gr_UserID g = rt_user t \<and> gr_TenantID g = rt_tenant t \<and> gr_SessionID g = i
           \<and> (\<exists>k \<in> set (tokens (st_db (ms_auth st'))). \<exists>s \<in> set (sessions (st_db (ms_auth st'))).
                rt_session k = Some i \<and> us_id s = i \<and> us_user s = rt_user t \<and> us_tenant s = rt_tenant t
                \<and> now + renewalWait - gracePeriod < created_at k
                \<and> LiveTokenWhere (now + renewalWait) k \<and> LiveSessionWhere (now + renewalWait) s))"
proof (cases "fl (renewalLockKey i)")
  case True
  then show ?thesis using run t fl by (simp add: RefreshWithLock_def Let_def)
next
  case False
  let ?g = "checkGraceWindow M sessOrg fl (now + renewalWait) (rt_user t) (rt_tenant t) i (rt_active_roles t)
      (st_db (ms_auth (wait (pre st))))"
  have "rsetnx (env_redis (me_auth M)) (st_redis (ms_auth (pre st))) now (renewalLockKey i) ''1'' renewalLockTTL =
      (False, st_redis (ms_auth (pre st)))"
    using redis_store.setnx_refused [OF store _ held] by simp
  then have st': "st' = wait (pre st)" and res: "res = map_sum id Grace ?g"
    using run t fl False by (auto simp: RefreshWithLock_def Let_def)
  show ?thesis
  proof (cases ?g)
    case (Inl e)
    then show ?thesis using st' res False by simp
  next
    case (Inr g)
    then have "gr_UserID g = rt_user t \<and> gr_TenantID g = rt_tenant t \<and> gr_SessionID g = i"
      by (auto simp: checkGraceWindow_def Let_def split: if_splits option.splits sum.splits)
    moreover have "\<exists>k \<in> set (tokens (st_db (ms_auth st'))). rt_session k = Some i \<and> created_at k > now + renewalWait - gracePeriod
        \<and> LiveTokenWhere (now + renewalWait) k \<and> (\<exists>s \<in> set (sessions (st_db (ms_auth st'))). us_id s = i \<and> us_user s = rt_user t
             \<and> us_tenant s = rt_tenant t \<and> LiveSessionWhere (now + renewalWait) s)"
      using Inr unfolding checkGraceWindow_def st' by (metis (no_types, lifting) Inl_Inr_False)
    ultimately show ?thesis using st' res False Inr by auto
  qed
qed

theorem RefreshWithLock_excludes_witness:
  "let busy = with_redis (\<lambda>r. ks_set r 90 (renewalLockKey 1) ''1'' renewalLockTTL) sample_mint_state in
   \<exists>res. RefreshWithLock sample_mint_env (\<lambda>_ _ _. Inr None) no_faults 100 (Some ''n'') True id id ''a'' busy = (res, busy)
     \<and> (\<forall>r. res \<noteq> Inr (Rotated r))"
proof -
  let ?busy = "with_redis (\<lambda>r. ks_set r 90 (renewalLockKey 1) ''1'' renewalLockTTL) sample_mint_state"
  obtain res st' where run: "RefreshWithLock sample_mint_env (\<lambda>_ _ _. Inr None) no_faults 100 (Some ''n'') True id id ''a'' ?busy = (res, st')"
    by fastforce
  have t: "find_token (HashToken (me_auth sample_mint_env) ''a'') (st_db (ms_auth ?busy)) = Some (sample_token 1 1 7 ''a'')"
    "rt_session (sample_token 1 1 7 ''a'') = Some 1" by (simp_all add: sample_rows) (simp add: sample_token_def)
  have held: "rget (env_redis (me_auth sample_mint_env)) (st_redis (ms_auth (id ?busy))) 100 (renewalLockKey 1) \<noteq> None"
    by (simp add: ks_defs renewalLockTTL_def)
  have store: "redis_store (env_redis (me_auth sample_mint_env))" by (simp add: ks.redis_store_axioms)
  from RefreshWithLock_excludes [OF store t held _ run] run show ?thesis by (simp add: Let_def)
qed

end
