(* ===== verification/TenantSwitch.thy ===== *)
theory TenantSwitch
  imports Refresh
begin

text \<open>
  Moving an administrator's session to another tenant (\<^verbatim>\<open>SwitchTenantContext\<close> and
  \<^verbatim>\<open>SwitchTenantContextForClaims\<close> of \<^verbatim>\<open>internal/auth/tenant_context.go\<close>, \<^verbatim>\<open>sessionHasMFA\<close> of
  \<^verbatim>\<open>admin_mfa_policy.go\<close>). The switch re-mints on the session it is given; what follows shows its guards
  and what becomes of the token it hands out.
\<close>

definition GrantTenantSwitch :: string where "GrantTenantSwitch = ''tenant_switch''"

text \<open>A session context with nothing set, Go's \<^verbatim>\<open>sessionContext{}\<close>.\<close>

definition zero_context :: sessionContext where
  "zero_context =
     \<lparr>sc_sessionID = None, sc_persistent = False, sc_amr = [], sc_authTime = None, sc_grant = [], sc_activeRoles = None,
      sc_audience = [], sc_pinnedAudience = [], sc_filterPerms = False, sc_org = no_org, sc_absoluteCap = None\<rparr>"

definition SwitchTenantContext ::
  "'r mint_env \<Rightarrow> faults \<Rightarrow> time \<Rightarrow> string option \<Rightarrow> int \<Rightarrow> int \<Rightarrow> int \<Rightarrow> bool \<Rightarrow> sessionContext \<Rightarrow> 'r mint_state \<Rightarrow>
   AuthResult result \<times> 'r mint_state" where
  "SwitchTenantContext M fl now rawNew userID currentTenantID targetTenantID platformAdmin sess st =
     (let db = me_authority M in
      if targetTenantID = currentTenantID then (Inl ErrSameTenant, st)
      else if fl ''load target tenant'' then (Inl (Wrapped ''load target tenant''), st)
      else if \<not> (\<exists>t \<in> set (tenants db). t_id t = targetTenantID \<and> t_deleted t = None \<and> t_active t)
      then (Inl ErrNoGrantInTenant, st)
      else case (if platformAdmin then Inr (True, []) else HasAdminGrant fl userID targetTenantID db) of
        Inl e \<Rightarrow> (Inl e, st)
      | Inr (ok, role) \<Rightarrow>
          if \<not> ok then (Inl ErrNoGrantInTenant, st)
          else if fl ''load switching user'' then (Inl (Wrapped ''load switching user''), st)
          else (case find (\<lambda>u. u_id u = userID \<and> u_deleted u = None) (users db) of
                  None \<Rightarrow> (Inl ErrUserNotFound, st)
                | Some u \<Rightarrow>
                    if \<not> u_active u \<or> u_blocked u \<noteq> None then (Inl ErrSwitchAccountUnusable, st)
                    else (case loadAdminPermissionsForTenant fl userID targetTenantID role platformAdmin db of
                            Inl e \<Rightarrow> (Inl e, st)
                          | Inr perms \<Rightarrow>
                              if platformAdmin \<and> fl ''load platform admin role''
                              then (Inl (Wrapped ''load platform admin role''), st)
                              else
                                let claimRole = (if platformAdmin
                                      then (case u_role u of None \<Rightarrow> []
                                            | Some rid \<Rightarrow> (case find (\<lambda>r. r_id r = rid \<and> r_deleted r = None) (roles db) of
                                                           None \<Rightarrow> [] | Some r \<Rightarrow> r_name r))
                                      else role)
                                in issueTokenPair M fl now rawNew userID targetTenantID (u_email u) claimRole perms
                                     (sess\<lparr>sc_grant := GrantTenantSwitch\<rparr>) [] st)))"

definition sessionHasMFA :: "faults \<Rightarrow> int \<Rightarrow> int \<Rightarrow> session_db \<Rightarrow> bool result" where
  "sessionHasMFA fl sessionID userID db =
     (if fl ''read session amr'' then Inl (Wrapped ''read session amr'')
      else case find (\<lambda>s. us_id s = sessionID \<and> us_user s = userID \<and> us_revoked_at s = None) (sessions db) of
             None \<Rightarrow> Inr False
           | Some s \<Rightarrow> Inr (AMRMFA \<in> set (us_amr s)))"

definition SwitchTenantContextForClaims ::
  "'r mint_env \<Rightarrow> bool \<Rightarrow> faults \<Rightarrow> time \<Rightarrow> string option \<Rightarrow> int \<Rightarrow> int \<Rightarrow> int \<Rightarrow> bool \<Rightarrow> string \<Rightarrow> bool \<Rightarrow> 'r mint_state \<Rightarrow>
   AuthResult result \<times> 'r mint_state" where
  "SwitchTenantContextForClaims M adminMFA fl now rawNew userID currentTenantID targetTenantID platformAdmin sessionID humanSession st =
     (let sid = (if sessionID = [] then None else ParseInt sessionID);
          sess = zero_context\<lparr>sc_sessionID := sid\<rparr>;
          go = SwitchTenantContext M fl now rawNew userID currentTenantID targetTenantID platformAdmin sess st
      in if \<not> (adminMFA \<and> humanSession) then go
         else (case sid of
                 None \<Rightarrow> (Inl ErrMFAStepUpRequired, st)
               | Some i \<Rightarrow> (case sessionHasMFA fl i userID (st_db (ms_auth st)) of
                              Inl e \<Rightarrow> (Inl e, st)
                            | Inr ok \<Rightarrow> if ok then go else (Inl ErrMFAStepUpRequired, st))))"

subsection \<open>The guards\<close>

lemma Switch_success:
  assumes "SwitchTenantContext M fl now rawNew uid cur tgt platformAdmin sess st = (Inr r, st')"
  obtains role u perms claimRole where "tgt \<noteq> cur"
    "\<exists>t \<in> set (tenants (me_authority M)). t_id t = tgt \<and> t_deleted t = None \<and> t_active t"
    "platformAdmin \<or> HasAdminGrant fl uid tgt (me_authority M) = Inr (True, role)"
    "find (\<lambda>u. u_id u = uid \<and> u_deleted u = None) (users (me_authority M)) = Some u" "u_active u" "u_blocked u = None"
    "loadAdminPermissionsForTenant fl uid tgt role platformAdmin (me_authority M) = Inr perms"
    "issueTokenPairWithScope M fl now rawNew uid tgt (u_email u) claimRole perms (sess\<lparr>sc_grant := GrantTenantSwitch\<rparr>) [] [] st = (Inr r, st')"
proof -
  let ?db = "me_authority M"
  let ?auth = "if platformAdmin then Inr (True, []) else HasAdminGrant fl uid tgt ?db"
  note run = assms [unfolded SwitchTenantContext_def Let_def]
  have g: "tgt \<noteq> cur" "\<not> fl ''load target tenant''" "\<exists>t \<in> set (tenants ?db). t_id t = tgt \<and> t_deleted t = None \<and> t_active t"
    using run by (auto split: if_splits)
  obtain ok role where auth: "?auth = Inr (ok, role)"
    using run g by (cases ?auth) (auto simp del: split_paired_Ex)
  have ok: "ok" using run g auth by (auto split: if_splits)
  have fl: "\<not> fl ''load switching user''" using run g auth ok by (auto split: if_splits)
  obtain u where u: "find (\<lambda>u. u_id u = uid \<and> u_deleted u = None) (users ?db) = Some u"
    using run g auth ok fl by (cases "find (\<lambda>u. u_id u = uid \<and> u_deleted u = None) (users ?db)") auto
  have usable: "u_active u" "u_blocked u = None" using run g auth ok fl u by (auto split: if_splits)
  obtain perms where perms: "loadAdminPermissionsForTenant fl uid tgt role platformAdmin ?db = Inr perms"
    using run g auth ok fl u usable by (cases "loadAdminPermissionsForTenant fl uid tgt role platformAdmin ?db") auto
  obtain claimRole where "issueTokenPair M fl now rawNew uid tgt (u_email u) claimRole perms
      (sess\<lparr>sc_grant := GrantTenantSwitch\<rparr>) [] st = (Inr r, st')"
    using run g auth ok fl u usable perms by (auto split: if_splits)
  with that g u usable perms auth ok show ?thesis by (auto simp: issueTokenPair_def split: if_splits)
qed

lemma SwitchForClaims_success:
  assumes "SwitchTenantContextForClaims M adminMFA fl now rawNew uid cur tgt platformAdmin sessionID human st = (Inr r, st')"
  shows "SwitchTenantContext M fl now rawNew uid cur tgt platformAdmin
           (zero_context\<lparr>sc_sessionID := if sessionID = [] then None else ParseInt sessionID\<rparr>) st = (Inr r, st')"
    and "adminMFA \<and> human \<longrightarrow> (\<exists>i s. ParseInt sessionID = Some i \<and> s \<in> set (sessions (st_db (ms_auth st)))
           \<and> us_id s = i \<and> us_user s = uid \<and> us_revoked_at s = None \<and> AMRMFA \<in> set (us_amr s))"
proof -
  show "SwitchTenantContext M fl now rawNew uid cur tgt platformAdmin
           (zero_context\<lparr>sc_sessionID := if sessionID = [] then None else ParseInt sessionID\<rparr>) st = (Inr r, st')"
    using assms by (auto simp: SwitchTenantContextForClaims_def Let_def split: if_splits option.splits sum.splits)
  show "adminMFA \<and> human \<longrightarrow> (\<exists>i s. ParseInt sessionID = Some i \<and> s \<in> set (sessions (st_db (ms_auth st)))
           \<and> us_id s = i \<and> us_user s = uid \<and> us_revoked_at s = None \<and> AMRMFA \<in> set (us_amr s))"
  proof
    assume "adminMFA \<and> human"
    with assms obtain i where i: "ParseInt sessionID = Some i" "sessionHasMFA fl i uid (st_db (ms_auth st)) = Inr True"
      by (auto simp: SwitchTenantContextForClaims_def Let_def split: if_splits option.splits sum.splits)
    then obtain s where "find (\<lambda>s. us_id s = i \<and> us_user s = uid \<and> us_revoked_at s = None) (sessions (st_db (ms_auth st))) = Some s"
        "AMRMFA \<in> set (us_amr s)"
      by (auto simp: sessionHasMFA_def split: if_splits option.splits)
    then show "\<exists>i s. ParseInt sessionID = Some i \<and> s \<in> set (sessions (st_db (ms_auth st)))
           \<and> us_id s = i \<and> us_user s = uid \<and> us_revoked_at s = None \<and> AMRMFA \<in> set (us_amr s)"
      using i(1) by (metis (mono_tags, lifting) find_Some_iff nth_mem)
  qed
qed

text \<open>The token row of a successful mint, without any assumption on the tables.\<close>

lemma minted_row:
  assumes "issueTokenPairWithScope M fl now rawNew u t email role perms sess appID scope st = (Inr r, st')"
  obtains k where "find_token (HashToken (me_auth M) (RefreshToken r)) (st_db (ms_auth st')) = Some k"
    "rt_user k = u" "rt_tenant k = t" "rt_active_roles k = sc_activeRoles sess" "rt_revoked_at k = None"
    "sc_sessionID sess = Some i \<longrightarrow> rt_session k = Some i"
  using assms
proof (cases rule: issue_cases)
  case (minted r' policy org aud claims access evicted db')
  have r: "r' = r" using minted(1) by simp
  obtain sid expires db1 where
    m: "mint_session M fl now u t sess appID policy (map_option mo_rowID org) (st_db (ms_auth st)) = Inr (sid, expires, evicted, db1)"
    and ins: "insert_token (new_token_row now u t (HashToken (me_auth M) (RefreshToken r)) expires sid appID (ma_Value aud)
                (sc_activeRoles sess)) db1 = Some db'"
    using minted(6) unfolding r by (rule mint_tx_InrD)
  obtain idle absolute where d: "mint_deadlines policy now sess = (idle, absolute)" by fastforce
  have "sc_sessionID sess = Some i \<longrightarrow> sid = i" using mint_session_rotation [OF _ d m] by blast
  moreover let ?k = "new_token_row now u t (HashToken (me_auth M) (RefreshToken r)) expires sid appID (ma_Value aud)
                (sc_activeRoles sess)\<lparr>rt_id := next_token_id db1\<rparr>"
  have "find_token (HashToken (me_auth M) (RefreshToken r)) (st_db (ms_auth st')) = Some ?k"
    using find_token_insert [OF ins] minted(7) by (simp add: new_token_row_def)
  ultimately show ?thesis by (rule_tac that [of ?k]) (simp_all add: new_token_row_def)
qed simp

text \<open>The session table after a mint on a named session: that session slides, every other row and column is as it was.\<close>

lemma minted_slide:
  assumes "issueTokenPairWithScope M fl now rawNew u t email role perms sess appID scope st = (Inr r, st')" "sc_sessionID sess = Some i"
  obtains idle where "sessions (st_db (ms_auth st')) = update_where (\<lambda>s. us_id s = i \<and> us_revoked_at s = None)
    (\<lambda>s. s\<lparr>last_seen_at := now, idle_expires_at := min idle (absolute_expires_at s)\<rparr>) (sessions (st_db (ms_auth st)))"
  using assms(1)
proof (cases rule: issue_cases)
  case (minted r' policy org aud claims access evicted db')
  obtain sid expires db1 where
    m: "mint_session M fl now u t sess appID policy (map_option mo_rowID org) (st_db (ms_auth st)) = Inr (sid, expires, evicted, db1)"
    and ins: "insert_token (new_token_row now u t (HashToken (me_auth M) (RefreshToken r')) expires sid appID (ma_Value aud)
                (sc_activeRoles sess)) db1 = Some db'"
    using minted(6) by (rule mint_tx_InrD)
  obtain idle absolute where d: "mint_deadlines policy now sess = (idle, absolute)" by fastforce
  have "touch_session now idle i (st_db (ms_auth st)) = Some (expires, db1)" using mint_session_rotation [OF assms(2) d m] by blast
  then have "sessions db1 = update_where (\<lambda>s. us_id s = i \<and> us_revoked_at s = None)
      (\<lambda>s. s\<lparr>last_seen_at := now, idle_expires_at := min idle (absolute_expires_at s)\<rparr>) (sessions (st_db (ms_auth st)))"
    by (auto simp: touch_session_def Let_def split: list.splits)
  moreover have "sessions (st_db (ms_auth st')) = sessions db1"
    using ins minted(7) by (auto simp: insert_token_def split: if_splits)
  ultimately show ?thesis by (intro that [of idle]) simp
qed simp

text \<open>
  C34: Switching tenants is guarded. A switch that returns tokens was to a different tenant that exists and
  is active, by an account that is active and not blocked and that holds an activated grant there (or came
  in as a platform administrator); with administrator MFA enforced, a person's session was their own,
  unrevoked, and established with MFA. The token handed out is for the target tenant and the same user and carries no role scope.
  Where the claims name a session, the token is on that session, and the session table differs only in the last activity and the
  idle deadline of that one row, which stays within its absolute deadline: its user, tenant, authentication time, methods, persistence,
  device and absolute deadline, and every other session, are as they were.
\<close>

theorem SwitchTenantContext_guarded:
  assumes run: "SwitchTenantContextForClaims M adminMFA fl now rawNew uid cur tgt platformAdmin sessionID human st = (Inr r, st')"
  shows "tgt \<noteq> cur
    \<and> (\<exists>t \<in> set (tenants (me_authority M)). t_id t = tgt \<and> t_deleted t = None \<and> t_active t)
    \<and> (\<exists>u \<in> set (users (me_authority M)). u_id u = uid \<and> live_user u \<and> u_blocked u = None)
    \<and> (platformAdmin \<or> (\<exists>g \<in> set (admin_grants (me_authority M)). live_grant uid tgt g))
    \<and> (adminMFA \<and> human \<longrightarrow> (\<exists>i s. ParseInt sessionID = Some i \<and> s \<in> set (sessions (st_db (ms_auth st)))
           \<and> us_id s = i \<and> us_user s = uid \<and> us_revoked_at s = None \<and> AMRMFA \<in> set (us_amr s)))
    \<and> (\<exists>k. find_token (HashToken (me_auth M) (RefreshToken r)) (st_db (ms_auth st')) = Some k \<and> rt_user k = uid
         \<and> rt_tenant k = tgt \<and> rt_active_roles k = None
         \<and> (\<forall>i. sessionID \<noteq> [] \<and> ParseInt sessionID = Some i \<longrightarrow> rt_session k = Some i))
    \<and> (\<forall>i. sessionID \<noteq> [] \<and> ParseInt sessionID = Some i \<longrightarrow>
         (\<exists>idle. sessions (st_db (ms_auth st')) = update_where (\<lambda>s. us_id s = i \<and> us_revoked_at s = None)
            (\<lambda>s. s\<lparr>last_seen_at := now, idle_expires_at := min idle (absolute_expires_at s)\<rparr>) (sessions (st_db (ms_auth st)))))"
proof -
  note sw = SwitchForClaims_success [OF run]
  obtain role u perms claimRole where g: "tgt \<noteq> cur"
    "\<exists>t \<in> set (tenants (me_authority M)). t_id t = tgt \<and> t_deleted t = None \<and> t_active t"
    "platformAdmin \<or> HasAdminGrant fl uid tgt (me_authority M) = Inr (True, role)"
    and u: "find (\<lambda>u. u_id u = uid \<and> u_deleted u = None) (users (me_authority M)) = Some u" "u_active u" "u_blocked u = None"
    and mint: "issueTokenPairWithScope M fl now rawNew uid tgt (u_email u) claimRole perms
      (zero_context\<lparr>sc_sessionID := if sessionID = [] then None else ParseInt sessionID\<rparr>\<lparr>sc_grant := GrantTenantSwitch\<rparr>) [] [] st = (Inr r, st')"
    by (rule Switch_success [OF sw(1)])
  have "\<exists>u \<in> set (users (me_authority M)). u_id u = uid \<and> live_user u \<and> u_blocked u = None"
    using u by (auto simp: find_Some_iff live_user_def)
  moreover have "platformAdmin \<or> (\<exists>g \<in> set (admin_grants (me_authority M)). live_grant uid tgt g)"
  proof (cases platformAdmin)
    case False
    then have "grants_in uid tgt (me_authority M) \<noteq> []"
      using g(3) by (auto simp: HasAdminGrant_def split: if_splits list.splits)
    then show ?thesis using set_grants_in [of uid tgt "me_authority M"] by (metis (no_types, lifting) hd_in_set mem_Collect_eq)
  qed simp
  moreover obtain k where k: "find_token (HashToken (me_auth M) (RefreshToken r)) (st_db (ms_auth st')) = Some k"
    "rt_user k = uid" "rt_tenant k = tgt" "rt_active_roles k = None"
    "(if sessionID = [] then None else ParseInt sessionID) = Some (the (ParseInt sessionID)) \<longrightarrow> rt_session k = Some (the (ParseInt sessionID))"
    by (rule minted_row [OF mint, where i = "the (ParseInt sessionID)"]) (simp add: zero_context_def)
  moreover have "\<exists>idle. sessions (st_db (ms_auth st')) = update_where (\<lambda>s. us_id s = i \<and> us_revoked_at s = None)
      (\<lambda>s. s\<lparr>last_seen_at := now, idle_expires_at := min idle (absolute_expires_at s)\<rparr>) (sessions (st_db (ms_auth st)))"
    if "sessionID \<noteq> [] \<and> ParseInt sessionID = Some i" for i
    by (rule minted_slide [OF mint, of i]) (use that in auto)
  ultimately show ?thesis using g(1,2) sw(2) by auto
qed

text \<open>
  C38: A session that has switched tenants cannot be logged out with the token it then holds. The switch
  stores the new refresh token under the target tenant but leaves the session under the tenant it began
  in, and logout revokes by the token's tenant: presenting the token reports that nothing was revoked
  and changes nothing, so the session and the token stay live.
\<close>

theorem switched_session_survives_logout:
  assumes ok: "session_db_ok (st_db (ms_auth st))" and i: "int64_range i"
    and s: "find_session i (st_db (ms_auth st)) = Some s" "us_tenant s = cur"
    and run: "SwitchTenantContextForClaims M adminMFA fl now rawNew uid cur tgt platformAdmin (FormatInt i) human st = (Inr r, st')"
    and raw: "RefreshToken r \<noteq> []"
  shows "LogoutSession (me_auth M) no_faults now2 (RefreshToken r) (ms_auth st') = (Inr 0, ms_auth st')
    \<and> (\<exists>k s'. find_token (HashToken (me_auth M) (RefreshToken r)) (st_db (ms_auth st')) = Some k \<and> rt_revoked_at k = None
         \<and> rt_session k = Some i \<and> find_session i (st_db (ms_auth st')) = Some s' \<and> us_revoked_at s' = None)"
proof -
  note sw = SwitchForClaims_success(1) [OF run]
  have sid: "FormatInt i \<noteq> []" "ParseInt (FormatInt i) = Some i" using ParseInt_FormatInt [OF i] by auto
  let ?c = "zero_context\<lparr>sc_sessionID := Some i\<rparr>\<lparr>sc_grant := GrantTenantSwitch\<rparr>"
  have c: "sc_sessionID ?c = Some i" by simp
  obtain u :: user_row and perms claimRole where tgt: "tgt \<noteq> cur"
    and mint: "issueTokenPairWithScope M fl now rawNew uid tgt (u_email u) claimRole perms ?c [] [] st = (Inr r, st')"
  proof (rule Switch_success [OF sw])
    fix role perms claimRole and u :: user_row
    assume "tgt \<noteq> cur" "issueTokenPairWithScope M fl now rawNew uid tgt (u_email u) claimRole perms
      (zero_context\<lparr>sc_sessionID := if FormatInt i = [] then None else ParseInt (FormatInt i)\<rparr>\<lparr>sc_grant := GrantTenantSwitch\<rparr>)
      [] [] st = (Inr r, st')"
    then show ?thesis using sid by (intro that [of u claimRole perms]) simp_all
  qed
  obtain k where k: "find_token (HashToken (me_auth M) (RefreshToken r)) (st_db (ms_auth st')) = Some k"
    "rt_user k = uid" "rt_tenant k = tgt" "rt_revoked_at k = None" "rt_session k = Some i"
    by (rule minted_row [OF mint, where i = i]) simp
  obtain idle where rev: "us_revoked_at s = None"
    and ss: "sessions (st_db (ms_auth st')) = update_where (\<lambda>q. us_id q = i)
       (\<lambda>q. q\<lparr>last_seen_at := now, idle_expires_at := idle\<rparr>) (sessions (st_db (ms_auth st)))"
    using mint
  proof (cases rule: issue_cases)
    case (minted r' policy org aud claims access evicted db')
    obtain idle where "us_revoked_at s = None" "sessions db' = update_where (\<lambda>q. us_id q = i)
       (\<lambda>q. q\<lparr>last_seen_at := now, idle_expires_at := idle\<rparr>) (sessions (st_db (ms_auth st)))"
      using minted(6) by (rule rotation_sessions [OF ok c s(1)])
    with that minted(7) show ?thesis by simp
  qed simp
  have here: "find_session i (st_db (ms_auth st')) = Some (s\<lparr>last_seen_at := now, idle_expires_at := idle\<rparr>)"
    unfolding find_session_def ss using s(1) by (simp add: find_session_def find_update_key)
  have home: "us_tenant q = cur" if "q \<in> set (sessions (st_db (ms_auth st)))" "us_id q = i" for q
    using session_unique [OF ok that(1), of s] that(2) find_session_Some [OF s(1)] s(2) by simp
  have "\<forall>q \<in> set (sessions (st_db (ms_auth st'))). us_id q = i \<longrightarrow> us_tenant q = cur"
  proof (intro ballI impI)
    fix q assume q: "q \<in> set (sessions (st_db (ms_auth st')))" "us_id q = i"
    from update_where_mem [OF q(1) [unfolded ss]] obtain y where y: "y \<in> set (sessions (st_db (ms_auth st)))"
      and qy: "q = (if us_id y = i then y\<lparr>last_seen_at := now, idle_expires_at := idle\<rparr> else y)" by blast
    show "us_tenant q = cur" using home [OF y] qy q(2) by (cases "us_id y = i") simp_all
  qed
  then have "fst (revokeSession_tx now2 uid tgt i RevokeReasonLogout (st_db (ms_auth st'))) = 0"
    using tgt by (auto simp: revokeSession_none)
  then have "LogoutSession (me_auth M) no_faults now2 (RefreshToken r) (ms_auth st') = (Inr 0, ms_auth st')"
    using k raw by (auto simp: LogoutSession_def revokeSessionByRefreshToken_def revokeSession_def split: prod.splits)
  with k here rev show ?thesis by auto
qed

text \<open>
  User 7 of tenant 3, a co-owner in tenant 9, switches on session 1. Administrator MFA is not enforced in
  the example.
\<close>

lemma sample_switch_run:
  "fst (SwitchTenantContextForClaims sample_mint_env False no_faults 100 (Some ''n'') 7 3 9 False ''1'' True sample_mint_state) =
     Inr \<lparr>AccessToken = ''1'', RefreshToken = ''n'', TokenType = ''Bearer'', ExpiresIn = 900, ExpiresAt = 900\<rparr>"
  by code_simp

theorem SwitchTenantContext_guarded_witness:
  "\<exists>st' k. SwitchTenantContextForClaims sample_mint_env False no_faults 100 (Some ''n'') 7 3 9 False ''1'' True sample_mint_state =
      (Inr \<lparr>AccessToken = ''1'', RefreshToken = ''n'', TokenType = ''Bearer'', ExpiresIn = 900, ExpiresAt = 900\<rparr>, st')
     \<and> find_token ''n'' (st_db (ms_auth st')) = Some k \<and> rt_tenant k = 9
     \<and> map us_amr (sessions (st_db (ms_auth st'))) = map us_amr (sessions (st_db (ms_auth sample_mint_state)))"
proof -
  obtain st' where run: "SwitchTenantContextForClaims sample_mint_env False no_faults 100 (Some ''n'') 7 3 9 False ''1'' True sample_mint_state =
      (Inr \<lparr>AccessToken = ''1'', RefreshToken = ''n'', TokenType = ''Bearer'', ExpiresIn = 900, ExpiresAt = 900\<rparr>, st')"
    using sample_switch_run by (metis prod.collapse)
  have one: "''1'' \<noteq> [] \<and> ParseInt ''1'' = Some 1" by code_simp
  note T = SwitchTenantContext_guarded [OF run]
  from T one obtain idle where "sessions (st_db (ms_auth st')) = update_where (\<lambda>s. us_id s = 1 \<and> us_revoked_at s = None)
      (\<lambda>s. s\<lparr>last_seen_at := 100, idle_expires_at := min idle (absolute_expires_at s)\<rparr>) (sessions (st_db (ms_auth sample_mint_state)))"
    by blast
  then have "map us_amr (sessions (st_db (ms_auth st'))) = map us_amr (sessions (st_db (ms_auth sample_mint_state)))"
    by (simp add: map_update_where)
  with T run show ?thesis by auto
qed

theorem switched_session_survives_logout_witness:
  "\<exists>st'. SwitchTenantContextForClaims sample_mint_env False no_faults 100 (Some ''n'') 7 3 9 False ''1'' True sample_mint_state =
      (Inr \<lparr>AccessToken = ''1'', RefreshToken = ''n'', TokenType = ''Bearer'', ExpiresIn = 900, ExpiresAt = 900\<rparr>, st')
     \<and> LogoutSession (me_auth sample_mint_env) no_faults 200 ''n'' (ms_auth st') = (Inr 0, ms_auth st')"
proof -
  let ?r = "\<lparr>AccessToken = ''1'', RefreshToken = ''n'', TokenType = ''Bearer'', ExpiresIn = 900, ExpiresAt = 900\<rparr>"
  have one: "FormatInt 1 = ''1''" by code_simp
  obtain st' where run: "SwitchTenantContextForClaims sample_mint_env False no_faults 100 (Some ''n'') 7 3 9 False (FormatInt 1) True sample_mint_state =
      (Inr ?r, st')" using sample_switch_run unfolding one by (metis prod.collapse)
  have s: "us_tenant (sample_session 1 7 10) = 3" by (simp add: sample_session_def)
  have raw: "RefreshToken ?r \<noteq> []" by simp
  from switched_session_survives_logout [OF sample_mint_state_ok _ sample_rows(2) s run raw, of 200] run
  show ?thesis by (simp add: int64_range_def one)
qed

text \<open>
  The two rotation paths take a switched session to different tenants. \<^verbatim>\<open>Refresh\<close> mints for the
  tenant of the session, so rotating the token of a switched session there silently returns the
  administrator to the tenant the session began in; the locked path mints for the tenant of the token.
\<close>

theorem Refresh_returns_to_session_tenant:
  assumes look: "Refresh_lookup fl now (HashToken (me_auth M) raw) (st_db (ms_auth st)) = Inr (t, s)"
    and other: "us_tenant s \<noteq> rt_tenant t"
    and run: "Refresh M fl now rawNew raw st = (Inr r, st')"
    and lock: "locked_rotation M fl now rawNew t (Some s) (us_id s) st = (Inr r2, st2)"
  shows "(\<exists>k. find_token (HashToken (me_auth M) (RefreshToken r)) (st_db (ms_auth st')) = Some k \<and> rt_tenant k = us_tenant s)
    \<and> (\<exists>k. find_token (HashToken (me_auth M) (RefreshToken r2)) (st_db (ms_auth st2)) = Some k \<and> rt_tenant k = rt_tenant t)"
proof -
  have minted: "\<exists>k. find_token (HashToken (me_auth M) (RefreshToken r')) (st_db (ms_auth st3)) = Some k \<and> rt_tenant k = tid"
    if "Refresh_finish M fl now rawNew uid tid c st1 = (Inr r', st3)" for uid tid c st1 r' st3
    using that
  proof (cases rule: Refresh_finish_cases)
    case (mint x perms)
    from minted_row [OF mint(2)] show ?thesis by blast
  qed simp
  have "Refresh_finish M fl now rawNew (us_user s) (us_tenant s)
      (carried_context (us_id s) (is_persistent s) (auth_time s) (us_amr s) (rt_audience t) (rt_active_roles t))
      (Refresh_consume now (rt_id t) st) = (Inr r, st')"
    using run look by (simp add: Refresh_def split: if_splits)
  moreover have "Refresh_finish M fl now rawNew (rt_user t) (rt_tenant t)
      (carried_context (us_id s) (is_persistent s) (auth_time s) (us_amr s) (rt_audience t) (rt_active_roles t))
      (Refresh_consume now (rt_id t) st) = (Inr r2, st2)"
    using lock by (simp add: locked_rotation_def split: option.splits if_splits)
  ultimately show ?thesis using minted by blast
qed

definition sample_switched_state :: "keyspace mint_state" where
  "sample_switched_state =
     snd (SwitchTenantContextForClaims sample_mint_env False no_faults 100 (Some ''n'') 7 3 9 False ''1'' True sample_mint_state)"

theorem Refresh_returns_to_session_tenant_witness:
  "\<exists>r st' k. Refresh sample_mint_env no_faults 200 (Some ''m'') ''n'' sample_switched_state = (Inr r, st')
     \<and> find_token (RefreshToken r) (st_db (ms_auth st')) = Some k \<and> rt_tenant k = 3"
proof -
  have "case Refresh_lookup no_faults 200 ''n'' (st_db (ms_auth sample_switched_state)) of Inl _ \<Rightarrow> False
      | Inr (t, s) \<Rightarrow> us_tenant s = 3 \<and> rt_tenant t = 9 \<and> Inr () =
          map_sum id (\<lambda>_. ()) (fst (locked_rotation sample_mint_env no_faults 200 (Some ''m'') t (Some s) (us_id s) sample_switched_state))"
    by code_simp
  then obtain t s where look: "Refresh_lookup no_faults 200 (HashToken (me_auth sample_mint_env) ''n'') (st_db (ms_auth sample_switched_state)) = Inr (t, s)"
    and ts: "us_tenant s = 3" "rt_tenant t = 9"
    and "map_sum id (\<lambda>_. ()) (fst (locked_rotation sample_mint_env no_faults 200 (Some ''m'') t (Some s) (us_id s) sample_switched_state)) = Inr ()"
    by (auto split: sum.splits prod.splits)
  then obtain r2 st2 where lock: "locked_rotation sample_mint_env no_faults 200 (Some ''m'') t (Some s) (us_id s) sample_switched_state = (Inr r2, st2)"
    by (cases "locked_rotation sample_mint_env no_faults 200 (Some ''m'') t (Some s) (us_id s) sample_switched_state", cases "fst (locked_rotation sample_mint_env no_faults 200 (Some ''m'') t (Some s) (us_id s) sample_switched_state)") auto
  have "map_sum id (\<lambda>_. ()) (fst (Refresh sample_mint_env no_faults 200 (Some ''m'') ''n'' sample_switched_state)) = Inr ()"
    by code_simp
  then obtain r st' where run: "Refresh sample_mint_env no_faults 200 (Some ''m'') ''n'' sample_switched_state = (Inr r, st')"
    by (cases "Refresh sample_mint_env no_faults 200 (Some ''m'') ''n'' sample_switched_state",
        cases "fst (Refresh sample_mint_env no_faults 200 (Some ''m'') ''n'' sample_switched_state)") auto
  from Refresh_returns_to_session_tenant [OF look _ run lock] ts run show ?thesis by auto
qed

end
