(* ===== verification/LockoutPolicy.thy ===== *)
theory LockoutPolicy
  imports SessionPolicy
begin

text \<open>
  The account-lockout policy (\<^verbatim>\<open>internal/auth/lockoutpolicy.go\<close>): the three tiers, the resolver over
  the same row selection and cache as the session policy, the retry header, the expiry of a hard lock, and
  the environment overrides written onto the platform's row at boot. \<open>lockout_cols_ok\<close> is the \<^verbatim>\<open>CHECK\<close>
  constraints of migration 00086.
\<close>

record LockoutPolicy =
  NotifyUserThreshold :: int
  SoftLockThreshold :: int
  SoftLockDuration :: duration
  HardLockThreshold :: int
  HardLockDuration :: duration
  FailureWindow :: duration
  TenantSpikeThreshold :: int

definition MaxFailedLogins :: int where "MaxFailedLogins = 10"
definition FailedLoginWindow :: duration where "FailedLoginWindow = 15 * Minute"

definition DefaultLockoutPolicy :: LockoutPolicy where
  "DefaultLockoutPolicy =
     \<lparr>NotifyUserThreshold = 3, SoftLockThreshold = 5, SoftLockDuration = 15 * Minute,
      HardLockThreshold = MaxFailedLogins, HardLockDuration = 30 * Minute, FailureWindow = FailedLoginWindow,
      TenantSpikeThreshold = 10\<rparr>"

text \<open>The header of a soft-locked answer; \<^verbatim>\<open>int(d.Seconds())\<close> truncates to whole seconds.\<close>

definition RetryAfterSeconds :: "duration \<Rightarrow> int" where
  "RetryAfterSeconds retryAfter = (let s = whole_seconds retryAfter in if s < 1 then 1 else s)"

definition HardLockExpiresAt :: "LockoutPolicy \<Rightarrow> time \<Rightarrow> time option" where
  "HardLockExpiresAt p blockedAt =
     (if HardLockDuration p \<le> 0 then None else Some (blockedAt + HardLockDuration p))"

subsection \<open>The table and the resolver\<close>

record lockout_policy_cols =
  notify_user_threshold :: int
  soft_lock_threshold :: int
  soft_lock_duration_seconds :: int
  hard_lock_threshold :: int
  hard_lock_duration_seconds :: "int option"
  failure_window_seconds :: int
  tenant_spike_threshold :: int

type_synonym lockout_policies = "lockout_policy_cols policy_row list"

definition lockoutPolicyCacheTTL :: duration where
  "lockoutPolicyCacheTTL = 60 * Second"

definition NewLockoutPolicyService :: "bool \<Rightarrow> LockoutPolicy policy_service" where
  "NewLockoutPolicyService pool = \<lparr>sv_cache = Map.empty, sv_ttl = lockoutPolicyCacheTTL, sv_pool = pool\<rparr>"

definition LockoutPolicy_load :: "lockout_policies \<Rightarrow> faults \<Rightarrow> int \<Rightarrow> int option \<Rightarrow> LockoutPolicy result" where
  "LockoutPolicy_load rows fl tid app =
     (if fl ''load lockout policy'' then Inl (Wrapped ''load lockout policy'')
      else case select_policy tid app rows of
             None \<Rightarrow> Inl ErrNoPolicyRow
           | Some r \<Rightarrow> (let c = pr_cols r in
               Inr \<lparr>NotifyUserThreshold = notify_user_threshold c, SoftLockThreshold = soft_lock_threshold c,
                    SoftLockDuration = soft_lock_duration_seconds c * Second,
                    HardLockThreshold = hard_lock_threshold c,
                    HardLockDuration = (case hard_lock_duration_seconds c of None \<Rightarrow> 0 | Some d \<Rightarrow> d * Second),
                    FailureWindow = failure_window_seconds c * Second,
                    TenantSpikeThreshold = tenant_spike_threshold c\<rparr>))"

definition LockoutPolicy_Resolve ::
  "lockout_policies \<Rightarrow> faults \<Rightarrow> time \<Rightarrow> int \<Rightarrow> int option \<Rightarrow> LockoutPolicy policy_service \<Rightarrow>
   LockoutPolicy \<times> LockoutPolicy policy_service" where
  "LockoutPolicy_Resolve rows fl now tid app sv =
     (if \<not> sv_pool sv then (DefaultLockoutPolicy, sv)
      else case cache_lookup now tid app sv of
             Some (p, cachedAt) \<Rightarrow> (p, sv)
           | None \<Rightarrow>
               (case LockoutPolicy_load rows fl tid app of
                  Inl _ \<Rightarrow> (DefaultLockoutPolicy, sv)
                | Inr q \<Rightarrow> (q, sv\<lparr>sv_cache := (sv_cache sv)(policy_key tid app \<mapsto> (q, now))\<rparr>)))"

definition LockoutPolicy_InvalidateCache :: "LockoutPolicy policy_service \<Rightarrow> LockoutPolicy policy_service" where
  "LockoutPolicy_InvalidateCache sv = sv\<lparr>sv_cache := Map.empty\<rparr>"

interpretation lockout_policy: cached_resolver
  LockoutPolicy_load LockoutPolicy_Resolve DefaultLockoutPolicy LockoutPolicy_InvalidateCache
  by unfold_locales
     (auto simp: LockoutPolicy_Resolve_def LockoutPolicy_InvalidateCache_def LockoutPolicy_load_def
        Let_def split: option.splits if_splits)

subsection \<open>The constraints of the table\<close>

text \<open>
  The tiers escalate (\<^verbatim>\<open>lockout_policies_tiers_escalate\<close>): soft below hard, and the warning, unless it
  is off, no later than soft.
\<close>

definition tiers_escalate :: "lockout_policy_cols \<Rightarrow> bool" where
  "tiers_escalate c \<longleftrightarrow>
     soft_lock_threshold c < hard_lock_threshold c
     \<and> (notify_user_threshold c = 0 \<or> notify_user_threshold c \<le> soft_lock_threshold c)"

definition lockout_cols_ok :: "lockout_policy_cols \<Rightarrow> bool" where
  "lockout_cols_ok c \<longleftrightarrow>
     0 \<le> notify_user_threshold c \<and> notify_user_threshold c \<le> 1000
     \<and> 1 \<le> soft_lock_threshold c \<and> soft_lock_threshold c \<le> 1000
     \<and> 1 \<le> hard_lock_threshold c \<and> hard_lock_threshold c \<le> 1000
     \<and> 30 \<le> soft_lock_duration_seconds c \<and> soft_lock_duration_seconds c \<le> 86400
     \<and> (case hard_lock_duration_seconds c of None \<Rightarrow> True | Some d \<Rightarrow> 60 \<le> d \<and> d \<le> 2592000)
     \<and> 60 \<le> failure_window_seconds c \<and> failure_window_seconds c \<le> 86400
     \<and> 0 \<le> tenant_spike_threshold c \<and> tenant_spike_threshold c \<le> 100000
     \<and> tiers_escalate c"

definition lockout_policy_ok :: "LockoutPolicy \<Rightarrow> bool" where
  "lockout_policy_ok p \<longleftrightarrow>
     0 \<le> NotifyUserThreshold p \<and> NotifyUserThreshold p \<le> SoftLockThreshold p
     \<and> 1 \<le> SoftLockThreshold p \<and> SoftLockThreshold p < HardLockThreshold p
     \<and> 30 * Second \<le> SoftLockDuration p \<and> SoftLockDuration p \<le> 24 * Hour
     \<and> (HardLockDuration p = 0 \<or> (60 * Second \<le> HardLockDuration p \<and> HardLockDuration p \<le> 30 * 24 * Hour))
     \<and> 60 * Second \<le> FailureWindow p \<and> FailureWindow p \<le> 24 * Hour"

lemma default_lockout_ok: "lockout_policy_ok DefaultLockoutPolicy"
  by (simp add: lockout_policy_ok_def DefaultLockoutPolicy_def MaxFailedLogins_def FailedLoginWindow_def)

lemma load_lockout_ok:
  assumes "\<forall>r \<in> set rows. lockout_cols_ok (pr_cols r)" "LockoutPolicy_load rows fl tid app = Inr p"
  shows "lockout_policy_ok p"
proof -
  obtain r where r: "select_policy tid app rows = Some r"
    using assms(2) by (auto simp: LockoutPolicy_load_def split: if_splits option.splits)
  then have "lockout_cols_ok (pr_cols r)" using assms(1) select_policy_Some(1) by blast
  with r assms(2) show ?thesis
    by (auto simp: LockoutPolicy_load_def Let_def lockout_cols_ok_def tiers_escalate_def lockout_policy_ok_def
        split: if_splits option.splits)
qed

subsection \<open>Environment overrides\<close>

record LockoutEnvOverrides =
  ov_NotifyThreshold :: "int option"
  ov_SoftThreshold :: "int option"
  ov_SoftDuration :: "duration option"
  ov_HardThreshold :: "int option"
  ov_HardDuration :: "duration option"
  ov_FailureWindow :: "duration option"
  ov_SpikeThreshold :: "int option"
  ov_HardLockDisabled :: bool

definition Overrides_Empty :: "LockoutEnvOverrides \<Rightarrow> bool" where
  "Overrides_Empty ov \<longleftrightarrow>
     ov_NotifyThreshold ov = None \<and> ov_SoftThreshold ov = None \<and> ov_SoftDuration ov = None
     \<and> ov_HardThreshold ov = None \<and> ov_HardDuration ov = None \<and> ov_FailureWindow ov = None
     \<and> ov_SpikeThreshold ov = None \<and> \<not> ov_HardLockDisabled ov"

definition coalesce :: "'a option \<Rightarrow> 'a \<Rightarrow> 'a" where
  "coalesce x d = (case x of None \<Rightarrow> d | Some v \<Rightarrow> v)"

definition overridden :: "LockoutEnvOverrides \<Rightarrow> lockout_policy_cols \<Rightarrow> lockout_policy_cols" where
  "overridden ov c =
     \<lparr>notify_user_threshold = coalesce (ov_NotifyThreshold ov) (notify_user_threshold c),
      soft_lock_threshold = coalesce (ov_SoftThreshold ov) (soft_lock_threshold c),
      soft_lock_duration_seconds = coalesce (map_option whole_seconds (ov_SoftDuration ov)) (soft_lock_duration_seconds c),
      hard_lock_threshold = coalesce (ov_HardThreshold ov) (hard_lock_threshold c),
      hard_lock_duration_seconds =
        (if ov_HardLockDisabled ov then None
         else case map_option whole_seconds (ov_HardDuration ov) of None \<Rightarrow> hard_lock_duration_seconds c | Some d \<Rightarrow> Some d),
      failure_window_seconds = coalesce (map_option whole_seconds (ov_FailureWindow ov)) (failure_window_seconds c),
      tenant_spike_threshold = coalesce (ov_SpikeThreshold ov) (tenant_spike_threshold c)\<rparr>"

text \<open>
  The statement is refused when it would leave the platform's row outside the constraints, and it is an
  error when there is no such row. \<open>pool\<close> is false for a nil pool.
\<close>

definition ApplyLockoutEnvOverrides ::
  "faults \<Rightarrow> bool \<Rightarrow> LockoutEnvOverrides \<Rightarrow> lockout_policies \<Rightarrow> unit result \<times> lockout_policies" where
  "ApplyLockoutEnvOverrides fl pool ov rows =
     (if \<not> pool \<or> Overrides_Empty ov then (Inr (), rows)
      else
        let hit = (\<lambda>r. pr_tenant r = None \<and> pr_app r = None) in
        if fl ''apply LOCKOUT_* environment overrides''
           \<or> (\<exists>r \<in> set rows. hit r \<and> \<not> lockout_cols_ok (overridden ov (pr_cols r)))
        then (Inl (Wrapped ''apply LOCKOUT_* environment overrides''), rows)
        else if filter hit rows = [] then (Inl (Wrapped ''apply LOCKOUT_* environment overrides''), rows)
        else (Inr (), update_where hit (\<lambda>r. r\<lparr>pr_cols := overridden ov (pr_cols r)\<rparr>) rows))"

subsection \<open>Tables and caches that can come about\<close>

text \<open>
  A service starts with an empty cache over a table the database accepts. From there policies are resolved, caches are dropped,
  the overrides are applied, and the table is edited to anything its constraints accept, in any order and with any failures.
\<close>

inductive lockout_reach :: "lockout_policies \<Rightarrow> LockoutPolicy policy_service \<Rightarrow> bool" where
  start: "\<forall>r \<in> set rows. lockout_cols_ok (pr_cols r) \<Longrightarrow> lockout_reach rows (NewLockoutPolicyService pool)"
| resolve: "lockout_reach rows sv \<Longrightarrow> lockout_reach rows (snd (LockoutPolicy_Resolve rows fl now tid app sv))"
| invalidate: "lockout_reach rows sv \<Longrightarrow> lockout_reach rows (LockoutPolicy_InvalidateCache sv)"
| override: "lockout_reach rows sv \<Longrightarrow> lockout_reach (snd (ApplyLockoutEnvOverrides fl pool ov rows)) sv"
| edit: "lockout_reach rows sv \<Longrightarrow> \<forall>r \<in> set rows'. lockout_cols_ok (pr_cols r) \<Longrightarrow> lockout_reach rows' sv"

definition lockout_cache_ok :: "LockoutPolicy policy_service \<Rightarrow> bool" where
  "lockout_cache_ok sv \<longleftrightarrow> (\<forall>k p c. sv_cache sv k = Some (p, c) \<longrightarrow> lockout_policy_ok p)"

lemma cache_okD: "lockout_cache_ok sv \<Longrightarrow> sv_cache sv k = Some (p, c) \<Longrightarrow> lockout_policy_ok p"
  unfolding lockout_cache_ok_def by blast

lemma cache_ok_insert: "lockout_cache_ok sv \<Longrightarrow> lockout_policy_ok q \<Longrightarrow> lockout_cache_ok (sv\<lparr>sv_cache := (sv_cache sv)(k \<mapsto> (q, c))\<rparr>)"
  unfolding lockout_cache_ok_def by simp

lemma Resolve_ok:
  assumes rows: "\<forall>r \<in> set rows. lockout_cols_ok (pr_cols r)" and cache: "lockout_cache_ok sv"
  shows "lockout_policy_ok (fst (LockoutPolicy_Resolve rows fl now tid app sv))"
    and "lockout_cache_ok (snd (LockoutPolicy_Resolve rows fl now tid app sv))"
  using load_lockout_ok [OF rows, of fl tid app] default_lockout_ok cache cache_okD [OF cache, of "policy_key tid app"] cache_ok_insert [OF cache]
  by (auto simp: LockoutPolicy_Resolve_def cache_lookup_Some split: option.splits sum.splits)

lemma override_cases:
  assumes "ApplyLockoutEnvOverrides fl pool ov rows = (res, rows')"
  obtains "rows' = rows"
  | "res = Inr ()" "rows' = update_where (\<lambda>r. pr_tenant r = None \<and> pr_app r = None) (\<lambda>r. r\<lparr>pr_cols := overridden ov (pr_cols r)\<rparr>) rows"
      "\<forall>r \<in> set rows. pr_tenant r = None \<and> pr_app r = None \<longrightarrow> lockout_cols_ok (overridden ov (pr_cols r))"
  using assms by (fastforce simp: ApplyLockoutEnvOverrides_def Let_def split: if_splits)

lemma override_ok:
  assumes "ApplyLockoutEnvOverrides fl pool ov rows = (res, rows')" "\<forall>r \<in> set rows. lockout_cols_ok (pr_cols r)"
  shows "\<forall>r \<in> set rows'. lockout_cols_ok (pr_cols r)"
  using assms(1) by (cases rule: override_cases) (use assms(2) in \<open>auto simp: set_update_where\<close>)

lemma lockout_reach_ok: "lockout_reach rows sv \<Longrightarrow> (\<forall>r \<in> set rows. lockout_cols_ok (pr_cols r)) \<and> lockout_cache_ok sv"
proof (induction rule: lockout_reach.induct)
  case (override rows sv fl pool ov)
  then show ?case using override_ok [OF prod.collapse [symmetric]] by blast
next
  case (resolve rows sv fl now tid app)
  then show ?case using Resolve_ok(2) by blast
qed (auto simp: NewLockoutPolicyService_def LockoutPolicy_InvalidateCache_def lockout_cache_ok_def)

text \<open>
  C36: Every lockout policy in force is well-formed, whatever the environment says. Take any table and cache that can come
  about. Every policy resolved there, from the cache, from the table or by default, warns no later than it soft-locks and
  soft-locks before it hard-locks, with its durations inside the allowed ranges. Applying the overrides keeps the constraints of
  the table (an override that would break the escalation of the tiers is refused and leaves the table as it was), changes no
  tenant's or application's row, and every policy resolved afterwards is well-formed again.
\<close>

theorem lockout_policy_well_formed:
  assumes reach: "lockout_reach rows sv" and run: "ApplyLockoutEnvOverrides fl pool ov rows = (res, rows')"
  shows "lockout_policy_ok (fst (LockoutPolicy_Resolve rows fl2 now tid app sv))
    \<and> (\<forall>r \<in> set rows'. lockout_cols_ok (pr_cols r))
    \<and> filter (\<lambda>r. pr_tenant r \<noteq> None) rows' = filter (\<lambda>r. pr_tenant r \<noteq> None) rows
    \<and> ((\<exists>e. res = Inl e) \<longrightarrow> rows' = rows)
    \<and> lockout_policy_ok (fst (LockoutPolicy_Resolve rows' fl3 now' tid' app' sv))"
proof -
  have ok: "\<forall>r \<in> set rows. lockout_cols_ok (pr_cols r)" "lockout_cache_ok sv" using lockout_reach_ok [OF reach] by blast+
  have ok': "\<forall>r \<in> set rows'. lockout_cols_ok (pr_cols r)" by (rule override_ok [OF run ok(1)])
  have "filter (\<lambda>r. pr_tenant r \<noteq> None) rows' = filter (\<lambda>r. pr_tenant r \<noteq> None) rows \<and> ((\<exists>e. res = Inl e) \<longrightarrow> rows' = rows)"
    using run by (cases rule: override_cases) (auto intro: filter_update_where_other)
  with ok' Resolve_ok(1) [OF ok] Resolve_ok(1) [OF ok' ok(2)] show ?thesis by blast
qed

definition default_lockout_cols :: lockout_policy_cols where
  "default_lockout_cols =
     \<lparr>notify_user_threshold = 3, soft_lock_threshold = 5, soft_lock_duration_seconds = 900, hard_lock_threshold = 10,
      hard_lock_duration_seconds = Some 1800, failure_window_seconds = 900, tenant_spike_threshold = 10\<rparr>"

theorem lockout_policy_well_formed_witness:
  "let rows = [\<lparr>pr_tenant = None, pr_app = None, pr_cols = default_lockout_cols\<rparr>];
       ov = \<lparr>ov_NotifyThreshold = None, ov_SoftThreshold = Some 2, ov_SoftDuration = None, ov_HardThreshold = None,
             ov_HardDuration = None, ov_FailureWindow = None, ov_SpikeThreshold = None, ov_HardLockDisabled = False\<rparr>;
       sv = snd (LockoutPolicy_Resolve rows no_faults 0 3 None (NewLockoutPolicyService True))
   in cache_lookup Second 3 None sv \<noteq> None \<and> lockout_policy_ok (fst (LockoutPolicy_Resolve rows no_faults Second 3 None sv))
      \<and> (\<exists>rows'. ApplyLockoutEnvOverrides no_faults True ov rows = (Inl (Wrapped ''apply LOCKOUT_* environment overrides''), rows')
            \<and> rows' = rows)"
proof -
  let ?rows = "[\<lparr>pr_tenant = None, pr_app = None, pr_cols = default_lockout_cols\<rparr>]"
  let ?ov = "\<lparr>ov_NotifyThreshold = None, ov_SoftThreshold = Some 2, ov_SoftDuration = None, ov_HardThreshold = None,
             ov_HardDuration = None, ov_FailureWindow = None, ov_SpikeThreshold = None, ov_HardLockDisabled = False\<rparr>"
  let ?sv = "snd (LockoutPolicy_Resolve ?rows no_faults 0 3 None (NewLockoutPolicyService True))"
  have "fst (ApplyLockoutEnvOverrides no_faults True ?ov ?rows) = Inl (Wrapped ''apply LOCKOUT_* environment overrides'')"
    by code_simp
  then obtain rows' where run: "ApplyLockoutEnvOverrides no_faults True ?ov ?rows = (Inl (Wrapped ''apply LOCKOUT_* environment overrides''), rows')"
    by (metis prod.collapse)
  have "\<forall>r \<in> set ?rows. lockout_cols_ok (pr_cols r)"
    by (simp add: lockout_cols_ok_def tiers_escalate_def default_lockout_cols_def)
  then have reach: "lockout_reach ?rows ?sv" by (intro lockout_reach.resolve lockout_reach.start)
  have hit: "cache_lookup Second 3 None ?sv \<noteq> None"
  proof -
    have "\<not> Option.is_none (cache_lookup Second 3 None ?sv)" by code_simp
    then show ?thesis by (simp add: Option.is_none_def)
  qed
  from lockout_policy_well_formed [OF reach run, of no_faults Second 3 None] run hit show ?thesis unfolding Let_def by blast
qed

end
