(* ===== verification/AccountBlock.thy ===== *)
theory AccountBlock
  imports Authority LockoutPolicy
begin

text \<open>
  Account lockout (\<^verbatim>\<open>internal/auth/account_block.go\<close> and \<^verbatim>\<open>internal/auth/lockout_notify.go\<close>): the failure
  counter and its three tiers, the hard lock and its two ways out, the operator's block, and the
  notifications with their once-per-window gates.

  The state joins the rows of \<^verbatim>\<open>users\<close> with their lockout columns, the unblock tokens, the session tables
  and Redis of the session service, the policy service, and two logs: the audit events, and the messages
  handed to the notifier. A message that the sources send from a detached goroutine is logged at the call
  that starts it. A nil service does nothing and is not modelled; a failing call is named by its log line.
\<close>

definition UnblockTokenTTL :: duration where "UnblockTokenTTL = Hour"

definition BlockReasonFailedAttempts :: string where "BlockReasonFailedAttempts = ''failed_attempts''"
definition BlockReasonAdmin :: string where "BlockReasonAdmin = ''admin''"
definition BlockReasonSuspiciousLogin :: string where "BlockReasonSuspiciousLogin = ''suspicious_login''"
definition BlockReasonFailedAttemptsWarning :: string where "BlockReasonFailedAttemptsWarning = ''failed_attempts_warning''"
definition BlockReasonSoftLocked :: string where "BlockReasonSoftLocked = ''soft_locked''"

subsection \<open>State\<close>

record lockout_row = user_row +
  failed_login_attempts :: int
  last_failed_login_at :: "time option"
  block_reason :: "string option"

record unblock_token =
  ut_id :: int
  ut_user :: int
  ut_tenant :: int
  ut_hash :: string
  ut_expires_at :: time
  ut_used_at :: "time option"

record BlockedAccountEmail =
  ba_To :: string
  ba_Link :: string
  ba_AppName :: string
  ba_Reason :: string
  ba_TTLMinutes :: int
  ba_RetryMinutes :: int

record TenantLockoutAlertEmail =
  la_To :: string
  la_Link :: string
  la_TenantName :: string
  la_AppName :: string
  la_Count :: int
  la_WindowMinutes :: int

datatype outgoing = SendBlockedAccount BlockedAccountEmail | SendTenantLockoutAlert TenantLockoutAlertEmail

datatype meta_value = MInt int | MStr string | MBool bool | MMap "(string \<times> meta_value) list"

record audit_event =
  ev_tenant :: int
  ev_app :: "int option"
  ev_user :: "int option"
  ev_action :: string
  ev_resource_type :: string
  ev_resource_id :: string
  ev_meta :: "(string \<times> meta_value) list"

text \<open>\<open>ab_redis\<close>, \<open>ab_audit\<close>: whether the service has a Redis client and an audit logger.\<close>

record 'r block_env =
  ab_auth :: "'r auth_env"
  ab_redis :: bool
  ab_audit :: bool
  appBaseURL :: string
  dashboardURL :: string

record 'r block_state =
  bs_users :: "lockout_row list"
  bs_unblock :: "unblock_token list"
  bs_next_unblock :: int
  bs_auth :: "'r auth_state"
  bs_policySvc :: "LockoutPolicy policy_service option"
  bs_policies :: lockout_policies
  bs_admins :: "tenant_admin_row list"
  bs_scopes :: "(int \<times> int) list"
  bs_tenants :: "(int \<times> string option \<times> string) list"
  bs_apps :: "(int \<times> string) list"
  bs_events :: "audit_event list"
  bs_outbox :: "outgoing list"

abbreviation bs_redis :: "'r block_state \<Rightarrow> 'r" where
  "bs_redis st \<equiv> st_redis (bs_auth st)"

definition set_redis :: "'r \<Rightarrow> 'r block_state \<Rightarrow> 'r block_state" where
  "set_redis r st = st\<lparr>bs_auth := (bs_auth st)\<lparr>st_redis := r\<rparr>\<rparr>"

abbreviation redis_of :: "'r block_env \<Rightarrow> 'r redis_ops" where
  "redis_of B \<equiv> env_redis (ab_auth B)"

subsection \<open>The tiers held in Redis\<close>

definition softLockKey :: "int \<Rightarrow> int \<Rightarrow> string" where
  "softLockKey tenantID userID = ''login:soft:'' @ FormatInt tenantID @ '':'' @ FormatInt userID"

definition notifyWarnKey :: "int \<Rightarrow> int \<Rightarrow> string" where
  "notifyWarnKey tenantID userID = ''login:warned:'' @ FormatInt tenantID @ '':'' @ FormatInt userID"

definition spikeCountKey :: "int \<Rightarrow> string" where
  "spikeCountKey tenantID = ''lockout:spike:'' @ FormatInt tenantID"

definition spikeSentKey :: "int \<Rightarrow> string" where
  "spikeSentKey tenantID = ''lockout:spike:sent:'' @ FormatInt tenantID"

definition spikeAlertDebounce :: duration where "spikeAlertDebounce = Hour"

definition SoftLockedFor :: "'r block_env \<Rightarrow> faults \<Rightarrow> time \<Rightarrow> int \<Rightarrow> int \<Rightarrow> 'r block_state \<Rightarrow> duration \<times> bool" where
  "SoftLockedFor B fl now tenantID userID st =
     (if \<not> ab_redis B then (0, False)
      else if fl ''lockout: soft-lock check failed, allowing attempt'' then (0, False)
      else let ttl = rttl (redis_of B) (bs_redis st) now (softLockKey tenantID userID) in
           if ttl \<le> 0 then (0, False) else (ttl, True))"

definition applySoftLock ::
  "'r block_env \<Rightarrow> faults \<Rightarrow> time \<Rightarrow> int \<Rightarrow> int \<Rightarrow> duration \<Rightarrow> 'r block_state \<Rightarrow> bool \<times> 'r block_state" where
  "applySoftLock B fl now tenantID userID d st =
     (if \<not> ab_redis B \<or> d \<le> 0 then (False, st)
      else if fl ''lockout: could not apply soft lock'' then (False, st)
      else case rsetnx (redis_of B) (bs_redis st) now (softLockKey tenantID userID) ''1'' d of
             (ok, r) \<Rightarrow> (ok, set_redis r st))"

definition ClearSoftLock :: "'r block_env \<Rightarrow> faults \<Rightarrow> time \<Rightarrow> int \<Rightarrow> int \<Rightarrow> 'r block_state \<Rightarrow> 'r block_state" where
  "ClearSoftLock B fl now tenantID userID st =
     (if \<not> ab_redis B then st
      else if fl ''lockout: could not clear soft-lock state'' then st
      else set_redis (rdel (redis_of B) (rdel (redis_of B) (bs_redis st) now (softLockKey tenantID userID))
             now (notifyWarnKey tenantID userID)) st)"

definition markWarned ::
  "'r block_env \<Rightarrow> faults \<Rightarrow> time \<Rightarrow> int \<Rightarrow> int \<Rightarrow> duration \<Rightarrow> 'r block_state \<Rightarrow> bool \<times> 'r block_state" where
  "markWarned B fl now tenantID userID window st =
     (if \<not> ab_redis B \<or> window \<le> 0 then (False, st)
      else if fl ''lockout: could not set warning marker'' then (False, st)
      else case rsetnx (redis_of B) (bs_redis st) now (notifyWarnKey tenantID userID) ''1'' window of
             (ok, r) \<Rightarrow> (ok, set_redis r st))"

definition recordSpike ::
  "'r block_env \<Rightarrow> faults \<Rightarrow> time \<Rightarrow> int \<Rightarrow> int \<Rightarrow> duration \<Rightarrow> 'r block_state \<Rightarrow> bool \<times> 'r block_state" where
  "recordSpike B fl now tenantID threshold window st =
     (if \<not> ab_redis B \<or> threshold \<le> 0 \<or> window \<le> 0 then (False, st)
      else if fl ''lockout: spike counter failed'' then (False, st)
      else case rincr (redis_of B) (bs_redis st) now (spikeCountKey tenantID) of
             (None, r) \<Rightarrow> (False, set_redis r st)
           | (Some n, r) \<Rightarrow>
               let r1 = (if n = 1 \<and> \<not> fl ''lockout: could not bound spike window''
                         then rexpire (redis_of B) r now (spikeCountKey tenantID) window else r) in
               if n < threshold then (False, set_redis r1 st)
               else if fl ''lockout: spike debounce check failed'' then (False, set_redis r1 st)
               else (case rsetnx (redis_of B) r1 now (spikeSentKey tenantID) ''1'' spikeAlertDebounce of
                       (sent, r2) \<Rightarrow> (sent, set_redis r2 st)))"

definition spikeCount :: "'r block_env \<Rightarrow> faults \<Rightarrow> time \<Rightarrow> int \<Rightarrow> 'r block_state \<Rightarrow> int" where
  "spikeCount B fl now tenantID st =
     (if \<not> ab_redis B \<or> fl ''spike count'' then 0
      else case rget (redis_of B) (bs_redis st) now (spikeCountKey tenantID) of
             None \<Rightarrow> 0 | Some v \<Rightarrow> (case ParseInt v of None \<Rightarrow> 0 | Some n \<Rightarrow> n))"

subsection \<open>Events and messages\<close>

definition auditUserEvent ::
  "'r block_env \<Rightarrow> string \<Rightarrow> int \<Rightarrow> int option \<Rightarrow> int \<Rightarrow> (string \<times> meta_value) list \<Rightarrow> 'r block_state \<Rightarrow> 'r block_state" where
  "auditUserEvent B action tenantID appRowID userID meta st =
     (if \<not> ab_audit B then st
      else st\<lparr>bs_events := bs_events st @
             [\<lparr>ev_tenant = tenantID, ev_app = appRowID, ev_user = Some userID, ev_action = action,
               ev_resource_type = ''user'', ev_resource_id = [], ev_meta = meta\<rparr>]\<rparr>)"

definition auditTenantEvent ::
  "'r block_env \<Rightarrow> string \<Rightarrow> int \<Rightarrow> int option \<Rightarrow> (string \<times> meta_value) list \<Rightarrow> 'r block_state \<Rightarrow> 'r block_state" where
  "auditTenantEvent B action tenantID appRowID meta st =
     (if \<not> ab_audit B then st
      else st\<lparr>bs_events := bs_events st @
             [\<lparr>ev_tenant = tenantID, ev_app = appRowID, ev_user = None, ev_action = action,
               ev_resource_type = ''tenant'', ev_resource_id = FormatInt tenantID, ev_meta = meta\<rparr>]\<rparr>)"

definition appNameByRowID :: "faults \<Rightarrow> int option \<Rightarrow> 'r block_state \<Rightarrow> string" where
  "appNameByRowID fl appRowID st =
     (case appRowID of
        None \<Rightarrow> []
      | Some a \<Rightarrow> if fl ''app name'' then []
                  else (case map_of (bs_apps st) a of None \<Rightarrow> [] | Some n \<Rightarrow> n))"

definition sendBlockedAccountAsync ::
  "faults \<Rightarrow> int option \<Rightarrow> BlockedAccountEmail \<Rightarrow> 'r block_state \<Rightarrow> 'r block_state" where
  "sendBlockedAccountAsync fl appRowID msg st =
     (if ba_To msg = [] then st
      else st\<lparr>bs_outbox := bs_outbox st @ [SendBlockedAccount (msg\<lparr>ba_AppName := appNameByRowID fl appRowID st\<rparr>)]\<rparr>)"

definition forgot_password_link :: "'r block_env \<Rightarrow> string" where
  "forgot_password_link B = appBaseURL B @ ''/forgot-password''"

definition notifyFailureWarning ::
  "'r block_env \<Rightarrow> faults \<Rightarrow> int option \<Rightarrow> string \<Rightarrow> 'r block_state \<Rightarrow> 'r block_state" where
  "notifyFailureWarning B fl appRowID email =
     sendBlockedAccountAsync fl appRowID
       \<lparr>ba_To = email, ba_Link = forgot_password_link B, ba_AppName = [],
        ba_Reason = BlockReasonFailedAttemptsWarning, ba_TTLMinutes = 0, ba_RetryMinutes = 0\<rparr>"

definition notifySoftLock ::
  "'r block_env \<Rightarrow> faults \<Rightarrow> int option \<Rightarrow> string \<Rightarrow> LockoutPolicy \<Rightarrow> 'r block_state \<Rightarrow> 'r block_state" where
  "notifySoftLock B fl appRowID email policy =
     sendBlockedAccountAsync fl appRowID
       \<lparr>ba_To = email, ba_Link = forgot_password_link B, ba_AppName = [], ba_Reason = BlockReasonSoftLocked,
        ba_TTLMinutes = (SoftLockDuration policy + Minute - 1) div Minute, ba_RetryMinutes = 0\<rparr>"

definition notifyAlert ::
  "'r block_env \<Rightarrow> faults \<Rightarrow> int option \<Rightarrow> string \<Rightarrow> string \<Rightarrow> 'r block_state \<Rightarrow> 'r block_state" where
  "notifyAlert B fl appRowID email reason =
     sendBlockedAccountAsync fl appRowID
       \<lparr>ba_To = email, ba_Link = forgot_password_link B, ba_AppName = [], ba_Reason = reason,
        ba_TTLMinutes = 0, ba_RetryMinutes = 0\<rparr>"

definition NotifySuspiciousLogin ::
  "'r block_env \<Rightarrow> faults \<Rightarrow> int option \<Rightarrow> string \<Rightarrow> 'r block_state \<Rightarrow> 'r block_state" where
  "NotifySuspiciousLogin B fl appRowID email = notifyAlert B fl appRowID email BlockReasonSuspiciousLogin"

text \<open>
  \<open>signals\<close> is what the configured assessor, another component, answers for the sign-in (\<open>None\<close> when none is
  configured); a score that is not a string reads as empty.
\<close>

definition risk_level :: "(string \<times> meta_value) list \<Rightarrow> string" where
  "risk_level signals = (case map_of signals ''score'' of Some (MStr level) \<Rightarrow> level | _ \<Rightarrow> [])"

definition NotifyIfRisky ::
  "'r block_env \<Rightarrow> faults \<Rightarrow> (string \<times> meta_value) list option \<Rightarrow> int \<Rightarrow> int option \<Rightarrow> int \<Rightarrow> string \<Rightarrow>
   'r block_state \<Rightarrow> 'r block_state" where
  "NotifyIfRisky B fl assessed tenantID appRowID userID email st =
     (case assessed of
        None \<Rightarrow> st
      | Some signals \<Rightarrow>
          if email = [] then st
          else if signals = [] then st
          else if risk_level signals \<noteq> ''high'' \<and> risk_level signals \<noteq> ''medium'' then st
          else notifyAlert B fl appRowID email BlockReasonSuspiciousLogin
                 (auditUserEvent B ''auth.suspicious_login'' tenantID appRowID userID
                    [(''reason'', MStr BlockReasonSuspiciousLogin), (''risk'', MMap signals)] st))"

definition dashboardBaseURL :: "'r block_env \<Rightarrow> string" where
  "dashboardBaseURL B = (if dashboardURL B \<noteq> [] then dashboardURL B else appBaseURL B)"

text \<open>
  Who hears about a spike: the owners of the tenant, and the administrators scoped to the application of
  the locked account, as far as they can act.
\<close>

definition reachable_admin :: "int \<Rightarrow> tenant_admin_row \<Rightarrow> lockout_row \<Rightarrow> bool" where
  "reachable_admin tenantID ta u \<longleftrightarrow>
     ta_tenant ta = tenantID \<and> ta_deleted ta = None \<and> ta_activated ta \<noteq> None \<and> u_id u = ta_user ta
     \<and> u_deleted u = None \<and> u_active u \<and> u_blocked u = None \<and> u_email u \<noteq> []"

definition lockoutSpikeRecipients ::
  "faults \<Rightarrow> int \<Rightarrow> int option \<Rightarrow> 'r block_state \<Rightarrow> ((string \<times> string) list \<times> string) result" where
  "lockoutSpikeRecipients fl tenantID appRowID st =
     (if fl ''resolve lockout alert recipients'' then Inl (Wrapped ''resolve lockout alert recipients'')
      else
        let rows = concat (map (\<lambda>ta. map (\<lambda>u. (u_email u, ta_role ta)) (filter (reachable_admin tenantID ta) (bs_users st)))
              (filter (\<lambda>ta. ta_role ta = AdminRoleOwner
                 \<or> (case appRowID of None \<Rightarrow> False | Some a \<Rightarrow> (ta_id ta, a) \<in> set (bs_scopes st))) (bs_admins st)));
            tenantName = (if fl ''lockout: could not resolve tenant name for alert'' then []
                          else case map_of (bs_tenants st) tenantID of
                                 None \<Rightarrow> []
                               | Some (display, name) \<Rightarrow> (if display = None \<or> display = Some [] then name else the display))
        in Inr (remdups rows, tenantName))"

definition notifyLockoutSpike ::
  "'r block_env \<Rightarrow> faults \<Rightarrow> int \<Rightarrow> int option \<Rightarrow> int \<Rightarrow> duration \<Rightarrow> 'r block_state \<Rightarrow> 'r block_state" where
  "notifyLockoutSpike B fl tenantID appRowID cnt window st =
     (case lockoutSpikeRecipients fl tenantID appRowID st of
        Inl _ \<Rightarrow> st
      | Inr (recipients, tenantName) \<Rightarrow>
          let st1 = auditTenantEvent B ''auth.tenant_lockout_spike'' tenantID appRowID
                [(''accounts_locked'', MInt cnt), (''window_seconds'', MInt (whole_seconds window)),
                 (''recipients'', MInt (int (length recipients)))] st;
              mail = (\<lambda>(email, role). SendTenantLockoutAlert
                \<lparr>la_To = email, la_Link = dashboardBaseURL B @ ''/users?status=blocked'', la_TenantName = tenantName,
                 la_AppName = appNameByRowID fl appRowID st, la_Count = cnt, la_WindowMinutes = window div Minute\<rparr>)
          in st1\<lparr>bs_outbox := bs_outbox st1 @ map mail recipients\<rparr>)"

subsection \<open>Counting failures and locking\<close>

definition policyFor ::
  "faults \<Rightarrow> time \<Rightarrow> int \<Rightarrow> int option \<Rightarrow> 'r block_state \<Rightarrow> LockoutPolicy \<times> 'r block_state" where
  "policyFor fl now tenantID appRowID st =
     (case bs_policySvc st of
        None \<Rightarrow> (DefaultLockoutPolicy, st)
      | Some sv \<Rightarrow> (case LockoutPolicy_Resolve (bs_policies st) fl now tenantID appRowID sv of
                     (p, sv') \<Rightarrow> (p, st\<lparr>bs_policySvc := Some sv'\<rparr>)))"

definition account :: "int \<Rightarrow> int \<Rightarrow> lockout_row \<Rightarrow> bool" where
  "account tenantID userID u \<longleftrightarrow> u_id u = userID \<and> u_tenant u = tenantID"

text \<open>The counter after one more failure: a failure older than the window restarts it.\<close>

definition next_attempts :: "LockoutPolicy \<Rightarrow> time \<Rightarrow> lockout_row \<Rightarrow> int" where
  "next_attempts policy now u =
     (case last_failed_login_at u of
        None \<Rightarrow> 1
      | Some l \<Rightarrow> if l < now - whole_seconds (FailureWindow policy) * Second then 1 else failed_login_attempts u + 1)"

definition count_failure :: "LockoutPolicy \<Rightarrow> time \<Rightarrow> lockout_row \<Rightarrow> lockout_row" where
  "count_failure policy now u =
     u\<lparr>failed_login_attempts := next_attempts policy now u, last_failed_login_at := Some now\<rparr>"

definition hard_lock :: "time \<Rightarrow> lockout_row \<Rightarrow> lockout_row" where
  "hard_lock now u =
     u\<lparr>u_active := False, u_blocked := Some now, u_token_version := u_token_version u + 1,
       block_reason := Some BlockReasonFailedAttempts\<rparr>"

text \<open>The transaction of the lockout; \<open>None\<close> is a rollback, and the account must still be active.\<close>

definition block_tx ::
  "'r block_env \<Rightarrow> faults \<Rightarrow> time \<Rightarrow> string \<Rightarrow> int \<Rightarrow> int \<Rightarrow> 'r block_state \<Rightarrow> 'r block_state option" where
  "block_tx B fl now rawToken tenantID userID st =
     (let hit = (\<lambda>u. account tenantID userID u \<and> u_active u \<and> u_deleted u = None);
          h = HashToken (ab_auth B) rawToken in
      if fl ''lockout: begin block tx failed'' \<or> fl ''lockout: block update failed'' then None
      else if find hit (bs_users st) = None then None
      else case RevokeAllSessionsTx fl now userID tenantID RevokeReasonCredentialChange (st_db (bs_auth st)) of
             Inl _ \<Rightarrow> None
           | Inr db' \<Rightarrow>
               if fl ''lockout: unblock token generation failed'' then None
               else if fl ''lockout: unblock token persist failed'' \<or> h \<in> ut_hash ` set (bs_unblock st) then None
               else if fl ''lockout: commit failed'' then None
               else Some (st\<lparr>bs_users := update_where hit (hard_lock now) (bs_users st),
                             bs_auth := (bs_auth st)\<lparr>st_db := db'\<rparr>,
                             bs_unblock := bs_unblock st @
                               [\<lparr>ut_id = bs_next_unblock st, ut_user = userID, ut_tenant = tenantID, ut_hash = h,
                                 ut_expires_at = now + UnblockTokenTTL, ut_used_at = None\<rparr>],
                             bs_next_unblock := bs_next_unblock st + 1\<rparr>))"

definition unblock_link :: "'r block_env \<Rightarrow> string \<Rightarrow> string" where
  "unblock_link B rawToken = appBaseURL B @ ''/api/v1/auth/unblock-account?token='' @ rawToken"

definition retry_minutes :: "LockoutPolicy \<Rightarrow> int" where
  "retry_minutes policy =
     (if 0 < HardLockDuration policy then (HardLockDuration policy + Minute - 1) div Minute else 0)"

definition deny_account ::
  "'r block_env \<Rightarrow> faults \<Rightarrow> time \<Rightarrow> int \<Rightarrow> int \<Rightarrow> 'r block_state \<Rightarrow> 'r block_state" where
  "deny_account B fl now userID tenantID st =
     st\<lparr>bs_auth := DenyAccountSessions (ab_auth B) fl now userID tenantID (bs_auth st)\<rparr>"

definition blockForFailedAttempts ::
  "'r block_env \<Rightarrow> faults \<Rightarrow> time \<Rightarrow> string \<Rightarrow> int \<Rightarrow> int option \<Rightarrow> int \<Rightarrow> string \<Rightarrow> LockoutPolicy \<Rightarrow>
   'r block_state \<Rightarrow> bool \<times> 'r block_state" where
  "blockForFailedAttempts B fl now rawToken tenantID appRowID userID email policy st =
     (case block_tx B fl now rawToken tenantID userID st of
        None \<Rightarrow> (False, st)
      | Some st1 \<Rightarrow>
          let st2 = deny_account B fl now userID tenantID st1;
              st3 = ClearSoftLock B fl now tenantID userID st2;
              st4 = auditUserEvent B ''auth.account_blocked'' tenantID appRowID userID
                [(''reason'', MStr BlockReasonFailedAttempts), (''max_attempts'', MInt (HardLockThreshold policy)),
                 (''expires_in_seconds'', MInt (whole_seconds (HardLockDuration policy))),
                 (''permanent'', MBool (HardLockDuration policy \<le> 0))] st3;
              st5 = (case recordSpike B fl now tenantID (TenantSpikeThreshold policy) (FailureWindow policy) st4 of
                       (False, s) \<Rightarrow> s
                     | (True, s) \<Rightarrow> notifyLockoutSpike B fl tenantID appRowID (spikeCount B fl now tenantID s)
                                     (FailureWindow policy) s)
          in (True, sendBlockedAccountAsync fl appRowID
                \<lparr>ba_To = email, ba_Link = unblock_link B rawToken, ba_AppName = [], ba_Reason = BlockReasonFailedAttempts,
                 ba_TTLMinutes = UnblockTokenTTL div Minute, ba_RetryMinutes = retry_minutes policy\<rparr> st5))"

text \<open>
  One failed sign-in. The policy is resolved for the tenant, never for the application; \<open>rawToken\<close> is the
  random token of an unblock link.
\<close>

definition RecordFailedLogin ::
  "'r block_env \<Rightarrow> faults \<Rightarrow> time \<Rightarrow> string \<Rightarrow> int \<Rightarrow> int \<Rightarrow> 'r block_state \<Rightarrow> bool \<times> 'r block_state" where
  "RecordFailedLogin B fl now rawToken tenantID userID st =
     (case policyFor fl now tenantID None st of (policy, st0) \<Rightarrow>
        let hit = (\<lambda>u. account tenantID userID u \<and> u_deleted u = None) in
        (case find hit (bs_users st0) of
          None \<Rightarrow> (False, st0)
        | Some u \<Rightarrow>
            if fl ''lockout: could not record failed login'' then (False, st0)
            else
              let st1 = st0\<lparr>bs_users := update_where hit (count_failure policy now) (bs_users st0)\<rparr>;
                  attempts = next_attempts policy now u; appRowID = u_application u; email = u_email u in
              if HardLockThreshold policy \<le> attempts then
                blockForFailedAttempts B fl now rawToken tenantID appRowID userID email policy st1
              else if SoftLockThreshold policy \<le> attempts then
                (case applySoftLock B fl now tenantID userID (SoftLockDuration policy) st1 of
                   (False, st2) \<Rightarrow> (False, st2)
                 | (True, st2) \<Rightarrow>
                     let st3 = auditUserEvent B ''auth.account_soft_locked'' tenantID appRowID userID
                           [(''attempts'', MInt attempts), (''threshold'', MInt (SoftLockThreshold policy)),
                            (''duration_seconds'', MInt (whole_seconds (SoftLockDuration policy)))] st2
                     in (False, notifySoftLock B fl appRowID email policy st3))
              else if 0 < NotifyUserThreshold policy \<and> NotifyUserThreshold policy \<le> attempts then
                (case markWarned B fl now tenantID userID (FailureWindow policy) st1 of
                   (False, st2) \<Rightarrow> (False, st2)
                 | (True, st2) \<Rightarrow>
                     let st3 = auditUserEvent B ''auth.login_failed_threshold'' tenantID appRowID userID
                           [(''attempts'', MInt attempts), (''threshold'', MInt (NotifyUserThreshold policy))] st2
                     in (False, notifyFailureWarning B fl appRowID email st3))
              else (False, st1)))"

definition ResetFailedLogins ::
  "'r block_env \<Rightarrow> faults \<Rightarrow> time \<Rightarrow> int \<Rightarrow> int \<Rightarrow> 'r block_state \<Rightarrow> 'r block_state" where
  "ResetFailedLogins B fl now tenantID userID st =
     ClearSoftLock B fl now tenantID userID
       (if fl ''lockout: could not reset failed-login counter'' then st
        else st\<lparr>bs_users := update_where (\<lambda>u. account tenantID userID u \<and> failed_login_attempts u \<noteq> 0)
               (\<lambda>u. u\<lparr>failed_login_attempts := 0, last_failed_login_at := None\<rparr>) (bs_users st)\<rparr>)"

subsection \<open>Lifting a lock\<close>

definition restore :: "lockout_row \<Rightarrow> lockout_row" where
  "restore u = u\<lparr>u_active := True, u_blocked := None, failed_login_attempts := 0, last_failed_login_at := None,
                 block_reason := None\<rparr>"

definition lock_expired :: "time \<Rightarrow> int \<Rightarrow> int \<Rightarrow> duration \<Rightarrow> lockout_row \<Rightarrow> bool" where
  "lock_expired now tenantID userID after u \<longleftrightarrow>
     account tenantID userID u \<and> u_deleted u = None \<and> \<not> u_active u
     \<and> block_reason u = Some BlockReasonFailedAttempts
     \<and> (case u_blocked u of None \<Rightarrow> False | Some b \<Rightarrow> b < now - whole_seconds after * Second)"

definition ExpireHardLock ::
  "'r block_env \<Rightarrow> faults \<Rightarrow> time \<Rightarrow> int \<Rightarrow> int \<Rightarrow> duration \<Rightarrow> 'r block_state \<Rightarrow> bool \<times> 'r block_state" where
  "ExpireHardLock B fl now tenantID userID after st =
     (if after \<le> 0 then (False, st)
      else if fl ''lockout: could not expire hard lock'' then (False, st)
      else case find (lock_expired now tenantID userID after) (bs_users st) of
             None \<Rightarrow> (False, st)
           | Some u \<Rightarrow>
               let st1 = st\<lparr>bs_users := update_where (lock_expired now tenantID userID after) restore (bs_users st)\<rparr>;
                   st2 = (if fl ''lockout: could not retire unblock tokens after expiry'' then st1
                          else st1\<lparr>bs_unblock := update_where
                                 (\<lambda>t. ut_user t = userID \<and> ut_tenant t = tenantID \<and> ut_used_at t = None)
                                 (\<lambda>t. t\<lparr>ut_used_at := Some now\<rparr>) (bs_unblock st1)\<rparr>);
                   st3 = ClearSoftLock B fl now tenantID userID st2
               in (True, auditUserEvent B ''auth.hard_lock_expired'' tenantID (u_application u) userID
                     [(''reason'', MStr BlockReasonFailedAttempts), (''locked_seconds'', MInt (whole_seconds after)),
                      (''lifted_by'', MStr ''expiry'')] st3))"

definition NotifyAdminBlock ::
  "'r block_env \<Rightarrow> faults \<Rightarrow> time \<Rightarrow> int \<Rightarrow> int option \<Rightarrow> int \<Rightarrow> string \<Rightarrow> 'r block_state \<Rightarrow> 'r block_state" where
  "NotifyAdminBlock B fl now tenantID appRowID userID email st =
     notifyAlert B fl appRowID email BlockReasonAdmin
       (if fl ''block: could not stamp admin block reason'' then st
        else st\<lparr>bs_users := update_where (account tenantID userID)
               (\<lambda>u. u\<lparr>u_blocked := Some now, block_reason := Some BlockReasonAdmin\<rparr>) (bs_users st)\<rparr>)"

text \<open>
  \<^verbatim>\<open>Unblock\<close> reads the token and the account in one statement and restores the account in a transaction
  of its own; the two halves are separate definitions, so that another request can come in between.
\<close>

definition Unblock_lookup ::
  "'r block_env \<Rightarrow> faults \<Rightarrow> time \<Rightarrow> string \<Rightarrow> 'r block_state \<Rightarrow> unblock_token result" where
  "Unblock_lookup B fl now rawToken st =
     (if fl ''lookup unblock token'' then Inl (Wrapped ''lookup unblock token'')
      else case find (\<lambda>t. ut_hash t = HashToken (ab_auth B) rawToken \<and> ut_used_at t = None \<and> now < ut_expires_at t
                 \<and> (\<exists>u \<in> set (bs_users st). u_id u = ut_user t \<and> u_deleted u = None
                      \<and> block_reason u = Some BlockReasonFailedAttempts)) (bs_unblock st) of
             None \<Rightarrow> Inl ErrInvalidUnblockToken | Some t \<Rightarrow> Inr t)"

definition Unblock_apply ::
  "'r block_env \<Rightarrow> faults \<Rightarrow> time \<Rightarrow> unblock_token \<Rightarrow> 'r block_state \<Rightarrow> unit result \<times> 'r block_state" where
  "Unblock_apply B fl now t st =
     (if fl ''begin unblock tx'' then (Inl (Wrapped ''begin unblock tx''), st)
      else if fl ''mark unblock token used'' then (Inl (Wrapped ''mark unblock token used''), st)
      else if fl ''unblock user'' then (Inl (Wrapped ''unblock user''), st)
      else if fl ''commit unblock'' then (Inl (Wrapped ''commit unblock''), st)
      else (Inr (), auditUserEvent B ''auth.account_unblocked'' (ut_tenant t) None (ut_user t)
              [(''method'', MStr ''self_service_link'')]
              (st\<lparr>bs_unblock := update_where (\<lambda>x. ut_id x = ut_id t) (\<lambda>x. x\<lparr>ut_used_at := Some now\<rparr>) (bs_unblock st),
                  bs_users := update_where (account (ut_tenant t) (ut_user t)) restore (bs_users st)\<rparr>)))"

definition Unblock ::
  "'r block_env \<Rightarrow> faults \<Rightarrow> time \<Rightarrow> string \<Rightarrow> 'r block_state \<Rightarrow> unit result \<times> 'r block_state" where
  "Unblock B fl now rawToken st =
     (case Unblock_lookup B fl now rawToken st of
        Inl e \<Rightarrow> (Inl e, st) | Inr t \<Rightarrow> Unblock_apply B fl now t st)"

subsection \<open>What the notifications and the Redis tiers leave alone\<close>

definition durable :: "'r block_state \<Rightarrow> lockout_row list \<times> unblock_token list \<times> int \<times> session_db" where
  "durable st = (bs_users st, bs_unblock st, bs_next_unblock st, st_db (bs_auth st))"

lemma set_redis_fields [simp]:
  "bs_redis (set_redis r st) = r" "durable (set_redis r st) = durable st"
  "bs_events (set_redis r st) = bs_events st" "bs_outbox (set_redis r st) = bs_outbox st"
  by (simp_all add: set_redis_def durable_def)

lemma auditUserEvent_fields [simp]:
  "durable (auditUserEvent B a t ap u m st) = durable st" "bs_auth (auditUserEvent B a t ap u m st) = bs_auth st"
  "bs_outbox (auditUserEvent B a t ap u m st) = bs_outbox st"
  by (simp_all add: auditUserEvent_def durable_def)

lemma sendBlockedAccountAsync_fields [simp]:
  "durable (sendBlockedAccountAsync fl ap m st) = durable st" "bs_auth (sendBlockedAccountAsync fl ap m st) = bs_auth st"
  "bs_events (sendBlockedAccountAsync fl ap m st) = bs_events st"
  by (simp_all add: sendBlockedAccountAsync_def durable_def)

lemma notify_fields [simp]:
  "durable (notifyFailureWarning B fl ap e st) = durable st" "bs_auth (notifyFailureWarning B fl ap e st) = bs_auth st"
  "durable (notifySoftLock B fl ap e p st) = durable st" "bs_auth (notifySoftLock B fl ap e p st) = bs_auth st"
  "durable (notifyAlert B fl ap e r st) = durable st" "bs_auth (notifyAlert B fl ap e r st) = bs_auth st"
  by (simp_all add: notifyFailureWarning_def notifySoftLock_def notifyAlert_def)

lemma notifyLockoutSpike_fields [simp]:
  "durable (notifyLockoutSpike B fl t ap c w st) = durable st" "bs_auth (notifyLockoutSpike B fl t ap c w st) = bs_auth st"
  by (simp_all add: notifyLockoutSpike_def auditTenantEvent_def durable_def split: sum.splits)

lemma redis_tier_fields [simp]:
  "durable (ClearSoftLock B fl now t u st) = durable st"
  "durable (snd (applySoftLock B fl now t u d st)) = durable st"
  "durable (snd (markWarned B fl now t u d st)) = durable st"
  "durable (snd (recordSpike B fl now t k d st)) = durable st"
  "durable (snd (policyFor fl now t ap st)) = durable st"
  by (simp_all add: ClearSoftLock_def applySoftLock_def markWarned_def recordSpike_def policyFor_def Let_def durable_def
      set_redis_def split: prod.splits option.splits)

lemma redis_tier_runs:
  "applySoftLock B fl now t u d st = (b, st') \<Longrightarrow> durable st' = durable st"
  "markWarned B fl now t u d st = (b, st') \<Longrightarrow> durable st' = durable st"
  "recordSpike B fl now t k d st = (b, st') \<Longrightarrow> durable st' = durable st"
  by (metis redis_tier_fields snd_conv)+

lemma redis_tier_logs [simp]:
  "bs_events (ClearSoftLock B fl now t u st) = bs_events st" "bs_outbox (ClearSoftLock B fl now t u st) = bs_outbox st"
  "bs_events (snd (policyFor fl now t ap st)) = bs_events st" "bs_outbox (snd (policyFor fl now t ap st)) = bs_outbox st"
  "bs_auth (snd (policyFor fl now t ap st)) = bs_auth st"
  by (simp_all add: ClearSoftLock_def policyFor_def split: prod.splits option.splits)

lemma deny_account_fields [simp]:
  "durable (deny_account B fl now u t st) = durable st"
  "bs_events (deny_account B fl now u t st) = bs_events st" "bs_outbox (deny_account B fl now u t st) = bs_outbox st"
  by (simp_all add: deny_account_def durable_def DenyAccountSessions_def)

lemma durableD:
  "durable st = durable st' \<Longrightarrow> bs_users st = bs_users st' \<and> bs_unblock st = bs_unblock st'
     \<and> bs_next_unblock st = bs_next_unblock st' \<and> st_db (bs_auth st) = st_db (bs_auth st')"
  by (simp add: durable_def)

lemma block_durable:
  "durable (snd (blockForFailedAttempts B fl now raw t ap u e p st)) =
     (case block_tx B fl now raw t u st of None \<Rightarrow> durable st | Some st1 \<Rightarrow> durable st1)"
  by (simp add: blockForFailedAttempts_def Let_def split: option.splits prod.splits bool.splits)
     (metis deny_account_fields(1) auditUserEvent_fields(1) redis_tier_fields(1,4) snd_conv)

text \<open>The durable effect of a failed sign-in: the counter, and the lockout transaction in the hard tier.\<close>

definition counted :: "LockoutPolicy \<Rightarrow> time \<Rightarrow> int \<Rightarrow> int \<Rightarrow> 'r block_state \<Rightarrow> 'r block_state" where
  "counted policy now tenantID userID st =
     st\<lparr>bs_users := update_where (\<lambda>u. account tenantID userID u \<and> u_deleted u = None) (count_failure policy now) (bs_users st)\<rparr>"

lemma RecordFailedLogin_tiers:
  assumes p: "policyFor fl now t None st = (p, st0)"
  obtains (unknown) "RecordFailedLogin B fl now raw t u st = (False, st0)"
  | (hard) x where "find (\<lambda>x. account t u x \<and> u_deleted x = None) (bs_users st0) = Some x"
      "HardLockThreshold p \<le> next_attempts p now x"
      "RecordFailedLogin B fl now raw t u st =
         blockForFailedAttempts B fl now raw t (u_application x) u (u_email x) p (counted p now t u st0)"
  | (soft) x where "find (\<lambda>x. account t u x \<and> u_deleted x = None) (bs_users st0) = Some x"
      "next_attempts p now x < HardLockThreshold p" "SoftLockThreshold p \<le> next_attempts p now x"
      "\<not> fst (RecordFailedLogin B fl now raw t u st)"
      "durable (snd (RecordFailedLogin B fl now raw t u st)) = durable (counted p now t u st0)"
      "bs_redis (snd (RecordFailedLogin B fl now raw t u st)) =
         bs_redis (snd (applySoftLock B fl now t u (SoftLockDuration p) (counted p now t u st0)))"
  | (warn) x where "find (\<lambda>x. account t u x \<and> u_deleted x = None) (bs_users st0) = Some x"
      "next_attempts p now x < HardLockThreshold p" "next_attempts p now x < SoftLockThreshold p"
      "\<not> fst (RecordFailedLogin B fl now raw t u st)"
      "durable (snd (RecordFailedLogin B fl now raw t u st)) = durable (counted p now t u st0)"
      "bs_redis (snd (RecordFailedLogin B fl now raw t u st)) =
         bs_redis (snd (markWarned B fl now t u (FailureWindow p) (counted p now t u st0)))"
  | (low) x where "find (\<lambda>x. account t u x \<and> u_deleted x = None) (bs_users st0) = Some x"
      "next_attempts p now x < SoftLockThreshold p"
      "RecordFailedLogin B fl now raw t u st = (False, counted p now t u st0)"
proof -
  let ?hit = "\<lambda>x. account t u x \<and> u_deleted x = None" and ?c = "counted p now t u st0"
  let ?r = "RecordFailedLogin B fl now raw t u st"
  have c: "st0\<lparr>bs_users := update_where ?hit (count_failure p now) (bs_users st0)\<rparr> = ?c" by (simp add: counted_def)
  show ?thesis
  proof (cases "find ?hit (bs_users st0) = None \<or> fl ''lockout: could not record failed login''")
    case True
    then have "?r = (False, st0)" by (auto simp: RecordFailedLogin_def p Let_def split: option.splits)
    with unknown show ?thesis .
  next
    case False
    then obtain x where x: "find ?hit (bs_users st0) = Some x" "\<not> fl ''lockout: could not record failed login''" by auto
    note run = RecordFailedLogin_def p x c Let_def
    consider (h) "HardLockThreshold p \<le> next_attempts p now x"
      | (s) "next_attempts p now x < HardLockThreshold p" "SoftLockThreshold p \<le> next_attempts p now x"
      | (w) "next_attempts p now x < HardLockThreshold p" "next_attempts p now x < SoftLockThreshold p"
          "0 < NotifyUserThreshold p" "NotifyUserThreshold p \<le> next_attempts p now x"
      | (l) "next_attempts p now x < HardLockThreshold p" "next_attempts p now x < SoftLockThreshold p"
          "\<not> (0 < NotifyUserThreshold p \<and> NotifyUserThreshold p \<le> next_attempts p now x)"
      by linarith
    then show ?thesis
    proof cases
      case h
      then have "?r = blockForFailedAttempts B fl now raw t (u_application x) u (u_email x) p ?c" by (simp add: run)
      with hard x h show ?thesis by blast
    next
      case s
      then have "\<not> fst ?r \<and> durable (snd ?r) = durable ?c
          \<and> bs_redis (snd ?r) = bs_redis (snd (applySoftLock B fl now t u (SoftLockDuration p) ?c))"
        by (auto simp: run dest: redis_tier_runs split: prod.splits bool.splits)
      with soft x s show ?thesis by blast
    next
      case w
      then have "\<not> fst ?r \<and> durable (snd ?r) = durable ?c
          \<and> bs_redis (snd ?r) = bs_redis (snd (markWarned B fl now t u (FailureWindow p) ?c))"
        by (auto simp: run dest: redis_tier_runs split: prod.splits bool.splits)
      with warn x w show ?thesis by blast
    next
      case l
      then have "?r = (False, ?c)" by (auto simp: run)
      with low x l show ?thesis by blast
    qed
  qed
qed

lemma block_result: "fst (blockForFailedAttempts B fl now raw t ap u e p st) \<longleftrightarrow> block_tx B fl now raw t u st \<noteq> None"
  by (simp add: blockForFailedAttempts_def Let_def split: option.splits)

lemma block_refused: "block_tx B fl now raw t u st = None \<Longrightarrow> blockForFailedAttempts B fl now raw t ap u e p st = (False, st)"
  by (simp add: blockForFailedAttempts_def)

lemma RecordFailedLogin_durable:
  assumes p: "policyFor fl now t None st = (p, st0)"
  obtains (none) "durable (snd (RecordFailedLogin B fl now raw t u st)) = durable st"
  | (counted) "durable (snd (RecordFailedLogin B fl now raw t u st)) = durable (counted p now t u st0)"
  | (blocked) st1 where "block_tx B fl now raw t u (counted p now t u st0) = Some st1"
      "durable (snd (RecordFailedLogin B fl now raw t u st)) = durable st1"
proof -
  have d0: "durable st0 = durable st" using redis_tier_fields(5) [of fl now t None st] p by simp
  show ?thesis
  proof (rule RecordFailedLogin_tiers [OF p, of B raw u])
    assume "RecordFailedLogin B fl now raw t u st = (False, st0)"
    then show thesis using none d0 by simp
  next
    fix x
    assume "RecordFailedLogin B fl now raw t u st =
      blockForFailedAttempts B fl now raw t (u_application x) u (u_email x) p (counted p now t u st0)"
    then show thesis using counted blocked block_durable [of B fl now raw t "u_application x" u "u_email x" p "counted p now t u st0"]
      by (cases "block_tx B fl now raw t u (counted p now t u st0)") auto
  qed (use counted in simp_all)
qed

subsection \<open>An operator's block outlives every self-service path\<close>

definition admin_blocked :: "lockout_row \<Rightarrow> bool" where
  "admin_blocked u \<longleftrightarrow> \<not> u_active u \<and> block_reason u = Some BlockReasonAdmin"

definition keeps_admin_block :: "lockout_row \<Rightarrow> lockout_row \<Rightarrow> bool" where
  "keeps_admin_block u u' \<longleftrightarrow>
     u_id u' = u_id u \<and> u_tenant u' = u_tenant u \<and> (admin_blocked u \<longrightarrow> admin_blocked u')"

inductive block_step :: "'r block_env \<Rightarrow> 'r block_state \<Rightarrow> 'r block_state \<Rightarrow> bool" for B where
  fail: "block_step B st (snd (RecordFailedLogin B fl now raw t u st))"
| reset: "block_step B st (ResetFailedLogins B fl now t u st)"
| expire: "block_step B st (snd (ExpireHardLock B fl now t u d st))"
| unblock: "block_step B st (snd (Unblock B fl now raw st))"
| admin: "block_step B st (NotifyAdminBlock B fl now t ap u e st)"

lemma keeps_refl: "list_all2 keeps_admin_block us us"
  by (simp add: list_all2_same keeps_admin_block_def)

lemma keeps_trans:
  "list_all2 keeps_admin_block a b \<Longrightarrow> list_all2 keeps_admin_block b c \<Longrightarrow> list_all2 keeps_admin_block a c"
  by (rule list_all2_trans [of keeps_admin_block keeps_admin_block]) (auto simp: keeps_admin_block_def)

lemma keeps_update:
  "(\<And>u. u \<in> set us \<Longrightarrow> p u \<Longrightarrow> keeps_admin_block u (f u)) \<Longrightarrow> list_all2 keeps_admin_block us (update_where p f us)"
  by (auto simp: update_where_def list_all2_conv_all_nth keeps_admin_block_def)

lemma keeps_ids: "list_all2 keeps_admin_block us us' \<Longrightarrow> map u_id us' = map u_id us"
  by (induction rule: list_all2_induct) (auto simp: keeps_admin_block_def)

lemma counted_keeps: "list_all2 keeps_admin_block (bs_users st) (bs_users (counted p now t u st))"
  unfolding counted_def by (simp, rule keeps_update) (simp add: keeps_admin_block_def count_failure_def admin_blocked_def)

lemma block_tx_keeps:
  "block_tx B fl now raw t u st = Some st1 \<Longrightarrow> list_all2 keeps_admin_block (bs_users st) (bs_users st1)"
  by (auto simp: block_tx_def Let_def keeps_admin_block_def hard_lock_def admin_blocked_def
      intro!: keeps_update split: if_splits sum.splits)

lemma RecordFailedLogin_keeps:
  "list_all2 keeps_admin_block (bs_users st) (bs_users (snd (RecordFailedLogin B fl now raw t u st)))"
proof -
  obtain p st0 where p: "policyFor fl now t None st = (p, st0)" by fastforce
  then have u0: "bs_users st0 = bs_users st"
    using durableD [OF redis_tier_fields(5), of fl now t None st] by simp
  let ?r = "RecordFailedLogin B fl now raw t u st" and ?c = "counted p now t u st0"
  have c: "list_all2 keeps_admin_block (bs_users st) (bs_users ?c)" using counted_keeps [of st0 p now t u] u0 by simp
  consider "durable (snd ?r) = durable st" | "durable (snd ?r) = durable ?c"
    | st1 where "block_tx B fl now raw t u ?c = Some st1" "durable (snd ?r) = durable st1"
    using RecordFailedLogin_durable [OF p, of B raw u] by blast
  then show ?thesis
  proof cases
    case 1
    then show ?thesis using durableD [OF 1] keeps_refl by simp
  next
    case 2
    then show ?thesis using durableD [OF 2] c by simp
  next
    case 3
    then show ?thesis using durableD [OF 3(2)] keeps_trans [OF c block_tx_keeps [OF 3(1)]] by simp
  qed
qed

lemma Unblock_lookup_reason:
  assumes "Unblock_lookup B fl now raw st = Inr k" "distinct (map u_id (bs_users st))"
    "u \<in> set (bs_users st)" "u_id u = ut_user k"
  shows "block_reason u = Some BlockReasonFailedAttempts"
proof -
  from assms(1) obtain v where v: "v \<in> set (bs_users st)" "u_id v = ut_user k"
      "block_reason v = Some BlockReasonFailedAttempts"
    by (auto simp: Unblock_lookup_def find_Some_iff split: if_splits option.splits)
  with assms(2-4) have "u = v" by (auto simp: distinct_map inj_on_def)
  with v show ?thesis by simp
qed

lemma Unblock_keeps:
  assumes "distinct (map u_id (bs_users st))"
  shows "list_all2 keeps_admin_block (bs_users st) (bs_users (snd (Unblock B fl now raw st)))"
proof (cases "Unblock_lookup B fl now raw st")
  case (Inl e)
  then show ?thesis by (simp add: Unblock_def keeps_refl)
next
  case (Inr k)
  have "list_all2 keeps_admin_block (bs_users st) (update_where (account (ut_tenant k) (ut_user k)) restore (bs_users st))"
    using Unblock_lookup_reason [OF Inr assms]
    by (intro keeps_update) (auto simp: account_def keeps_admin_block_def admin_blocked_def restore_def
        BlockReasonFailedAttempts_def BlockReasonAdmin_def)
  with Inr show ?thesis
    by (simp add: Unblock_def Unblock_apply_def auditUserEvent_def keeps_refl)
qed

lemma ExpireHardLock_keeps:
  "list_all2 keeps_admin_block (bs_users st) (bs_users (snd (ExpireHardLock B fl now t u d st)))"
proof -
  have "list_all2 keeps_admin_block (bs_users st) (update_where (lock_expired now t u d) restore (bs_users st))"
    by (intro keeps_update) (auto simp: lock_expired_def keeps_admin_block_def admin_blocked_def restore_def
        BlockReasonFailedAttempts_def BlockReasonAdmin_def)
  moreover have "bs_users (snd (ExpireHardLock B fl now t u d st)) \<in>
      {bs_users st, update_where (lock_expired now t u d) restore (bs_users st)}"
    by (auto simp: ExpireHardLock_def Let_def auditUserEvent_def ClearSoftLock_def set_redis_def split: option.splits)
  ultimately show ?thesis using keeps_refl by auto
qed

lemma block_step_keeps:
  "block_step B st st' \<Longrightarrow> distinct (map u_id (bs_users st)) \<Longrightarrow> list_all2 keeps_admin_block (bs_users st) (bs_users st')"
proof (induction rule: block_step.induct)
  case (reset st fl now t u)
  have "list_all2 keeps_admin_block (bs_users st) (update_where (\<lambda>x. account t u x \<and> failed_login_attempts x \<noteq> 0)
     (\<lambda>x. x\<lparr>failed_login_attempts := 0, last_failed_login_at := None\<rparr>) (bs_users st))"
    by (intro keeps_update) (simp add: keeps_admin_block_def admin_blocked_def)
  then show ?case using keeps_refl by (simp add: ResetFailedLogins_def ClearSoftLock_def set_redis_def)
next
  case (admin st fl now t ap u e)
  have "list_all2 keeps_admin_block (bs_users st) (update_where (account t u)
     (\<lambda>x. x\<lparr>u_blocked := Some now, block_reason := Some BlockReasonAdmin\<rparr>) (bs_users st))"
    by (intro keeps_update) (simp add: keeps_admin_block_def admin_blocked_def)
  then show ?case using keeps_refl
    by (simp add: NotifyAdminBlock_def notifyAlert_def sendBlockedAccountAsync_def)
qed (simp_all add: RecordFailedLogin_keeps Unblock_keeps ExpireHardLock_keeps)

lemma block_steps_keep:
  assumes "(block_step B)\<^sup>*\<^sup>* st st'" "distinct (map u_id (bs_users st))"
  shows "list_all2 keeps_admin_block (bs_users st) (bs_users st')"
  using assms
proof (induction rule: rtranclp_induct)
  case (step y z)
  then have "list_all2 keeps_admin_block (bs_users st) (bs_users y)" by simp
  moreover from this step.prems have "distinct (map u_id (bs_users y))" using keeps_ids by metis
  ultimately show ?case using block_step_keeps [OF step.hyps(2)] keeps_trans by blast
qed (simp add: keeps_refl)

subsection \<open>The service over a store that keeps the contract of Redis\<close>

lemma lockout_keys_distinct [simp]:
  "softLockKey t u \<noteq> notifyWarnKey t' u'" "notifyWarnKey t' u' \<noteq> softLockKey t u"
  "softLockKey t u \<noteq> spikeCountKey t'" "softLockKey t u \<noteq> spikeSentKey t'" "softLockKey t u \<noteq> userDenyKey u' t'"
  "spikeSentKey t \<noteq> spikeCountKey t'" "spikeCountKey t' \<noteq> spikeSentKey t"
proof -
  show "spikeSentKey t \<noteq> spikeCountKey t'"
  proof
    assume "spikeSentKey t = spikeCountKey t'"
    then have "FormatInt t' = ''sent:'' @ FormatInt t" by (simp add: spikeSentKey_def spikeCountKey_def)
    then have "hd (FormatInt t') = CHR ''s''" by simp
    then show False by (simp add: FormatInt_not_letter)
  qed
  then show "spikeCountKey t' \<noteq> spikeSentKey t" by simp
qed (simp_all add: softLockKey_def notifyWarnKey_def spikeCountKey_def spikeSentKey_def userDenyKey_def userDenyKeyPrefix_def)

text \<open>Failed sign-ins of one account, and lockouts counted by any tenants, one after the other.\<close>

fun failure_run ::
  "'r block_env \<Rightarrow> int \<Rightarrow> int \<Rightarrow> (faults \<times> time \<times> string) list \<Rightarrow> 'r block_state \<Rightarrow> bool list \<times> 'r block_state" where
  "failure_run B t u [] st = ([], st)"
| "failure_run B t u ((fl, now, raw) # fs) st =
     (case RecordFailedLogin B fl now raw t u st of (b, st1) \<Rightarrow>
        (case failure_run B t u fs st1 of (bs, st2) \<Rightarrow> (b # bs, st2)))"

lemma failure_run_Cons [simp]:
  "fst (failure_run B t u ((fl, now, raw) # fs) st) =
     fst (RecordFailedLogin B fl now raw t u st) # fst (failure_run B t u fs (snd (RecordFailedLogin B fl now raw t u st)))"
  "snd (failure_run B t u ((fl, now, raw) # fs) st) = snd (failure_run B t u fs (snd (RecordFailedLogin B fl now raw t u st)))"
  by (simp_all split: prod.splits)

type_synonym spike_call = "faults \<times> time \<times> int \<times> int \<times> duration"

definition call_time :: "spike_call \<Rightarrow> time" where
  "call_time c = fst (snd c)"

fun spike_run ::
  "'r block_env \<Rightarrow> spike_call list \<Rightarrow> 'r block_state \<Rightarrow> (int \<times> bool) list \<times> 'r block_state" where
  "spike_run B [] st = ([], st)"
| "spike_run B ((fl, now, t, threshold, window) # cs) st =
     (case recordSpike B fl now t threshold window st of (b, st1) \<Rightarrow>
        (case spike_run B cs st1 of (bs, st2) \<Rightarrow> ((t, b) # bs, st2)))"

lemma spike_run_Cons [simp]:
  "fst (spike_run B ((fl, now, t, n, w) # cs) st) =
     (t, fst (recordSpike B fl now t n w st)) # fst (spike_run B cs (snd (recordSpike B fl now t n w st)))"
  by (simp split: prod.splits)

text \<open>What a read of the store, \<^verbatim>\<open>GET\<close> or \<^verbatim>\<open>TTL\<close>, sees of one key.\<close>

definition view_of :: "'r redis_ops \<Rightarrow> 'r \<Rightarrow> time \<Rightarrow> string \<Rightarrow> string option \<times> duration" where
  "view_of R r t k = (rget R r t k, rttl R r t k)"

locale block_service =
  fixes B :: "'r block_env"
  assumes store: "redis_store (redis_of B)"
begin

lemmas redis_laws = redis_store.get_set [OF store] redis_store.get_del [OF store]
  redis_store.ttl_other [OF store] redis_store.get_incr_other [OF store] redis_store.get_expire_other [OF store]

lemma view_set_other: "0 < d \<Longrightarrow> now \<le> t \<Longrightarrow> k' \<noteq> k \<Longrightarrow> view_of (redis_of B) (rset (redis_of B) r now k v d) t k' = view_of (redis_of B) r t k'"
  by (simp add: view_of_def redis_laws)

lemma view_del_other: "now \<le> t \<Longrightarrow> k' \<noteq> k \<Longrightarrow> view_of (redis_of B) (rdel (redis_of B) r now k) t k' = view_of (redis_of B) r t k'"
  by (simp add: view_of_def redis_laws)

lemma view_incr_other: "now \<le> t \<Longrightarrow> k' \<noteq> k \<Longrightarrow> view_of (redis_of B) (snd (rincr (redis_of B) r now k)) t k' = view_of (redis_of B) r t k'"
  by (simp add: view_of_def redis_laws)

lemma view_expire_other: "0 < d \<Longrightarrow> now \<le> t \<Longrightarrow> k' \<noteq> k \<Longrightarrow> view_of (redis_of B) (rexpire (redis_of B) r now k d) t k' = view_of (redis_of B) r t k'"
  by (simp add: view_of_def redis_laws)

lemma view_setnx_other:
  "0 < d \<Longrightarrow> now \<le> t \<Longrightarrow> k' \<noteq> k \<Longrightarrow> view_of (redis_of B) (snd (rsetnx (redis_of B) r now k v d)) t k' = view_of (redis_of B) r t k'"
  by (simp add: view_of_def redis_store.get_setnx_other [OF store] redis_store.ttl_setnx_other [OF store])

lemma setnx_taken: "0 < d \<Longrightarrow> fst (view_of (redis_of B) r now k) \<noteq> None \<Longrightarrow> rsetnx (redis_of B) r now k v d = (False, r)"
  by (simp add: view_of_def redis_store.setnx_refused [OF store])

lemma SoftLockedFor_view:
  "SoftLockedFor B fl now t u st =
     (if \<not> ab_redis B \<or> fl ''lockout: soft-lock check failed, allowing attempt'' \<or> snd (view_of (redis_of B) (bs_redis st) now (softLockKey t u)) \<le> 0
      then (0, False) else (snd (view_of (redis_of B) (bs_redis st) now (softLockKey t u)), True))"
  by (simp add: SoftLockedFor_def view_of_def Let_def)

lemma spike_views_other:
  assumes "now \<le> \<tau>" "k \<noteq> spikeCountKey t" "k \<noteq> spikeSentKey t"
  shows "view_of (redis_of B) (bs_redis (snd (recordSpike B fl now t n w st))) \<tau> k = view_of (redis_of B) (bs_redis st) \<tau> k"
proof -
  obtain m r where i: "rincr (redis_of B) (bs_redis st) now (spikeCountKey t) = (m, r)" by fastforce
  then have r: "view_of (redis_of B) r \<tau> k = view_of (redis_of B) (bs_redis st) \<tau> k" using view_incr_other [of now \<tau> k "spikeCountKey t" "bs_redis st"] assms by simp
  let ?r1 = "\<lambda>c. if c then rexpire (redis_of B) r now (spikeCountKey t) w else r"
  have r1: "0 < w \<Longrightarrow> view_of (redis_of B) (?r1 c) \<tau> k = view_of (redis_of B) (bs_redis st) \<tau> k" for c using r assms by (simp add: view_expire_other)
  have "0 < w \<Longrightarrow> view_of (redis_of B) (snd (rsetnx (redis_of B) (?r1 c) now (spikeSentKey t) ''1'' spikeAlertDebounce)) \<tau> k = view_of (redis_of B) (bs_redis st) \<tau> k" for c
    using r1 assms by (subst view_setnx_other) (auto simp: spikeAlertDebounce_def)
  then show ?thesis using r r1
    by (fastforce simp: recordSpike_def i Let_def split: option.splits prod.splits if_splits)
qed

lemma view_deny_other: "now \<le> \<tau> \<Longrightarrow> k \<noteq> userDenyKey u t \<Longrightarrow>
  view_of (redis_of B) (bs_redis (deny_account B fl now u t st)) \<tau> k = view_of (redis_of B) (bs_redis st) \<tau> k"
  by (simp add: deny_account_def DenyAccountSessions_def view_set_other)

text \<open>A failure that does not lock the account hard leaves a running soft lock exactly as it was.\<close>

lemma RecordFailedLogin_soft_key:
  assumes "now \<le> \<tau>" and live: "fst (view_of (redis_of B) (bs_redis st) now (softLockKey t u)) \<noteq> None"
    and soft: "\<not> fst (RecordFailedLogin B fl now raw t u st)"
  shows "view_of (redis_of B) (bs_redis (snd (RecordFailedLogin B fl now raw t u st))) \<tau> (softLockKey t u) = view_of (redis_of B) (bs_redis st) \<tau> (softLockKey t u)"
proof -
  let ?k = "softLockKey t u" and ?r = "RecordFailedLogin B fl now raw t u st"
  obtain p st0 where p: "policyFor fl now t None st = (p, st0)" by fastforce
  then have a0: "bs_auth st0 = bs_auth st" using redis_tier_logs(5) [of fl now t None st] by simp
  show ?thesis
  proof (rule RecordFailedLogin_tiers [OF p, of B raw u])
    fix x
    assume "?r = blockForFailedAttempts B fl now raw t (u_application x) u (u_email x) p (counted p now t u st0)"
    with soft show ?thesis using a0
      by (auto simp: block_result block_refused counted_def)
  next
    assume "bs_redis (snd ?r) = bs_redis (snd (applySoftLock B fl now t u (SoftLockDuration p) (counted p now t u st0)))"
    then show ?thesis using a0 setnx_taken [OF _ live]
      by (auto simp: applySoftLock_def counted_def)
  next
    assume "bs_redis (snd ?r) = bs_redis (snd (markWarned B fl now t u (FailureWindow p) (counted p now t u st0)))"
    then show ?thesis using a0 view_setnx_other [OF _ assms(1), of "FailureWindow p" ?k "notifyWarnKey t u" "bs_redis st" "''1''"]
      by (auto simp: markWarned_def counted_def split: prod.splits)
  qed (simp_all add: a0 counted_def)
qed

text \<open>Once sent, the alert marker of a tenant is not rewritten while it lives.\<close>

lemma recordSpike_sent_key:
  assumes "now \<le> \<tau>" and live: "fst (view_of (redis_of B) (bs_redis st) now (spikeSentKey t)) \<noteq> None"
  shows "view_of (redis_of B) (bs_redis (snd (recordSpike B fl now t' n w st))) \<tau> (spikeSentKey t)
           = view_of (redis_of B) (bs_redis st) \<tau> (spikeSentKey t)
         \<and> (t' = t \<longrightarrow> \<not> fst (recordSpike B fl now t' n w st))"
proof (cases "spikeSentKey t' = spikeSentKey t")
  case False
  then show ?thesis using spike_views_other [OF assms(1), of "spikeSentKey t" t'] by auto
next
  case True
  obtain m r where i: "rincr (redis_of B) (bs_redis st) now (spikeCountKey t') = (m, r)" by fastforce
  let ?r1 = "\<lambda>c. if c then rexpire (redis_of B) r now (spikeCountKey t') w else r"
  have v: "0 < w \<Longrightarrow> now \<le> s \<Longrightarrow> view_of (redis_of B) (?r1 c) s (spikeSentKey t) = view_of (redis_of B) (bs_redis st) s (spikeSentKey t)"
    and v0: "now \<le> s \<Longrightarrow> view_of (redis_of B) r s (spikeSentKey t) = view_of (redis_of B) (bs_redis st) s (spikeSentKey t)" for c s
    using view_incr_other [of now s "spikeSentKey t" "spikeCountKey t'" "bs_redis st"]
    by (simp_all add: i view_expire_other)
  have nx: "0 < w \<Longrightarrow> rsetnx (redis_of B) (?r1 c) now (spikeSentKey t) ''1'' spikeAlertDebounce = (False, ?r1 c)" for c
    using v [of now c] live by (intro setnx_taken) (simp_all add: spikeAlertDebounce_def)
  have "view_of (redis_of B) (bs_redis (snd (recordSpike B fl now t' n w st))) \<tau> (spikeSentKey t)
      = view_of (redis_of B) (bs_redis st) \<tau> (spikeSentKey t) \<and> \<not> fst (recordSpike B fl now t' n w st)"
  proof (cases m)
    case None
    then show ?thesis using v0 [OF assms(1)] by (simp add: recordSpike_def i)
  next
    case (Some k)
    then show ?thesis using v [OF _ assms(1), of "k = 1 \<and> \<not> fl ''lockout: could not bound spike window''"] nx
      by (simp add: recordSpike_def i True Let_def)
  qed
  then show ?thesis by blast
qed

lemma failure_run_view:
  assumes "sorted (now0 # map (fst \<circ> snd) fs)" "\<forall>n \<in> set (map (fst \<circ> snd) fs). n < T \<and> n \<le> \<tau>" "now0 \<le> \<tau>"
    "\<forall>s. now0 \<le> s \<longrightarrow> s < T \<longrightarrow> fst (view_of (redis_of B) (bs_redis st) s (softLockKey t u)) \<noteq> None"
    "True \<notin> set (fst (failure_run B t u fs st))"
  shows "view_of (redis_of B) (bs_redis (snd (failure_run B t u fs st))) \<tau> (softLockKey t u)
           = view_of (redis_of B) (bs_redis st) \<tau> (softLockKey t u)"
  using assms
proof (induction fs arbitrary: st now0)
  case (Cons f fs)
  obtain fl n raw where f: "f = (fl, n, raw)" by (cases f)
  let ?r = "RecordFailedLogin B fl n raw t u st"
  have n: "now0 \<le> n" "n < T" "n \<le> \<tau>" and r: "\<not> fst ?r"
    using Cons.prems by (auto simp: f simp del: failure_run.simps)
  have step: "n \<le> s \<Longrightarrow> view_of (redis_of B) (bs_redis (snd ?r)) s (softLockKey t u) = view_of (redis_of B) (bs_redis st) s (softLockKey t u)" for s
    using RecordFailedLogin_soft_key [of n s st t u fl raw] n Cons.prems(4) r by simp
  have "view_of (redis_of B) (bs_redis (snd (failure_run B t u fs (snd ?r)))) \<tau> (softLockKey t u)
      = view_of (redis_of B) (bs_redis (snd ?r)) \<tau> (softLockKey t u)"
    by (rule Cons.IH [of n]) (use Cons.prems n step in \<open>auto simp: f simp del: failure_run.simps\<close>)
  with step [OF n(3)] show ?case by (simp add: f del: failure_run.simps)
qed simp

lemma spike_run_silent:
  assumes "sorted (now0 # map call_time cs)" "\<forall>n \<in> set (map call_time cs). n < T"
    "\<forall>s. now0 \<le> s \<longrightarrow> s < T \<longrightarrow> fst (view_of (redis_of B) (bs_redis st) s (spikeSentKey t)) \<noteq> None"
  shows "\<forall>(t', alert) \<in> set (fst (spike_run B cs st)). t' = t \<longrightarrow> \<not> alert"
  using assms
proof (induction cs arbitrary: st now0)
  case (Cons c cs)
  obtain fl n t' th w where c: "c = (fl, n, t', th, w)" by (cases c)
  let ?r = "recordSpike B fl n t' th w st"
  have n: "now0 \<le> n" "n < T" using Cons.prems by (auto simp: c call_time_def)
  note step = recordSpike_sent_key [of n _ st t fl t' th w]
  have "\<forall>(t', alert) \<in> set (fst (spike_run B cs (snd ?r))). t' = t \<longrightarrow> \<not> alert"
    by (rule Cons.IH [of n]) (use Cons.prems n step in \<open>auto simp: c call_time_def\<close>)
  with step [of n] n Cons.prems(3) show ?case by (auto simp: c simp del: spike_run.simps)
qed simp

end

text \<open>The contract holds for the reference keyspace, with either Redis or the audit log left out.\<close>

definition keyspace_block_env :: "(string \<Rightarrow> string) \<Rightarrow> bool \<Rightarrow> bool \<Rightarrow> keyspace block_env" where
  "keyspace_block_env h rd au =
     \<lparr>ab_auth = keyspace_env h, ab_redis = rd, ab_audit = au, appBaseURL = ''https://id'', dashboardURL = []\<rparr>"

interpretation keyspace_block: block_service "keyspace_block_env h rd au" for h rd au
  unfolding block_service_def by (simp add: keyspace_block_env_def ks.redis_store_axioms)

subsection \<open>The hard lock\<close>

definition new_unblock_token :: "'r block_env \<Rightarrow> time \<Rightarrow> string \<Rightarrow> int \<Rightarrow> int \<Rightarrow> 'r block_state \<Rightarrow> unblock_token" where
  "new_unblock_token B now rawToken tenantID userID st =
     \<lparr>ut_id = bs_next_unblock st, ut_user = userID, ut_tenant = tenantID, ut_hash = HashToken (ab_auth B) rawToken,
      ut_expires_at = now + UnblockTokenTTL, ut_used_at = None\<rparr>"

lemma account_unique:
  "distinct (map u_id us) \<Longrightarrow> x \<in> set us \<Longrightarrow> y \<in> set us \<Longrightarrow> account t u x \<Longrightarrow> account t u y \<Longrightarrow> x = y"
  by (auto simp: account_def distinct_map inj_on_def)

lemma find_account:
  assumes "distinct (map u_id us)" "x \<in> set us" "account t u x" "P x"
  shows "find (\<lambda>y. account t u y \<and> P y) us = Some x"
proof (cases "find (\<lambda>y. account t u y \<and> P y) us")
  case None
  then show ?thesis using assms by (auto simp: find_None_iff)
next
  case (Some y)
  then have "y \<in> set us" "account t u y" by (auto simp: find_Some_iff)
  with assms Some account_unique show ?thesis by metis
qed

lemma update_account:
  assumes "distinct (map u_id us)" "x \<in> set us" "account t u x" "P x"
  shows "update_where (\<lambda>y. account t u y \<and> P y) f us = update_where (account t u) f us"
  using assms account_unique [OF assms(1,2)] by (auto simp: update_where_def)

lemma count_failure_fields [simp]:
  "u_id (count_failure p now x) = u_id x" "u_tenant (count_failure p now x) = u_tenant x"
  "u_deleted (count_failure p now x) = u_deleted x" "u_active (count_failure p now x) = u_active x"
  "account t u (count_failure p now x) = account t u x"
  by (simp_all add: count_failure_def account_def)

lemma counted_ids: "map u_id (bs_users (counted p now t u st)) = map u_id (bs_users st)"
  by (simp add: counted_def map_update_where)

lemma counted_other_fields [simp]:
  "bs_auth (counted p now t u st) = bs_auth st" "bs_unblock (counted p now t u st) = bs_unblock st"
  "bs_next_unblock (counted p now t u st) = bs_next_unblock st"
  "bs_events (counted p now t u st) = bs_events st" "bs_outbox (counted p now t u st) = bs_outbox st"
  by (simp_all add: counted_def)

lemma counted_account:
  assumes "distinct (map u_id (bs_users st))" "x \<in> set (bs_users st)" "account t u x" "u_deleted x = None"
  shows "bs_users (counted p now t u st) = update_where (account t u) (count_failure p now) (bs_users st)"
    "count_failure p now x \<in> set (bs_users (counted p now t u st))"
  using assms update_account [OF assms(1-3), of "\<lambda>y. u_deleted y = None"]
  by (auto simp: counted_def update_where_def)

lemma block_tx_success:
  assumes "distinct (map u_id (bs_users st))" "x \<in> set (bs_users st)" "account t u x" "u_deleted x = None" "u_active x"
    and fresh: "HashToken (ab_auth B) raw \<notin> ut_hash ` set (bs_unblock st)"
  shows "block_tx B no_faults now raw t u st =
    Some (st\<lparr>bs_users := update_where (account t u) (hard_lock now) (bs_users st),
             bs_auth := (bs_auth st)\<lparr>st_db := RevokeAllSessionsTx_db now u t RevokeReasonCredentialChange (st_db (bs_auth st))\<rparr>,
             bs_unblock := bs_unblock st @ [new_unblock_token B now raw t u st],
             bs_next_unblock := bs_next_unblock st + 1\<rparr>)"
  using find_account [OF assms(1-3), of "\<lambda>y. u_active y \<and> u_deleted y = None"] assms
    update_account [OF assms(1-3), of "\<lambda>y. u_active y \<and> u_deleted y = None" "hard_lock now"]
  by (simp add: block_tx_def RevokeAllSessionsTx_def new_unblock_token_def)

text \<open>The state of the tables after a failed sign-in in the hard tier, and the answer.\<close>

lemma RecordFailedLogin_hard:
  assumes users: "distinct (map u_id (bs_users st))" "x \<in> set (bs_users st)" "account t u x" "u_deleted x = None" "u_active x"
    and p: "policyFor no_faults now t None st = (p, st0)" and hard: "HardLockThreshold p \<le> next_attempts p now x"
    and fresh: "HashToken (ab_auth B) raw \<notin> ut_hash ` set (bs_unblock st)"
    and run: "RecordFailedLogin B no_faults now raw t u st = (res, st')"
  shows "res"
    "bs_users st' = update_where (account t u) (\<lambda>y. hard_lock now (count_failure p now y)) (bs_users st)"
    "bs_unblock st' = bs_unblock st @ [new_unblock_token B now raw t u st]"
    "st_db (bs_auth st') = RevokeAllSessionsTx_db now u t RevokeReasonCredentialChange (st_db (bs_auth st))"
    "\<exists>ap e. (res, st') = blockForFailedAttempts B no_faults now raw t ap u e p (counted p now t u st0)"
    "block_tx B no_faults now raw t u (counted p now t u st0) \<noteq> None"
proof -
  let ?c = "counted p now t u st0"
  have d0: "bs_users st0 = bs_users st" "bs_unblock st0 = bs_unblock st" "bs_next_unblock st0 = bs_next_unblock st"
      "st_db (bs_auth st0) = st_db (bs_auth st)"
    using durableD [OF redis_tier_fields(5), of no_faults now t None st] p by simp_all
  have users0: "distinct (map u_id (bs_users st0))" "x \<in> set (bs_users st0)" using users d0 by simp_all
  note c = counted_account [OF users0 users(3,4), of p now]
  define st1 where st1: "st1 = ?c\<lparr>bs_users := update_where (account t u) (hard_lock now) (bs_users ?c),
      bs_auth := (bs_auth ?c)\<lparr>st_db := RevokeAllSessionsTx_db now u t RevokeReasonCredentialChange (st_db (bs_auth ?c))\<rparr>,
      bs_unblock := bs_unblock ?c @ [new_unblock_token B now raw t u ?c], bs_next_unblock := bs_next_unblock ?c + 1\<rparr>"
  have tx: "block_tx B no_faults now raw t u ?c = Some st1"
    unfolding st1 by (rule block_tx_success [OF _ c(2)]) (use users users0 fresh d0 in \<open>simp_all add: counted_ids\<close>)
  have find: "find (\<lambda>y. account t u y \<and> u_deleted y = None) (bs_users st0) = Some x"
    by (rule find_account [OF users0 users(3)]) (rule users(4))
  then have r: "(res, st') = blockForFailedAttempts B no_faults now raw t (u_application x) u (u_email x) p ?c"
    using hard run by (simp add: RecordFailedLogin_def p counted_def)
  then have "durable st' = durable st1"
    using block_durable [of B no_faults now raw t "u_application x" u "u_email x" p ?c] tx by (metis option.simps(5) snd_conv)
  note d = durableD [OF this]
  show res using r tx block_result by (metis fst_conv option.distinct(1))
  show "bs_users st' = update_where (account t u) (\<lambda>y. hard_lock now (count_failure p now y)) (bs_users st)"
    using d by (simp add: st1 c(1) d0) (simp add: update_where_def)
  show "bs_unblock st' = bs_unblock st @ [new_unblock_token B now raw t u st]"
    using d by (simp add: st1 d0 new_unblock_token_def)
  show "st_db (bs_auth st') = RevokeAllSessionsTx_db now u t RevokeReasonCredentialChange (st_db (bs_auth st))"
    using d by (simp add: st1 d0)
  show "\<exists>ap e. (res, st') = blockForFailedAttempts B no_faults now raw t ap u e p ?c" using r by blast
  show "block_tx B no_faults now raw t u ?c \<noteq> None" using tx by simp
qed

subsection \<open>Examples\<close>

definition sample_account :: "bool \<Rightarrow> int \<Rightarrow> string option \<Rightarrow> lockout_row" where
  "sample_account act attempts reason =
     \<lparr>u_id = 7, u_tenant = 3, u_application = None, u_email = ''a@b.c'', u_role = None, u_active = act,
      u_deleted = None, u_blocked = (if act then None else Some 0), u_token_version = 1,
      failed_login_attempts = attempts, last_failed_login_at = Some 0, block_reason = reason\<rparr>"

definition sample_block_state :: "bool \<Rightarrow> int \<Rightarrow> string option \<Rightarrow> keyspace block_state" where
  "sample_block_state act attempts reason =
     \<lparr>bs_users = [sample_account act attempts reason],
      bs_unblock = [\<lparr>ut_id = 1, ut_user = 7, ut_tenant = 3, ut_hash = ''k'', ut_expires_at = Hour, ut_used_at = None\<rparr>],
      bs_next_unblock = 2, bs_auth = \<lparr>st_db = sample_db, st_redis = Map.empty\<rparr>, bs_policySvc = None, bs_policies = [],
      bs_admins = [], bs_scopes = [], bs_tenants = [], bs_apps = [], bs_events = [], bs_outbox = []\<rparr>"

abbreviation sample_block_env :: "keyspace block_env" where
  "sample_block_env \<equiv> keyspace_block_env id True True"

lemma sample_block_env_fields [simp]:
  "ab_redis sample_block_env" "HashToken (ab_auth sample_block_env) = id"
  by (simp_all add: keyspace_block_env_def)

end
