(* ===== verification/Lockout.thy ===== *)
theory Lockout
  imports AccountBlock
begin

text \<open>
  The behaviour of the lockout service as a whole: what a hard lock does and how it ends, what a soft lock
  cannot do, and how often anybody is told.
\<close>

subsection \<open>A hard lock ends access\<close>

context block_service
begin

lemma hard_lock_clears_soft:
  assumes "ab_redis B" "now \<le> \<tau>" "block_tx B no_faults now raw t u st \<noteq> None"
  shows "rget (redis_of B) (bs_redis (snd (blockForFailedAttempts B no_faults now raw t ap u e p st))) \<tau> (softLockKey t u) = None"
proof -
  obtain st1 where tx: "block_tx B no_faults now raw t u st = Some st1" using assms by blast
  define st3 where "st3 = ClearSoftLock B no_faults now t u (deny_account B no_faults now u t st1)"
  define st4 where "st4 = auditUserEvent B ''auth.account_blocked'' t ap u
    [(''reason'', MStr BlockReasonFailedAttempts), (''max_attempts'', MInt (HardLockThreshold p)),
     (''expires_in_seconds'', MInt (whole_seconds (HardLockDuration p))), (''permanent'', MBool (HardLockDuration p \<le> 0))] st3"
  have "rget (redis_of B) (bs_redis st4) \<tau> (softLockKey t u) = None"
    using assms by (simp add: st4_def st3_def ClearSoftLock_def redis_laws)
  then have "fst (view_of (redis_of B) (bs_redis (snd (recordSpike B no_faults now t (TenantSpikeThreshold p) (FailureWindow p) st4))) \<tau> (softLockKey t u)) = None"
    using spike_views_other [OF assms(2), of "softLockKey t u" t] by (simp add: view_of_def)
  moreover obtain b st5 where "recordSpike B no_faults now t (TenantSpikeThreshold p) (FailureWindow p) st4 = (b, st5)"
    by fastforce
  ultimately show ?thesis
    by (cases b) (simp_all add: blockForFailedAttempts_def tx Let_def view_of_def flip: st3_def st4_def)
qed

lemma not_soft_locked: "rget (redis_of B) (bs_redis st) \<tau> (softLockKey t u) = None \<Longrightarrow> SoftLockedFor B fl \<tau> t u st = (0, False)"
  using redis_store.ttl_live [OF store, of "bs_redis st" \<tau> "softLockKey t u"] by (force simp: SoftLockedFor_def Let_def)

end

lemma revoke_spares:
  "(\<And>q. p (stamp_session now r q) = p q) \<Longrightarrow> filter (\<lambda>s. \<not> p s) (revoke_sessions_where now r p ss) = filter (\<lambda>s. \<not> p s) ss"
  "(\<And>q. p' (stamp_token now r q) = p' q) \<Longrightarrow> filter (\<lambda>k. \<not> p' k) (revoke_tokens_where now r p' ts) = filter (\<lambda>k. \<not> p' k) ts"
  unfolding revoke_sessions_where_def revoke_tokens_where_def by (rule filter_update_where_other; simp)+

text \<open>
  C20: The failed sign-in that reaches the hard threshold ends the account's sessions and refresh tokens, and nobody else's. For an
  active account, when no call fails, the answer is that the account is locked; its row is inactive, stamped
  with the time and the reason \<^verbatim>\<open>failed_attempts\<close>, with its token version increased, and no other row changes; every session and
  every refresh token of the account in the tenant is revoked, while the sessions and the refresh tokens of all other accounts are
  the rows they were and the session tables stay well-formed; the soft lock is gone; and exactly one unblock token is
  added, unused and valid for one hour. Access tokens already issued are not covered: the marker the lock leaves for them is the
  subject of \<open>DenyAccountSessions_refuses_nothing\<close>.
\<close>

theorem hard_lock_ends_access:
  assumes svc: "block_service B" and wired: "ab_redis B"
    and users: "distinct (map u_id (bs_users st))" "x \<in> set (bs_users st)" "account t u x" "u_deleted x = None" "u_active x"
    and p: "policyFor no_faults now t None st = (p, st0)" and hard: "HardLockThreshold p \<le> next_attempts p now x"
    and ok: "session_db_ok (st_db (bs_auth st))"
    and fresh: "HashToken (ab_auth B) raw \<notin> ut_hash ` set (bs_unblock st)"
    and run: "RecordFailedLogin B no_faults now raw t u st = (res, st')"
  shows "res
    \<and> bs_users st' = update_where (account t u) (\<lambda>y. hard_lock now (count_failure p now y)) (bs_users st)
    \<and> session_db_ok (st_db (bs_auth st'))
    \<and> (\<forall>s \<in> set (sessions (st_db (bs_auth st'))). us_user s = u \<and> us_tenant s = t \<longrightarrow> us_revoked_at s \<noteq> None)
    \<and> (\<forall>k \<in> set (tokens (st_db (bs_auth st'))). rt_user k = u \<and> rt_tenant k = t \<longrightarrow> rt_revoked_at k \<noteq> None)
    \<and> filter (\<lambda>s. \<not> (us_user s = u \<and> us_tenant s = t)) (sessions (st_db (bs_auth st')))
        = filter (\<lambda>s. \<not> (us_user s = u \<and> us_tenant s = t)) (sessions (st_db (bs_auth st)))
    \<and> filter (\<lambda>k. \<not> (rt_user k = u \<and> rt_tenant k = t)) (tokens (st_db (bs_auth st')))
        = filter (\<lambda>k. \<not> (rt_user k = u \<and> rt_tenant k = t)) (tokens (st_db (bs_auth st)))
    \<and> (\<forall>i s. find_session i (st_db (bs_auth st)) = Some s \<and> \<not> (us_user s = u \<and> us_tenant s = t)
         \<longrightarrow> find_session i (st_db (bs_auth st')) = Some s)
    \<and> (\<forall>\<tau> \<ge> now. SoftLockedFor B no_faults \<tau> t u st' = (0, False))
    \<and> bs_unblock st' = bs_unblock st @ [new_unblock_token B now raw t u st]"
proof -
  note lock = RecordFailedLogin_hard [OF users p hard fresh run]
  obtain ap e where "st' = snd (blockForFailedAttempts B no_faults now raw t ap u e p (counted p now t u st0))"
    using lock(5) by (metis snd_conv)
  then have "SoftLockedFor B no_faults \<tau> t u st' = (0, False)" if "now \<le> \<tau>" for \<tau>
    using block_service.hard_lock_clears_soft [OF svc wired that lock(6)]
    by (simp add: block_service.not_soft_locked [OF svc])
  moreover have "session_db_ok (st_db (bs_auth st'))" unfolding lock(4) by (rule revoke_all.kill_ok [OF ok])
  moreover have "\<forall>s \<in> set (sessions (st_db (bs_auth st'))). us_user s = u \<and> us_tenant s = t \<longrightarrow> us_revoked_at s \<noteq> None"
    unfolding lock(4) revoke_all.sessions_kill by (intro ballI impI, erule revoke_sessions_dead) (simp_all add: stamp_session_def)
  moreover have "\<forall>k \<in> set (tokens (st_db (bs_auth st'))). rt_user k = u \<and> rt_tenant k = t \<longrightarrow> rt_revoked_at k \<noteq> None"
    unfolding lock(4) revoke_all.tokens_kill by (intro ballI impI, erule revoke_tokens_dead) (simp_all add: stamp_token_def)
  moreover have "find_session i (st_db (bs_auth st')) = Some s"
    if "find_session i (st_db (bs_auth st)) = Some s" "\<not> (us_user s = u \<and> us_tenant s = t)" for i s
    unfolding lock(4) by (rule revoke_all.unselected_untouched) (use that in auto)
  moreover have "filter (\<lambda>s. \<not> (us_user s = u \<and> us_tenant s = t)) (sessions (st_db (bs_auth st')))
      = filter (\<lambda>s. \<not> (us_user s = u \<and> us_tenant s = t)) (sessions (st_db (bs_auth st)))"
    unfolding lock(4) revoke_all.sessions_kill by (rule revoke_spares) simp
  moreover have "filter (\<lambda>k. \<not> (rt_user k = u \<and> rt_tenant k = t)) (tokens (st_db (bs_auth st')))
      = filter (\<lambda>k. \<not> (rt_user k = u \<and> rt_tenant k = t)) (tokens (st_db (bs_auth st)))"
    unfolding lock(4) revoke_all.tokens_kill by (rule revoke_spares) simp
  ultimately show ?thesis using lock(1-3) by blast
qed

theorem hard_lock_ends_access_witness:
  "let st = sample_block_state True 9 None;
       st' = snd (RecordFailedLogin sample_block_env no_faults Second ''raw'' 3 7 st)
   in (\<forall>s \<in> set (sessions (st_db (bs_auth st'))). us_user s = 7 \<and> us_tenant s = 3 \<longrightarrow> us_revoked_at s \<noteq> None)
      \<and> map u_active (bs_users st') = [False] \<and> length (bs_unblock st') = 2"
proof -
  let ?st = "sample_block_state True 9 None" and ?x = "sample_account True 9 None"
  obtain res st' where run: "RecordFailedLogin sample_block_env no_faults Second ''raw'' 3 7 ?st = (res, st')" by fastforce
  have p: "policyFor no_faults Second 3 None ?st = (DefaultLockoutPolicy, ?st)"
    by (simp add: policyFor_def sample_block_state_def)
  have users: "distinct (map u_id (bs_users ?st))" "?x \<in> set (bs_users ?st)" "account 3 7 ?x" "u_deleted ?x = None" "u_active ?x"
    by (simp_all add: sample_block_state_def sample_account_def account_def)
  have hard: "HardLockThreshold DefaultLockoutPolicy \<le> next_attempts DefaultLockoutPolicy Second ?x" by code_simp
  have fresh: "HashToken (ab_auth sample_block_env) ''raw'' \<notin> ut_hash ` set (bs_unblock ?st)"
    by (simp add: sample_block_state_def)
  have ok: "session_db_ok (st_db (bs_auth ?st))" by (simp add: sample_block_state_def sample_db_ok)
  from hard_lock_ends_access [OF keyspace_block.block_service_axioms sample_block_env_fields(1) users p hard ok fresh run] run
  show ?thesis
    by (simp add: Let_def sample_block_state_def update_where_def sample_account_def account_def hard_lock_def)
qed

subsection \<open>Ways out of a lock\<close>

text \<open>
  C21: A block set by an operator is never lifted by the lockout service. Take an account that an operator
  blocked (it is inactive, with the reason \<^verbatim>\<open>admin\<close>). Whatever sequence of failed sign-ins, successful
  sign-ins, lock expiries, unblock links and further operator blocks follows, at any times, on any accounts
  and with any of their calls failing, the account is still inactive and still carries the operator's
  reason.
\<close>

theorem admin_block_never_lifted:
  assumes "(block_step B)\<^sup>*\<^sup>* st st'" "distinct (map u_id (bs_users st))"
    and u: "u \<in> set (bs_users st)" "admin_blocked u"
  shows "\<exists>u' \<in> set (bs_users st'). u_id u' = u_id u \<and> u_tenant u' = u_tenant u \<and> admin_blocked u'"
proof -
  from u(1) obtain i where "i < length (bs_users st)" "bs_users st ! i = u" by (auto simp: in_set_conv_nth)
  with block_steps_keep [OF assms(1,2)] u(2) show ?thesis
    by (auto simp: list_all2_conv_all_nth keeps_admin_block_def intro!: bexI [of _ "bs_users st' ! i"])
qed

theorem admin_block_never_lifted_witness:
  "let st = sample_block_state False 0 (Some BlockReasonAdmin);
       st' = snd (ExpireHardLock sample_block_env no_faults (100 * Hour) 3 7 Hour
               (snd (Unblock sample_block_env no_faults Second ''k'' st)))
   in \<exists>u \<in> set (bs_users st'). u_id u = 7 \<and> admin_blocked u"
proof -
  let ?st = "sample_block_state False 0 (Some BlockReasonAdmin)" and ?u = "sample_account False 0 (Some BlockReasonAdmin)"
  let ?st1 = "snd (Unblock sample_block_env no_faults Second ''k'' ?st)"
  let ?st2 = "snd (ExpireHardLock sample_block_env no_faults (100 * Hour) 3 7 Hour ?st1)"
  have "block_step sample_block_env ?st ?st1" "block_step sample_block_env ?st1 ?st2"
    by (rule block_step.unblock, rule block_step.expire)
  then have run: "(block_step sample_block_env)\<^sup>*\<^sup>* ?st ?st2" by (meson rtranclp.rtrancl_into_rtrancl rtranclp.rtrancl_refl)
  have "distinct (map u_id (bs_users ?st))" "?u \<in> set (bs_users ?st)" "admin_blocked ?u" "u_id ?u = 7"
    by (simp_all add: sample_block_state_def sample_account_def admin_blocked_def)
  from admin_block_never_lifted [OF run this(1-3)] this(4) show ?thesis by (auto simp: Let_def)
qed

lemma restored_users:
  assumes "distinct (map u_id us)" "x \<in> set us" "lock_expired \<tau> t u d x"
  shows "find (lock_expired \<tau> t u d) us = Some x"
    "update_where (lock_expired \<tau> t u d) restore us = update_where (account t u) restore us"
proof -
  have eq: "lock_expired \<tau> t u d = (\<lambda>y. account t u y \<and> lock_expired \<tau> t u d y)" by (auto simp: lock_expired_def)
  have acc: "account t u x" using assms(3) by (simp add: lock_expired_def)
  show "find (lock_expired \<tau> t u d) us = Some x"
    by (subst eq, rule find_account [OF assms(1,2) acc]) (rule assms(3))
  show "update_where (lock_expired \<tau> t u d) restore us = update_where (account t u) restore us"
    by (subst eq, rule update_account [OF assms(1,2) acc]) (rule assms(3))
qed

text \<open>
  C31: An automatic lock lifts itself exactly when its duration is over, and takes its unblock link with it.
  After the failed sign-in that locked the account at \<open>now\<close>, an attempt to expire the lock after the policy's
  duration succeeds at any time later than \<open>now\<close> plus that duration in whole seconds, and at no earlier time.
  When it succeeds the account is active with an empty failure counter, and no unblock token of the account
  is usable any more, so the emailed link answers that it is invalid.
\<close>

theorem hard_lock_lifts_itself:
  assumes users: "distinct (map u_id (bs_users st))" "x \<in> set (bs_users st)" "account t u x" "u_deleted x = None" "u_active x"
    and p: "policyFor no_faults now t None st = (p, st0)" and hard: "HardLockThreshold p \<le> next_attempts p now x"
    and fresh: "HashToken (ab_auth B) raw \<notin> ut_hash ` set (bs_unblock st)"
    and lock: "RecordFailedLogin B no_faults now raw t u st = (res, st1)"
    and d: "0 < HardLockDuration p"
    and expire: "ExpireHardLock B no_faults \<tau> t u (HardLockDuration p) st1 = (lifted, st2)"
  shows "(lifted \<longleftrightarrow> now + whole_seconds (HardLockDuration p) * Second < \<tau>)
    \<and> (\<not> lifted \<longrightarrow> st2 = st1)
    \<and> (lifted \<longrightarrow>
         (\<exists>y \<in> set (bs_users st2). u_id y = u \<and> u_active y \<and> block_reason y = None \<and> failed_login_attempts y = 0)
         \<and> (\<forall>k \<in> set (bs_unblock st2). ut_user k = u \<and> ut_tenant k = t \<longrightarrow> ut_used_at k \<noteq> None)
         \<and> (\<forall>\<tau>'. fst (Unblock B no_faults \<tau>' raw st2) = Inl ErrInvalidUnblockToken))"
proof -
  let ?d = "HardLockDuration p" and ?y = "hard_lock now (count_failure p now x)"
  note L = RecordFailedLogin_hard [OF users p hard fresh lock]
  have y: "?y \<in> set (bs_users st1)" "account t u ?y" using users by (auto simp: L(2) update_where_def hard_lock_def account_def)
  have dis: "distinct (map u_id (bs_users st1))"
    using users(1) by (simp add: L(2) map_update_where hard_lock_def)
  have exp: "lock_expired \<tau> t u ?d ?y \<longleftrightarrow> now + whole_seconds ?d * Second < \<tau>"
    using y(2) users(4) by (auto simp: lock_expired_def hard_lock_def)
  show ?thesis
  proof (cases "now + whole_seconds ?d * Second < \<tau>")
    case False
    have "find (lock_expired \<tau> t u ?d) (bs_users st1) = None"
      using exp False account_unique [OF dis y(1) _ y(2)] by (auto simp: find_None_iff) (metis lock_expired_def)
    then have "(lifted, st2) = (False, st1)" using expire d by (simp add: ExpireHardLock_def)
    with False show ?thesis by simp
  next
    case True
    then have e: "lock_expired \<tau> t u ?d ?y" using exp by simp
    note R = restored_users [OF dis y(1) e]
    let ?mine = "\<lambda>k. ut_user k = u \<and> ut_tenant k = t \<and> ut_used_at k = None"
    have l: "lifted" and us: "bs_users st2 = update_where (account t u) restore (bs_users st1)"
      and tk: "bs_unblock st2 = update_where ?mine (\<lambda>k. k\<lparr>ut_used_at := Some \<tau>\<rparr>) (bs_unblock st1)"
      using expire d R by (auto simp: ExpireHardLock_def Let_def auditUserEvent_def ClearSoftLock_def set_redis_def split: if_splits)
    have used: "\<forall>k \<in> set (bs_unblock st2). ut_user k = u \<and> ut_tenant k = t \<longrightarrow> ut_used_at k \<noteq> None"
      unfolding tk by (intro ballI, erule update_where_ball) auto
    have row: "restore ?y \<in> set (bs_users st2)" using y by (force simp: us set_update_where)
    have mine: "ut_user k = u \<and> ut_tenant k = t" if "k \<in> set (bs_unblock st2)" "ut_hash k = HashToken (ab_auth B) raw" for k
    proof -
      from that(1) obtain q where q: "q \<in> set (bs_unblock st1)" "k = (if ?mine q then q\<lparr>ut_used_at := Some \<tau>\<rparr> else q)"
        unfolding tk set_update_where by blast
      then have same: "ut_hash k = ut_hash q" "ut_user k = ut_user q" "ut_tenant k = ut_tenant q" by auto
      then have "q \<notin> set (bs_unblock st)" using that(2) fresh by auto
      with q(1) have "q = new_unblock_token B now raw t u st" by (simp add: L(3))
      with same show ?thesis by (simp add: new_unblock_token_def)
    qed
    have dead: "find (\<lambda>k. ut_hash k = HashToken (ab_auth B) raw \<and> ut_used_at k = None \<and> \<tau>' < ut_expires_at k \<and> Q k) (bs_unblock st2) = None" for \<tau>' Q
      using mine used by (auto simp: find_None_iff)
    then have "fst (Unblock B no_faults \<tau>' raw st2) = Inl ErrInvalidUnblockToken" for \<tau>'
      by (simp add: Unblock_def Unblock_lookup_def)
    moreover have "\<exists>z \<in> set (bs_users st2). u_id z = u \<and> u_active z \<and> block_reason z = None \<and> failed_login_attempts z = 0"
      using y(2) by (intro bexI [OF _ row]) (simp add: account_def restore_def)
    ultimately show ?thesis using True l used by blast
  qed
qed

theorem hard_lock_lifts_itself_witness:
  "let st1 = snd (RecordFailedLogin sample_block_env no_faults Second ''raw'' 3 7 (sample_block_state True 9 None))
   in \<not> fst (ExpireHardLock sample_block_env no_faults (1801 * Second) 3 7 (30 * Minute) st1)
      \<and> fst (ExpireHardLock sample_block_env no_faults (1801 * Second + 1) 3 7 (30 * Minute) st1)"
proof -
  let ?st = "sample_block_state True 9 None" and ?x = "sample_account True 9 None" and ?p = DefaultLockoutPolicy
  obtain res st1 where lock: "RecordFailedLogin sample_block_env no_faults Second ''raw'' 3 7 ?st = (res, st1)" by fastforce
  have p: "policyFor no_faults Second 3 None ?st = (?p, ?st)"
    by (simp add: policyFor_def sample_block_state_def)
  have users: "distinct (map u_id (bs_users ?st))" "?x \<in> set (bs_users ?st)" "account 3 7 ?x" "u_deleted ?x = None" "u_active ?x"
    by (simp_all add: sample_block_state_def sample_account_def account_def)
  have hard: "HardLockThreshold ?p \<le> next_attempts ?p Second ?x" by code_simp
  have fresh: "HashToken (ab_auth sample_block_env) ''raw'' \<notin> ut_hash ` set (bs_unblock ?st)"
    by (simp add: sample_block_state_def)
  have d: "0 < HardLockDuration ?p" and d30: "HardLockDuration ?p = 30 * Minute" by (simp_all add: DefaultLockoutPolicy_def)
  have "fst (ExpireHardLock sample_block_env no_faults \<tau> 3 7 (30 * Minute) st1) \<longleftrightarrow> Second + whole_seconds (30 * Minute) * Second < \<tau>" for \<tau>
    using hard_lock_lifts_itself [OF users p hard fresh lock d, of \<tau>] unfolding d30 by (metis prod.collapse)
  moreover have "whole_seconds (30 * Minute) = 1800" by (simp add: whole_seconds_def)
  ultimately show ?thesis by (simp add: Let_def lock)
qed

text \<open>
  A failed sign-in of an account that is already blocked changes nothing but the failure counter, however far past the
  threshold it is and whoever blocked it: the call reports no new lock, the token version, the block and its
  reason stay, no session is touched, no unblock token is minted, and neither the audit log nor the outbox
  grows. This holds whichever calls fail.
\<close>

theorem blocked_account_not_reblocked:
  assumes users: "distinct (map u_id (bs_users st))" "x \<in> set (bs_users st)" "account t u x" "\<not> u_active x"
    and p: "policyFor fl now t None st = (p, st0)" and hard: "HardLockThreshold p \<le> next_attempts p now x"
    and soft: "SoftLockThreshold p \<le> HardLockThreshold p"
    and run: "RecordFailedLogin B fl now raw t u st = (res, st')"
  shows "\<not> res
    \<and> map (\<lambda>y. (u_id y, u_active y, u_blocked y, block_reason y, u_token_version y)) (bs_users st')
        = map (\<lambda>y. (u_id y, u_active y, u_blocked y, block_reason y, u_token_version y)) (bs_users st)
    \<and> bs_auth st' = bs_auth st \<and> bs_unblock st' = bs_unblock st
    \<and> bs_events st' = bs_events st \<and> bs_outbox st' = bs_outbox st"
proof -
  let ?c = "counted p now t u st0"
  have u0: "bs_users st0 = bs_users st" "bs_unblock st0 = bs_unblock st"
    using durableD [OF redis_tier_fields(5), of fl now t None st] p by simp_all
  have l0: "bs_events st0 = bs_events st" "bs_outbox st0 = bs_outbox st" "bs_auth st0 = bs_auth st"
    using redis_tier_logs(3,4,5) [of fl now t None st] p by simp_all
  have keep: "map (\<lambda>y. (u_id y, u_active y, u_blocked y, block_reason y, u_token_version y)) (bs_users ?c)
      = map (\<lambda>y. (u_id y, u_active y, u_blocked y, block_reason y, u_token_version y)) (bs_users st)"
    by (simp add: counted_def u0 map_update_where count_failure_def)
  have "\<not> u_active y" if "y \<in> set (bs_users ?c)" "account t u y" for y
  proof -
    from that(1) obtain z where z: "z \<in> set (bs_users st)" "u_active y = u_active z" "account t u y = account t u z"
      by (auto simp: counted_def u0 set_update_where)
    then have "z = x" using that(2) account_unique [OF users(1) z(1) users(2) _ users(3)] by simp
    with z users(4) show ?thesis by simp
  qed
  then have "find (\<lambda>y. account t u y \<and> u_active y \<and> u_deleted y = None) (bs_users ?c) = None"
    by (auto simp: find_None_iff)
  then have tx: "block_tx B fl now raw t u ?c = None" by (simp add: block_tx_def Let_def)
  have x: "z = x" if "find (\<lambda>y. account t u y \<and> u_deleted y = None) (bs_users st0) = Some z" for z
    using that account_unique [OF users(1) _ users(2) _ users(3), of z] by (auto simp: find_Some_iff u0)
  have "(res, st') = (False, st0) \<or> (res, st') = (False, ?c)"
    by (rule RecordFailedLogin_tiers [OF p, of B raw u]) (use run x hard soft block_refused [OF tx] in force)+
  then show ?thesis using keep u0 l0 by auto
qed

theorem blocked_account_not_reblocked_witness:
  "let st = sample_block_state False 20 (Some BlockReasonAdmin);
       (res, st') = RecordFailedLogin sample_block_env no_faults Second ''raw'' 3 7 st
   in \<not> res \<and> bs_outbox st' = [] \<and> bs_unblock st' = bs_unblock st \<and> map u_token_version (bs_users st') = [1]"
proof -
  let ?st = "sample_block_state False 20 (Some BlockReasonAdmin)" and ?x = "sample_account False 20 (Some BlockReasonAdmin)"
  obtain res st' where run: "RecordFailedLogin sample_block_env no_faults Second ''raw'' 3 7 ?st = (res, st')" by fastforce
  have p: "policyFor no_faults Second 3 None ?st = (DefaultLockoutPolicy, ?st)"
    by (simp add: policyFor_def sample_block_state_def)
  have users: "distinct (map u_id (bs_users ?st))" "?x \<in> set (bs_users ?st)" "account 3 7 ?x" "\<not> u_active ?x"
    by (simp_all add: sample_block_state_def sample_account_def account_def)
  have "HardLockThreshold DefaultLockoutPolicy \<le> next_attempts DefaultLockoutPolicy Second ?x"
    "SoftLockThreshold DefaultLockoutPolicy \<le> HardLockThreshold DefaultLockoutPolicy" by code_simp+
  from blocked_account_not_reblocked [OF users p this run] show ?thesis
    unfolding Let_def run prod.case by (auto simp: sample_block_state_def sample_account_def)
qed

subsection \<open>The tiers held in Redis\<close>

text \<open>
  A soft lock is temporary whatever happens during it. Once started at \<open>t0\<close> for the duration \<open>d\<close>, let any
  number of further sign-ins of the account fail while it runs, with any of their calls failing, as long
  as none of them reaches the hard lock. Then the account is still refused until less than a second
  is left, and from \<open>t0 + d\<close> on it is not: retrying never extends the lock.
\<close>

theorem soft_lock_is_temporary:
  assumes svc: "block_service B" and start: "applySoftLock B no_faults t0 t u d st = (True, st1)"
    and run: "failure_run B t u fs st1 = (hard, st2)" "True \<notin> set hard"
    and times: "sorted (t0 # map (fst \<circ> snd) fs)" "\<forall>n \<in> set (map (fst \<circ> snd) fs). n < t0 + d \<and> n \<le> \<tau>" "t0 \<le> \<tau>"
  shows "(\<tau> + Second \<le> t0 + d \<longrightarrow> snd (SoftLockedFor B no_faults \<tau> t u st2))
    \<and> (t0 + d \<le> \<tau> \<longrightarrow> SoftLockedFor B no_faults \<tau> t u st2 = (0, False))"
proof -
  let ?k = "softLockKey t u" and ?R = "redis_of B"
  note store = block_service.store [OF svc]
  have wired: "ab_redis B" and d: "0 < d" and r: "rsetnx ?R (bs_redis st) t0 ?k ''1'' d = (True, bs_redis st1)"
    using start by (auto simp: applySoftLock_def split: if_splits prod.splits)
  then have r1: "bs_redis st1 = rset ?R (bs_redis st) t0 ?k ''1'' d"
    by (auto simp: redis_store.setnx [OF store d] split: if_splits)
  have live: "\<forall>s. t0 \<le> s \<longrightarrow> s < t0 + d \<longrightarrow> fst (view_of ?R (bs_redis st1) s ?k) \<noteq> None"
    by (simp add: view_of_def r1 redis_store.get_set [OF store d])
  have "view_of ?R (bs_redis st2) \<tau> ?k = view_of ?R (bs_redis st1) \<tau> ?k"
    using block_service.failure_run_view [OF svc times live] run by simp
  then have ttl: "rttl ?R (bs_redis st2) \<tau> ?k = rttl ?R (rset ?R (bs_redis st) t0 ?k ''1'' d) \<tau> ?k"
    by (simp add: view_of_def r1)
  have "0 < rttl ?R (bs_redis st2) \<tau> ?k" if "\<tau> + Second \<le> t0 + d"
    unfolding ttl by (rule redis_store.ttl_set [OF store d times(3) that])
  moreover have "rttl ?R (bs_redis st2) \<tau> ?k \<le> 0" if "t0 + d \<le> \<tau>"
    using redis_store.ttl_live [OF store, of "rset ?R (bs_redis st) t0 ?k ''1'' d" \<tau> ?k]
      redis_store.get_set [OF store d times(3), of "bs_redis st" ?k "''1''" ?k] that ttl by force
  ultimately show ?thesis using wired by (auto simp: SoftLockedFor_def Let_def)
qed

theorem soft_lock_is_temporary_witness:
  "let st1 = snd (applySoftLock sample_block_env no_faults 0 3 7 (15 * Minute) (sample_block_state True 4 None));
       st2 = snd (failure_run sample_block_env 3 7 [(no_faults, Second, []), (no_faults, 2 * Second, [])] st1)
   in snd (SoftLockedFor sample_block_env no_faults (14 * Minute) 3 7 st2)
      \<and> SoftLockedFor sample_block_env no_faults (15 * Minute) 3 7 st2 = (0, False)"
proof -
  let ?st = "sample_block_state True 4 None" and ?fs = "[(no_faults, Second, []), (no_faults, 2 * Second, [])]"
  have "fst (applySoftLock sample_block_env no_faults 0 3 7 (15 * Minute) ?st)" by code_simp
  then obtain st1 where start: "applySoftLock sample_block_env no_faults 0 3 7 (15 * Minute) ?st = (True, st1)"
    by (metis prod.collapse)
  obtain hard st2 where run: "failure_run sample_block_env 3 7 ?fs st1 = (hard, st2)" by fastforce
  have "fst (failure_run sample_block_env 3 7 ?fs (snd (applySoftLock sample_block_env no_faults 0 3 7 (15 * Minute) ?st))) = [False, False]"
    by code_simp
  then have "True \<notin> set hard" using run start by auto
  note T = soft_lock_is_temporary [OF keyspace_block.block_service_axioms start run this]
  from T [of "14 * Minute"] T [of "15 * Minute"] start run show ?thesis by (simp add: Let_def)
qed

text \<open>
  Administrators hear of an attack at most once an hour. After a lock raised the spike alert of a tenant at
  \<open>t0\<close>, no lock counted within the next hour raises it for that tenant again, whatever the other tenants
  count in between, whatever thresholds and windows apply and whichever calls fail.
\<close>

theorem spike_alert_debounced:
  assumes svc: "block_service B" and alert: "recordSpike B no_faults t0 t n w st = (True, st1)"
    and times: "sorted (t0 # map call_time cs)" "\<forall>s \<in> set (map call_time cs). s < t0 + spikeAlertDebounce"
  shows "\<forall>(t', sent) \<in> set (fst (spike_run B cs st1)). t' = t \<longrightarrow> \<not> sent"
proof -
  note store = block_service.store [OF svc]
  have h: "0 < spikeAlertDebounce" by (simp add: spikeAlertDebounce_def)
  from alert obtain r where "rsetnx (redis_of B) r t0 (spikeSentKey t) ''1'' spikeAlertDebounce = (True, bs_redis st1)"
    by (auto simp: recordSpike_def Let_def split: if_splits option.splits prod.splits)
  then have "bs_redis st1 = rset (redis_of B) r t0 (spikeSentKey t) ''1'' spikeAlertDebounce"
    by (auto simp: redis_store.setnx [OF store h] split: if_splits)
  then have "\<forall>s. t0 \<le> s \<longrightarrow> s < t0 + spikeAlertDebounce \<longrightarrow> fst (view_of (redis_of B) (bs_redis st1) s (spikeSentKey t)) \<noteq> None"
    by (simp add: view_of_def redis_store.get_set [OF store h])
  from block_service.spike_run_silent [OF svc times this] show ?thesis .
qed

theorem spike_alert_debounced_witness:
  "let st1 = snd (recordSpike sample_block_env no_faults 0 3 1 Minute (sample_block_state True 0 None))
   in \<forall>(t', sent) \<in> set (fst (spike_run sample_block_env [(no_faults, Second, 3, 1, Minute), (no_faults, 2 * Minute, 3, 1, Minute)] st1)).
        \<not> (t' = 3 \<and> sent)"
proof -
  have "fst (recordSpike sample_block_env no_faults 0 3 1 Minute (sample_block_state True 0 None))" by code_simp
  then obtain st1 where alert: "recordSpike sample_block_env no_faults 0 3 1 Minute (sample_block_state True 0 None) = (True, st1)"
    by (metis prod.collapse)
  from spike_alert_debounced [OF keyspace_block.block_service_axioms alert, of "[(no_faults, Second, 3, 1, Minute), (no_faults, 2 * Minute, 3, 1, Minute)]"]
  have "\<forall>(t', sent) \<in> set (fst (spike_run sample_block_env [(no_faults, Second, 3, 1, Minute), (no_faults, 2 * Minute, 3, 1, Minute)] st1)). t' = 3 \<longrightarrow> \<not> sent"
    by (simp add: call_time_def spikeAlertDebounce_def del: spike_run.simps)
  then show ?thesis unfolding Let_def alert snd_conv by blast
qed

subsection \<open>The unblock link\<close>

lemma Unblock_success:
  assumes "Unblock B no_faults now raw st = (Inr (), st')"
  obtains k where "Unblock_lookup B no_faults now raw st = Inr k" "k \<in> set (bs_unblock st)"
    "ut_hash k = HashToken (ab_auth B) raw" "ut_used_at k = None" "now < ut_expires_at k"
    "bs_users st' = update_where (account (ut_tenant k) (ut_user k)) restore (bs_users st)"
    "bs_unblock st' = update_where (\<lambda>x. ut_id x = ut_id k) (\<lambda>x. x\<lparr>ut_used_at := Some now\<rparr>) (bs_unblock st)"
proof -
  from assms obtain k where k: "Unblock_lookup B no_faults now raw st = Inr k"
    by (auto simp: Unblock_def split: sum.splits)
  then have f: "k \<in> set (bs_unblock st)" "ut_hash k = HashToken (ab_auth B) raw" "ut_used_at k = None" "now < ut_expires_at k"
    by (auto simp: Unblock_lookup_def find_Some_iff split: option.splits)
  have "st' = snd (Unblock_apply B no_faults now k st)" using assms k by (simp add: Unblock_def)
  then show ?thesis using that [OF k f] by (simp add: Unblock_apply_def auditUserEvent_def)
qed

text \<open>
  C35: An unblock link works once, for one account. When it succeeds, the account named by the token had been
  locked automatically and is now active with an empty failure counter, every other account's row is as it was, and the same link
  presented again, at any later time, is refused as invalid.
\<close>

theorem Unblock_single_use:
  assumes users: "distinct (map u_id (bs_users st))"
    and keys: "distinct (map ut_id (bs_unblock st))" "distinct (map ut_hash (bs_unblock st))"
    and run: "Unblock B no_faults now raw st = (Inr (), st')"
  shows "(\<exists>k \<in> set (bs_unblock st). ut_hash k = HashToken (ab_auth B) raw
      \<and> (\<forall>x \<in> set (bs_users st). u_id x = ut_user k \<longrightarrow> block_reason x = Some BlockReasonFailedAttempts)
      \<and> (\<forall>y \<in> set (bs_users st'). account (ut_tenant k) (ut_user k) y \<longrightarrow> u_active y \<and> failed_login_attempts y = 0)
      \<and> filter (\<lambda>y. \<not> account (ut_tenant k) (ut_user k) y) (bs_users st')
          = filter (\<lambda>y. \<not> account (ut_tenant k) (ut_user k) y) (bs_users st))
    \<and> (\<forall>\<tau>. Unblock B no_faults \<tau> raw st' = (Inl ErrInvalidUnblockToken, st'))"
proof -
  obtain k where k: "Unblock_lookup B no_faults now raw st = Inr k" "k \<in> set (bs_unblock st)" "ut_hash k = HashToken (ab_auth B) raw"
      "bs_users st' = update_where (account (ut_tenant k) (ut_user k)) restore (bs_users st)"
      "bs_unblock st' = update_where (\<lambda>x. ut_id x = ut_id k) (\<lambda>x. x\<lparr>ut_used_at := Some now\<rparr>) (bs_unblock st)"
    using Unblock_success [OF run] by metis
  have reason: "\<forall>x \<in> set (bs_users st). u_id x = ut_user k \<longrightarrow> block_reason x = Some BlockReasonFailedAttempts"
    using Unblock_lookup_reason [OF k(1) users] by blast
  have act: "\<forall>y \<in> set (bs_users st'). account (ut_tenant k) (ut_user k) y \<longrightarrow> u_active y \<and> failed_login_attempts y = 0"
    unfolding k(4) by (intro ballI, erule update_where_ball) (auto simp: restore_def account_def)
  have others: "filter (\<lambda>y. \<not> account (ut_tenant k) (ut_user k) y) (bs_users st')
      = filter (\<lambda>y. \<not> account (ut_tenant k) (ut_user k) y) (bs_users st)"
    unfolding k(4) by (rule filter_update_where_other) (auto simp: restore_def account_def)
  have "ut_hash x = ut_hash k \<longrightarrow> ut_used_at x \<noteq> None" if "x \<in> set (bs_unblock st')" for x
    using that unfolding k(5)
  proof (rule update_where_ball)
    fix y
    assume "y \<in> set (bs_unblock st)" "\<not> ut_id y = ut_id k"
    then show "ut_hash y = ut_hash k \<longrightarrow> ut_used_at y \<noteq> None"
      using keys(2) k(2) by (auto simp: distinct_map inj_on_def)
  qed simp
  then have "find (\<lambda>x. ut_hash x = HashToken (ab_auth B) raw \<and> ut_used_at x = None \<and> \<tau> < ut_expires_at x \<and> Q x) (bs_unblock st') = None" for \<tau> Q
    using k(3) by (auto simp: find_None_iff)
  then have "Unblock B no_faults \<tau> raw st' = (Inl ErrInvalidUnblockToken, st')" for \<tau>
    by (simp add: Unblock_def Unblock_lookup_def)
  with k(2,3) reason act others show ?thesis by blast
qed

theorem Unblock_single_use_witness:
  "let st = sample_block_state False 10 (Some BlockReasonFailedAttempts);
       st' = snd (Unblock sample_block_env no_faults Second ''k'' st)
   in fst (Unblock sample_block_env no_faults Second ''k'' st) = Inr ()
      \<and> fst (Unblock sample_block_env no_faults (2 * Second) ''k'' st') = Inl ErrInvalidUnblockToken"
proof -
  let ?st = "sample_block_state False 10 (Some BlockReasonFailedAttempts)"
  have ok: "fst (Unblock sample_block_env no_faults Second ''k'' ?st) = Inr ()" by code_simp
  then obtain st' where run: "Unblock sample_block_env no_faults Second ''k'' ?st = (Inr (), st')" by (metis prod.collapse)
  have "distinct (map u_id (bs_users ?st))" "distinct (map ut_id (bs_unblock ?st))" "distinct (map ut_hash (bs_unblock ?st))"
    by (simp_all add: sample_block_state_def)
  from Unblock_single_use [OF this run] show ?thesis by (simp add: Let_def run)
qed

text \<open>
  C37: The unblock link can undo an operator's block that lands while it is being served. The link is checked in
  one statement and applied in a later transaction that checks nothing again. If an operator blocks the
  account in between, the transaction still restores it: the account ends up active with no
  reason recorded. Served wholly after the operator's block, the same link is refused.
\<close>

theorem Unblock_races_admin_block:
  assumes users: "distinct (map u_id (bs_users st))" "x \<in> set (bs_users st)" "account (ut_tenant k) (ut_user k) x"
    and look: "Unblock_lookup B no_faults now raw st = Inr k"
    and keys: "distinct (map ut_hash (bs_unblock st))"
    and admin: "st1 = NotifyAdminBlock B no_faults now' (ut_tenant k) ap (ut_user k) e st"
  shows "(\<exists>y \<in> set (bs_users (snd (Unblock_apply B no_faults now'' k st1))). u_id y = u_id x \<and> u_active y \<and> block_reason y = None)
    \<and> Unblock B no_faults now'' raw st1 = (Inl ErrInvalidUnblockToken, st1)"
proof -
  let ?acc = "account (ut_tenant k) (ut_user k)"
  have k: "k \<in> set (bs_unblock st)" "ut_hash k = HashToken (ab_auth B) raw"
    using look by (auto simp: Unblock_lookup_def find_Some_iff split: option.splits)
  let ?f = "\<lambda>u. u\<lparr>u_blocked := Some now', block_reason := Some BlockReasonAdmin\<rparr>"
  have st1: "bs_users st1 = update_where ?acc ?f (bs_users st)" "bs_unblock st1 = bs_unblock st"
    by (simp_all add: admin NotifyAdminBlock_def notifyAlert_def sendBlockedAccountAsync_def)
  have "restore (?f x) \<in> set (bs_users (snd (Unblock_apply B no_faults now'' k st1)))"
    using users(2,3) by (force simp: Unblock_apply_def auditUserEvent_def st1 update_where_def account_def)
  then have active: "\<exists>y \<in> set (bs_users (snd (Unblock_apply B no_faults now'' k st1))). u_id y = u_id x \<and> u_active y \<and> block_reason y = None"
    by (rule bexI [rotated]) (simp add: restore_def)
  have "block_reason y \<noteq> Some BlockReasonFailedAttempts" if "y \<in> set (bs_users st1)" "u_id y = ut_user k" for y
  proof -
    from that(1) obtain z where z: "z \<in> set (bs_users st)" "y = (if ?acc z then ?f z else z)"
      by (auto simp: st1 set_update_where)
    then have "u_id z = u_id x" using that(2) users(3) by (auto simp: account_def split: if_splits)
    then have "z = x" using users(1,2) z(1) by (auto simp: distinct_map inj_on_def)
    then show ?thesis using z users(3) by (simp add: BlockReasonAdmin_def BlockReasonFailedAttempts_def)
  qed
  moreover have "q = k" if "q \<in> set (bs_unblock st)" "ut_hash q = HashToken (ab_auth B) raw" for q
    using that k keys by (auto simp: distinct_map inj_on_def)
  ultimately have "find (\<lambda>q. ut_hash q = HashToken (ab_auth B) raw \<and> ut_used_at q = None \<and> now'' < ut_expires_at q
      \<and> (\<exists>u \<in> set (bs_users st1). u_id u = ut_user q \<and> u_deleted u = None \<and> block_reason u = Some BlockReasonFailedAttempts))
      (bs_unblock st1) = None"
    unfolding find_None_iff st1(2) by blast
  then have "Unblock B no_faults now'' raw st1 = (Inl ErrInvalidUnblockToken, st1)"
    by (simp add: Unblock_def Unblock_lookup_def)
  with active show ?thesis by blast
qed

theorem Unblock_races_admin_block_witness:
  "let st = sample_block_state False 10 (Some BlockReasonFailedAttempts);
       st1 = NotifyAdminBlock sample_block_env no_faults (2 * Second) 3 None 7 ''a@b.c'' st
   in fst (Unblock sample_block_env no_faults (3 * Second) ''k'' st1) = Inl ErrInvalidUnblockToken
      \<and> (\<exists>k. Unblock_lookup sample_block_env no_faults Second ''k'' st = Inr k
           \<and> (\<exists>y \<in> set (bs_users (snd (Unblock_apply sample_block_env no_faults (3 * Second) k st1))). u_id y = 7 \<and> u_active y))"
proof -
  let ?st = "sample_block_state False 10 (Some BlockReasonFailedAttempts)" and ?x = "sample_account False 10 (Some BlockReasonFailedAttempts)"
  let ?k = "\<lparr>ut_id = 1, ut_user = 7, ut_tenant = 3, ut_hash = ''k'', ut_expires_at = Hour, ut_used_at = None\<rparr>"
  have look: "Unblock_lookup sample_block_env no_faults Second ''k'' ?st = Inr ?k" by code_simp
  have users: "distinct (map u_id (bs_users ?st))" "?x \<in> set (bs_users ?st)" "account (ut_tenant ?k) (ut_user ?k) ?x"
    and keys: "distinct (map ut_hash (bs_unblock ?st))"
    by (simp_all add: sample_block_state_def sample_account_def account_def)
  have x: "u_id ?x = 7" by (simp add: sample_account_def)
  note T = Unblock_races_admin_block [OF users look keys refl, where now' = "2 * Second" and ap = None and e = "''a@b.c''"
      and now'' = "3 * Second", unfolded x unblock_token.select_convs]
  show ?thesis unfolding Let_def using T look by (metis fst_conv)
qed

definition spike_policy_row :: "lockout_policy_cols policy_row" where
  "spike_policy_row = \<lparr>pr_tenant = None, pr_app = None,
     pr_cols = default_lockout_cols\<lparr>notify_user_threshold := 0, soft_lock_threshold := 1, hard_lock_threshold := 2, tenant_spike_threshold := 2\<rparr>\<rparr>"

definition one_account_attack :: "keyspace block_state" where
  "one_account_attack =
     (let fail = (\<lambda>now raw st. snd (RecordFailedLogin sample_block_env no_faults now raw 3 7 st));
          st = (sample_block_state True 0 None)\<lparr>bs_policySvc := Some (NewLockoutPolicyService True), bs_policies := [spike_policy_row]\<rparr>;
          st1 = fail (2 * Second) ''r1'' (fail Second [] st);
          st2 = snd (Unblock sample_block_env no_faults (3 * Second) ''r1'' st1)
      in fail (5 * Second) ''r2'' (fail (4 * Second) [] st2))"

text \<open>
  The spike counter counts locks, not accounts. With one account in the table, a hard threshold of two and
  a spike threshold of two, the account is locked, lifts the lock with its emailed link, and is locked
  again inside the window: the tenant's administrators are told that two accounts were locked.
\<close>

theorem spike_counts_locks_not_accounts:
  "lockout_cols_ok (pr_cols spike_policy_row) \<and> length (bs_users one_account_attack) = 1
   \<and> list_ex (\<lambda>ev. ev_action ev = ''auth.tenant_lockout_spike'' \<and> List.member (ev_meta ev) (''accounts_locked'', MInt 2))
       (bs_events one_account_attack)"
proof -
  have "lockout_cols_ok (pr_cols spike_policy_row)" by code_simp
  moreover have "length (bs_users one_account_attack) = 1" by code_simp
  moreover have "list_ex (\<lambda>ev. ev_action ev = ''auth.tenant_lockout_spike'' \<and> List.member (ev_meta ev) (''accounts_locked'', MInt 2))
       (bs_events one_account_attack)" by code_simp
  ultimately show ?thesis by blast
qed

end
