(* ===== verification/SessionReaper.thy ===== *)
theory SessionReaper
  imports SessionStore
begin

text \<open>
  The session reaper (\<^verbatim>\<open>internal/auth/session_reaper.go\<close>): one pass deletes, in batches, the sessions that
  have been dead for longer than the retention, their tokens by the cascade, and then the tokens that have no
  session. Its two loops end by themselves only because each full batch shrinks the table, so they are
  partial functions here and their termination is a theorem. \<^verbatim>\<open>LIMIT\<close> without an order lets the database
  choose the rows: \<open>pick\<close> is that choice, and \<open>row_limit\<close> says what it may do.
\<close>

definition defaultReapInterval :: duration where "defaultReapInterval = Hour"
definition defaultReapRetention :: duration where "defaultReapRetention = 7 * 24 * Hour"
definition defaultReapBatchSize :: nat where "defaultReapBatchSize = 5000"

record reaper =
  interval :: duration
  retention :: duration
  batchSize :: nat

definition NewSessionReaper :: reaper where
  "NewSessionReaper =
     \<lparr>interval = defaultReapInterval, retention = defaultReapRetention, batchSize = defaultReapBatchSize\<rparr>"

type_synonym row_pick = "nat \<Rightarrow> int list \<Rightarrow> int list"

definition reapable_session :: "time \<Rightarrow> user_session \<Rightarrow> bool" where
  "reapable_session cutoff s \<longleftrightarrow>
     (case us_revoked_at s of Some r \<Rightarrow> r < cutoff | None \<Rightarrow> False)
     \<or> max (idle_expires_at s) (absolute_expires_at s) < cutoff"

definition orphaned_token :: "time \<Rightarrow> refresh_token \<Rightarrow> bool" where
  "orphaned_token cutoff t \<longleftrightarrow>
     rt_session t = None
     \<and> ((case rt_revoked_at t of Some r \<Rightarrow> r < cutoff | None \<Rightarrow> False) \<or> expires_at t < cutoff)"

text \<open>One batch of each loop, with the number of rows it deletes; the first takes the tokens along by \<^verbatim>\<open>ON DELETE CASCADE\<close>.\<close>

definition delete_session_batch :: "row_pick \<Rightarrow> nat \<Rightarrow> time \<Rightarrow> session_db \<Rightarrow> nat \<times> session_db" where
  "delete_session_batch pick n cutoff db =
     (let ids = pick n (map us_id (filter (reapable_session cutoff) (sessions db))) in
      (length (filter (\<lambda>s. us_id s \<in> set ids) (sessions db)),
       db\<lparr>sessions := filter (\<lambda>s. us_id s \<notin> set ids) (sessions db),
          tokens := filter (\<lambda>t. case rt_session t of None \<Rightarrow> True | Some i \<Rightarrow> i \<notin> set ids) (tokens db)\<rparr>))"

definition delete_token_batch :: "row_pick \<Rightarrow> nat \<Rightarrow> time \<Rightarrow> session_db \<Rightarrow> nat \<times> session_db" where
  "delete_token_batch pick n cutoff db =
     (let ids = pick n (map rt_id (filter (orphaned_token cutoff) (tokens db))) in
      (length (filter (\<lambda>t. rt_id t \<in> set ids) (tokens db)),
       db\<lparr>tokens := filter (\<lambda>t. rt_id t \<notin> set ids) (tokens db)\<rparr>))"

datatype loop_end = Interrupted | DeleteFailed | Finished

text \<open>
  The loop around a batch. \<open>stop i\<close> and \<open>fails i\<close> say whether the context is cancelled before round \<open>i\<close>
  and whether its statement fails; rounds are numbered through both loops of a pass.
\<close>

partial_function (option) batch_loop ::
  "(nat \<Rightarrow> bool) \<Rightarrow> (nat \<Rightarrow> bool) \<Rightarrow> ('d \<Rightarrow> nat \<times> 'd) \<Rightarrow> nat \<Rightarrow> nat \<Rightarrow> 'd \<Rightarrow> (loop_end \<times> nat \<times> 'd) option" where
  "batch_loop stop fails del n i db =
     (if stop i then Some (Interrupted, i, db)
      else if fails i then Some (DeleteFailed, i, db)
      else if fst (del db) < n then Some (Finished, Suc i, snd (del db))
      else batch_loop stop fails del n (Suc i) (snd (del db)))"

declare batch_loop.simps [code]

text \<open>One pass; \<open>None\<close> is a pass that never returns. \<open>locked\<close> is what the advisory lock answers.\<close>

definition RunOnce ::
  "row_pick \<Rightarrow> faults \<Rightarrow> bool \<Rightarrow> (nat \<Rightarrow> bool) \<Rightarrow> (nat \<Rightarrow> bool) \<Rightarrow> time \<Rightarrow> reaper \<Rightarrow> session_db \<Rightarrow>
   (unit result \<times> session_db) option" where
  "RunOnce pick fl locked stop fails now r db =
     (if fl ''reaper: acquire connection'' then Some (Inl (Wrapped ''reaper: acquire connection''), db)
      else if fl ''reaper: acquire advisory lock'' then Some (Inl (Wrapped ''reaper: acquire advisory lock''), db)
      else if \<not> locked then Some (Inr (), db)
      else
        let cutoff = now - retention r in
        case batch_loop stop fails (delete_session_batch pick (batchSize r) cutoff) (batchSize r) 0 db of
          None \<Rightarrow> None
        | Some (Interrupted, i, db1) \<Rightarrow> Some (Inr (), db1)
        | Some (DeleteFailed, i, db1) \<Rightarrow> Some (Inl (Wrapped ''reaper: delete session batch''), db1)
        | Some (Finished, i, db1) \<Rightarrow>
            (case batch_loop stop fails (delete_token_batch pick (batchSize r) cutoff) (batchSize r) i db1 of
               None \<Rightarrow> None
             | Some (Interrupted, j, db2) \<Rightarrow> Some (Inr (), db2)
             | Some (DeleteFailed, j, db2) \<Rightarrow> Some (Inl (Wrapped ''reaper: delete orphaned tokens''), db2)
             | Some (Finished, j, db2) \<Rightarrow> Some (Inr (), db2)))"

subsection \<open>What the database may choose\<close>

locale row_limit =
  fixes pick :: row_pick
  assumes pick_subset: "set (pick n ids) \<subseteq> set ids"
    and pick_distinct: "distinct ids \<Longrightarrow> distinct (pick n ids)"
    and pick_length: "length (pick n ids) = min n (length ids)"
begin

lemma pick_all: "distinct ids \<Longrightarrow> length ids \<le> n \<Longrightarrow> set (pick n ids) = set ids"
  using pick_subset [of n ids] pick_distinct [of ids n] pick_length [of n ids]
  by (metis card_subset_eq distinct_card finite_set min.absorb2)

end

interpretation heap_order: row_limit take
  by unfold_locales (auto dest: in_set_takeD)

interpretation reverse_order: row_limit "\<lambda>n ids. take n (rev ids)"
  by unfold_locales (auto dest: in_set_takeD)

subsection \<open>The loop\<close>

lemma batch_loop_invariant:
  assumes ret: "batch_loop stop fails del n i db = Some (e, j, db')"
    and inv: "I db" and step: "\<And>d. I d \<Longrightarrow> I (snd (del d))"
  shows "I db'"
proof -
  have "I db \<longrightarrow> I (snd (snd r))" if "batch_loop stop fails del n i db = Some r" for r
  proof (rule batch_loop.raw_induct [where P = "\<lambda>st fa de m k d r. st = stop \<and> fa = fails \<and> de = del \<and> m = n \<longrightarrow> I d \<longrightarrow> I (snd (snd r))",
        OF _ that, THEN mp])
    fix f st fa de m k d r
    assume IH: "\<And>st fa de m k d r. f st fa de m k d = Some r \<Longrightarrow> st = stop \<and> fa = fails \<and> de = del \<and> m = n \<longrightarrow> I d \<longrightarrow> I (snd (snd r))"
      and eq: "(if st k then Some (Interrupted, k, d) else if fa k then Some (DeleteFailed, k, d)
        else if fst (de d) < m then Some (Finished, Suc k, snd (de d)) else f st fa de m (Suc k) (snd (de d))) = Some r"
    show "st = stop \<and> fa = fails \<and> de = del \<and> m = n \<longrightarrow> I d \<longrightarrow> I (snd (snd r))"
      using eq IH [of st fa de m "Suc k" "snd (de d)" r] step by (auto split: if_splits)
  qed simp
  with ret inv show ?thesis by fastforce
qed

text \<open>A batch that deletes what it counts, from a table of finite size: the loop ends.\<close>

lemma batch_loop_terminates:
  assumes "0 < n" and shrink: "\<And>d. size_of (snd (del d)) + fst (del d) \<le> (size_of d :: nat)"
  shows "\<exists>r. batch_loop stop fails del n i db = Some r"
proof (induction "size_of db" arbitrary: db i rule: less_induct)
  case less
  have "size_of (snd (del db)) < size_of db" if "\<not> fst (del db) < n"
    using that assms(1) shrink [of db] by linarith
  with less show ?case by (subst batch_loop.simps) auto
qed

lemma batch_loop_finishes:
  assumes "0 < n" "\<And>d. size_of (snd (del d)) + fst (del d) \<le> (size_of d :: nat)"
    and quiet: "\<And>k. \<not> stop k" "\<And>k. \<not> fails k"
  shows "\<exists>j db'. batch_loop stop fails del n i db = Some (Finished, j, db')"
proof (induction "size_of db" arbitrary: db i rule: less_induct)
  case less
  have "size_of (snd (del db)) < size_of db" if "\<not> fst (del db) < n"
    using that assms(1) assms(2) [of db] by linarith
  with less quiet show ?case by (subst batch_loop.simps) auto
qed

text \<open>How a run that finishes ends: with a batch that was not full, taken from a table that keeps the invariant.\<close>

lemma batch_loop_last:
  assumes ret: "batch_loop stop fails del n i db = Some (Finished, j, db')"
    and inv: "I db" and step: "\<And>d. I d \<Longrightarrow> I (snd (del d))"
  shows "\<exists>d. I d \<and> fst (del d) < n \<and> db' = snd (del d)"
proof -
  have "I db \<longrightarrow> fst r = Finished \<longrightarrow> (\<exists>d. I d \<and> fst (del d) < n \<and> snd (snd r) = snd (del d))"
    if "batch_loop stop fails del n i db = Some r" for r
  proof (rule batch_loop.raw_induct [where P = "\<lambda>st fa de m k d r. st = stop \<and> fa = fails \<and> de = del \<and> m = n \<longrightarrow> I d \<longrightarrow>
        fst r = Finished \<longrightarrow> (\<exists>d. I d \<and> fst (del d) < n \<and> snd (snd r) = snd (del d))", OF _ that, THEN mp])
    fix f st fa de m k d r
    assume IH: "\<And>st fa de m k d r. f st fa de m k d = Some r \<Longrightarrow> st = stop \<and> fa = fails \<and> de = del \<and> m = n \<longrightarrow> I d \<longrightarrow>
        fst r = Finished \<longrightarrow> (\<exists>d. I d \<and> fst (del d) < n \<and> snd (snd r) = snd (del d))"
      and eq: "(if st k then Some (Interrupted, k, d) else if fa k then Some (DeleteFailed, k, d)
        else if fst (de d) < m then Some (Finished, Suc k, snd (de d)) else f st fa de m (Suc k) (snd (de d))) = Some r"
    show "st = stop \<and> fa = fails \<and> de = del \<and> m = n \<longrightarrow> I d \<longrightarrow>
        fst r = Finished \<longrightarrow> (\<exists>d. I d \<and> fst (del d) < n \<and> snd (snd r) = snd (del d))"
      using eq IH [of st fa de m "Suc k" "snd (de d)" r] step by (auto split: if_splits)
  qed simp
  with ret inv show ?thesis by fastforce
qed

subsection \<open>The batches keep the tables well-formed and every live row\<close>

lemma delete_session_batch_ok:
  assumes "session_db_ok db"
  shows "session_db_ok (snd (delete_session_batch pick n cutoff db))"
proof -
  let ?ids = "set (pick n (map us_id (filter (reapable_session cutoff) (sessions db))))"
  let ?db = "snd (delete_session_batch pick n cutoff db)"
  have S: "sessions ?db = filter (\<lambda>s. us_id s \<notin> ?ids) (sessions db)"
    and T: "tokens ?db = filter (\<lambda>t. case rt_session t of None \<Rightarrow> True | Some i \<Rightarrow> i \<notin> ?ids) (tokens db)"
    and N: "next_session_id ?db = next_session_id db" "next_token_id ?db = next_token_id db"
    by (simp_all add: delete_session_batch_def Let_def)
  have "token_ok ?db t" if "t \<in> set (tokens ?db)" for t
  proof -
    have t: "t \<in> set (tokens db)" "case rt_session t of None \<Rightarrow> True | Some i \<Rightarrow> i \<notin> ?ids" using that by (auto simp: T)
    show ?thesis
    proof (cases "rt_session t")
      case None
      then show ?thesis using assms t(1) by (simp add: session_db_ok_def token_ok_def)
    next
      case (Some i)
      from token_session [OF assms t(1) Some] obtain s where "s \<in> set (sessions db)" "us_id s = i" "us_user s = rt_user t"
        "us_tenant s = rt_tenant t" "expires_at t \<le> absolute_expires_at s" "us_revoked_at s \<noteq> None \<longrightarrow> rt_revoked_at t \<noteq> None" .
      then show ?thesis using t(2) Some by (auto simp: token_ok_def S)
    qed
  qed
  moreover have "distinct (map us_id (sessions ?db))" "distinct (map rt_id (tokens ?db))" "distinct (map token_hash (tokens ?db))"
    using assms by (simp_all add: S T session_db_ok_def distinct_map_filter)
  ultimately show ?thesis using assms by (simp add: session_db_ok_def N) (auto simp: S T)
qed

lemma delete_token_batch_ok:
  "session_db_ok db \<Longrightarrow> session_db_ok (snd (delete_token_batch pick n cutoff db))"
  by (auto simp: delete_token_batch_def Let_def session_db_ok_def distinct_map_filter token_ok_def)

context row_limit
begin

lemma picked_session:
  assumes "session_db_ok db" "s \<in> set (sessions db)"
    "us_id s \<in> set (pick n (map us_id (filter (reapable_session cutoff) (sessions db))))"
  shows "reapable_session cutoff s"
proof -
  from assms(3) pick_subset obtain q where "q \<in> set (sessions db)" "reapable_session cutoff q" "us_id q = us_id s"
    by fastforce
  with session_unique [OF assms(1) this(1) assms(2)] show ?thesis by simp
qed

lemma session_batch_keeps:
  assumes "session_db_ok db"
  shows "filter (\<lambda>s. \<not> reapable_session cutoff s) (sessions (snd (delete_session_batch pick n cutoff db)))
           = filter (\<lambda>s. \<not> reapable_session cutoff s) (sessions db)"
proof -
  let ?ids = "pick n (map us_id (filter (reapable_session cutoff) (sessions db)))"
  have "filter (\<lambda>s. us_id s \<notin> set ?ids \<and> \<not> reapable_session cutoff s) (sessions db)
      = filter (\<lambda>s. \<not> reapable_session cutoff s) (sessions db)"
    by (rule filter_cong [OF refl]) (use picked_session [OF assms] in blast)
  then show ?thesis by (simp add: delete_session_batch_def Let_def filter_filter)
qed

lemma picked_token:
  assumes "session_db_ok db" "t \<in> set (tokens db)"
    "rt_id t \<in> set (pick n (map rt_id (filter (orphaned_token cutoff) (tokens db))))"
  shows "orphaned_token cutoff t"
proof -
  from assms(3) pick_subset obtain q where "q \<in> set (tokens db)" "orphaned_token cutoff q" "rt_id q = rt_id t"
    by fastforce
  moreover have "inj_on rt_id (set (tokens db))" using assms(1) by (simp add: session_db_ok_def distinct_map)
  ultimately show ?thesis using assms(2) by (metis inj_onD)
qed

lemma picked_count:
  assumes "distinct (map key rows)"
  shows "length (filter (\<lambda>x. key x \<in> set (pick n (map key (filter p rows)))) rows) = min n (length (filter p rows))"
proof -
  let ?ids = "pick n (map key (filter p rows))"
  have sub: "set ?ids \<subseteq> key ` set rows" using pick_subset [of n "map key (filter p rows)"] by auto
  have "length (filter (\<lambda>x. key x \<in> set ?ids) rows) = card (key ` set (filter (\<lambda>x. key x \<in> set ?ids) rows))"
    using distinct_card [of "map key (filter (\<lambda>x. key x \<in> set ?ids) rows)"] distinct_map_filter [OF assms] by simp
  also have "key ` set (filter (\<lambda>x. key x \<in> set ?ids) rows) = set ?ids" using sub by auto
  also have "card (set ?ids) = length ?ids"
    by (rule distinct_card, rule pick_distinct, rule distinct_map_filter [OF assms])
  finally show ?thesis by (simp add: pick_length)
qed

lemma picked_all:
  assumes "distinct (map key rows)" "length (filter (\<lambda>x. key x \<in> set (pick n (map key (filter p rows)))) rows) < n"
    "x \<in> set rows" "p x"
  shows "key x \<in> set (pick n (map key (filter p rows)))"
proof -
  have "length (filter p rows) \<le> n" using assms(1,2) picked_count [OF assms(1)] by (simp add: min_def split: if_splits)
  then have "set (pick n (map key (filter p rows))) = set (map key (filter p rows))"
    by (intro pick_all distinct_map_filter assms(1)) simp
  with assms(3,4) show ?thesis by simp
qed

lemma length_filter_compl_le: "length (filter p xs) + length (filter (\<lambda>x. \<not> p x) xs) \<le> length xs"
  by (induction xs) auto

lemma session_batch_shrinks:
  "length (sessions (snd (delete_session_batch pick n cutoff d))) + fst (delete_session_batch pick n cutoff d) \<le> length (sessions d)"
  by (simp add: delete_session_batch_def Let_def add.commute length_filter_compl_le)

lemma token_batch_shrinks:
  "length (tokens (snd (delete_token_batch pick n cutoff d))) + fst (delete_token_batch pick n cutoff d) \<le> length (tokens d)"
  by (simp add: delete_token_batch_def Let_def add.commute length_filter_compl_le)

end

subsection \<open>A pass\<close>

text \<open>What a pass may not touch: sessions that are not reapable, with all their tokens.\<close>

definition spares :: "time \<Rightarrow> session_db \<Rightarrow> session_db \<Rightarrow> bool" where
  "spares cutoff db d \<longleftrightarrow> session_db_ok d
     \<and> set (sessions d) \<subseteq> set (sessions db) \<and> set (tokens d) \<subseteq> set (tokens db)
     \<and> (\<forall>s \<in> set (sessions db). \<not> reapable_session cutoff s \<longrightarrow>
          s \<in> set (sessions d) \<and> (\<forall>t \<in> set (tokens db). rt_session t = Some (us_id s) \<longrightarrow> t \<in> set (tokens d)))"

text \<open>The reference: everything dead past the cutoff, gone in one statement.\<close>

definition keep_token :: "time \<Rightarrow> session_db \<Rightarrow> refresh_token \<Rightarrow> bool" where
  "keep_token cutoff db t \<longleftrightarrow>
     (case rt_session t of
        None \<Rightarrow> \<not> orphaned_token cutoff t
      | Some i \<Rightarrow> \<not> (\<exists>s \<in> set (sessions db). us_id s = i \<and> reapable_session cutoff s))"

lemma keep_not_orphaned: "keep_token cutoff db t \<Longrightarrow> \<not> orphaned_token cutoff t"
  by (auto simp: keep_token_def orphaned_token_def split: option.splits)

definition reap_all :: "time \<Rightarrow> session_db \<Rightarrow> session_db" where
  "reap_all cutoff db =
     db\<lparr>sessions := filter (\<lambda>s. \<not> reapable_session cutoff s) (sessions db), tokens := filter (keep_token cutoff db) (tokens db)\<rparr>"

context row_limit
begin

lemma session_batch_spares:
  assumes "spares cutoff db d"
  shows "spares cutoff db (snd (delete_session_batch pick n cutoff d))"
proof -
  have ok: "session_db_ok d" using assms by (simp add: spares_def)
  have "us_id s \<notin> set (pick n (map us_id (filter (reapable_session cutoff) (sessions d))))"
    if "s \<in> set (sessions d)" "\<not> reapable_session cutoff s" for s
    using picked_session [OF ok that(1)] that(2) by blast
  then show ?thesis
    using assms delete_session_batch_ok [OF ok] by (fastforce simp: spares_def delete_session_batch_def Let_def)
qed

lemma token_batch_spares:
  assumes "spares cutoff db d"
  shows "spares cutoff db (snd (delete_token_batch pick n cutoff d))"
proof -
  have ok: "session_db_ok d" using assms by (simp add: spares_def)
  have "rt_id t \<notin> set (pick n (map rt_id (filter (orphaned_token cutoff) (tokens d))))"
    if "t \<in> set (tokens d)" "rt_session t = Some i" for t i
    using picked_token [OF ok that(1)] that(2) by (auto simp: orphaned_token_def)
  then show ?thesis
    using assms delete_token_batch_ok [OF ok] by (fastforce simp: spares_def delete_token_batch_def Let_def)
qed

lemma session_batch_reap_all:
  assumes ok: "session_db_ok d"
  shows "reap_all cutoff (snd (delete_session_batch pick n cutoff d)) = reap_all cutoff d"
proof -
  let ?d = "snd (delete_session_batch pick n cutoff d)"
  let ?ids = "set (pick n (map us_id (filter (reapable_session cutoff) (sessions d))))"
  let ?stay = "\<lambda>t. case rt_session t of None \<Rightarrow> True | Some i \<Rightarrow> i \<notin> ?ids"
  have T: "tokens ?d = filter ?stay (tokens d)" and S: "sessions ?d = filter (\<lambda>s. us_id s \<notin> ?ids) (sessions d)"
    by (simp_all add: delete_session_batch_def Let_def)
  have "?stay t \<and> keep_token cutoff ?d t \<longleftrightarrow> keep_token cutoff d t" if "t \<in> set (tokens d)" for t
  proof (cases "rt_session t")
    case (Some i)
    from token_session [OF ok that Some] obtain s where s: "s \<in> set (sessions d)" "us_id s = i" .
    then have "i \<in> ?ids \<Longrightarrow> reapable_session cutoff s" using picked_session [OF ok] by blast
    then show ?thesis using Some s by (auto simp: keep_token_def S)
  qed (simp add: keep_token_def)
  then have "filter (keep_token cutoff ?d) (tokens ?d) = filter (keep_token cutoff d) (tokens d)"
    unfolding T filter_filter by (intro filter_cong) auto
  with session_batch_keeps [OF ok] show ?thesis
    by (simp add: reap_all_def) (simp add: delete_session_batch_def Let_def)
qed

lemma token_batch_reap_all:
  assumes ok: "session_db_ok d"
  shows "reap_all cutoff (snd (delete_token_batch pick n cutoff d)) = reap_all cutoff d"
proof -
  let ?d = "snd (delete_token_batch pick n cutoff d)"
  have S: "sessions ?d = sessions d" by (simp add: delete_token_batch_def Let_def)
  then have k: "keep_token cutoff ?d = keep_token cutoff d" by (intro ext) (simp only: keep_token_def S)
  have "filter (\<lambda>t. rt_id t \<notin> set (pick n (map rt_id (filter (orphaned_token cutoff) (tokens d)))) \<and> keep_token cutoff d t) (tokens d)
      = filter (keep_token cutoff d) (tokens d)"
    by (rule filter_cong [OF refl]) (use picked_token [OF ok] keep_not_orphaned in blast)
  then have "filter (keep_token cutoff d) (tokens ?d) = filter (keep_token cutoff d) (tokens d)"
    by (simp add: delete_token_batch_def Let_def filter_filter)
  then show ?thesis by (simp add: reap_all_def k S) (simp add: delete_token_batch_def Let_def)
qed

lemma session_batch_last:
  assumes ok: "session_db_ok d" and small: "fst (delete_session_batch pick n cutoff d) < n"
  shows "\<forall>s \<in> set (sessions (snd (delete_session_batch pick n cutoff d))). \<not> reapable_session cutoff s"
proof -
  have "distinct (map us_id (sessions d))" using ok by (simp add: session_db_ok_def)
  from picked_all [OF this, of n "reapable_session cutoff"] small show ?thesis
    unfolding delete_session_batch_def Let_def fst_conv snd_conv by (simp, blast)
qed

lemma token_batch_last:
  assumes ok: "session_db_ok d" and small: "fst (delete_token_batch pick n cutoff d) < n"
  shows "\<forall>t \<in> set (tokens (snd (delete_token_batch pick n cutoff d))). \<not> orphaned_token cutoff t"
proof -
  have "distinct (map rt_id (tokens d))" using ok by (simp add: session_db_ok_def)
  from picked_all [OF this, of n "orphaned_token cutoff"] small show ?thesis
    unfolding delete_token_batch_def Let_def fst_conv snd_conv by (simp, blast)
qed

lemma loops_terminate:
  assumes "0 < n"
  shows "\<exists>e j d. batch_loop stop fails (delete_session_batch pick n cutoff) n i db = Some (e, j, d)"
    "\<exists>e j d. batch_loop stop fails (delete_token_batch pick n cutoff) n i db = Some (e, j, d)"
  using batch_loop_terminates [where size_of = "\<lambda>d. length (sessions d)", OF assms session_batch_shrinks]
    batch_loop_terminates [where size_of = "\<lambda>d. length (tokens d)", OF assms token_batch_shrinks]
  by fastforce+

lemma reap_all_fixed:
  assumes "session_db_ok d" "\<forall>s \<in> set (sessions d). \<not> reapable_session cutoff s" "\<forall>t \<in> set (tokens d). \<not> orphaned_token cutoff t"
  shows "reap_all cutoff d = d"
proof -
  have "filter (\<lambda>s. \<not> reapable_session cutoff s) (sessions d) = sessions d" "filter (keep_token cutoff d) (tokens d) = tokens d"
    using assms by (auto simp: filter_id_conv keep_token_def split: option.splits)
  then show ?thesis by (simp add: reap_all_def)
qed

lemma RunOnce_total:
  assumes "0 < batchSize r" and spared: "spares (now - retention r) db db"
  shows "\<exists>res d. RunOnce pick fl locked stop fails now r db = Some (res, d) \<and> spares (now - retention r) db d"
proof -
  let ?cut = "now - retention r" and ?n = "batchSize r"
  obtain e1 i d1 where l1: "batch_loop stop fails (delete_session_batch pick ?n ?cut) ?n 0 db = Some (e1, i, d1)"
    using loops_terminate(1) [OF assms(1)] by metis
  obtain e2 j d2 where l2: "batch_loop stop fails (delete_token_batch pick ?n ?cut) ?n i d1 = Some (e2, j, d2)"
    using loops_terminate(2) [OF assms(1)] by metis
  have s1: "spares ?cut db d1" by (rule batch_loop_invariant [where I = "spares ?cut db", OF l1 spared session_batch_spares])
  have s2: "spares ?cut db d2" by (rule batch_loop_invariant [where I = "spares ?cut db", OF l2 s1 token_batch_spares])
  show ?thesis using spared s1 s2
    by (cases e1; cases e2) (simp_all add: RunOnce_def l1 l2 Let_def)
qed

lemma RunOnce_complete:
  assumes "0 < batchSize r" and ok: "session_db_ok db"
  shows "RunOnce pick no_faults True (\<lambda>_. False) (\<lambda>_. False) now r db = Some (Inr (), reap_all (now - retention r) db)"
proof -
  let ?cut = "now - retention r" and ?n = "batchSize r"
  let ?ds = "delete_session_batch pick ?n ?cut" and ?dt = "delete_token_batch pick ?n ?cut"
  have "\<exists>i d. batch_loop (\<lambda>_. False) (\<lambda>_. False) ?ds ?n 0 db = Some (Finished, i, d)"
    by (rule batch_loop_finishes [where size_of = "\<lambda>d. length (sessions d)", OF assms(1) session_batch_shrinks]) simp_all
  then obtain i d1 where l1: "batch_loop (\<lambda>_. False) (\<lambda>_. False) ?ds ?n 0 db = Some (Finished, i, d1)" by blast
  have "\<exists>j d. batch_loop (\<lambda>_. False) (\<lambda>_. False) ?dt ?n i d1 = Some (Finished, j, d)"
    by (rule batch_loop_finishes [where size_of = "\<lambda>d. length (tokens d)", OF assms(1) token_batch_shrinks]) simp_all
  then obtain j d2 where l2: "batch_loop (\<lambda>_. False) (\<lambda>_. False) ?dt ?n i d1 = Some (Finished, j, d2)" by blast
  define I where "I d \<longleftrightarrow> session_db_ok d \<and> reap_all ?cut d = reap_all ?cut db" for d
  have "I db" using ok by (simp add: I_def)
  have stepS: "I d \<Longrightarrow> I (snd (?ds d))" for d by (simp add: I_def delete_session_batch_ok session_batch_reap_all)
  obtain d where "I d" "fst (?ds d) < ?n" "d1 = snd (?ds d)" using batch_loop_last [OF l1 \<open>I db\<close> stepS] by blast
  then have d1: "I d1" "\<forall>s \<in> set (sessions d1). \<not> reapable_session ?cut s"
    using stepS session_batch_last by (auto simp: I_def)
  define J where "J d \<longleftrightarrow> I d \<and> sessions d = sessions d1" for d
  have stepT: "J d \<Longrightarrow> J (snd (?dt d))" for d
    by (simp add: J_def I_def delete_token_batch_ok token_batch_reap_all) (simp add: delete_token_batch_def Let_def)
  have "J d1" using d1 by (simp add: J_def)
  obtain d' where "J d'" "fst (?dt d') < ?n" "d2 = snd (?dt d')" using batch_loop_last [OF l2 \<open>J d1\<close> stepT] by blast
  then have "J d2" "\<forall>t \<in> set (tokens d2). \<not> orphaned_token ?cut t"
    using stepT token_batch_last by (auto simp: J_def I_def)
  then have "reap_all ?cut db = d2" using reap_all_fixed [of d2 ?cut] d1(2) by (simp add: J_def I_def)
  then show ?thesis by (simp add: RunOnce_def Let_def l1 l2)
qed

end

subsection \<open>Properties\<close>

lemma live_not_reapable: "LiveSessionWhere now s \<Longrightarrow> cutoff \<le> now \<Longrightarrow> \<not> reapable_session cutoff s"
  by (auto simp: LiveSessionWhere_def reapable_session_def)

text \<open>
  C25: A pass of the reaper always returns and never costs anybody a session. For any batch size above zero,
  any choice of rows by the database, any failing statement and any interruption, the pass ends; the tables it
  leaves are well-formed and hold nothing new; and every session that is live, with every token it has
  issued, is still there.
\<close>

theorem reaper_spares_live_sessions:
  assumes lim: "row_limit pick" and batch: "0 < batchSize r" and ret: "0 \<le> retention r" and ok: "session_db_ok db"
  shows "\<exists>res d. RunOnce pick fl locked stop fails now r db = Some (res, d) \<and> session_db_ok d
    \<and> set (sessions d) \<subseteq> set (sessions db) \<and> set (tokens d) \<subseteq> set (tokens db)
    \<and> (\<forall>s \<in> set (sessions db). LiveSessionWhere now s \<longrightarrow>
         s \<in> set (sessions d) \<and> (\<forall>t \<in> set (tokens db). rt_session t = Some (us_id s) \<longrightarrow> t \<in> set (tokens d)))"
proof -
  have "spares (now - retention r) db db" using ok by (simp add: spares_def)
  from row_limit.RunOnce_total [OF lim batch this] obtain res d where
    "RunOnce pick fl locked stop fails now r db = Some (res, d)" "spares (now - retention r) db d" by blast
  then show ?thesis using live_not_reapable [of now _ "now - retention r"] ret unfolding spares_def by auto
qed

text \<open>
  C26: An uninterrupted pass in batches leaves exactly what one unbounded delete would: every session revoked, or past both
  of its deadlines, before the cutoff is gone with its tokens, so are the tokens without a session that died before the
  cutoff, and everything else stays in order, whichever rows the database puts in which batch.
\<close>

theorem reaper_equals_one_delete:
  assumes "row_limit pick" "0 < batchSize r" "session_db_ok db"
  shows "RunOnce pick no_faults True (\<lambda>_. False) (\<lambda>_. False) now r db = Some (Inr (), reap_all (now - retention r) db)"
  by (rule row_limit.RunOnce_complete [OF assms])

theorem reaper_spares_live_sessions_witness:
  "\<exists>res d. RunOnce take no_faults True (\<lambda>i. i = 1) (\<lambda>_. False) (999 * Second) (NewSessionReaper\<lparr>batchSize := 1\<rparr>) sample_db = Some (res, d)
     \<and> sample_session 1 7 10 \<in> set (sessions d)"
proof -
  have live: "LiveSessionWhere (999 * Second) (sample_session 1 7 10)" "sample_session 1 7 10 \<in> set (sessions sample_db)" by code_simp+
  have "0 < batchSize (NewSessionReaper\<lparr>batchSize := 1\<rparr>)" "0 \<le> retention (NewSessionReaper\<lparr>batchSize := 1\<rparr>)"
    by (simp_all add: NewSessionReaper_def defaultReapRetention_def)
  from reaper_spares_live_sessions [OF heap_order.row_limit_axioms this sample_db_ok, of no_faults True "\<lambda>i. i = 1" "\<lambda>_. False" "999 * Second"] live
  show ?thesis by blast
qed

theorem reaper_equals_one_delete_witness:
  "RunOnce take no_faults True (\<lambda>_. False) (\<lambda>_. False) (defaultReapRetention + 6000 * Second) NewSessionReaper sample_db
     = Some (Inr (), sample_db\<lparr>sessions := [], tokens := []\<rparr>)"
proof -
  have "0 < batchSize NewSessionReaper" by (simp add: NewSessionReaper_def defaultReapBatchSize_def)
  from reaper_equals_one_delete [OF heap_order.row_limit_axioms this sample_db_ok, of "defaultReapRetention + 6000 * Second"]
  show ?thesis by (simp add: NewSessionReaper_def reap_all_def keep_token_def reapable_session_def sample_defs)
qed

end
