(* ===== verification/Encoding.thy ===== *)
theory Encoding
  imports Prelude
begin

text \<open>
  The two text encodings of bytes the sources use, from Go's standard library: lower-case hexadecimal
  (\<^verbatim>\<open>encoding/hex\<close>) and padded base64 (\<^verbatim>\<open>base64.StdEncoding\<close>), each with the proof that decoding gives back
  what was encoded. A byte is a \<open>char\<close>, so a byte slice is a \<open>string\<close>.
\<close>

subsection \<open>Hexadecimal\<close>

definition hex_char :: "nat \<Rightarrow> char" where
  "hex_char d = (if d < 10 then char_of (48 + d) else char_of (87 + d))"

definition char_hex :: "char \<Rightarrow> nat option" where
  "char_hex c =
     (let n = (of_char c :: nat) in
      if 48 \<le> n \<and> n \<le> 57 then Some (n - 48)
      else if 97 \<le> n \<and> n \<le> 102 then Some (n - 87)
      else if 65 \<le> n \<and> n \<le> 70 then Some (n - 55) else None)"

fun hex_EncodeToString :: "string \<Rightarrow> string" where
  "hex_EncodeToString [] = []"
| "hex_EncodeToString (c # cs) = hex_char (of_char c div 16) # hex_char (of_char c mod 16) # hex_EncodeToString cs"

fun hex_DecodeString :: "string \<Rightarrow> string option" where
  "hex_DecodeString [] = Some []"
| "hex_DecodeString [c] = None"
| "hex_DecodeString (a # b # cs) =
     (case (char_hex a, char_hex b, hex_DecodeString cs) of
        (Some x, Some y, Some r) \<Rightarrow> Some (char_of (16 * x + y) # r)
      | _ \<Rightarrow> None)"

lemma char_hex_hex_char: "d < 16 \<Longrightarrow> char_hex (hex_char d) = Some d"
  by (auto simp: char_hex_def hex_char_def Let_def)

lemma char_hex_0: "char_hex (CHR ''0'') = Some 0"
  by (simp add: char_hex_def)

lemma of_char_256 [simp]: "(of_char c :: nat) < 256"
  by (metis char_of_char of_char_of mod_less_divisor zero_less_numeral)

lemma hex_DecodeString_Encode: "hex_DecodeString (hex_EncodeToString s) = Some s"
proof (induction s)
  case (Cons c s)
  have "(of_char c :: nat) div 16 < 16" using of_char_256 [of c] by (simp add: less_mult_imp_div_less)
  with Cons show ?case by (simp add: char_hex_hex_char)
qed simp

lemma hex_DecodeString_length: "hex_DecodeString s = Some r \<Longrightarrow> length s = 2 * length r"
  by (induction s arbitrary: r rule: hex_DecodeString.induct) (auto split: option.splits)

subsection \<open>Base64\<close>

definition base64_alphabet :: string where
  "base64_alphabet = ''ABCDEFGHIJKLMNOPQRSTUVWXYZabcdefghijklmnopqrstuvwxyz0123456789+/''"

definition b64_char :: "nat \<Rightarrow> char" where
  "b64_char d = base64_alphabet ! d"

definition b64_val :: "char \<Rightarrow> nat option" where
  "b64_val c = map_of (zip base64_alphabet [0..<64]) c"

definition sextets :: "char \<Rightarrow> nat \<Rightarrow> nat \<Rightarrow> string" where
  "sextets a b c = [b64_char (of_char a div 4), b64_char (of_char a mod 4 * 16 + b div 16),
                    b64_char (b mod 16 * 4 + c div 64), b64_char (c mod 64)]"

fun base64_EncodeToString :: "string \<Rightarrow> string" where
  "base64_EncodeToString (a # b # c # cs) = sextets a (of_char b) (of_char c) @ base64_EncodeToString cs"
| "base64_EncodeToString [a, b] = take 3 (sextets a (of_char b) 0) @ ''=''"
| "base64_EncodeToString [a] = take 2 (sextets a 0 0) @ ''==''"
| "base64_EncodeToString [] = []"

text \<open>
  The decoder skips line breaks, takes padding only at the end, and, as the encoding is not the strict one,
  drops the surplus bits of a padded group without looking at them.
\<close>

fun b64_groups :: "string \<Rightarrow> string option" where
  "b64_groups [] = Some []"
| "b64_groups (a # b # c # d # r) =
     (case (b64_val a, b64_val b) of
        (Some x, Some y) \<Rightarrow>
          if c = CHR ''='' \<and> d = CHR ''='' then
            (if r = [] then Some [char_of (x * 4 + y div 16)] else None)
          else (case b64_val c of
                  None \<Rightarrow> None
                | Some z \<Rightarrow>
                    if d = CHR ''='' then
                      (if r = [] then Some [char_of (x * 4 + y div 16), char_of (y mod 16 * 16 + z div 4)] else None)
                    else (case (b64_val d, b64_groups r) of
                            (Some w, Some s) \<Rightarrow>
                              Some (char_of (x * 4 + y div 16) # char_of (y mod 16 * 16 + z div 4)
                                    # char_of (z mod 4 * 64 + w) # s)
                          | _ \<Rightarrow> None))
      | _ \<Rightarrow> None)"
| "b64_groups _ = None"

definition base64_DecodeString :: "string \<Rightarrow> string option" where
  "base64_DecodeString s = b64_groups (filter (\<lambda>c. c \<notin> {CHR 0x0A, CHR 0x0D}) s)"

lemma b64_table:
  "list_all (\<lambda>d. b64_val (b64_char d) = Some d \<and> b64_char d \<notin> {CHR ''='', CHR '':'', CHR 0x0A, CHR 0x0D}) [0..<64]"
  by code_simp

lemma b64_char:
  assumes "d < 64"
  shows "b64_val (b64_char d) = Some d" "b64_char d \<noteq> CHR ''=''" "b64_char d \<noteq> CHR '':''"
    "b64_char d \<notin> {CHR 0x0A, CHR 0x0D}"
  using b64_table assms by (auto simp: list_all_iff)

lemma sextet_bounds:
  assumes "b < 256" "c < (256 :: nat)"
  shows "(of_char a :: nat) div 4 < 64 \<and> (of_char a :: nat) mod 4 * 16 + b div 16 < 64 \<and> b mod 16 * 4 + c div 64 < 64"
proof -
  have "(of_char a :: nat) mod 4 < 4" "b div 16 < 16" "b mod 16 < 16" "c div 64 < 4"
    using assms by (simp_all add: less_mult_imp_div_less)
  then have "(of_char a :: nat) mod 4 * 16 + b div 16 < 64" "b mod 16 * 4 + c div 64 < 64" by linarith+
  moreover have "(of_char a :: nat) div 4 < 64" using of_char_256 [of a] by (simp add: less_mult_imp_div_less)
  ultimately show ?thesis by blast
qed

lemma sextets_chars:
  assumes "b < 256" "c < 256" "x \<in> set (sextets a b c)"
  shows "\<exists>d < 64. x = b64_char d"
proof -
  have "c mod 64 < 64" by simp
  with assms(3) show ?thesis
    using sextet_bounds [OF assms(1,2), of a] unfolding sextets_def by (auto simp del: mod_less_divisor)
qed

lemma base64_chars: "c \<in> set (base64_EncodeToString s) \<Longrightarrow> c = CHR ''='' \<or> (\<exists>d < 64. c = b64_char d)"
proof (induction s rule: base64_EncodeToString.induct)
  case (1 x y z cs)
  then show ?case using sextets_chars [OF of_char_256 [of y] of_char_256 [of z], of c x] by auto
next
  case (2 x y)
  then show ?case using sextets_chars [OF of_char_256 [of y], of 0 c x] in_set_takeD [of c 3] by auto
next
  case (3 x)
  then show ?case using sextets_chars [of 0 0 c x] in_set_takeD [of c 2] by auto
qed simp

lemma base64_no_breaks: "filter (\<lambda>c. c \<notin> {CHR 0x0A, CHR 0x0D}) (base64_EncodeToString s) = base64_EncodeToString s"
  unfolding filter_id_conv
proof
  fix c assume "c \<in> set (base64_EncodeToString s)"
  then show "c \<notin> {CHR 0x0A, CHR 0x0D}" using base64_chars [of c s] b64_char(4) by force
qed

lemma base64_no_colon: "CHR '':'' \<notin> set (base64_EncodeToString s)"
proof
  assume "CHR '':'' \<in> set (base64_EncodeToString s)"
  then obtain d where "d < 64" "CHR '':'' = b64_char d" using base64_chars [of "CHR '':''" s] by auto
  then show False using b64_char(3) [of d] by simp
qed

text \<open>The bytes of a group, from its four sextets.\<close>

lemma group_bytes:
  assumes "b < 256" "c < (256 :: nat)"
  shows "a div 4 * 4 + (a mod 4 * 16 + b div 16) div 16 = a
    \<and> (a mod 4 * 16 + b div 16) mod 16 * 16 + (b mod 16 * 4 + c div 64) div 4 = b
    \<and> (b mod 16 * 4 + c div 64) mod 4 * 64 + c mod 64 = c"
proof -
  have "b div 16 < 16" "c div 64 < 4" using assms by (simp_all add: less_mult_imp_div_less)
  then show ?thesis by simp
qed

theorem base64_DecodeString_Encode: "base64_DecodeString (base64_EncodeToString s) = Some s"
proof -
  have "b64_groups (base64_EncodeToString s) = Some s"
  proof (induction s rule: base64_EncodeToString.induct)
    case (1 x y z cs)
    show ?case using 1 sextet_bounds [OF of_char_256 [of y] of_char_256 [of z], of x]
        group_bytes [OF of_char_256 [of y] of_char_256 [of z], of "of_char x"]
      by (simp add: sextets_def b64_char)
  next
    case (2 x y)
    show ?case using sextet_bounds [of "of_char y" 0 x, simplified]
        group_bytes [of "of_char y" 0 "of_char x", simplified]
      by (simp add: sextets_def b64_char)
  next
    case (3 x)
    show ?case using sextet_bounds [of 0 0 x, simplified] group_bytes [of 0 0 "of_char x", simplified]
      by (simp add: sextets_def b64_char)
  qed simp
  then show ?thesis by (simp only: base64_DecodeString_def base64_no_breaks)
qed

end
