(* ===== verification/SecretBox.thy ===== *)
theory SecretBox
  imports Encoding
begin

text \<open>
  Secrets at rest (\<^verbatim>\<open>internal/auth/secretbox.go\<close> and the AES-256-GCM helpers and key checks of
  \<^verbatim>\<open>internal/auth/totp.go\<close>): how an encryption key is accepted, the envelope a secret is stored in, and
  decryption during a key rotation.

  The cipher itself is an argument, \<open>aead\<close>: what \<^verbatim>\<open>Seal\<close> and \<^verbatim>\<open>Open\<close> of \<^verbatim>\<open>crypto/cipher\<close> do with a key and a
  nonce. The random nonce is an argument too, \<open>None\<close> when the random source fails.
\<close>

record aead =
  gcm_seal :: "string \<Rightarrow> string \<Rightarrow> string \<Rightarrow> string"
  gcm_open :: "string \<Rightarrow> string \<Rightarrow> string \<Rightarrow> string option"

definition gcm_NonceSize :: nat where "gcm_NonceSize = 12"

text \<open>\<^verbatim>\<open>aes.NewCipher\<close> takes 16, 24 or 32 bytes.\<close>

definition aes_key_ok :: "string \<Rightarrow> bool" where
  "aes_key_ok key \<longleftrightarrow> length key \<in> {16, 24, 32}"

subsection \<open>The envelope\<close>

definition encryptAESGCM :: "aead \<Rightarrow> string option \<Rightarrow> string \<Rightarrow> string \<Rightarrow> string result" where
  "encryptAESGCM A nonce key plaintext =
     (if \<not> aes_key_ok key then Inl (Wrapped ''crypto/aes: invalid key size'')
      else case nonce of
             None \<Rightarrow> Inl (Wrapped ''read nonce'')
           | Some n \<Rightarrow> Inr (base64_EncodeToString (n @ gcm_seal A key n plaintext)))"

definition decryptGCM :: "aead \<Rightarrow> string \<Rightarrow> string \<Rightarrow> string result" where
  "decryptGCM A key dat =
     (if \<not> aes_key_ok key then Inl (Wrapped ''crypto/aes: invalid key size'')
      else if length dat < gcm_NonceSize then Inl (Wrapped ''ciphertext too short'')
      else case gcm_open A key (take gcm_NonceSize dat) (drop gcm_NonceSize dat) of
             None \<Rightarrow> Inl (Wrapped ''gcm open'')
           | Some plaintext \<Rightarrow> Inr plaintext)"

definition decryptAESGCM :: "aead \<Rightarrow> string \<Rightarrow> string \<Rightarrow> string result" where
  "decryptAESGCM A key encrypted =
     (case base64_DecodeString encrypted of
        None \<Rightarrow> Inl (Wrapped ''base64 decode'')
      | Some dat \<Rightarrow>
          if \<not> aes_key_ok key then Inl (Wrapped ''crypto/aes: invalid key size'')
          else if length dat < gcm_NonceSize then Inl (Wrapped ''ciphertext too short'')
          else (case gcm_open A key (take gcm_NonceSize dat) (drop gcm_NonceSize dat) of
                  None \<Rightarrow> Inl (Wrapped ''gcm open'')
                | Some plaintext \<Rightarrow> Inr plaintext))"

subsection \<open>Accepting a key\<close>

definition isZeroKey :: "string \<Rightarrow> bool" where
  "isZeroKey key \<longleftrightarrow> list_all (\<lambda>b. (of_char b :: nat) = 0) key"

definition deployed :: "string \<Rightarrow> bool" where
  "deployed env \<longleftrightarrow> env \<noteq> ''development'' \<and> env \<noteq> ''test''"

definition key_from_hex :: "goerror \<Rightarrow> string \<Rightarrow> string \<Rightarrow> string result" where
  "key_from_hex zero_error keyHex env =
     (if keyHex = [] \<and> deployed env then Inl ErrEncryptionKeyRequired
      else case hex_DecodeString (if keyHex = [] then replicate 64 (CHR ''0'') else keyHex) of
             None \<Rightarrow> Inl (Wrapped ''must be a 64-character hex string (32 bytes)'')
           | Some key \<Rightarrow>
               if length key \<noteq> 32 then Inl (Wrapped ''must be a 64-character hex string (32 bytes)'')
               else if deployed env \<and> isZeroKey key then Inl zero_error
               else Inr key)"

record TOTPService =
  encKey :: string

definition NewTOTPService :: "string \<Rightarrow> string \<Rightarrow> TOTPService result" where
  "NewTOTPService encKeyHex env =
     (case key_from_hex ErrTOTPZeroKey encKeyHex env of Inl e \<Rightarrow> Inl e | Inr key \<Rightarrow> Inr \<lparr>encKey = key\<rparr>)"

record SecretBox =
  sb_key :: string
  sb_prevKey :: "string option"

definition NewSecretBox :: "string \<Rightarrow> string \<Rightarrow> SecretBox result" where
  "NewSecretBox keyHex env =
     (case key_from_hex ErrZeroEncryptionKey keyHex env of
        Inl e \<Rightarrow> Inl e
      | Inr key \<Rightarrow> Inr \<lparr>sb_key = key, sb_prevKey = None\<rparr>)"

definition WithPreviousKey :: "string \<Rightarrow> SecretBox \<Rightarrow> goerror option \<times> SecretBox" where
  "WithPreviousKey keyHex b =
     (if keyHex = [] then (None, b)
      else case hex_DecodeString keyHex of
             None \<Rightarrow> (Some (Wrapped ''must be a 64-character hex string (32 bytes)''), b)
           | Some key \<Rightarrow>
               if length key \<noteq> 32 then (Some (Wrapped ''must be a 64-character hex string (32 bytes)''), b)
               else (None, b\<lparr>sb_prevKey := Some key\<rparr>))"

subsection \<open>The box\<close>

definition secretBoxVersionPrefix :: string where "secretBoxVersionPrefix = ''v1:''"

definition SecretBox_Encrypt :: "aead \<Rightarrow> string option \<Rightarrow> SecretBox \<Rightarrow> string \<Rightarrow> string result" where
  "SecretBox_Encrypt A nonce b plaintext =
     (case encryptAESGCM A nonce (sb_key b) plaintext of
        Inl e \<Rightarrow> Inl e
      | Inr text \<Rightarrow> Inr (secretBoxVersionPrefix @ text))"

definition TrimPrefix :: "string \<Rightarrow> string \<Rightarrow> string" where
  "TrimPrefix s p = (if HasPrefix s p then drop (length p) s else s)"

definition SecretBox_Decrypt :: "aead \<Rightarrow> SecretBox \<Rightarrow> string \<Rightarrow> string result" where
  "SecretBox_Decrypt A b encrypted =
     (case base64_DecodeString (TrimPrefix encrypted secretBoxVersionPrefix) of
        None \<Rightarrow> Inl (Wrapped ''base64 decode'')
      | Some dat \<Rightarrow>
          (case decryptGCM A (sb_key b) dat of
             Inr plaintext \<Rightarrow> Inr plaintext
           | Inl e \<Rightarrow>
               (case sb_prevKey b of
                  None \<Rightarrow> Inl e
                | Some prev \<Rightarrow> (case decryptGCM A prev dat of Inr plaintext \<Rightarrow> Inr plaintext | Inl _ \<Rightarrow> Inl e))))"

subsection \<open>What the envelope keeps\<close>

lemma TrimPrefix_append [simp]: "TrimPrefix (p @ s) p = s"
  by (simp add: TrimPrefix_def)

text \<open>A base64 text never carries the version prefix, so an unversioned secret is read as it is.\<close>

lemma TrimPrefix_base64 [simp]: "TrimPrefix (base64_EncodeToString s) secretBoxVersionPrefix = base64_EncodeToString s"
proof -
  have "CHR '':'' \<in> set (secretBoxVersionPrefix @ r)" for r by (simp add: secretBoxVersionPrefix_def)
  then have "\<not> HasPrefix (base64_EncodeToString s) secretBoxVersionPrefix"
    using base64_no_colon [of s] unfolding HasPrefix_iff by metis
  then show ?thesis by (simp add: TrimPrefix_def)
qed

lemma decryptAESGCM_def': "decryptAESGCM A key encrypted =
    (case base64_DecodeString encrypted of None \<Rightarrow> Inl (Wrapped ''base64 decode'') | Some dat \<Rightarrow> decryptGCM A key dat)"
  by (simp add: decryptAESGCM_def decryptGCM_def split: option.split)

lemma encryptAESGCM_InrD:
  "encryptAESGCM A nonce key p = Inr text \<Longrightarrow>
     aes_key_ok key \<and> (\<exists>n. nonce = Some n \<and> text = base64_EncodeToString (n @ gcm_seal A key n p))"
  by (auto simp: encryptAESGCM_def split: if_splits option.splits)

lemma decryptGCM_envelope:
  "length n = 12 \<Longrightarrow> aes_key_ok key' \<Longrightarrow>
     decryptGCM A key' (n @ c) = (case gcm_open A key' n c of None \<Rightarrow> Inl (Wrapped ''gcm open'') | Some p \<Rightarrow> Inr p)"
  by (simp add: decryptGCM_def gcm_NonceSize_def)

lemma key_from_hex_length: "key_from_hex z keyHex env = Inr key \<Longrightarrow> length key = 32"
  by (auto simp: key_from_hex_def split: if_splits option.splits)

lemma key_from_hex_deployed: "key_from_hex z keyHex env = Inr key \<Longrightarrow> deployed env \<Longrightarrow> \<not> isZeroKey key"
  by (auto simp: key_from_hex_def split: if_splits option.splits)

lemma NewSecretBox_key: "NewSecretBox keyHex env = Inr b \<Longrightarrow> length (sb_key b) = 32 \<and> sb_prevKey b = None"
  by (auto simp: NewSecretBox_def dest: key_from_hex_length split: sum.splits)

lemma SecretBox_Encrypt_InrD:
  assumes "SecretBox_Encrypt A (Some n) b p = Inr text"
  shows "text = secretBoxVersionPrefix @ base64_EncodeToString (n @ gcm_seal A (sb_key b) n p)"
  using assms by (auto simp: SecretBox_Encrypt_def dest: encryptAESGCM_InrD split: sum.splits)

lemma SecretBox_Decrypt_envelope:
  assumes "length n = 12" "aes_key_ok (sb_key b)" "pred_option aes_key_ok (sb_prevKey b)"
  shows "SecretBox_Decrypt A b (secretBoxVersionPrefix @ base64_EncodeToString (n @ c)) =
    (case gcm_open A (sb_key b) n c of
       Some p \<Rightarrow> Inr p
     | None \<Rightarrow> (case Option.bind (sb_prevKey b) (\<lambda>k. gcm_open A k n c) of
                  Some p \<Rightarrow> Inr p | None \<Rightarrow> Inl (Wrapped ''gcm open'')))"
  using assms
  by (auto simp: SecretBox_Decrypt_def base64_DecodeString_Encode decryptGCM_envelope split: option.splits)

lemma WithPreviousKey_box:
  assumes "NewSecretBox keyHex env = Inr old" "keyHex \<noteq> []" "WithPreviousKey keyHex b0 = (None, b)"
  shows "b = b0\<lparr>sb_prevKey := Some (sb_key old)\<rparr>"
  using assms
  by (auto simp: NewSecretBox_def key_from_hex_def WithPreviousKey_def split: if_splits option.splits sum.splits)

text \<open>What a box opens: a payload one of its keys authenticates, the current key before the previous one.\<close>

definition opens :: "aead \<Rightarrow> string \<Rightarrow> string option \<Rightarrow> string \<Rightarrow> string \<Rightarrow> bool" where
  "opens A key prev encrypted q \<longleftrightarrow>
     (\<exists>n c. base64_DecodeString (TrimPrefix encrypted secretBoxVersionPrefix) = Some (n @ c) \<and> length n = 12
        \<and> (gcm_open A key n c = Some q
           \<or> gcm_open A key n c = None \<and> (\<exists>k. prev = Some k \<and> gcm_open A k n c = Some q)))"

lemma decryptGCM_Inr:
  assumes "aes_key_ok key"
  shows "decryptGCM A key dat = Inr q \<longleftrightarrow> 12 \<le> length dat \<and> gcm_open A key (take 12 dat) (drop 12 dat) = Some q"
  using assms by (auto simp: decryptGCM_def gcm_NonceSize_def split: option.splits)

lemma SecretBox_Decrypt_Inr:
  assumes "aes_key_ok (sb_key b)" "pred_option aes_key_ok (sb_prevKey b)"
  shows "SecretBox_Decrypt A b encrypted = Inr q \<longleftrightarrow> opens A (sb_key b) (sb_prevKey b) encrypted q"
proof (cases "base64_DecodeString (TrimPrefix encrypted secretBoxVersionPrefix)")
  case None
  then show ?thesis by (simp add: SecretBox_Decrypt_def opens_def)
next
  case (Some dat)
  let ?n = "take 12 dat" and ?c = "drop 12 dat"
  have prev: "aes_key_ok k" if "sb_prevKey b = Some k" for k using assms(2) that by simp
  have split: "(\<exists>n c. dat = n @ c \<and> length n = 12 \<and> P n c) \<longleftrightarrow> 12 \<le> length dat \<and> P ?n ?c" for P
    by (metis append_eq_conv_conj append_take_drop_id le_add1 length_append length_take min.absorb2)
  have right: "opens A (sb_key b) (sb_prevKey b) encrypted q \<longleftrightarrow> 12 \<le> length dat
      \<and> (gcm_open A (sb_key b) ?n ?c = Some q
         \<or> gcm_open A (sb_key b) ?n ?c = None \<and> (\<exists>k. sb_prevKey b = Some k \<and> gcm_open A k ?n ?c = Some q))"
    unfolding opens_def Some option.inject split by blast
  have none: "(\<exists>e. decryptGCM A (sb_key b) dat = Inl e) \<longleftrightarrow> \<not> (12 \<le> length dat \<and> gcm_open A (sb_key b) ?n ?c \<noteq> None)"
    using decryptGCM_Inr [OF assms(1), of A dat] by (metis not_None_eq sum.exhaust Inl_Inr_False)
  show ?thesis
  proof (cases "decryptGCM A (sb_key b) dat")
    case (Inr p)
    with decryptGCM_Inr [OF assms(1)] have "12 \<le> length dat" "gcm_open A (sb_key b) ?n ?c = Some p" by blast+
    then show ?thesis unfolding right by (simp add: SecretBox_Decrypt_def Some Inr)
  next
    case (Inl e)
    with none have "12 \<le> length dat \<Longrightarrow> gcm_open A (sb_key b) ?n ?c = None" by blast
    moreover have "SecretBox_Decrypt A b encrypted = Inr q \<longleftrightarrow> (\<exists>k. sb_prevKey b = Some k \<and> decryptGCM A k dat = Inr q)"
      by (auto simp: SecretBox_Decrypt_def Some Inl split: option.splits sum.splits)
    moreover have "decryptGCM A k dat = Inr q \<longleftrightarrow> 12 \<le> length dat \<and> gcm_open A k ?n ?c = Some q" if "sb_prevKey b = Some k" for k
      by (rule decryptGCM_Inr [OF prev [OF that]])
    ultimately show ?thesis unfolding right by auto
  qed
qed

text \<open>
  C23: rotating the encryption key loses no secret, and a box opens nothing but what one of its two keys authenticates. A secret
  sealed by the box of one key is read back by that box; by a box of another key it is refused; and once that
  box is given the old key as its previous one it is read back again. And for every text whatsoever, the box with both keys answers
  with a plaintext exactly when the text decodes to a nonce and a payload that the current key opens to that plaintext, or that the
  current key refuses and the previous key opens to it. \<open>open_seal\<close> is what AES-256-GCM promises, \<^verbatim>\<open>Open\<close> inverts
  \<^verbatim>\<open>Seal\<close>; \<open>refuses\<close> says that the new key does not authenticate this one ciphertext.
\<close>

theorem secret_survives_key_rotation:
  assumes open_seal: "\<And>k n p. length k = 32 \<Longrightarrow> length n = 12 \<Longrightarrow> gcm_open A k n (gcm_seal A k n p) = Some p"
    and old: "NewSecretBox oldHex env = Inr old" "oldHex \<noteq> []"
    and sealed: "SecretBox_Encrypt A (Some n) old p = Inr enc" "length n = 12"
    and new: "NewSecretBox newHex env = Inr box"
    and refuses: "gcm_open A (sb_key box) n (gcm_seal A (sb_key old) n p) = None"
    and rotated: "WithPreviousKey oldHex box = (None, box')"
  shows "SecretBox_Decrypt A old enc = Inr p \<and> SecretBox_Decrypt A box enc = Inl (Wrapped ''gcm open'')
    \<and> SecretBox_Decrypt A box' enc = Inr p
    \<and> (\<forall>x q. SecretBox_Decrypt A box' x = Inr q \<longleftrightarrow> opens A (sb_key box) (Some (sb_key old)) x q)"
proof -
  note k = NewSecretBox_key [OF old(1)] NewSecretBox_key [OF new(1)]
  note env = SecretBox_Encrypt_InrD [OF sealed(1)]
  have box': "box' = box\<lparr>sb_prevKey := Some (sb_key old)\<rparr>" by (rule WithPreviousKey_box [OF old rotated])
  have "SecretBox_Decrypt A box' x = Inr q \<longleftrightarrow> opens A (sb_key box) (Some (sb_key old)) x q" for x q
    using SecretBox_Decrypt_Inr [of box' A x q] k unfolding box' by (simp add: aes_key_ok_def)
  then show ?thesis
    using k refuses sealed(2) unfolding env box'
    by (simp add: SecretBox_Decrypt_envelope [OF sealed(2)] aes_key_ok_def open_seal)
qed

definition sample_aead :: aead where
  "sample_aead = \<lparr>gcm_seal = (\<lambda>k n p. k @ p), gcm_open = (\<lambda>k n c. if HasPrefix c k then Some (drop (length k) c) else None)\<rparr>"

definition sample_hex :: "char \<Rightarrow> string" where
  "sample_hex c = replicate 64 c"

lemma secret_survives_key_rotation_witness:
  "\<exists>old box box' enc. NewSecretBox (sample_hex (CHR ''1'')) ''production'' = Inr old
     \<and> SecretBox_Decrypt sample_aead old enc = Inr ''secret''
     \<and> SecretBox_Decrypt sample_aead box enc = Inl (Wrapped ''gcm open'')
     \<and> SecretBox_Decrypt sample_aead box' enc = Inr ''secret''"
proof -
  let ?old = "\<lparr>sb_key = replicate 32 (CHR 0x11), sb_prevKey = None\<rparr>" and ?box = "\<lparr>sb_key = replicate 32 (CHR 0x22), sb_prevKey = None\<rparr>"
  let ?n = "''123456789012''"
  have o: "NewSecretBox (sample_hex (CHR ''1'')) ''production'' = Inr ?old"
    and b: "NewSecretBox (sample_hex (CHR ''2'')) ''production'' = Inr ?box"
    and w: "WithPreviousKey (sample_hex (CHR ''1'')) ?box = (None, ?box\<lparr>sb_prevKey := Some (sb_key ?old)\<rparr>)"
    by code_simp+
  obtain enc where t: "SecretBox_Encrypt sample_aead (Some ?n) ?old ''secret'' = Inr enc"
    by (simp add: SecretBox_Encrypt_def encryptAESGCM_def aes_key_ok_def)
  have "SecretBox_Decrypt sample_aead ?old enc = Inr ''secret''
      \<and> SecretBox_Decrypt sample_aead ?box enc = Inl (Wrapped ''gcm open'')
      \<and> SecretBox_Decrypt sample_aead (?box\<lparr>sb_prevKey := Some (sb_key ?old)\<rparr>) enc = Inr ''secret''
      \<and> (\<forall>x q. SecretBox_Decrypt sample_aead (?box\<lparr>sb_prevKey := Some (sb_key ?old)\<rparr>) x = Inr q
            \<longleftrightarrow> opens sample_aead (sb_key ?box) (Some (sb_key ?old)) x q)"
    by (rule secret_survives_key_rotation [OF _ o _ t _ b _ w])
      (auto simp: sample_aead_def sample_hex_def HasPrefix_def)
  with o show ?thesis by blast
qed

text \<open>The keys a deployed server may encrypt under.\<close>

definition usable_key :: "string \<Rightarrow> string option" where
  "usable_key keyHex =
     (case hex_DecodeString keyHex of
        Some key \<Rightarrow> if length key = 32 \<and> \<not> isZeroKey key then Some key else None
      | None \<Rightarrow> None)"

text \<open>
  A deployed server never encrypts under the publicly known key. Outside the environments named
  \<^verbatim>\<open>development\<close> and \<^verbatim>\<open>test\<close>, misspelt names included, both constructors succeed on exactly the hexadecimal
  texts of 32 bytes that are not all zero, with those bytes as the key; inside them a missing key gives the
  zero key.
\<close>

theorem deployed_key_never_zero:
  assumes "env \<noteq> ''development''" "env \<noteq> ''test''" "env' = ''development'' \<or> env' = ''test''"
  shows "(NewSecretBox keyHex env = Inr b \<longleftrightarrow> usable_key keyHex = Some (sb_key b) \<and> sb_prevKey b = None)
    \<and> (NewTOTPService keyHex env = Inr s \<longleftrightarrow> usable_key keyHex = Some (encKey s))
    \<and> (NewSecretBox [] env' = Inr b \<longleftrightarrow> b = \<lparr>sb_key = replicate 32 (CHR 0x00), sb_prevKey = None\<rparr>)"
proof -
  have d: "deployed env" "\<not> deployed env'" using assms by (auto simp: deployed_def)
  have z: "hex_DecodeString (replicate 64 (CHR ''0'')) = Some (replicate 32 (CHR 0x00))" by code_simp
  have "key_from_hex e keyHex env = Inr key \<longleftrightarrow> usable_key keyHex = Some key" for e key
    by (auto simp: key_from_hex_def usable_key_def d split: option.splits)
  moreover have "key_from_hex e [] env' = Inr (replicate 32 (CHR 0x00))" for e
    by (simp add: key_from_hex_def d z)
  moreover have "NewSecretBox h e = Inr b \<longleftrightarrow> key_from_hex ErrZeroEncryptionKey h e = Inr (sb_key b) \<and> sb_prevKey b = None" for h e
    by (cases b) (auto simp: NewSecretBox_def split: sum.splits)
  moreover have "NewTOTPService h e = Inr s \<longleftrightarrow> key_from_hex ErrTOTPZeroKey h e = Inr (encKey s)" for h e
    by (cases s) (auto simp: NewTOTPService_def split: sum.splits)
  ultimately show ?thesis by (cases b) auto
qed

lemma deployed_key_never_zero_witness:
  "NewSecretBox (sample_hex (CHR ''0'')) ''prodution'' \<noteq> Inr \<lparr>sb_key = replicate 32 (CHR 0x00), sb_prevKey = None\<rparr>
   \<and> NewTOTPService (sample_hex (CHR ''1'')) ''staging'' = Inr \<lparr>encKey = replicate 32 (CHR 0x11)\<rparr>"
proof -
  have "usable_key (sample_hex (CHR ''0'')) = None" "usable_key (sample_hex (CHR ''1'')) = Some (replicate 32 (CHR 0x11))"
    by code_simp+
  then show ?thesis
    using deployed_key_never_zero [of "''prodution''" "''test''" "sample_hex (CHR ''0'')"]
      deployed_key_never_zero [of "''staging''" "''test''" "sample_hex (CHR ''1'')" _ "\<lparr>encKey = replicate 32 (CHR 0x11)\<rparr>"]
    by simp
qed

end
