(* ===== verification/AttemptBudget.thy ===== *)
theory AttemptBudget
  imports Redis
begin

text \<open>
  The counter the sources keep beside a short-lived Redis value, to bound how often it may be tried or
  re-sent: an \<^verbatim>\<open>INCR\<close>, and on the first one an expiry that outlives the value. The locale states what a client
  may rely on: up to the horizon the counter counts every bump, and once the budget is spent it stays spent
  for as long as the value exists.
\<close>

definition bump_counter ::
  "'r redis_ops \<Rightarrow> faults \<Rightarrow> time \<Rightarrow> string \<Rightarrow> duration \<Rightarrow> 'r \<Rightarrow> int option \<times> 'r" where
  "bump_counter R fl now c d r =
     (if fl ''redis incr'' then (None, r)
      else case rincr R r now c of
             (None, r1) \<Rightarrow> (None, r1)
           | (Some n, r1) \<Rightarrow> (Some n, if n = 1 \<and> \<not> fl ''redis expire'' then rexpire R r1 now c d else r1))"

definition counter_at :: "'r redis_ops \<Rightarrow> 'r \<Rightarrow> time \<Rightarrow> string \<Rightarrow> int \<Rightarrow> time \<Rightarrow> bool" where
  "counter_at R r t c n H \<longleftrightarrow> (\<forall>s. t \<le> s \<longrightarrow> s < H \<longrightarrow> rget R r s c = (if n = 0 then None else Some (FormatInt n)))"

definition budget_spent :: "'r redis_ops \<Rightarrow> 'r \<Rightarrow> time \<Rightarrow> string \<Rightarrow> string \<Rightarrow> int \<Rightarrow> bool" where
  "budget_spent R r t key c lim \<longleftrightarrow>
     (\<forall>s. t \<le> s \<longrightarrow> rget R r s key \<noteq> None \<longrightarrow>
        (\<exists>n. lim \<le> n \<and> int64_range n \<and> rget R r s c = Some (FormatInt n)))"

lemma counter_at_mono: "counter_at R r t c n H \<Longrightarrow> t \<le> t' \<Longrightarrow> counter_at R r t' c n H"
  by (auto simp: counter_at_def)

lemma budget_spent_mono: "budget_spent R r t key c lim \<Longrightarrow> t \<le> t' \<Longrightarrow> budget_spent R r t' key c lim"
  by (auto simp: budget_spent_def)

lemma counter_at_cong: "(\<And>s. t \<le> s \<Longrightarrow> rget R r' s c = rget R r s c) \<Longrightarrow> counter_at R r' t c n H = counter_at R r t c n H"
  by (simp add: counter_at_def)

lemma budget_spent_cong:
  "(\<And>s k. t \<le> s \<Longrightarrow> k \<in> {key, c} \<Longrightarrow> rget R r' s k = rget R r s k) \<Longrightarrow>
     budget_spent R r' t key c lim = budget_spent R r t key c lim"
  by (simp add: budget_spent_def)

lemma budget_spent_gone: "(\<And>s. t \<le> s \<Longrightarrow> rget R r s key = None) \<Longrightarrow> budget_spent R r t key c lim"
  by (simp add: budget_spent_def)

lemma budget_spentI:
  assumes "counter_at R r t c n H" "0 < n" "lim \<le> n" "int64_range n" "\<And>s. t \<le> s \<Longrightarrow> H \<le> s \<Longrightarrow> rget R r s key = None"
  shows "budget_spent R r t key c lim"
  using assms unfolding budget_spent_def counter_at_def by (metis linorder_not_le less_irrefl)

context redis_store
begin

lemma bump_counter_other:
  assumes "0 < d" "now \<le> s" "k \<noteq> c"
  shows "rget R (snd (bump_counter R fl now c d r)) s k = rget R r s k"
  using assms get_incr_other [of now s k c r]
  by (auto simp: bump_counter_def get_expire split: prod.splits option.splits)

lemma counter_fresh: "counter_at R (rdel R r now c) now c 0 H"
  by (simp add: counter_at_def get_del)

text \<open>Every bump before the horizon is counted, when the expiry reaches beyond the horizon.\<close>

lemma bump_counter_counts:
  assumes at: "counter_at R r t c n H" and n: "0 \<le> n" "int64_range (n + 1)"
    and now: "t \<le> now" "now < H" "H \<le> now + d" "0 < d" and ok: "\<not> fl ''redis incr''"
  shows "\<exists>r'. bump_counter R fl now c d r = (Some (n + 1), r') \<and> counter_at R r' now c (n + 1) H"
proof (cases "n = 0")
  case True
  have none: "rget R r now c = None" using at now(1,2) True by (simp add: counter_at_def)
  obtain r1 where r1: "rincr R r now c = (Some 1, r1)"
    using incr_absent [OF none, of now c] by (cases "rincr R r now c") auto
  have g: "now \<le> s \<Longrightarrow> rget R r1 s c = Some (FormatInt 1)" for s using incr_absent [OF none, of s c] r1 by simp
  show ?thesis using True ok now g by (auto simp: bump_counter_def r1 counter_at_def get_expire)
next
  case False
  have some: "s \<ge> now \<Longrightarrow> s < H \<Longrightarrow> rget R r s c = Some (FormatInt n)" for s
    using at False now(1) by (simp add: counter_at_def)
  have "int64_range n" using n by (simp add: int64_range_def)
  then have p: "ParseInt (FormatInt n) = Some n" by (rule ParseInt_FormatInt)
  note inc = incr_present [OF some [OF order_refl now(2)] p n(2)]
  obtain r1 where r1: "rincr R r now c = (Some (n + 1), r1)" using inc [of now c] by (cases "rincr R r now c") auto
  have "now \<le> s \<Longrightarrow> s < H \<Longrightarrow> rget R r1 s c = Some (FormatInt (n + 1))" for s
    using inc [of s c] r1 some by simp
  then show ?thesis using False ok n by (auto simp: bump_counter_def r1 counter_at_def)
qed

text \<open>A spent budget refuses every further bump, and stays spent.\<close>

lemma bump_counter_spent:
  assumes spent: "budget_spent R r t key c lim" and lim: "0 < lim" and now: "t \<le> now" "0 < d" "key \<noteq> c"
    and live: "rget R r now key \<noteq> None" and run: "bump_counter R fl now c d r = (m, r')"
  shows "(\<forall>k. m = Some k \<longrightarrow> lim < k) \<and> budget_spent R r' now key c lim"
proof -
  from spent live now(1) obtain n where n: "lim \<le> n" "int64_range n" "rget R r now c = Some (FormatInt n)"
    by (auto simp: budget_spent_def)
  have p: "ParseInt (FormatInt n) = Some n" by (rule ParseInt_FormatInt [OF n(2)])
  have spent': "budget_spent R r now key c lim" by (rule budget_spent_mono [OF spent now(1)])
  show ?thesis
  proof (cases "int64_range (n + 1) \<and> \<not> fl ''redis incr''")
    case True
    note inc = incr_present [OF n(3) p conjunct1 [OF True]]
    obtain r1 where r1: "rincr R r now c = (Some (n + 1), r1)" using inc [of now c] by (cases "rincr R r now c") auto
    have r': "m = Some (n + 1)" "r' = r1" using run n(1) lim True by (auto simp: bump_counter_def r1)
    have "budget_spent R r1 now key c lim"
      unfolding budget_spent_def
    proof (intro allI impI)
      fix s assume s: "now \<le> s" "rget R r1 s key \<noteq> None"
      then have "rget R r s key \<noteq> None" using inc [of s key] r1 now(3) by simp
      then obtain n' where "rget R r s c = Some (FormatInt n')" using spent' s(1) by (auto simp: budget_spent_def)
      then have "rget R r1 s c = Some (FormatInt (n + 1))" using inc [of s c] r1 s(1) by simp
      with True n(1) show "\<exists>n'. lim \<le> n' \<and> int64_range n' \<and> rget R r1 s c = Some (FormatInt n')" by (metis add.commute order_trans zle_add1_eq_le zless_add1_eq)
    qed
    then show ?thesis using r' n(1) by simp
  next
    case False
    then have "bump_counter R fl now c d r = (None, r)"
      using incr_refused [OF n(3)] p by (auto simp: bump_counter_def)
    then show ?thesis using run spent' by simp
  qed
qed

end

subsection \<open>Operations under a budget\<close>

text \<open>
  What an operation that tries a code against the value under \<open>key\<close> must keep to: \<open>attempt\<close> says whether it
  accepted, \<open>red\<close> reads the keyspace out of its state, \<open>at\<close> is the instant of a try and \<open>clean\<close> says that none of
  its calls fails; \<open>valid\<close> says of which values. A try on a spent budget is refused, and a clean refused try is either counted or ends the
  value. Then a run of tries is bounded, whatever the operation is.
\<close>

fun try_run :: "('g \<Rightarrow> 's \<Rightarrow> bool \<times> 's) \<Rightarrow> 'g list \<Rightarrow> 's \<Rightarrow> bool list" where
  "try_run attempt [] s = []"
| "try_run attempt (g # gs) s = (case attempt g s of (b, s') \<Rightarrow> b # try_run attempt gs s')"

definition value_until :: "'r redis_ops \<Rightarrow> 'r \<Rightarrow> time \<Rightarrow> string \<Rightarrow> string \<Rightarrow> time \<Rightarrow> bool" where
  "value_until R r t key v H \<longleftrightarrow> (\<forall>s. t \<le> s \<longrightarrow> rget R r s key = (if s < H then Some v else None))"

locale attempt_budget = redis_store R for R :: "'r redis_ops" +
  fixes attempt :: "'g \<Rightarrow> 's \<Rightarrow> bool \<times> 's" and red :: "'s \<Rightarrow> 'r" and at :: "'g \<Rightarrow> time" and clean :: "'g \<Rightarrow> bool"
    and valid :: "string \<Rightarrow> bool" and key :: string and lim :: int and span :: duration
  assumes lim: "0 < lim" "int64_range lim"
    and refused: "budget_spent R (red s) t key (key @ '':attempts'') lim \<Longrightarrow> t \<le> at g \<Longrightarrow> attempt g s = (b, s') \<Longrightarrow>
      \<not> b \<and> budget_spent R (red s') (at g) key (key @ '':attempts'') lim"
    and counted: "counter_at R (red s) t (key @ '':attempts'') n H \<Longrightarrow> value_until R (red s) t key v H \<Longrightarrow> valid v \<Longrightarrow> 0 \<le> n \<Longrightarrow> n < lim \<Longrightarrow>
      t \<le> at g \<Longrightarrow> at g < H \<Longrightarrow> H \<le> at g + span \<Longrightarrow> clean g \<Longrightarrow> attempt g s = (False, s') \<Longrightarrow>
      counter_at R (red s') (at g) (key @ '':attempts'') (n + 1) H \<and> value_until R (red s') (at g) key v H
      \<or> budget_spent R (red s') (at g) key (key @ '':attempts'') lim"
begin

lemma try_run_spent:
  assumes "budget_spent R (red s) t key (key @ '':attempts'') lim" "sorted (t # map at gs)"
  shows "True \<notin> set (try_run attempt gs s)"
  using assms
proof (induction gs arbitrary: t s)
  case (Cons g gs)
  obtain b s' where a: "attempt g s = (b, s')" by fastforce
  from refused [OF Cons.prems(1) _ a] Cons.prems(2)
  have "\<not> b" "budget_spent R (red s') (at g) key (key @ '':attempts'') lim" by auto
  moreover have "sorted (at g # map at gs)" using Cons.prems(2) by simp
  ultimately show ?case using Cons.IH a by simp
qed simp

lemma try_run_bounded:
  assumes "counter_at R (red s) t (key @ '':attempts'') n H" "value_until R (red s) t key v H" "valid v" "0 \<le> n" "n \<le> lim"
    and "sorted (t # map at gs)" "H \<le> t + span" "\<forall>g \<in> set (take (nat (lim - n)) gs). clean g"
    and "True \<notin> set (take (nat (lim - n)) (try_run attempt gs s))"
  shows "True \<notin> set (try_run attempt gs s)"
  using assms
proof (induction gs arbitrary: t s n)
  case (Cons g gs)
  have g: "t \<le> at g" "sorted (at g # map at gs)" using Cons.prems(6) by auto
  show ?case
  proof (cases "n = lim \<or> H \<le> at g")
    case True
    have "budget_spent R (red s) (at g) key (key @ '':attempts'') lim"
    proof (cases "H \<le> at g")
      case True
      then show ?thesis using Cons.prems(2) g(1) by (intro budget_spent_gone) (auto simp: value_until_def)
    next
      case False
      have "budget_spent R (red s) t key (key @ '':attempts'') lim"
        by (rule budget_spentI [OF Cons.prems(1)]) (use True False lim Cons.prems(2) in \<open>auto simp: value_until_def\<close>)
      then show ?thesis by (rule budget_spent_mono) (rule g(1))
    qed
    then show ?thesis by (rule try_run_spent) (use g in auto)
  next
    case False
    then have n: "n < lim" "at g < H" using Cons.prems(5) by auto
    then have k: "nat (lim - n) = Suc (nat (lim - (n + 1)))" by simp
    obtain b s' where a: "attempt g s = (b, s')" by fastforce
    then have b: "\<not> b" "True \<notin> set (take (nat (lim - (n + 1))) (try_run attempt gs s'))"
      using Cons.prems(9) unfolding k by auto
    have c: "clean g" "\<forall>g \<in> set (take (nat (lim - (n + 1))) gs). clean g" using Cons.prems(8) unfolding k by auto
    have H: "H \<le> at g + span" using Cons.prems(7) g(1) by simp
    from counted [OF Cons.prems(1-4) n(1) g(1) n(2) H c(1)] a b(1)
    consider "counter_at R (red s') (at g) (key @ '':attempts'') (n + 1) H" "value_until R (red s') (at g) key v H"
      | "budget_spent R (red s') (at g) key (key @ '':attempts'') lim" by auto
    then have "True \<notin> set (try_run attempt gs s')"
    proof cases
      case 1
      show ?thesis by (rule Cons.IH [OF 1 _ _ _ g(2) H c(2) b(2)]) (use Cons.prems(3,4) n in auto)
    next
      case 2
      then show ?thesis using g(2) by (rule try_run_spent)
    qed
    then show ?thesis using a b(1) by simp
  qed
qed simp

end

end
