(* ===== verification/Mfa.thy ===== *)
theory Mfa
  imports AccountBlock SecretBox AttemptBudget
begin

text \<open>
  Second factors (\<^verbatim>\<open>internal/auth/totp.go\<close>, \<^verbatim>\<open>internal/auth/mfa.go\<close>, \<^verbatim>\<open>internal/auth/email_mfa.go\<close>): the
  authenticator app with its backup codes, the emailed code, and the policy of an application over them.

  The tables keyed by user or application are maps. The TOTP algorithm and the key generator come from a
  package outside the repository, so \<^verbatim>\<open>totp.Validate\<close> is an argument and the generated key, like the random
  bytes, is an input of the operation that draws it (\<open>None\<close> when drawing fails). Sending mail is an argument
  too: which sender a scope resolves to, and whether the mailer delivers. A failing database call is named
  by the prefix its error is wrapped with.
\<close>

definition TOTPIssuer :: string where "TOTPIssuer = ''EMC Auth''"
definition BackupCodeCount :: nat where "BackupCodeCount = 8"
definition BackupCodeLength :: nat where "BackupCodeLength = 8"
definition MaxOTPAttempts :: int where "MaxOTPAttempts = 5"
definition OTPSessionTTL :: duration where "OTPSessionTTL = 5 * Minute"
definition MFAEnrollmentSessionTTL :: duration where "MFAEnrollmentSessionTTL = 10 * Minute"
definition EmailOTPTTL :: duration where "EmailOTPTTL = 10 * Minute"
definition EmailOTPMaxResends :: int where "EmailOTPMaxResends = 3"
definition EmailOTPLength :: nat where "EmailOTPLength = 6"

definition MFAModeDisabled :: string where "MFAModeDisabled = ''disabled''"
definition MFAModeOptional :: string where "MFAModeOptional = ''optional''"
definition MFAModeRequired :: string where "MFAModeRequired = ''required''"
definition MFAMethodTOTP :: string where "MFAMethodTOTP = ''totp''"
definition MFAMethodEmail :: string where "MFAMethodEmail = ''email''"

lemmas mfa_names = MFAModeDisabled_def MFAModeOptional_def MFAModeRequired_def MFAMethodTOTP_def MFAMethodEmail_def

subsection \<open>State\<close>

record totp_secret =
  ts_tenant :: int
  secret_enc :: string
  ts_active :: bool
  backup_codes :: "string list"

record email_mfa_setting =
  em_tenant :: int
  em_active :: bool

record application_mfa_setting =
  am_tenant :: int
  am_mode :: string
  am_methods :: "string list"
  magic_link_enabled :: bool
  magic_link_redirect_url :: string
  am_updated_by :: "int option"
  am_updated_at :: time

record webauthn_credential =
  wc_id :: int
  wc_user :: int
  wc_tenant :: int
  wc_active :: bool
  wc_revoked_at :: "time option"
  wc_revoked_by_admin :: bool

record mfa_db =
  totp_secrets :: "int \<rightharpoonup> totp_secret"
  email_mfa_settings :: "int \<rightharpoonup> email_mfa_setting"
  application_mfa_settings :: "int \<rightharpoonup> application_mfa_setting"
  webauthn_credentials :: "webauthn_credential list"

record email_template =
  et_tenant :: int
  et_app :: "int option"
  et_type :: string
  et_active :: bool

record MFACodeEmail =
  mc_To :: string
  mc_Code :: string
  mc_AppName :: string
  mc_TTLMinutes :: int

text \<open>
  The state of an account's sign-in: the lockout state with its users, sessions and Redis, the second
  factors, and the code emails handed to the mailer with the sender used.
\<close>

record 'r account_state =
  as_block :: "'r block_state"
  as_mfa :: mfa_db
  as_mail :: "(string option \<times> MFACodeEmail) list"

record 'r mfa_env =
  fa_auth :: "'r auth_env"
  fa_aead :: aead
  fa_totp :: TOTPService
  totp_Validate :: "time \<Rightarrow> string \<Rightarrow> string \<Rightarrow> bool"
  fa_audit :: bool
  fa_templates :: "email_template list option"
  fa_senders :: "(int \<Rightarrow> int option \<Rightarrow> string option) option"
  fa_deliver :: "string option \<Rightarrow> MFACodeEmail \<Rightarrow> bool"

abbreviation as_redis :: "'r account_state \<Rightarrow> 'r" where
  "as_redis st \<equiv> bs_redis (as_block st)"

definition put_redis :: "'r \<Rightarrow> 'r account_state \<Rightarrow> 'r account_state" where
  "put_redis r st = st\<lparr>as_block := set_redis r (as_block st)\<rparr>"

abbreviation fa_redis :: "'r mfa_env \<Rightarrow> 'r redis_ops" where
  "fa_redis F \<equiv> env_redis (fa_auth F)"

lemma put_redis_fields [simp]:
  "as_redis (put_redis r st) = r" "as_mfa (put_redis r st) = as_mfa st" "as_mail (put_redis r st) = as_mail st"
  "bs_users (as_block (put_redis r st)) = bs_users (as_block st)" "put_redis r (put_redis r' st) = put_redis r st"
  "bs_apps (as_block (put_redis r st)) = bs_apps (as_block st)"
  by (simp_all add: put_redis_def set_redis_def)

subsection \<open>Backup codes\<close>

definition backup_charset :: string where
  "backup_charset = ''ABCDEFGHJKLMNPQRSTUVWXYZ23456789''"

text \<open>\<^verbatim>\<open>strings.ToUpper\<close> on ASCII bytes.\<close>

definition to_upper :: "char \<Rightarrow> char" where
  "to_upper c = (if is_lower c then char_of ((of_char c :: nat) - 32) else c)"

definition ToUpper :: "string \<Rightarrow> string" where
  "ToUpper = map to_upper"

text \<open>\<^verbatim>\<open>HashToken\<close> and \<^verbatim>\<open>hashBackupCode\<close> are both the hexadecimal SHA-256, of the code in upper case here.\<close>

definition hashBackupCode :: "'r mfa_env \<Rightarrow> string \<Rightarrow> string" where
  "hashBackupCode F code = HashToken (fa_auth F) (ToUpper code)"

text \<open>One code per buffer of random bytes.\<close>

definition backup_code :: "string \<Rightarrow> string" where
  "backup_code buf = map (\<lambda>b. backup_charset ! (of_char b mod length backup_charset)) buf"

definition generateBackupCodes :: "'r mfa_env \<Rightarrow> string list option \<Rightarrow> (string list \<times> string list) option" where
  "generateBackupCodes F bufs =
     map_option (\<lambda>bs. (map backup_code bs, map (hashBackupCode F \<circ> backup_code) bs)) bufs"

text \<open>The loop that takes the first matching hash out of the stored ones.\<close>

fun consume_hash :: "string \<Rightarrow> bool \<Rightarrow> string list \<Rightarrow> bool \<times> string list" where
  "consume_hash codeHash found [] = (found, [])"
| "consume_hash codeHash found (h # hs) =
     (if h = codeHash \<and> \<not> found then consume_hash codeHash True hs
      else case consume_hash codeHash found hs of (f, remaining) \<Rightarrow> (f, h # remaining))"

subsection \<open>The authenticator app\<close>

record EnrollResult =
  OTPURI :: string
  BackupCodes :: "string list"

definition set_totp :: "int \<Rightarrow> totp_secret option \<Rightarrow> mfa_db \<Rightarrow> mfa_db" where
  "set_totp userID r db = db\<lparr>totp_secrets := (totp_secrets db)(userID := r)\<rparr>"

definition set_email :: "int \<Rightarrow> email_mfa_setting option \<Rightarrow> mfa_db \<Rightarrow> mfa_db" where
  "set_email userID r db = db\<lparr>email_mfa_settings := (email_mfa_settings db)(userID := r)\<rparr>"

text \<open>
  \<open>key\<close> is what \<^verbatim>\<open>totp.Generate\<close> returns for an issuer and an account name, the secret and its URL; \<open>nonce\<close>
  and \<open>bufs\<close> are random. A conflicting row keeps its tenant.
\<close>

definition Enroll ::
  "'r mfa_env \<Rightarrow> faults \<Rightarrow> (string \<Rightarrow> string \<Rightarrow> (string \<times> string) option) \<Rightarrow> string option \<Rightarrow> string list option \<Rightarrow>
   int \<Rightarrow> int \<Rightarrow> string \<Rightarrow> string \<Rightarrow> mfa_db \<Rightarrow> EnrollResult result \<times> mfa_db" where
  "Enroll F fl key nonce bufs userID tenantID email issuer db =
     (case key (if issuer = [] then TOTPIssuer else issuer) email of
        None \<Rightarrow> (Inl (Wrapped ''generate TOTP key''), db)
      | Some (secret, url) \<Rightarrow>
          (case encryptAESGCM (fa_aead F) nonce (encKey (fa_totp F)) secret of
             Inl _ \<Rightarrow> (Inl (Wrapped ''encrypt TOTP secret''), db)
           | Inr encSecret \<Rightarrow>
               (case generateBackupCodes F bufs of
                  None \<Rightarrow> (Inl (Wrapped ''generate backup codes''), db)
                | Some (plain, hashed) \<Rightarrow>
                    if fl ''upsert totp_secrets'' then (Inl (Wrapped ''upsert totp_secrets''), db)
                    else (Inr \<lparr>OTPURI = url, BackupCodes = plain\<rparr>,
                          set_totp userID
                            (Some \<lparr>ts_tenant = (case totp_secrets db userID of None \<Rightarrow> tenantID | Some r \<Rightarrow> ts_tenant r),
                                   secret_enc = encSecret, ts_active = False, backup_codes = hashed\<rparr>) db))))"

definition loadSecret :: "'r mfa_env \<Rightarrow> faults \<Rightarrow> int \<Rightarrow> mfa_db \<Rightarrow> (string \<times> bool) result" where
  "loadSecret F fl userID db =
     (if fl ''load TOTP secret'' then Inl (Wrapped ''load TOTP secret'')
      else case totp_secrets db userID of
             None \<Rightarrow> Inl (Wrapped ''no TOTP enrollment found for user'')
           | Some r \<Rightarrow> (case decryptAESGCM (fa_aead F) (encKey (fa_totp F)) (secret_enc r) of
                          Inl _ \<Rightarrow> Inl (Wrapped ''decrypt TOTP secret'')
                        | Inr secret \<Rightarrow> Inr (secret, ts_active r)))"

definition VerifyAndActivate ::
  "'r mfa_env \<Rightarrow> faults \<Rightarrow> time \<Rightarrow> int \<Rightarrow> string \<Rightarrow> mfa_db \<Rightarrow> unit result \<times> mfa_db" where
  "VerifyAndActivate F fl now userID code db =
     (case loadSecret F fl userID db of
        Inl e \<Rightarrow> (Inl e, db)
      | Inr (secret, isActive) \<Rightarrow>
          if isActive then (Inl (Wrapped ''TOTP is already active''), db)
          else if \<not> totp_Validate F now code secret then (Inl (Wrapped ''invalid TOTP code''), db)
          else if fl ''activate totp_secrets'' then (Inl (Wrapped ''activate totp_secrets''), db)
          else (Inr (), set_totp userID (map_option (\<lambda>r. r\<lparr>ts_active := True\<rparr>) (totp_secrets db userID)) db))"

definition Verify :: "'r mfa_env \<Rightarrow> faults \<Rightarrow> time \<Rightarrow> int \<Rightarrow> string \<Rightarrow> mfa_db \<Rightarrow> unit result" where
  "Verify F fl now userID code db =
     (case loadSecret F fl userID db of
        Inl e \<Rightarrow> Inl e
      | Inr (secret, isActive) \<Rightarrow>
          if \<not> isActive then Inl (Wrapped ''TOTP not active for this user'')
          else if \<not> totp_Validate F now code secret then Inl (Wrapped ''invalid TOTP code'')
          else Inr ())"

text \<open>The check of a backup code is a read followed by a write, so another request can come in between.\<close>

definition backup_lookup :: "'r mfa_env \<Rightarrow> faults \<Rightarrow> int \<Rightarrow> string \<Rightarrow> mfa_db \<Rightarrow> (string list) result" where
  "backup_lookup F fl userID code db =
     (if fl ''load backup codes'' then Inl (Wrapped ''load backup codes'')
      else case totp_secrets db userID of
             None \<Rightarrow> Inl (Wrapped ''TOTP not active for this user'')
           | Some r \<Rightarrow>
               if \<not> ts_active r then Inl (Wrapped ''TOTP not active for this user'')
               else (case consume_hash (hashBackupCode F code) False (backup_codes r) of
                       (found, remaining) \<Rightarrow>
                         if \<not> found then Inl (Wrapped ''invalid backup code'') else Inr remaining))"

definition backup_apply :: "faults \<Rightarrow> int \<Rightarrow> string list \<Rightarrow> mfa_db \<Rightarrow> unit result \<times> mfa_db" where
  "backup_apply fl userID remaining db =
     (if fl ''consume backup code'' then (Inl (Wrapped ''consume backup code''), db)
      else (Inr (), set_totp userID (map_option (\<lambda>r. r\<lparr>backup_codes := remaining\<rparr>) (totp_secrets db userID)) db))"

definition VerifyBackupCode :: "'r mfa_env \<Rightarrow> faults \<Rightarrow> int \<Rightarrow> string \<Rightarrow> mfa_db \<Rightarrow> unit result \<times> mfa_db" where
  "VerifyBackupCode F fl userID code db =
     (case backup_lookup F fl userID code db of
        Inl e \<Rightarrow> (Inl e, db)
      | Inr remaining \<Rightarrow> backup_apply fl userID remaining db)"

text \<open>A code that proves control of the authenticator: a current TOTP code, else a backup code.\<close>

definition prove_totp :: "'r mfa_env \<Rightarrow> faults \<Rightarrow> time \<Rightarrow> int \<Rightarrow> string \<Rightarrow> mfa_db \<Rightarrow> bool \<times> mfa_db" where
  "prove_totp F fl now userID code db =
     (case Verify F fl now userID code db of
        Inr _ \<Rightarrow> (True, db)
      | Inl _ \<Rightarrow> (case VerifyBackupCode F fl userID code db of
                    (Inr _, db1) \<Rightarrow> (True, db1)
                  | (Inl _, db1) \<Rightarrow> (False, db1)))"

definition Disable ::
  "'r mfa_env \<Rightarrow> faults \<Rightarrow> time \<Rightarrow> int \<Rightarrow> string \<Rightarrow> mfa_db \<Rightarrow> unit result \<times> mfa_db" where
  "Disable F fl now userID code db =
     (case prove_totp F fl now userID code db of
        (False, db1) \<Rightarrow> (Inl (Wrapped ''invalid code''), db1)
      | (True, db1) \<Rightarrow>
          if fl ''delete totp_secrets'' then (Inl (Wrapped ''delete totp_secrets''), db1)
          else (Inr (), set_totp userID None db1))"

record TOTPStatus =
  st_Enrolled :: bool
  st_Active :: bool
  st_BackupCodesRemaining :: int

definition Status :: "faults \<Rightarrow> int \<Rightarrow> mfa_db \<Rightarrow> TOTPStatus result" where
  "Status fl userID db =
     (if fl ''load TOTP status'' then Inl (Wrapped ''load TOTP status'')
      else case totp_secrets db userID of
             None \<Rightarrow> Inr \<lparr>st_Enrolled = False, st_Active = False, st_BackupCodesRemaining = 0\<rparr>
           | Some r \<Rightarrow> Inr \<lparr>st_Enrolled = True, st_Active = ts_active r,
                            st_BackupCodesRemaining = int (length (backup_codes r))\<rparr>)"

definition RegenerateBackupCodes ::
  "'r mfa_env \<Rightarrow> faults \<Rightarrow> time \<Rightarrow> string list option \<Rightarrow> int \<Rightarrow> string \<Rightarrow> mfa_db \<Rightarrow> (string list) result \<times> mfa_db" where
  "RegenerateBackupCodes F fl now bufs userID currentCode db =
     (if currentCode = [] then (Inl ErrTOTPProofRequired, db)
      else case prove_totp F fl now userID currentCode db of
             (False, db1) \<Rightarrow> (Inl ErrTOTPProofRequired, db1)
           | (True, db1) \<Rightarrow>
               (case generateBackupCodes F bufs of
                  None \<Rightarrow> (Inl (Wrapped ''generate backup codes''), db1)
                | Some (plain, hashed) \<Rightarrow>
                    if fl ''store backup codes'' then (Inl (Wrapped ''store backup codes''), db1)
                    else (case totp_secrets db1 userID of
                            None \<Rightarrow> (Inl (Wrapped ''TOTP not active for this user''), db1)
                          | Some r \<Rightarrow>
                              if \<not> ts_active r then (Inl (Wrapped ''TOTP not active for this user''), db1)
                              else (Inr plain, set_totp userID (Some (r\<lparr>backup_codes := hashed\<rparr>)) db1))))"

definition TOTP_IsActive :: "faults \<Rightarrow> int \<Rightarrow> mfa_db \<Rightarrow> bool result" where
  "TOTP_IsActive fl userID db =
     (if fl ''check TOTP active'' then Inl (Wrapped ''check TOTP active'')
      else case totp_secrets db userID of None \<Rightarrow> Inr False | Some r \<Rightarrow> Inr (ts_active r))"

definition emailMFAActive :: "faults \<Rightarrow> int \<Rightarrow> mfa_db \<Rightarrow> bool result" where
  "emailMFAActive fl userID db =
     (if fl ''check email MFA active'' then Inl (Wrapped ''check email MFA active'')
      else case email_mfa_settings db userID of None \<Rightarrow> Inr False | Some r \<Rightarrow> Inr (em_active r))"

subsection \<open>The policy of an application\<close>

definition ValidMFAMode :: "string \<Rightarrow> bool" where
  "ValidMFAMode mode \<longleftrightarrow> mode = MFAModeDisabled \<or> mode = MFAModeOptional \<or> mode = MFAModeRequired"

definition ValidMFAMethods :: "string list \<Rightarrow> bool" where
  "ValidMFAMethods methods \<longleftrightarrow> methods \<noteq> [] \<and> list_all (\<lambda>m. m = MFAMethodTOTP \<or> m = MFAMethodEmail) methods"

definition methodAllowed :: "string list \<Rightarrow> string \<Rightarrow> bool" where
  "methodAllowed methods m \<longleftrightarrow> list_ex (\<lambda>x. x = m) methods"

definition defaultMFAMethods :: "string list" where
  "defaultMFAMethods = [MFAMethodTOTP]"

definition GetAppMFAConfig :: "faults \<Rightarrow> int \<Rightarrow> mfa_db \<Rightarrow> (string \<times> string list) result" where
  "GetAppMFAConfig fl appRowID db =
     (if fl ''load app MFA config'' then Inl (Wrapped ''load app MFA config'')
      else case application_mfa_settings db appRowID of
             None \<Rightarrow> Inr (MFAModeOptional, defaultMFAMethods)
           | Some r \<Rightarrow> Inr (am_mode r, if am_methods r = [] then defaultMFAMethods else am_methods r))"

definition GetAppMFAMode :: "faults \<Rightarrow> int \<Rightarrow> mfa_db \<Rightarrow> string result" where
  "GetAppMFAMode fl appRowID db =
     (case GetAppMFAConfig fl appRowID db of Inl e \<Rightarrow> Inl e | Inr (mode, _) \<Rightarrow> Inr mode)"

record MFAPolicy =
  mp_ApplicationID :: string
  mp_Mode :: string
  mp_AllowedMethods :: "string list"
  mp_MagicLinkEnabled :: bool
  mp_MagicLinkRedirectURL :: string
  mp_UpdatedAt :: "time option"
  mp_EnrolledUsers :: int
  mp_PendingEnrollments :: int
  mp_EmailEnrolledUsers :: int
  mp_TotalUsers :: int

definition GetAppMFAPolicy :: "faults \<Rightarrow> int \<Rightarrow> int \<Rightarrow> lockout_row list \<Rightarrow> mfa_db \<Rightarrow> MFAPolicy result" where
  "GetAppMFAPolicy fl tenantID appRowID us db =
     (if fl ''load app MFA policy'' then Inl (Wrapped ''load app MFA policy'')
      else if fl ''load app MFA stats'' then Inl (Wrapped ''load app MFA stats'')
      else
        let row = (case application_mfa_settings db appRowID of
                     None \<Rightarrow> None | Some r \<Rightarrow> if am_tenant r = tenantID then Some r else None);
            mine = filter (\<lambda>u. u_tenant u = tenantID \<and> u_application u = Some appRowID \<and> u_active u \<and> u_deleted u = None) us;
            tally = (\<lambda>p. int (length (filter (\<lambda>u. p (u_id u)) mine)))
        in Inr \<lparr>mp_ApplicationID = FormatInt appRowID,
                mp_Mode = (case row of None \<Rightarrow> MFAModeOptional | Some r \<Rightarrow> am_mode r),
                mp_AllowedMethods = (case row of None \<Rightarrow> defaultMFAMethods
                                     | Some r \<Rightarrow> if am_methods r = [] then defaultMFAMethods else am_methods r),
                mp_MagicLinkEnabled = (case row of None \<Rightarrow> False | Some r \<Rightarrow> magic_link_enabled r),
                mp_MagicLinkRedirectURL = (case row of None \<Rightarrow> [] | Some r \<Rightarrow> magic_link_redirect_url r),
                mp_UpdatedAt = map_option am_updated_at row,
                mp_EnrolledUsers = tally (\<lambda>i. case totp_secrets db i of None \<Rightarrow> False | Some r \<Rightarrow> ts_active r),
                mp_PendingEnrollments = tally (\<lambda>i. case totp_secrets db i of None \<Rightarrow> False | Some r \<Rightarrow> \<not> ts_active r),
                mp_EmailEnrolledUsers = tally (\<lambda>i. case email_mfa_settings db i of None \<Rightarrow> False | Some r \<Rightarrow> em_active r),
                mp_TotalUsers = int (length mine)\<rparr>)"

definition put_app_setting :: "int \<Rightarrow> application_mfa_setting \<Rightarrow> mfa_db \<Rightarrow> mfa_db" where
  "put_app_setting appRowID r db = db\<lparr>application_mfa_settings := (application_mfa_settings db)(appRowID \<mapsto> r)\<rparr>"

text \<open>
  The upsert shared by both writers, pinned to the tenant: a row of another tenant is left alone and no
  row counts as written. The columns an insert does not name take the table's defaults.
\<close>

definition upsert_app_setting ::
  "faults \<Rightarrow> string \<Rightarrow> int \<Rightarrow> int \<Rightarrow> (application_mfa_setting \<Rightarrow> application_mfa_setting) \<Rightarrow> int option \<Rightarrow> time \<Rightarrow>
   mfa_db \<Rightarrow> unit result \<times> mfa_db" where
  "upsert_app_setting fl lbl tenantID appRowID f updatedBy now db =
     (if fl lbl then (Inl (Wrapped lbl), db)
      else
        let write = (\<lambda>r. put_app_setting appRowID ((f r)\<lparr>am_updated_by := updatedBy, am_updated_at := now\<rparr>) db) in
        (case application_mfa_settings db appRowID of
          None \<Rightarrow> (Inr (), write \<lparr>am_tenant = tenantID, am_mode = MFAModeOptional, am_methods = [MFAMethodTOTP],
                                  magic_link_enabled = False, magic_link_redirect_url = [], am_updated_by = updatedBy,
                                  am_updated_at = now\<rparr>)
        | Some r \<Rightarrow> if am_tenant r = tenantID then (Inr (), write r) else (Inl ErrAppNotFound, db)))"

definition SetAppMFAPolicy ::
  "faults \<Rightarrow> time \<Rightarrow> int \<Rightarrow> int \<Rightarrow> string \<Rightarrow> string list option \<Rightarrow> int option \<Rightarrow> mfa_db \<Rightarrow> unit result \<times> mfa_db" where
  "SetAppMFAPolicy fl now tenantID appRowID mode methods updatedBy db =
     (if \<not> ValidMFAMode mode then (Inl ErrInvalidMFAMode, db)
      else if methods \<noteq> None \<and> \<not> ValidMFAMethods (the methods) then (Inl ErrInvalidMFAMethods, db)
      else upsert_app_setting fl ''upsert app MFA policy'' tenantID appRowID
             (\<lambda>r. r\<lparr>am_mode := mode, am_methods := (case methods of None \<Rightarrow> am_methods r | Some ms \<Rightarrow> ms)\<rparr>)
             updatedBy now db)"

text \<open>
  \<open>url_Parse\<close> is \<^verbatim>\<open>url.Parse\<close> of the standard library: the scheme, the host and the host name without its port.
\<close>

type_synonym url_parser = "string \<Rightarrow> (string \<times> string \<times> string) option"

definition validMagicRedirectURL :: "url_parser \<Rightarrow> string \<Rightarrow> bool" where
  "validMagicRedirectURL url_Parse s =
     (case url_Parse s of
        None \<Rightarrow> False
      | Some (scheme, host, hostname) \<Rightarrow>
          if host = [] then False
          else if scheme = ''https'' then True
          else if scheme = ''http'' then hostname = ''localhost'' \<or> hostname = ''::1'' \<or> HasPrefix hostname ''127.''
          else False)"

definition SetAppMagicLink ::
  "url_parser \<Rightarrow> faults \<Rightarrow> time \<Rightarrow> int \<Rightarrow> int \<Rightarrow> bool option \<Rightarrow> string option \<Rightarrow> int option \<Rightarrow> mfa_db \<Rightarrow>
   unit result \<times> mfa_db" where
  "SetAppMagicLink url_Parse fl now tenantID appRowID enabled redirectURL updatedBy db =
     (let incoming = redirectURL \<noteq> None \<and> redirectURL \<noteq> Some [] in
      if incoming \<and> \<not> validMagicRedirectURL url_Parse (the redirectURL) then (Inl ErrMagicLinkNotConfigured, db)
      else if enabled = Some True \<and> \<not> incoming
        \<and> (fl ''magic link stored'' \<or> (case application_mfa_settings db appRowID of
                                         None \<Rightarrow> True | Some r \<Rightarrow> magic_link_redirect_url r = []))
      then (Inl ErrMagicLinkNotConfigured, db)
      else upsert_app_setting fl ''upsert magic link settings'' tenantID appRowID
             (\<lambda>r. r\<lparr>magic_link_enabled := (case enabled of None \<Rightarrow> magic_link_enabled r | Some b \<Rightarrow> b),
                    magic_link_redirect_url := (case redirectURL of None \<Rightarrow> magic_link_redirect_url r | Some s \<Rightarrow> s)\<rparr>)
             updatedBy now db)"

text \<open>
  The reset is one transaction: any failure leaves the factors alone.
\<close>

definition ResetUserMFA ::
  "faults \<Rightarrow> time \<Rightarrow> int \<Rightarrow> int option \<Rightarrow> int \<Rightarrow> lockout_row list \<Rightarrow> mfa_db \<Rightarrow> unit result \<times> mfa_db" where
  "ResetUserMFA fl now tenantID appRowID userID us db =
     (if fl ''begin user MFA reset'' then (Inl (Wrapped ''begin user MFA reset''), db)
      else if fl ''verify user scope'' then (Inl (Wrapped ''verify user scope''), db)
      else if \<not> (\<exists>u \<in> set us. u_id u = userID \<and> u_tenant u = tenantID
                   \<and> (case appRowID of None \<Rightarrow> True | Some a \<Rightarrow> u_application u = Some a) \<and> u_deleted u = None)
      then (Inl ErrUserNotFound, db)
      else if fl ''reset user TOTP'' then (Inl (Wrapped ''reset user TOTP''), db)
      else if fl ''reset user email MFA'' then (Inl (Wrapped ''reset user email MFA''), db)
      else if fl ''reset user passkeys'' then (Inl (Wrapped ''reset user passkeys''), db)
      else if fl ''commit user MFA reset'' then (Inl (Wrapped ''commit user MFA reset''), db)
      else (Inr (),
            let db1 = set_email userID None (set_totp userID None db) in
            db1\<lparr>webauthn_credentials :=
                  update_where (\<lambda>c. wc_user c = userID \<and> wc_tenant c = tenantID \<and> wc_active c)
                    (\<lambda>c. c\<lparr>wc_active := False, wc_revoked_at := Some now, wc_revoked_by_admin := True\<rparr>)
                    (webauthn_credentials db1)\<rparr>))"

subsection \<open>The policy over one user\<close>

record userMFAContext =
  uc_appRowID :: "int option"
  uc_appName :: string
  uc_mode :: string
  uc_allowedMethods :: "string list"

definition methodPermitted :: "userMFAContext \<Rightarrow> string \<Rightarrow> bool" where
  "methodPermitted uc m \<longleftrightarrow> uc_appRowID uc = None \<or> methodAllowed (uc_allowedMethods uc) m"

definition loadUserMFAContext ::
  "faults \<Rightarrow> int \<Rightarrow> int \<Rightarrow> lockout_row list \<Rightarrow> (int \<times> string) list \<Rightarrow> mfa_db \<Rightarrow> userMFAContext result" where
  "loadUserMFAContext fl userID tenantID us apps db =
     (if fl ''load user MFA context'' then Inl (Wrapped ''load user MFA context'')
      else case find (\<lambda>u. u_id u = userID \<and> u_tenant u = tenantID \<and> u_deleted u = None) us of
             None \<Rightarrow> Inl ErrUserNotFound
           | Some u \<Rightarrow>
               let row = Option.bind (u_application u) (application_mfa_settings db) in
               Inr \<lparr>uc_appRowID = u_application u,
                    uc_appName = (case Option.bind (u_application u) (map_of apps) of None \<Rightarrow> [] | Some n \<Rightarrow> n),
                    uc_mode = (case row of None \<Rightarrow> MFAModeOptional | Some r \<Rightarrow> am_mode r),
                    uc_allowedMethods = (case row of None \<Rightarrow> defaultMFAMethods
                                         | Some r \<Rightarrow> if am_methods r = [] then defaultMFAMethods else am_methods r)\<rparr>)"

abbreviation mfa_context :: "faults \<Rightarrow> int \<Rightarrow> int \<Rightarrow> 'r account_state \<Rightarrow> userMFAContext result" where
  "mfa_context fl userID tenantID st \<equiv>
     loadUserMFAContext fl userID tenantID (bs_users (as_block st)) (bs_apps (as_block st)) (as_mfa st)"

definition EnrollUser ::
  "'r mfa_env \<Rightarrow> faults \<Rightarrow> time \<Rightarrow> (string \<Rightarrow> string \<Rightarrow> (string \<times> string) option) \<Rightarrow> string option \<Rightarrow> string list option \<Rightarrow>
   int \<Rightarrow> int \<Rightarrow> string \<Rightarrow> string \<Rightarrow> 'r account_state \<Rightarrow> EnrollResult result \<times> 'r account_state" where
  "EnrollUser F fl now key nonce bufs userID tenantID email currentCode st =
     (case mfa_context fl userID tenantID st of
        Inl e \<Rightarrow> (Inl e, st)
      | Inr uc \<Rightarrow>
          if uc_appRowID uc \<noteq> None \<and> uc_mode uc = MFAModeDisabled then (Inl ErrMFAEnrollmentDisabled, st)
          else if \<not> methodPermitted uc MFAMethodTOTP then (Inl ErrMFAMethodNotAllowed, st)
          else (case TOTP_IsActive fl userID (as_mfa st) of
                  Inl e \<Rightarrow> (Inl e, st)
                | Inr active \<Rightarrow>
                    if active \<and> currentCode = [] then (Inl ErrTOTPReenrollProof, st)
                    else (case (if active then prove_totp F fl now userID currentCode (as_mfa st) else (True, as_mfa st)) of
                            (False, db1) \<Rightarrow> (Inl ErrTOTPReenrollProof, st\<lparr>as_mfa := db1\<rparr>)
                          | (True, db1) \<Rightarrow>
                              (case Enroll F fl key nonce bufs userID tenantID email
                                      (if uc_appName uc \<noteq> [] then uc_appName uc else TOTPIssuer) db1 of
                                 (r, db2) \<Rightarrow> (r, st\<lparr>as_mfa := db2\<rparr>)))))"

text \<open>The policy check of the removal is a read of its own, before the removal's transaction.\<close>

definition DisableUser_check :: "faults \<Rightarrow> int \<Rightarrow> int \<Rightarrow> 'r account_state \<Rightarrow> unit result" where
  "DisableUser_check fl userID tenantID st =
     (case mfa_context fl userID tenantID st of
        Inl e \<Rightarrow> Inl e
      | Inr uc \<Rightarrow>
          if uc_appRowID uc \<noteq> None \<and> uc_mode uc = MFAModeRequired then
            (case emailMFAActive fl userID (as_mfa st) of
               Inl e \<Rightarrow> Inl e
             | Inr emailActive \<Rightarrow> if \<not> emailActive then Inl ErrMFARequiredByPolicy else Inr ())
          else Inr ())"

definition DisableUser ::
  "'r mfa_env \<Rightarrow> faults \<Rightarrow> time \<Rightarrow> int \<Rightarrow> int \<Rightarrow> string \<Rightarrow> 'r account_state \<Rightarrow> unit result \<times> 'r account_state" where
  "DisableUser F fl now userID tenantID code st =
     (case DisableUser_check fl userID tenantID st of
        Inl e \<Rightarrow> (Inl e, st)
      | Inr _ \<Rightarrow> (case Disable F fl now userID code (as_mfa st) of (r, db) \<Rightarrow> (r, st\<lparr>as_mfa := db\<rparr>)))"

subsection \<open>The emailed code\<close>

text \<open>\<^verbatim>\<open>fmt.Sprintf("%0*d", 6, n)\<close> of the number \<^verbatim>\<open>rand.Int\<close> draws below a million.\<close>

definition generateEmailOTP :: "nat option \<Rightarrow> string result" where
  "generateEmailOTP rnd =
     (case rnd of
        None \<Rightarrow> Inl (Wrapped ''generate email OTP'')
      | Some n \<Rightarrow>
          let d = dec_digits n in Inr (replicate (EmailOTPLength - length d) (CHR ''0'') @ d))"

definition emailVerifyKey :: "int \<Rightarrow> string" where
  "emailVerifyKey userID = ''mfa:email:verify:'' @ FormatInt userID"

text \<open>The most specific row of the scope decides; without a row, and when the lookup fails, mail is sent.\<close>

definition IsTypeEnabled :: "'r mfa_env \<Rightarrow> faults \<Rightarrow> int \<Rightarrow> int option \<Rightarrow> string \<Rightarrow> bool" where
  "IsTypeEnabled F fl tenantID appRowID tt =
     (case fa_templates F of
        None \<Rightarrow> True
      | Some rows \<Rightarrow>
          if fl ''template enabled-check failed'' then True
          else (let scope = filter (\<lambda>t. et_tenant t = tenantID \<and> et_type t = tt) rows;
                    own = filter (\<lambda>t. et_app t \<noteq> None \<and> et_app t = appRowID) scope;
                    shared = filter (\<lambda>t. et_app t = None) scope
                in (case own @ shared of [] \<Rightarrow> True | t # _ \<Rightarrow> et_active t)))"

definition TemplateMFACode :: string where "TemplateMFACode = ''mfa_code''"

definition auditEmailSuppressed :: "bool \<Rightarrow> int \<Rightarrow> int option \<Rightarrow> string \<Rightarrow> 'r account_state \<Rightarrow> 'r account_state" where
  "auditEmailSuppressed wired tenantID appRowID tt st =
     (if \<not> wired then st
      else st\<lparr>as_block := (as_block st)\<lparr>bs_events := bs_events (as_block st) @
             [\<lparr>ev_tenant = tenantID, ev_app = appRowID, ev_user = None, ev_action = ''auth.email_suppressed'',
               ev_resource_type = ''email_template'', ev_resource_id = tt, ev_meta = [(''template_type'', MStr tt)]\<rparr>]\<rparr>\<rparr>)"

text \<open>
  Mint a code, store its hash, reset the attempt counter, and mail it: by the sender of the scope, then by
  the global one. A code that was not mailed is deleted again, and a disabled template is no error.
\<close>

definition mintAndSend ::
  "'r mfa_env \<Rightarrow> faults \<Rightarrow> time \<Rightarrow> nat option \<Rightarrow> string \<Rightarrow> string \<Rightarrow> string \<Rightarrow> int \<Rightarrow> int option \<Rightarrow> duration \<Rightarrow>
   'r account_state \<Rightarrow> unit result \<times> 'r account_state" where
  "mintAndSend F fl now rnd key email appName tenantID appRowID ttl st =
     (case generateEmailOTP rnd of
        Inl e \<Rightarrow> (Inl e, st)
      | Inr code \<Rightarrow>
          if fl ''store email OTP'' then (Inl (Wrapped ''store email OTP''), st)
          else
            let del = (\<lambda>k s. if fl ''redis del'' then s else put_redis (rdel (fa_redis F) (as_redis s) now k) s);
                st1 = put_redis (rset (fa_redis F) (as_redis st) now key (HashToken (fa_auth F) code) ttl) st;
                st2 = del (key @ '':attempts'') st1;
                msg = \<lparr>mc_To = email, mc_Code = code, mc_AppName = appName, mc_TTLMinutes = ttl div Minute\<rparr>;
                sender = Option.bind (fa_senders F) (\<lambda>f. f tenantID appRowID)
            in if \<not> IsTypeEnabled F fl tenantID appRowID TemplateMFACode
               then (Inr (), del key (auditEmailSuppressed (fa_audit F) tenantID appRowID TemplateMFACode st2))
               else if fa_deliver F sender msg then (Inr (), st2\<lparr>as_mail := as_mail st2 @ [(sender, msg)]\<rparr>)
               else if sender \<noteq> None \<and> fa_deliver F None msg then (Inr (), st2\<lparr>as_mail := as_mail st2 @ [(None, msg)]\<rparr>)
               else (Inl (Wrapped ''send email OTP''), del key st2))"

definition verifyStoredCode ::
  "'r mfa_env \<Rightarrow> faults \<Rightarrow> time \<Rightarrow> string \<Rightarrow> string \<Rightarrow> 'r account_state \<Rightarrow> unit result \<times> 'r account_state" where
  "verifyStoredCode F fl now key code st =
     (if fl ''redis get'' then (Inl ErrEmailCodeInvalid, st)
      else case rget (fa_redis F) (as_redis st) now key of
        None \<Rightarrow> (Inl ErrEmailCodeInvalid, st)
      | Some storedHash \<Rightarrow>
          (case bump_counter (fa_redis F) fl now (key @ '':attempts'') (EmailOTPTTL + Minute) (as_redis st) of
             (None, r) \<Rightarrow> (Inl ErrServiceUnavailable, put_redis r st)
           | (Some attempts, r) \<Rightarrow>
               let del = (if fl ''redis del'' then r
                          else rdel (fa_redis F) (rdel (fa_redis F) r now key) now (key @ '':attempts''))
               in if attempts > MaxOTPAttempts then (Inl ErrTooManyOTPAttempts, put_redis del st)
                  else if HashToken (fa_auth F) code \<noteq> storedHash then (Inl ErrEmailCodeInvalid, put_redis r st)
                  else (Inr (), put_redis del st)))"

definition BeginEnrollment ::
  "'r mfa_env \<Rightarrow> faults \<Rightarrow> time \<Rightarrow> nat option \<Rightarrow> int \<Rightarrow> int \<Rightarrow> string \<Rightarrow> 'r account_state \<Rightarrow> unit result \<times> 'r account_state" where
  "BeginEnrollment F fl now rnd userID tenantID email st =
     (case mfa_context fl userID tenantID st of
        Inl e \<Rightarrow> (Inl e, st)
      | Inr uc \<Rightarrow>
          if uc_appRowID uc \<noteq> None \<and> uc_mode uc = MFAModeDisabled then (Inl ErrMFAEnrollmentDisabled, st)
          else if \<not> methodPermitted uc MFAMethodEmail then (Inl ErrMFAMethodNotAllowed, st)
          else if fl ''record email MFA enrollment'' then (Inl (Wrapped ''record email MFA enrollment''), st)
          else mintAndSend F fl now rnd (emailVerifyKey userID) email (uc_appName uc) tenantID (uc_appRowID uc) EmailOTPTTL
                 (if email_mfa_settings (as_mfa st) userID = None
                  then st\<lparr>as_mfa := set_email userID (Some \<lparr>em_tenant = tenantID, em_active = False\<rparr>) (as_mfa st)\<rparr>
                  else st))"

definition ActivateEnrollment ::
  "'r mfa_env \<Rightarrow> faults \<Rightarrow> time \<Rightarrow> int \<Rightarrow> string \<Rightarrow> 'r account_state \<Rightarrow> unit result \<times> 'r account_state" where
  "ActivateEnrollment F fl now userID code st =
     (case verifyStoredCode F fl now (emailVerifyKey userID) code st of
        (Inl e, st1) \<Rightarrow> (Inl e, st1)
      | (Inr _, st1) \<Rightarrow>
          if fl ''activate email MFA'' then (Inl (Wrapped ''activate email MFA''), st1)
          else (case email_mfa_settings (as_mfa st1) userID of
                  None \<Rightarrow> (Inl ErrEmailCodeInvalid, st1)
                | Some r \<Rightarrow> (Inr (), st1\<lparr>as_mfa := set_email userID (Some (r\<lparr>em_active := True\<rparr>)) (as_mfa st1)\<rparr>)))"

definition SendVerificationCode ::
  "'r mfa_env \<Rightarrow> faults \<Rightarrow> time \<Rightarrow> nat option \<Rightarrow> int \<Rightarrow> int \<Rightarrow> string \<Rightarrow> 'r account_state \<Rightarrow> unit result \<times> 'r account_state" where
  "SendVerificationCode F fl now rnd userID tenantID email st =
     (case emailMFAActive fl userID (as_mfa st) of
        Inl e \<Rightarrow> (Inl e, st)
      | Inr active \<Rightarrow>
          if \<not> active then (Inl ErrEmailMFANotActive, st)
          else (case mfa_context fl userID tenantID st of
                  Inl e \<Rightarrow> (Inl e, st)
                | Inr uc \<Rightarrow> mintAndSend F fl now rnd (emailVerifyKey userID) email (uc_appName uc) tenantID (uc_appRowID uc)
                             EmailOTPTTL st))"

definition Email_Disable_check :: "faults \<Rightarrow> int \<Rightarrow> int \<Rightarrow> 'r account_state \<Rightarrow> unit result" where
  "Email_Disable_check fl userID tenantID st =
     (case mfa_context fl userID tenantID st of
        Inl e \<Rightarrow> Inl e
      | Inr uc \<Rightarrow>
          if uc_appRowID uc \<noteq> None \<and> uc_mode uc = MFAModeRequired then
            (case TOTP_IsActive fl userID (as_mfa st) of
               Inl e \<Rightarrow> Inl e
             | Inr totpActive \<Rightarrow> if \<not> totpActive then Inl ErrMFARequiredByPolicy else Inr ())
          else Inr ())"

definition Email_Disable_apply ::
  "'r mfa_env \<Rightarrow> faults \<Rightarrow> time \<Rightarrow> int \<Rightarrow> string \<Rightarrow> 'r account_state \<Rightarrow> unit result \<times> 'r account_state" where
  "Email_Disable_apply F fl now userID code st =
     (case verifyStoredCode F fl now (emailVerifyKey userID) code st of
        (Inl e, st1) \<Rightarrow> (Inl e, st1)
      | (Inr _, st1) \<Rightarrow>
          if fl ''disable email MFA'' then (Inl (Wrapped ''disable email MFA''), st1)
          else (Inr (), st1\<lparr>as_mfa := set_email userID None (as_mfa st1)\<rparr>))"

definition Email_Disable ::
  "'r mfa_env \<Rightarrow> faults \<Rightarrow> time \<Rightarrow> int \<Rightarrow> int \<Rightarrow> string \<Rightarrow> 'r account_state \<Rightarrow> unit result \<times> 'r account_state" where
  "Email_Disable F fl now userID tenantID code st =
     (case Email_Disable_check fl userID tenantID st of
        Inl e \<Rightarrow> (Inl e, st)
      | Inr _ \<Rightarrow> Email_Disable_apply F fl now userID code st)"

definition ActivatePendingEnrollment ::
  "faults \<Rightarrow> int \<Rightarrow> int \<Rightarrow> 'r account_state \<Rightarrow> unit result \<times> 'r account_state" where
  "ActivatePendingEnrollment fl userID tenantID st =
     (if fl ''activate pending email MFA'' then (Inl (Wrapped ''activate pending email MFA''), st)
      else (Inr (), st\<lparr>as_mfa := set_email userID
              (Some \<lparr>em_tenant = (case email_mfa_settings (as_mfa st) userID of None \<Rightarrow> tenantID | Some r \<Rightarrow> em_tenant r),
                     em_active = True\<rparr>) (as_mfa st)\<rparr>))"

end
