(* ===== verification/AdminMfa.thy ===== *)
theory AdminMfa
  imports Mfa
begin

text \<open>
  Mandatory second factors of administrators (\<^verbatim>\<open>internal/auth/admin_mfa_policy.go\<close>): the policy and its
  resolver, who counts as an administrator, which factors an administrator may enrol and remove. The sign-in
  gate itself is with the login.
\<close>

definition AdminMFAMethods :: "string list" where
  "AdminMFAMethods = [MFAMethodTOTP, MFAMethodEmail]"

definition DefaultAdminMFAMethods :: "string list" where
  "DefaultAdminMFAMethods = [MFAMethodTOTP, MFAMethodEmail]"

record AdminMFAPolicy =
  ap_AllowedMethods :: "string list"
  ap_Source :: string

definition AdminMFAPolicy_Allows :: "AdminMFAPolicy \<Rightarrow> string \<Rightarrow> bool" where
  "AdminMFAPolicy_Allows p m = methodAllowed (ap_AllowedMethods p) m"

subsection \<open>The policy\<close>

fun validate_methods_loop :: "string list \<Rightarrow> string list \<Rightarrow> unit result" where
  "validate_methods_loop seen [] = Inr ()"
| "validate_methods_loop seen (m # ms) =
     (if m \<notin> set AdminMFAMethods then Inl ErrInvalidAdminMFAPolicy
      else if m \<in> set seen then Inl ErrInvalidAdminMFAPolicy
      else validate_methods_loop (m # seen) ms)"

definition ValidateAdminMFAMethods :: "string list \<Rightarrow> unit result" where
  "ValidateAdminMFAMethods methods =
     (if methods = [] then Inl ErrInvalidAdminMFAPolicy else validate_methods_loop [] methods)"

definition OrderAdminMFAMethods :: "string list \<Rightarrow> string list" where
  "OrderAdminMFAMethods methods = filter (methodAllowed methods) AdminMFAMethods"

text \<open>
  A row of \<^verbatim>\<open>admin_mfa_policies\<close> is scoped to a tenant or to the platform; the tenant 0 is the platform's own
  administrators. \<open>ErrNoPolicyRow\<close> is the missing platform row.
\<close>

definition AdminMFA_load :: "string list policy_row list \<Rightarrow> faults \<Rightarrow> int \<Rightarrow> AdminMFAPolicy result" where
  "AdminMFA_load rows fl tenantID =
     (if fl ''load admin MFA policy'' then Inl (Wrapped ''load admin MFA policy'')
      else case select_policy tenantID None rows of
             None \<Rightarrow> Inl ErrNoPolicyRow
           | Some r \<Rightarrow> Inr \<lparr>ap_AllowedMethods = OrderAdminMFAMethods (pr_cols r),
                            ap_Source = (if pr_tenant r = None then ''platform'' else ''tenant'')\<rparr>)"

definition default_admin_policy :: AdminMFAPolicy where
  "default_admin_policy = \<lparr>ap_AllowedMethods = DefaultAdminMFAMethods, ap_Source = ''default''\<rparr>"

definition AdminMFA_Resolve ::
  "string list policy_row list \<Rightarrow> faults \<Rightarrow> time \<Rightarrow> int \<Rightarrow> AdminMFAPolicy policy_service \<Rightarrow>
   AdminMFAPolicy \<times> AdminMFAPolicy policy_service" where
  "AdminMFA_Resolve rows fl now tenantID sv =
     (if \<not> sv_pool sv then (default_admin_policy, sv)
      else case cache_lookup now tenantID None sv of
             Some (p, cachedAt) \<Rightarrow> (p, sv)
           | None \<Rightarrow>
               let remember = (\<lambda>q. (q, sv\<lparr>sv_cache := (sv_cache sv)(policy_key tenantID None \<mapsto> (q, now))\<rparr>)) in
               (case AdminMFA_load rows fl tenantID of
                  Inr q \<Rightarrow> remember q
                | Inl e \<Rightarrow> if e = ErrNoPolicyRow then remember default_admin_policy
                           else (\<lparr>ap_AllowedMethods = [], ap_Source = ''unavailable''\<rparr>, sv)))"

definition AdminMFA_InvalidateCache :: "AdminMFAPolicy policy_service \<Rightarrow> AdminMFAPolicy policy_service" where
  "AdminMFA_InvalidateCache sv = sv\<lparr>sv_cache := Map.empty\<rparr>"

subsection \<open>Who is an administrator\<close>

text \<open>The permissions held through any platform-level role, in any tenant, or granted directly.\<close>

definition held_names :: "int \<Rightarrow> authority_db \<Rightarrow> string list" where
  "held_names uid db =
     map p_name (filter (\<lambda>p. p_application p = None)
       (concat (map (\<lambda>ur. concat (map (\<lambda>r. perms_of_role db (r_id r))
                 (filter (\<lambda>r. r_id r = ur_role ur \<and> r_deleted r = None \<and> r_application r = None) (roles db))))
               (filter (\<lambda>ur. ur_user ur = uid) (user_roles db)))
        @ filter (\<lambda>p. \<exists>up \<in> set (user_permissions db). up_user up = uid \<and> up_permission up = p_id p) (permissions db)))"

definition administratorKind :: "faults \<Rightarrow> int \<Rightarrow> string list \<Rightarrow> authority_db \<Rightarrow> (bool \<times> bool) result" where
  "administratorKind fl uid perms db =
     (if ''tenant:manage'' \<in> set perms then Inr (True, True)
      else if ''admin:access'' \<in> set perms then Inr (True, False)
      else if fl ''check administrator standing'' then Inl (Wrapped ''check administrator standing'')
      else
        let grant = (\<exists>g \<in> set (admin_grants db). g_user g = uid \<and> g_deleted g = None \<and> g_activated g \<noteq> None);
            held = held_names uid db
        in if ''tenant:manage'' \<in> set held then Inr (True, True)
           else Inr (grant \<or> ''admin:access'' \<in> set held, False))"

subsection \<open>Factors of an administrator\<close>

text \<open>\<open>adminMFA\<close>, \<open>totpSvc\<close>, \<open>emailSvc\<close>: whether the service is configured.\<close>

record admin_mfa_env =
  adminMFA :: bool
  totpSvc :: bool
  emailSvc :: bool
  admin_mfa_policies :: "string list policy_row list"

definition AdminMFAPolicyFor ::
  "admin_mfa_env \<Rightarrow> faults \<Rightarrow> time \<Rightarrow> int \<Rightarrow> bool \<Rightarrow> AdminMFAPolicy policy_service \<Rightarrow>
   AdminMFAPolicy \<times> AdminMFAPolicy policy_service" where
  "AdminMFAPolicyFor A fl now tenantID platform sv =
     AdminMFA_Resolve (admin_mfa_policies A) fl now (if platform then 0 else tenantID) sv"

definition adminMethodUsable :: "admin_mfa_env \<Rightarrow> string \<Rightarrow> bool" where
  "adminMethodUsable A m =
     (if m = MFAMethodTOTP then totpSvc A else if m = MFAMethodEmail then emailSvc A else False)"

definition factorActive :: "faults \<Rightarrow> int \<Rightarrow> string \<Rightarrow> mfa_db \<Rightarrow> bool result" where
  "factorActive fl userID m db =
     (if m = MFAMethodTOTP then TOTP_IsActive fl userID db
      else if m = MFAMethodEmail then emailMFAActive fl userID db
      else Inr False)"

text \<open>The identity a passkey ceremony establishes, as far as the requirement looks at it.\<close>

definition requireAdminPasskeyMFA ::
  "admin_mfa_env \<Rightarrow> faults \<Rightarrow> int \<Rightarrow> bool \<Rightarrow> string list \<Rightarrow> authority_db \<Rightarrow> unit result" where
  "requireAdminPasskeyMFA A fl userID userVerified perms db =
     (if \<not> adminMFA A then Inr ()
      else case administratorKind fl userID perms db of
             Inl e \<Rightarrow> Inl e
           | Inr (admin, _) \<Rightarrow> if admin \<and> \<not> userVerified then Inl ErrUserVerificationRequired else Inr ())"

record MFAMethodStatus =
  ms_Method :: string
  ms_Allowed :: bool
  ms_Available :: bool
  ms_Active :: bool
  ms_BackupCodesRemaining :: int

record MFAStatus =
  MFARequired :: bool
  PolicySource :: string
  ms_Methods :: "MFAMethodStatus list"

definition method_status ::
  "admin_mfa_env \<Rightarrow> faults \<Rightarrow> int \<Rightarrow> AdminMFAPolicy option \<Rightarrow> mfa_db \<Rightarrow> string \<Rightarrow> MFAMethodStatus result" where
  "method_status A fl userID policy db m =
     (let st = \<lparr>ms_Method = m, ms_Allowed = (case policy of None \<Rightarrow> True | Some p \<Rightarrow> AdminMFAPolicy_Allows p m),
                ms_Available = adminMethodUsable A m, ms_Active = False, ms_BackupCodesRemaining = 0\<rparr> in
      if \<not> adminMethodUsable A m then Inr st
      else if m = MFAMethodTOTP then
        (case Status fl userID db of
           Inl e \<Rightarrow> Inl e
         | Inr ts \<Rightarrow> Inr (st\<lparr>ms_Active := st_Active ts,
                              ms_BackupCodesRemaining := (if st_Active ts then st_BackupCodesRemaining ts else 0)\<rparr>))
      else if m = MFAMethodEmail then
        (case emailMFAActive fl userID db of Inl e \<Rightarrow> Inl e | Inr active \<Rightarrow> Inr (st\<lparr>ms_Active := active\<rparr>))
      else Inr st)"

fun collect_status :: "(string \<Rightarrow> MFAMethodStatus result) \<Rightarrow> string list \<Rightarrow> MFAMethodStatus list result" where
  "collect_status f [] = Inr []"
| "collect_status f (m # ms) =
     (case f m of
        Inl e \<Rightarrow> Inl e
      | Inr st \<Rightarrow> (case collect_status f ms of Inl e \<Rightarrow> Inl e | Inr sts \<Rightarrow> Inr (st # sts)))"

definition MyMFAStatus ::
  "admin_mfa_env \<Rightarrow> faults \<Rightarrow> time \<Rightarrow> int \<Rightarrow> int \<Rightarrow> string list \<Rightarrow> authority_db \<Rightarrow> mfa_db \<Rightarrow> AdminMFAPolicy policy_service \<Rightarrow>
   MFAStatus result \<times> AdminMFAPolicy policy_service" where
  "MyMFAStatus A fl now userID tenantID perms adb db sv =
     (case (if adminMFA A then administratorKind fl userID perms adb else Inr (False, False)) of
        Inl e \<Rightarrow> (Inl e, sv)
      | Inr (admin, platform) \<Rightarrow>
          (case (if admin then (case AdminMFAPolicyFor A fl now tenantID platform sv of (p, sv1) \<Rightarrow> (Some p, sv1)) else (None, sv)) of
             (policy, sv1) \<Rightarrow>
               (case collect_status (method_status A fl userID policy db) AdminMFAMethods of
                  Inl e \<Rightarrow> (Inl e, sv1)
                | Inr sts \<Rightarrow> (Inr \<lparr>MFARequired = admin, PolicySource = (case policy of None \<Rightarrow> [] | Some p \<Rightarrow> ap_Source p),
                                  ms_Methods = sts\<rparr>, sv1))))"

definition AdminMethodEnrollable ::
  "admin_mfa_env \<Rightarrow> faults \<Rightarrow> time \<Rightarrow> int \<Rightarrow> int \<Rightarrow> string list \<Rightarrow> string \<Rightarrow> authority_db \<Rightarrow> AdminMFAPolicy policy_service \<Rightarrow>
   unit result \<times> AdminMFAPolicy policy_service" where
  "AdminMethodEnrollable A fl now userID tenantID perms m adb sv =
     (if \<not> adminMFA A then (Inr (), sv)
      else case administratorKind fl userID perms adb of
             Inl e \<Rightarrow> (Inl e, sv)
           | Inr (admin, platform) \<Rightarrow>
               if \<not> admin then (Inr (), sv)
               else (case AdminMFAPolicyFor A fl now tenantID platform sv of
                       (p, sv1) \<Rightarrow> (if AdminMFAPolicy_Allows p m then Inr () else Inl ErrAdminMFAMethodNotAllowed, sv1)))"

definition adminFactorRemovalLockKey :: "64 word \<Rightarrow> 64 word \<Rightarrow> 32 word \<times> 32 word" where
  "adminFactorRemovalLockKey userID tenantID =
     (case sessionCapLockKey userID tenantID of (a, b) \<Rightarrow> (a, xor b 0x4d4641))"

fun other_factor_loop ::
  "admin_mfa_env \<Rightarrow> faults \<Rightarrow> int \<Rightarrow> string \<Rightarrow> mfa_db \<Rightarrow> string list \<Rightarrow> unit result" where
  "other_factor_loop A fl userID removed db [] = Inl ErrMFARequiredByPolicy"
| "other_factor_loop A fl userID removed db (m # ms) =
     (if m = removed \<or> \<not> adminMethodUsable A m then other_factor_loop A fl userID removed db ms
      else case factorActive fl userID m db of
             Inl e \<Rightarrow> Inl e
           | Inr active \<Rightarrow> if active then Inr () else other_factor_loop A fl userID removed db ms)"

definition AdminFactorRemovalAllowed ::
  "admin_mfa_env \<Rightarrow> faults \<Rightarrow> time \<Rightarrow> int \<Rightarrow> int \<Rightarrow> string list \<Rightarrow> string \<Rightarrow> authority_db \<Rightarrow> mfa_db \<Rightarrow>
   AdminMFAPolicy policy_service \<Rightarrow> unit result \<times> AdminMFAPolicy policy_service" where
  "AdminFactorRemovalAllowed A fl now userID tenantID perms m adb db sv =
     (if \<not> adminMFA A then (Inr (), sv)
      else case administratorKind fl userID perms adb of
             Inl e \<Rightarrow> (Inl e, sv)
           | Inr (admin, platform) \<Rightarrow>
               if \<not> admin then (Inr (), sv)
               else (case AdminMFAPolicyFor A fl now tenantID platform sv of
                       (p, sv1) \<Rightarrow> (other_factor_loop A fl userID m db (ap_AllowedMethods p), sv1)))"

subsection \<open>A removal leaves a factor that counts\<close>

lemma other_factor_loop_InrD:
  assumes "other_factor_loop A fl u removed db ms = Inr ()"
  shows "\<exists>m \<in> set ms. m \<noteq> removed \<and> adminMethodUsable A m \<and> factorActive fl u m db = Inr True"
  using assms by (induction ms) (auto split: if_splits sum.splits)

lemma other_factor_loop_InlD:
  assumes "other_factor_loop A fl u removed db ms = Inl e" "\<And>m e. factorActive fl u m db \<noteq> Inl e"
  shows "e = ErrMFARequiredByPolicy \<and> (\<forall>m \<in> set ms. m \<noteq> removed \<longrightarrow> adminMethodUsable A m \<longrightarrow> factorActive fl u m db = Inr False)"
  using assms by (induction ms) (auto split: if_splits sum.splits)

lemma factorActive_True:
  "factorActive fl u m db = Inr True \<longleftrightarrow>
     (m = MFAMethodTOTP \<and> \<not> fl ''check TOTP active'' \<and> (\<exists>r. totp_secrets db u = Some r \<and> ts_active r)
      \<or> m = MFAMethodEmail \<and> \<not> fl ''check email MFA active'' \<and> (\<exists>r. email_mfa_settings db u = Some r \<and> em_active r))"
  by (auto simp: factorActive_def TOTP_IsActive_def emailMFAActive_def mfa_names split: option.splits)

text \<open>Taking a factor away.\<close>

definition remove_factor :: "string \<Rightarrow> int \<Rightarrow> mfa_db \<Rightarrow> mfa_db" where
  "remove_factor m u db = (if m = MFAMethodTOTP then set_totp u None db else set_email u None db)"

text \<open>
  C7: an administrator who passes the removal check can still sign in. When the removal of a factor is allowed
  to an administrator, another factor stays active after it that the resolved policy accepts and the deployment
  can run; and while the policy cannot be read (nothing fresh in the cache, the query failing) every removal is
  refused, nothing is cached, and the policy allows no method.
\<close>

theorem admin_keeps_usable_factor:
  assumes on: "adminMFA A" and admin: "administratorKind fl u perms adb = Inr (True, platform)"
    and run: "AdminFactorRemovalAllowed A fl now u t perms m adb db sv = (x, sv')" and m: "m \<in> set AdminMFAMethods"
    and p: "AdminMFAPolicyFor A fl now t platform sv = (p, sv1)"
  shows "(x = Inr () \<longrightarrow> (\<exists>m' \<in> set (ap_AllowedMethods p). m' \<noteq> m \<and> adminMethodUsable A m'
           \<and> factorActive no_faults u m' (remove_factor m u db) = Inr True))
    \<and> (sv_pool sv \<longrightarrow> fl ''load admin MFA policy'' \<longrightarrow> cache_lookup now (if platform then 0 else t) None sv = None \<longrightarrow>
         ap_AllowedMethods p = [] \<and> x = Inl ErrMFARequiredByPolicy \<and> sv' = sv)"
proof -
  have x: "x = other_factor_loop A fl u m db (ap_AllowedMethods p)" "sv' = sv1"
    using run p by (auto simp: AdminFactorRemovalAllowed_def on admin)
  have "\<exists>m' \<in> set (ap_AllowedMethods p). m' \<noteq> m \<and> adminMethodUsable A m'
      \<and> factorActive no_faults u m' (remove_factor m u db) = Inr True" if "x = Inr ()"
  proof -
    from that x(1) have "other_factor_loop A fl u m db (ap_AllowedMethods p) = Inr ()" by simp
    from other_factor_loop_InrD [OF this] obtain m' where m': "m' \<in> set (ap_AllowedMethods p)" "m' \<noteq> m"
      "adminMethodUsable A m'" "factorActive fl u m' db = Inr True" by blast
    then have "factorActive no_faults u m' (remove_factor m u db) = Inr True"
      using m unfolding factorActive_True by (auto simp: remove_factor_def set_totp_def set_email_def AdminMFAMethods_def)
    with m' show ?thesis by blast
  qed
  moreover have "ap_AllowedMethods p = [] \<and> sv1 = sv"
    if "sv_pool sv" "fl ''load admin MFA policy''" "cache_lookup now (if platform then 0 else t) None sv = None"
    using p that by (auto simp: AdminMFAPolicyFor_def AdminMFA_Resolve_def AdminMFA_load_def Let_def)
  ultimately show ?thesis using x by auto
qed

definition sample_admin_env :: admin_mfa_env where
  "sample_admin_env = \<lparr>adminMFA = True, totpSvc = True, emailSvc = True,
     admin_mfa_policies = [\<lparr>pr_tenant = None, pr_app = None, pr_cols = [MFAMethodTOTP, MFAMethodEmail]\<rparr>]\<rparr>"

definition sample_admin_svc :: "AdminMFAPolicy policy_service" where
  "sample_admin_svc = \<lparr>sv_cache = Map.empty, sv_ttl = 60 * Second, sv_pool = True\<rparr>"

definition no_authority :: authority_db where
  "no_authority = \<lparr>users = [], tenants = [], roles = [], permissions = [], role_permissions = [], user_roles = [],
     user_permissions = [], admin_grants = [], tenant_admins = [], app_scopes = []\<rparr>"

definition sample_factors :: mfa_db where
  "sample_factors = \<lparr>totp_secrets = [7 \<mapsto> \<lparr>ts_tenant = 3, secret_enc = [], ts_active = True, backup_codes = []\<rparr>],
     email_mfa_settings = [7 \<mapsto> \<lparr>em_tenant = 3, em_active = True\<rparr>], application_mfa_settings = Map.empty,
     webauthn_credentials = []\<rparr>"

lemma admin_keeps_usable_factor_witness:
  "fst (AdminFactorRemovalAllowed sample_admin_env no_faults 0 7 3 [''admin:access''] ''totp'' no_authority sample_factors sample_admin_svc) = Inr ()
   \<and> (\<exists>m' \<in> set (ap_AllowedMethods (fst (AdminMFAPolicyFor sample_admin_env no_faults 0 3 False sample_admin_svc))).
        m' \<noteq> ''totp'' \<and> factorActive no_faults 7 m' (remove_factor ''totp'' 7 sample_factors) = Inr True)"
proof -
  let ?perms = "[''admin:access'']"
  have on: "adminMFA sample_admin_env" and a: "administratorKind no_faults 7 ?perms no_authority = Inr (True, False)" by code_simp+
  have r: "fst (AdminFactorRemovalAllowed sample_admin_env no_faults 0 7 3 ?perms ''totp'' no_authority sample_factors sample_admin_svc) = Inr ()"
    by code_simp
  then obtain sv' where run: "AdminFactorRemovalAllowed sample_admin_env no_faults 0 7 3 ?perms ''totp'' no_authority sample_factors sample_admin_svc = (Inr (), sv')"
    by (metis prod.collapse)
  have m: "''totp'' \<in> set AdminMFAMethods" by code_simp
  from admin_keeps_usable_factor [OF on a run m prod.collapse [symmetric]] r show ?thesis by auto
qed

end
