(* ===== verification/Json.thy ===== *)
theory Json
  imports Encoding
begin

text \<open>
  The part of Go's \<^verbatim>\<open>encoding/json\<close> that the server stores its short-lived state with: the compact text
  \<^verbatim>\<open>json.Marshal\<close> writes for objects, arrays, strings, 64-bit integers, booleans and null, and a reader for
  that text. Strings are byte lists. The writer escapes as the library does: quote, backslash, the control
  characters, and the three characters special to HTML; the reader knows the compact text the writer makes.
\<close>

datatype json = JNull | JBool bool | JNum int | JStr string | JArr "json list" | JObj "(string \<times> json) list"

subsection \<open>Writing\<close>

abbreviation quote_char :: char where "quote_char \<equiv> char_of (34 :: nat)"
abbreviation backslash :: char where "backslash \<equiv> char_of (92 :: nat)"

definition short_escapes :: "(nat \<times> nat) list" where
  "short_escapes = [(34, 34), (92, 92), (8, 98), (12, 102), (10, 110), (13, 114), (9, 116)]"

definition escape_char :: "char \<Rightarrow> string" where
  "escape_char c =
     (let n = (of_char c :: nat) in
      case map_of short_escapes n of
        Some e \<Rightarrow> [backslash, char_of e]
      | None \<Rightarrow> if n < 32 \<or> n = 60 \<or> n = 62 \<or> n = 38
                then [backslash, CHR ''u'', CHR ''0'', CHR ''0'', hex_char (n div 16), hex_char (n mod 16)]
                else [c])"

definition quote :: "string \<Rightarrow> string" where
  "quote s = quote_char # concat (map escape_char s) @ [quote_char]"

fun comma_sep :: "string list \<Rightarrow> string" where
  "comma_sep [] = []"
| "comma_sep [s] = s"
| "comma_sep (s # ss) = s @ CHR '','' # comma_sep ss"

fun print_json :: "json \<Rightarrow> string" where
  "print_json JNull = ''null''"
| "print_json (JBool b) = (if b then ''true'' else ''false'')"
| "print_json (JNum i) = FormatInt i"
| "print_json (JStr s) = quote s"
| "print_json (JArr vs) = CHR ''['' # comma_sep (map print_json vs) @ '']''"
| "print_json (JObj kvs) = CHR ''{'' # comma_sep (map (\<lambda>(k, v). quote k @ CHR '':'' # print_json v) kvs) @ ''}''"

subsection \<open>Reading\<close>

definition unescape :: "char \<Rightarrow> char option" where
  "unescape e = map_option char_of (map_of (map prod.swap short_escapes) (of_char e))"

definition unescape_hex :: "char \<Rightarrow> char \<Rightarrow> char \<Rightarrow> char \<Rightarrow> char option" where
  "unescape_hex a b c d =
     (case (char_hex a, char_hex b, char_hex c, char_hex d) of
        (Some 0, Some 0, Some x, Some y) \<Rightarrow> if 16 * x + y < 128 then Some (char_of (16 * x + y)) else None
      | _ \<Rightarrow> None)"

definition prepend :: "char \<Rightarrow> (string \<times> string) option \<Rightarrow> (string \<times> string) option" where
  "prepend c r = map_option (\<lambda>(s, rest). (c # s, rest)) r"

fun parse_str :: "string \<Rightarrow> (string \<times> string) option" where
  "parse_str [] = None"
| "parse_str (c # cs) =
     (if c = quote_char then Some ([], cs)
      else if c = backslash then
        (case cs of
           [] \<Rightarrow> None
         | e # r \<Rightarrow>
             if e = CHR ''u'' then
               (case r of
                  h1 # h2 # h3 # h4 # r' \<Rightarrow>
                    (case unescape_hex h1 h2 h3 h4 of None \<Rightarrow> None | Some d \<Rightarrow> prepend d (parse_str r'))
                | _ \<Rightarrow> None)
             else (case unescape e of None \<Rightarrow> None | Some d \<Rightarrow> prepend d (parse_str r)))
      else if (of_char c :: nat) < 32 then None
      else prepend c (parse_str cs))"

definition num_char :: "char \<Rightarrow> bool" where
  "num_char c \<longleftrightarrow> is_digit c \<or> c = CHR ''-''"

definition parse_num :: "string \<Rightarrow> (json \<times> string) option" where
  "parse_num s = map_option (\<lambda>i. (JNum i, dropWhile num_char s)) (ParseInt (takeWhile num_char s))"

definition parse_literal :: "string \<Rightarrow> (json \<times> string) option" where
  "parse_literal s =
     (if HasPrefix s ''null'' then Some (JNull, drop 4 s)
      else if HasPrefix s ''true'' then Some (JBool True, drop 4 s)
      else if HasPrefix s ''false'' then Some (JBool False, drop 5 s)
      else parse_num s)"

text \<open>The fuel bounds the nesting and the length of what is read; the length of the text is enough.\<close>

fun parse_val :: "nat \<Rightarrow> string \<Rightarrow> (json \<times> string) option"
  and parse_arr :: "nat \<Rightarrow> string \<Rightarrow> (json list \<times> string) option"
  and parse_obj :: "nat \<Rightarrow> string \<Rightarrow> ((string \<times> json) list \<times> string) option" where
  "parse_val 0 s = None"
| "parse_val (Suc n) s =
     (case s of
        [] \<Rightarrow> None
      | c # cs \<Rightarrow>
          if c = quote_char then map_option (\<lambda>(t, r). (JStr t, r)) (parse_str cs)
          else if c = CHR ''['' then
            (case cs of
               [] \<Rightarrow> None
             | d # r \<Rightarrow> if d = CHR '']'' then Some (JArr [], r)
                        else map_option (\<lambda>(vs, r). (JArr vs, r)) (parse_arr n cs))
          else if c = CHR ''{'' then
            (case cs of
               [] \<Rightarrow> None
             | d # r \<Rightarrow> if d = CHR ''}'' then Some (JObj [], r)
                        else map_option (\<lambda>(kvs, r). (JObj kvs, r)) (parse_obj n cs))
          else parse_literal s)"
| "parse_arr 0 s = None"
| "parse_arr (Suc n) s =
     (case parse_val n s of
        Some (v, c # r) \<Rightarrow>
          if c = CHR '']'' then Some ([v], r)
          else if c = CHR '','' then map_option (\<lambda>(vs, r). (v # vs, r)) (parse_arr n r)
          else None
      | _ \<Rightarrow> None)"
| "parse_obj 0 s = None"
| "parse_obj (Suc n) s =
     (case s of
        [] \<Rightarrow> None
      | q # cs \<Rightarrow>
          if q \<noteq> quote_char then None
          else case parse_str cs of
                 Some (k, c # r) \<Rightarrow>
                   if c \<noteq> CHR '':'' then None
                   else (case parse_val n r of
                           Some (v, d # r') \<Rightarrow>
                             if d = CHR ''}'' then Some ([(k, v)], r')
                             else if d = CHR '','' then map_option (\<lambda>(kvs, r). ((k, v) # kvs, r)) (parse_obj n r')
                             else None
                         | _ \<Rightarrow> None)
               | _ \<Rightarrow> None)"

definition parse_json :: "string \<Rightarrow> json option" where
  "parse_json s = (case parse_val (length s) s of Some (v, []) \<Rightarrow> Some v | _ \<Rightarrow> None)"

subsection \<open>Reading back what was written\<close>

text \<open>
  The values whose text the model writes exactly as Go does: 64-bit integers, and ASCII strings (beyond
  ASCII the library also replaces invalid UTF-8 and escapes two separators).
\<close>

definition ascii :: "string \<Rightarrow> bool" where
  "ascii s \<longleftrightarrow> list_all (\<lambda>c. (of_char c :: nat) < 128) s"

fun json_ok :: "json \<Rightarrow> bool" where
  "json_ok JNull = True"
| "json_ok (JBool b) = True"
| "json_ok (JNum i) = int64_range i"
| "json_ok (JStr s) = ascii s"
| "json_ok (JArr vs) = list_all json_ok vs"
| "json_ok (JObj kvs) = list_all (\<lambda>(k, v). ascii k \<and> json_ok v) kvs"

lemma quote_char_CHR: "quote_char = CHR 0x22"
  by code_simp

lemma parse_str_short: "e \<noteq> CHR ''u'' \<Longrightarrow> unescape e = Some d \<Longrightarrow> parse_str (backslash # e # s) = prepend d (parse_str s)"
  by (subst parse_str.simps) simp

lemma parse_str_hex:
  "unescape_hex h1 h2 h3 h4 = Some d \<Longrightarrow> parse_str (backslash # CHR ''u'' # h1 # h2 # h3 # h4 # s) = prepend d (parse_str s)"
  by (subst parse_str.simps) simp

lemma parse_str_plain:
  "c \<noteq> quote_char \<Longrightarrow> c \<noteq> backslash \<Longrightarrow> 32 \<le> (of_char c :: nat) \<Longrightarrow> parse_str (c # s) = prepend c (parse_str s)"
  by (subst parse_str.simps) simp

lemma parse_str_end: "parse_str (quote_char # r) = Some ([], r)"
  by (subst parse_str.simps) simp

declare parse_str.simps [simp del]

lemma char_of_not_u: "e < 117 \<Longrightarrow> char_of (e :: nat) \<noteq> CHR ''u''"
proof
  assume "e < 117" "char_of e = CHR ''u''"
  then have "(of_char (char_of e) :: nat) = of_char (CHR ''u'')" by simp
  with \<open>e < 117\<close> show False by simp
qed

lemma short_escape:
  assumes "(n, e) \<in> set short_escapes"
  shows "escape_char (char_of n) = [backslash, char_of e]" "char_of e \<noteq> CHR ''u''" "unescape (char_of e) = Some (char_of n)"
proof -
  have "e < 117" using assms by (auto simp: short_escapes_def)
  then show "char_of e \<noteq> CHR ''u''" by (rule char_of_not_u)
  show "escape_char (char_of n) = [backslash, char_of e]"
    using assms by (auto simp: escape_char_def short_escapes_def)
  show "unescape (char_of e) = Some (char_of n)"
    using assms by (auto simp: unescape_def short_escapes_def)
qed

lemma parse_escape_char: "parse_str (escape_char c @ s) = prepend c (parse_str s)"
proof (cases "map_of short_escapes (of_char c :: nat)")
  case (Some e)
  then have "(of_char c, e) \<in> set short_escapes" by (rule map_of_SomeD)
  from short_escape [OF this] show ?thesis by (simp add: parse_str_short)
next
  case None
  define n where "n = (of_char c :: nat)"
  have c: "c = char_of n" by (simp add: n_def)
  show ?thesis
  proof (cases "n < 32 \<or> n = 60 \<or> n = 62 \<or> n = 38")
    case True
    then have "n < 128" by auto
    then have "unescape_hex (CHR ''0'') (CHR ''0'') (hex_char (n div 16)) (hex_char (n mod 16)) = Some c"
      by (simp add: unescape_hex_def char_hex_hex_char char_hex_0 c)
    with None True show ?thesis unfolding n_def by (simp add: escape_char_def Let_def parse_str_hex)
  next
    case False
    have "c \<noteq> quote_char" "c \<noteq> backslash" using None by (auto simp: short_escapes_def)
    with None False show ?thesis unfolding n_def by (simp add: escape_char_def Let_def parse_str_plain)
  qed
qed

lemma parse_str_quote: "parse_str (concat (map escape_char s) @ quote_char # r) = Some (s, r)"
  by (induction s) (simp_all add: parse_escape_char parse_str_end prepend_def)

text \<open>What may follow a value inside a text: the end, or a character that ends a number.\<close>

definition ends :: "string \<Rightarrow> bool" where
  "ends r \<longleftrightarrow> (case r of [] \<Rightarrow> True | c # _ \<Rightarrow> \<not> num_char c)"

lemma num_char_FormatInt: "list_all num_char (FormatInt i)"
proof -
  have "num_char c" if "c \<in> set (dec_digits n)" for c n
    using set_dec_digits [OF that] by (auto simp: num_char_def is_digit_def in_range_def of_char_digit_char)
  then show ?thesis by (auto simp: FormatInt_def list_all_iff num_char_def)
qed

lemma parse_num_FormatInt:
  assumes "int64_range i" "ends r"
  shows "parse_num (FormatInt i @ r) = Some (JNum i, r)"
proof -
  have "takeWhile num_char (FormatInt i @ r) = FormatInt i" "dropWhile num_char (FormatInt i @ r) = r"
    using num_char_FormatInt [of i] assms(2)
    by (cases r; auto simp: ends_def list_all_iff takeWhile_append dropWhile_append)+
  then show ?thesis using ParseInt_FormatInt [OF assms(1)] by (simp add: parse_num_def)
qed

lemma FormatInt_hd: "\<exists>c cs. FormatInt i = c # cs \<and> num_char c"
  using num_char_FormatInt [of i] by (cases "FormatInt i") auto

text \<open>The text of a list of values, read from its first element up to the closing character.\<close>

lemma comma_sep_Cons: "comma_sep (s # ss) = (if ss = [] then s else s @ CHR '','' # comma_sep ss)"
  by (cases ss) simp_all

lemma length_comma_sep: "length (concat ss) + length ss \<le> Suc (length (comma_sep ss))"
  by (induction ss) (auto simp: comma_sep_Cons)

lemma ends_simps [simp]: "ends []" "ends (CHR '','' # r)" "ends (CHR '']'' # r)" "ends (CHR ''}'' # r)"
  by (simp_all add: ends_def num_char_def is_digit_def in_range_def)

fun jneed :: "json \<Rightarrow> nat" where
  "jneed (JArr vs) = Suc (length vs + sum_list (map jneed vs))"
| "jneed (JObj kvs) = Suc (length kvs + sum_list (map (\<lambda>(k, v). jneed v) kvs))"
| "jneed _ = 1"

lemma parse_arr_print:
  assumes "\<And>v n r. v \<in> set vs \<Longrightarrow> jneed v \<le> n \<Longrightarrow> ends r \<Longrightarrow> parse_val n (print_json v @ r) = Some (v, r)"
    and "vs \<noteq> []" "length vs + sum_list (map jneed vs) \<le> n"
  shows "parse_arr n (comma_sep (map print_json vs) @ CHR '']'' # r) = Some (vs, r)"
  using assms
proof (induction vs arbitrary: n)
  case (Cons v vs)
  then obtain m where n: "n = Suc m" by (cases n) auto
  show ?case
  proof (cases "vs = []")
    case True
    then show ?thesis using Cons.prems(3) by (simp add: n Cons.prems(1))
  next
    case False
    then have "parse_arr m (comma_sep (map print_json vs) @ CHR '']'' # r) = Some (vs, r)"
      using Cons.prems n by (intro Cons.IH) auto
    moreover have "jneed v \<le> m" using Cons.prems(3) n by simp
    ultimately show ?thesis using False by (simp add: n comma_sep_Cons Cons.prems(1))
  qed
qed simp

lemma parse_obj_print:
  assumes "\<And>k v n r. (k, v) \<in> set kvs \<Longrightarrow> jneed v \<le> n \<Longrightarrow> ends r \<Longrightarrow> parse_val n (print_json v @ r) = Some (v, r)"
    and "kvs \<noteq> []" "length kvs + sum_list (map (\<lambda>(k, v). jneed v) kvs) \<le> n"
  shows "parse_obj n (comma_sep (map (\<lambda>(k, v). quote k @ CHR '':'' # print_json v) kvs) @ CHR ''}'' # r) = Some (kvs, r)"
  using assms
proof (induction kvs arbitrary: n)
  case (Cons kv kvs)
  obtain k v where kv: "kv = (k, v)" by (cases kv)
  from Cons obtain m where n: "n = Suc m" by (cases n) auto
  have v: "parse_val m (print_json v @ r) = Some (v, r)" if "ends r" for r
    using Cons.prems(1) [of k v m r] Cons.prems(3) that by (simp add: kv n)
  show ?case
  proof (cases "kvs = []")
    case True
    then show ?thesis by (simp add: n kv quote_def parse_str_quote v)
  next
    case False
    then have "parse_obj m (comma_sep (map (\<lambda>(k, v). quote k @ CHR '':'' # print_json v) kvs) @ CHR ''}'' # r) = Some (kvs, r)"
      using Cons.prems n kv by (intro Cons.IH) auto
    then show ?thesis using False by (simp add: n kv comma_sep_Cons quote_def parse_str_quote v)
  qed
qed simp

lemma print_json_hd: "\<exists>c cs. print_json v = c # cs \<and> c \<noteq> CHR '']''"
proof (cases v)
  case (JNum i)
  then show ?thesis using FormatInt_hd [of i] by (auto simp: num_char_def is_digit_def in_range_def)
qed (simp_all add: quote_def quote_char_CHR)

lemma comma_sep_hd: "s = c # cs \<Longrightarrow> \<exists>cs'. comma_sep (s # ss) = c # cs'"
  by (auto simp: comma_sep_Cons)

lemma parse_literal_num:
  assumes "int64_range i" "ends r"
  shows "parse_val (Suc n) (FormatInt i @ r) = Some (JNum i, r)"
proof -
  obtain c cs where c: "FormatInt i = c # cs" "num_char c" using FormatInt_hd by blast
  then have "c \<noteq> quote_char" "c \<notin> {CHR ''['', CHR ''{'', CHR ''n'', CHR ''t'', CHR ''f''}"
    by (auto simp: num_char_def is_digit_def in_range_def quote_char_CHR)
  then show ?thesis
    using parse_num_FormatInt [OF assms] c(1) by (auto simp: parse_literal_def HasPrefix_def prefix_def)
qed

lemma parse_print:
  "json_ok v \<Longrightarrow> jneed v \<le> n \<Longrightarrow> ends r \<Longrightarrow> parse_val n (print_json v @ r) = Some (v, r)"
proof (induction v arbitrary: n r)
  case (JNum i)
  then show ?case by (cases n) (simp_all add: parse_literal_num del: parse_val.simps(2))
next
  case (JStr s)
  then show ?case by (cases n) (simp_all add: quote_def parse_str_quote)
next
  case (JArr vs)
  from JArr.prems obtain m where n: "n = Suc m" "length vs + sum_list (map jneed vs) \<le> m" by (cases n) auto
  show ?case
  proof (cases vs)
    case (Cons v ws)
    have "parse_arr m (comma_sep (map print_json vs) @ CHR '']'' # r) = Some (vs, r)"
      using JArr n(2) Cons by (intro parse_arr_print) (auto simp: list_all_iff)
    moreover obtain c cs where "comma_sep (map print_json vs) = c # cs" "c \<noteq> CHR '']''"
      using print_json_hd [of v] comma_sep_hd Cons by (metis list.simps(9))
    ultimately show ?thesis by (simp add: n(1) quote_char_CHR)
  qed (simp add: n(1) quote_char_CHR)
next
  case (JObj kvs)
  from JObj.prems obtain m where n: "n = Suc m" "length kvs + sum_list (map (\<lambda>(k, v). jneed v) kvs) \<le> m" by (cases n) auto
  show ?case
  proof (cases kvs)
    case (Cons kv ws)
    have "parse_obj m (comma_sep (map (\<lambda>(k, v). quote k @ CHR '':'' # print_json v) kvs) @ CHR ''}'' # r) = Some (kvs, r)"
      using JObj n(2) Cons by (intro parse_obj_print) (fastforce simp: list_all_iff)+
    moreover have "\<exists>cs. comma_sep (map (\<lambda>(k, v). quote k @ CHR '':'' # print_json v) kvs) = quote_char # cs"
      unfolding Cons list.map by (rule comma_sep_hd) (simp add: case_prod_beta quote_def)
    ultimately show ?thesis by (auto simp: n(1) quote_char_CHR)
  qed (simp add: n(1) quote_char_CHR)
qed (case_tac n; simp add: parse_literal_def HasPrefix_def quote_char_CHR)+

text \<open>The text is at least as long as the fuel its reader needs.\<close>

lemma sum_list_le_concat:
  "(\<And>x. x \<in> set xs \<Longrightarrow> f x \<le> length (g x)) \<Longrightarrow> sum_list (map f xs) \<le> length (concat (map g xs))"
  by (induction xs) (auto simp: add_mono)

lemma jneed_length: "jneed v \<le> length (print_json v)"
proof (induction v)
  case (JNum i)
  then show ?case using FormatInt_hd [of i] by (auto simp: Suc_le_eq)
next
  case (JArr vs)
  have "sum_list (map jneed vs) \<le> length (concat (map print_json vs))" by (rule sum_list_le_concat) (rule JArr)
  then show ?case using length_comma_sep [of "map print_json vs"] by simp
next
  case (JObj kvs)
  let ?p = "\<lambda>(k, v). quote k @ CHR '':'' # print_json v"
  have "sum_list (map (\<lambda>(k, v). jneed v) kvs) \<le> length (concat (map ?p kvs))"
  proof (rule sum_list_le_concat)
    fix kv assume "kv \<in> set kvs"
    moreover obtain k v where "kv = (k, v)" by (cases kv)
    ultimately show "(case kv of (k, v) \<Rightarrow> jneed v) \<le> length (?p kv)"
      using JObj [of kv v] by auto
  qed
  then show ?case using length_comma_sep [of "map ?p kvs"] by simp
qed (auto simp: quote_def)

theorem parse_json_print: "json_ok v \<Longrightarrow> parse_json (print_json v) = Some v"
  using parse_print [of v "length (print_json v)" "[]"] jneed_length [of v] by (simp add: parse_json_def)

end
