(* ===== verification/OtpSession.thy ===== *)
theory OtpSession
  imports AdminMfa Json Mint
begin

text \<open>
  The state kept in Redis between the password and the second factor (\<^verbatim>\<open>OTPSession\<close> of
  \<^verbatim>\<open>internal/auth/totp.go\<close>, and the helpers around it in \<^verbatim>\<open>internal/auth/service.go\<close>): how it is stored and read
  back, its attempt counter, its emailed code, and its removal.

  The session is stored as the JSON text of the struct. A nil slice of permissions or methods, which Go
  writes as \<^verbatim>\<open>null\<close>, is an empty list here, and reads back as one either way; for the role scope the
  difference matters and \<open>None\<close> is the nil slice. Keys are matched exactly.
\<close>

record OTPSession =
  os_UserID :: int
  os_TenantID :: int
  os_Email :: string
  os_RoleName :: string
  os_Perms :: "string list"
  os_ActiveRoles :: "string list option"
  os_AppID :: string
  os_Methods :: "string list"
  os_Persistent :: bool
  os_OrgRequest :: string
  os_SkipOrganization :: bool

definition str_slice :: "string list \<Rightarrow> json" where
  "str_slice xs = JArr (map JStr xs)"

definition otp_json :: "OTPSession \<Rightarrow> json" where
  "otp_json s =
     JObj ([(''UserID'', JNum (os_UserID s)), (''TenantID'', JNum (os_TenantID s)), (''Email'', JStr (os_Email s)),
            (''RoleName'', JStr (os_RoleName s)), (''Perms'', str_slice (os_Perms s)),
            (''ActiveRoles'', case os_ActiveRoles s of None \<Rightarrow> JNull | Some rs \<Rightarrow> str_slice rs),
            (''AppID'', JStr (os_AppID s)), (''Methods'', str_slice (os_Methods s)), (''Persistent'', JBool (os_Persistent s))]
           @ (if os_OrgRequest s = [] then [] else [(''OrgRequest'', JStr (os_OrgRequest s))])
           @ (if os_SkipOrganization s then [(''SkipOrganization'', JBool True)] else []))"

text \<open>Decoding one field: absent and \<^verbatim>\<open>null\<close> leave the zero value, another kind of value is an error.\<close>

definition field_int :: "(string \<times> json) list \<Rightarrow> string \<Rightarrow> int option" where
  "field_int kvs k = (case map_of kvs k of None \<Rightarrow> Some 0 | Some JNull \<Rightarrow> Some 0 | Some (JNum i) \<Rightarrow> Some i | _ \<Rightarrow> None)"

definition field_str :: "(string \<times> json) list \<Rightarrow> string \<Rightarrow> string option" where
  "field_str kvs k = (case map_of kvs k of None \<Rightarrow> Some [] | Some JNull \<Rightarrow> Some [] | Some (JStr s) \<Rightarrow> Some s | _ \<Rightarrow> None)"

definition field_bool :: "(string \<times> json) list \<Rightarrow> string \<Rightarrow> bool option" where
  "field_bool kvs k = (case map_of kvs k of None \<Rightarrow> Some False | Some JNull \<Rightarrow> Some False | Some (JBool b) \<Rightarrow> Some b | _ \<Rightarrow> None)"

fun strs_of :: "json list \<Rightarrow> string list option" where
  "strs_of [] = Some []"
| "strs_of (v # vs) =
     (case (v, strs_of vs) of
        (JStr s, Some r) \<Rightarrow> Some (s # r)
      | (JNull, Some r) \<Rightarrow> Some ([] # r)
      | _ \<Rightarrow> None)"

definition field_strs :: "(string \<times> json) list \<Rightarrow> string \<Rightarrow> string list option option" where
  "field_strs kvs k =
     (case map_of kvs k of
        None \<Rightarrow> Some None
      | Some JNull \<Rightarrow> Some None
      | Some (JArr vs) \<Rightarrow> map_option Some (strs_of vs)
      | _ \<Rightarrow> None)"

lemma strs_of_map [simp]: "strs_of (map JStr xs) = Some xs"
  by (induction xs) auto

definition otp_of_json :: "json \<Rightarrow> OTPSession option" where
  "otp_of_json v =
     (case v of
        JObj kvs \<Rightarrow>
          (case (field_int kvs ''UserID'', field_int kvs ''TenantID'', field_str kvs ''Email'', field_str kvs ''RoleName'',
                 field_strs kvs ''Perms'', field_strs kvs ''ActiveRoles'') of
             (Some uid, Some tid, Some email, Some role, Some perms, Some active) \<Rightarrow>
               (case (field_str kvs ''AppID'', field_strs kvs ''Methods'', field_bool kvs ''Persistent'',
                      field_str kvs ''OrgRequest'', field_bool kvs ''SkipOrganization'') of
                  (Some app, Some methods, Some persistent, Some org, Some skip) \<Rightarrow>
                    Some \<lparr>os_UserID = uid, os_TenantID = tid, os_Email = email, os_RoleName = role,
                          os_Perms = (case perms of None \<Rightarrow> [] | Some p \<Rightarrow> p), os_ActiveRoles = active, os_AppID = app,
                          os_Methods = (case methods of None \<Rightarrow> [] | Some m \<Rightarrow> m), os_Persistent = persistent,
                          os_OrgRequest = org, os_SkipOrganization = skip\<rparr>
                | _ \<Rightarrow> None)
           | _ \<Rightarrow> None)
      | JNull \<Rightarrow> Some \<lparr>os_UserID = 0, os_TenantID = 0, os_Email = [], os_RoleName = [], os_Perms = [], os_ActiveRoles = None,
                       os_AppID = [], os_Methods = [], os_Persistent = False, os_OrgRequest = [], os_SkipOrganization = False\<rparr>
      | _ \<Rightarrow> None)"

subsection \<open>Storing and reading\<close>

definition otpSessionKey :: "'r mfa_env \<Rightarrow> string \<Rightarrow> string" where
  "otpSessionKey F token = ''otp:session:'' @ HashToken (fa_auth F) token"

definition mfaEnrollKey :: "'r mfa_env \<Rightarrow> string \<Rightarrow> string" where
  "mfaEnrollKey F token = ''mfa:enroll:'' @ HashToken (fa_auth F) token"

text \<open>\<open>raw\<close> is the token \<^verbatim>\<open>GenerateRefreshToken\<close> draws.\<close>

definition storePreAuthSession ::
  "'r mfa_env \<Rightarrow> faults \<Rightarrow> time \<Rightarrow> string option \<Rightarrow> (string \<Rightarrow> string) \<Rightarrow> duration \<Rightarrow> OTPSession \<Rightarrow>
   'r account_state \<Rightarrow> string result \<times> 'r account_state" where
  "storePreAuthSession F fl now raw keyFn ttl sess st =
     (case raw of
        None \<Rightarrow> (Inl (Wrapped ''generate refresh token''), st)
      | Some token \<Rightarrow>
          if fl ''store pre-auth session'' then (Inl (Wrapped ''store pre-auth session''), st)
          else (Inr token, put_redis (rset (fa_redis F) (as_redis st) now (keyFn token) (print_json (otp_json sess)) ttl) st))"

definition loadOTPSession :: "'r mfa_env \<Rightarrow> faults \<Rightarrow> time \<Rightarrow> string \<Rightarrow> 'r account_state \<Rightarrow> OTPSession result" where
  "loadOTPSession F fl now key st =
     (if fl ''OTP session not found or expired'' then Inl (Wrapped ''OTP session not found or expired'')
      else case rget (fa_redis F) (as_redis st) now key of
             None \<Rightarrow> Inl (Wrapped ''OTP session not found or expired'')
           | Some dat \<Rightarrow> (case Option.bind (parse_json dat) otp_of_json of
                            None \<Rightarrow> Inl (Wrapped ''decode OTP session'')
                          | Some sess \<Rightarrow> Inr sess))"

definition clearOTPSession :: "'r mfa_env \<Rightarrow> faults \<Rightarrow> time \<Rightarrow> string \<Rightarrow> 'r account_state \<Rightarrow> 'r account_state" where
  "clearOTPSession F fl now baseKey st =
     (if fl ''redis del'' then st
      else put_redis (fold (\<lambda>k r. rdel (fa_redis F) r now k)
             [baseKey, baseKey @ '':attempts'', baseKey @ '':email'', baseKey @ '':resend''] (as_redis st)) st)"

definition bumpOTPAttempts ::
  "'r mfa_env \<Rightarrow> faults \<Rightarrow> time \<Rightarrow> string \<Rightarrow> duration \<Rightarrow> 'r account_state \<Rightarrow> unit result \<times> 'r account_state" where
  "bumpOTPAttempts F fl now baseKey ttl st =
     (case bump_counter (fa_redis F) fl now (baseKey @ '':attempts'') (ttl + Minute) (as_redis st) of
        (None, r) \<Rightarrow> (Inl ErrServiceUnavailable, put_redis r st)
      | (Some attempts, r) \<Rightarrow>
          if attempts > MaxOTPAttempts then (Inl ErrTooManyOTPAttempts, clearOTPSession F fl now baseKey (put_redis r st))
          else (Inr (), put_redis r st))"

text \<open>The script compares and deletes in one step.\<close>

definition consumeEmailCode ::
  "'r mfa_env \<Rightarrow> faults \<Rightarrow> time \<Rightarrow> string \<Rightarrow> string \<Rightarrow> 'r account_state \<Rightarrow> bool \<times> 'r account_state" where
  "consumeEmailCode F fl now key code st =
     (if fl ''redis script'' then (False, st)
      else if rget (fa_redis F) (as_redis st) now key = Some (HashToken (fa_auth F) code)
      then (True, put_redis (rdel (fa_redis F) (as_redis st) now key) st)
      else (False, st))"

definition appRowIDFromClaim :: "string \<Rightarrow> int option" where
  "appRowIDFromClaim appID = (if appID = [] then None else ParseInt appID)"

definition appNameByID :: "faults \<Rightarrow> string \<Rightarrow> 'r account_state \<Rightarrow> string" where
  "appNameByID fl appID st =
     (if appID = [] then []
      else case ParseInt appID of
             None \<Rightarrow> []
           | Some i \<Rightarrow> if fl ''app name by id'' then []
                       else (case map_of (bs_apps (as_block st)) i of None \<Rightarrow> [] | Some n \<Rightarrow> n))"

definition pendingSessionScope ::
  "'r mfa_env \<Rightarrow> faults \<Rightarrow> time \<Rightarrow> string \<Rightarrow> 'r account_state \<Rightarrow> (int \<times> int) option" where
  "pendingSessionScope F fl now key st =
     (if \<not> redisCli (fa_auth F) then None
      else case loadOTPSession F fl now key st of
             Inl _ \<Rightarrow> None
           | Inr sess \<Rightarrow> Some (os_TenantID sess, case appRowIDFromClaim (os_AppID sess) of None \<Rightarrow> 0 | Some i \<Rightarrow> i))"

definition OTPSessionScope :: "'r mfa_env \<Rightarrow> faults \<Rightarrow> time \<Rightarrow> string \<Rightarrow> 'r account_state \<Rightarrow> (int \<times> int) option" where
  "OTPSessionScope F fl now token st = pendingSessionScope F fl now (otpSessionKey F token) st"

definition EnrollmentSessionScope :: "'r mfa_env \<Rightarrow> faults \<Rightarrow> time \<Rightarrow> string \<Rightarrow> 'r account_state \<Rightarrow> (int \<times> int) option" where
  "EnrollmentSessionScope F fl now token st = pendingSessionScope F fl now (mfaEnrollKey F token) st"

subsection \<open>The challenges\<close>

record OTPChallenge =
  oc_OTPSessionToken :: string
  oc_Methods :: "string list"
  oc_EmailCodeSent :: bool
  oc_ExpiresIn :: int

record MFAEnrollmentChallenge =
  ec_EnrollmentToken :: string
  ec_AllowedMethods :: "string list"
  ec_ExpiresIn :: int

text \<open>The arguments the password step hands on to whatever completes the login.\<close>

record pending_login =
  pl_userID :: int
  pl_tenantID :: int
  pl_email :: string
  pl_roleName :: string
  pl_perms :: "string list"
  pl_appID :: string
  pl_persistent :: bool
  pl_activeRoles :: "string list option"

definition otp_session :: "pending_login \<Rightarrow> string list \<Rightarrow> orgSessionRequest \<Rightarrow> OTPSession" where
  "otp_session p methods org =
     \<lparr>os_UserID = pl_userID p, os_TenantID = pl_tenantID p, os_Email = pl_email p, os_RoleName = pl_roleName p,
      os_Perms = pl_perms p, os_ActiveRoles = pl_activeRoles p, os_AppID = pl_appID p, os_Methods = methods,
      os_Persistent = pl_persistent p, os_OrgRequest = org_requested org, os_SkipOrganization = org_skip org\<rparr>"

text \<open>\<open>rnd\<close> is the random number of the emailed code.\<close>

definition createOTPSessionWith ::
  "'r mfa_env \<Rightarrow> admin_mfa_env \<Rightarrow> faults \<Rightarrow> time \<Rightarrow> string option \<Rightarrow> nat option \<Rightarrow> pending_login \<Rightarrow> string list \<Rightarrow>
   orgSessionRequest \<Rightarrow> bool \<Rightarrow> 'r account_state \<Rightarrow> OTPChallenge result \<times> 'r account_state" where
  "createOTPSessionWith F A fl now raw rnd p methods org sendEmailNow st =
     (case storePreAuthSession F fl now raw (otpSessionKey F) OTPSessionTTL (otp_session p methods org) st of
        (Inl e, st1) \<Rightarrow> (Inl e, st1)
      | (Inr token, st1) \<Rightarrow>
          let challenge = (\<lambda>sent. \<lparr>oc_OTPSessionToken = token, oc_Methods = methods, oc_EmailCodeSent = sent,
                                   oc_ExpiresIn = whole_seconds OTPSessionTTL\<rparr>) in
          if sendEmailNow \<and> methodAllowed methods MFAMethodEmail \<and> emailSvc A then
            (case mintAndSend F fl now rnd (otpSessionKey F token @ '':email'') (pl_email p) (appNameByID fl (pl_appID p) st1)
                    (pl_tenantID p) (appRowIDFromClaim (pl_appID p)) OTPSessionTTL st1 of
               (Inr _, st2) \<Rightarrow> (Inr (challenge True), st2)
             | (Inl e, st2) \<Rightarrow>
                 if \<not> methodAllowed methods MFAMethodTOTP
                 then (Inl (Wrapped ''send email OTP''), clearOTPSession F fl now (otpSessionKey F token) st2)
                 else (Inr (challenge False), st2))
          else (Inr (challenge False), st1))"

definition createOTPSession ::
  "'r mfa_env \<Rightarrow> admin_mfa_env \<Rightarrow> faults \<Rightarrow> time \<Rightarrow> string option \<Rightarrow> nat option \<Rightarrow> pending_login \<Rightarrow> string list \<Rightarrow>
   orgSessionRequest \<Rightarrow> 'r account_state \<Rightarrow> OTPChallenge result \<times> 'r account_state" where
  "createOTPSession F A fl now raw rnd p methods org st = createOTPSessionWith F A fl now raw rnd p methods org True st"

definition createMFAEnrollmentSession ::
  "'r mfa_env \<Rightarrow> faults \<Rightarrow> time \<Rightarrow> string option \<Rightarrow> pending_login \<Rightarrow> string list \<Rightarrow> orgSessionRequest \<Rightarrow>
   'r account_state \<Rightarrow> MFAEnrollmentChallenge result \<times> 'r account_state" where
  "createMFAEnrollmentSession F fl now raw p allowedMethods org st =
     (case storePreAuthSession F fl now raw (mfaEnrollKey F) MFAEnrollmentSessionTTL (otp_session p allowedMethods org) st of
        (Inl e, st1) \<Rightarrow> (Inl e, st1)
      | (Inr token, st1) \<Rightarrow>
          (Inr \<lparr>ec_EnrollmentToken = token, ec_AllowedMethods = allowedMethods,
                ec_ExpiresIn = whole_seconds MFAEnrollmentSessionTTL\<rparr>, st1))"

text \<open>The re-send budget of a challenge, shared by the two senders.\<close>

definition bump_resends ::
  "'r mfa_env \<Rightarrow> faults \<Rightarrow> time \<Rightarrow> string \<Rightarrow> duration \<Rightarrow> 'r account_state \<Rightarrow> unit result \<times> 'r account_state" where
  "bump_resends F fl now key ttl st =
     (case bump_counter (fa_redis F) fl now (key @ '':resend'') (ttl + Minute) (as_redis st) of
        (None, r) \<Rightarrow> (Inl ErrServiceUnavailable, put_redis r st)
      | (Some resends, r) \<Rightarrow>
          (if resends > EmailOTPMaxResends then Inl ErrTooManyResends else Inr (), put_redis r st))"

definition ResendLoginOTP ::
  "'r mfa_env \<Rightarrow> admin_mfa_env \<Rightarrow> faults \<Rightarrow> time \<Rightarrow> nat option \<Rightarrow> string \<Rightarrow> 'r account_state \<Rightarrow> unit result \<times> 'r account_state" where
  "ResendLoginOTP F A fl now rnd otpSessionToken st =
     (if \<not> emailSvc A \<or> \<not> redisCli (fa_auth F) then (Inl (Wrapped ''email MFA not configured on this server''), st)
      else
        let key = otpSessionKey F otpSessionToken in
        (case loadOTPSession F fl now key st of
           Inl _ \<Rightarrow> (Inl (Wrapped ''invalid or expired OTP session''), st)
         | Inr sess \<Rightarrow>
             if \<not> methodAllowed (os_Methods sess) MFAMethodEmail
             then (Inl (Wrapped ''email is not an available method for this login''), st)
             else (case bump_resends F fl now key OTPSessionTTL st of
                     (Inl e, st1) \<Rightarrow> (Inl e, st1)
                   | (Inr _, st1) \<Rightarrow>
                       mintAndSend F fl now rnd (key @ '':email'') (os_Email sess) (appNameByID fl (os_AppID sess) st1)
                         (os_TenantID sess) (appRowIDFromClaim (os_AppID sess)) OTPSessionTTL st1)))"

definition SendPendingEnrollmentCode ::
  "'r mfa_env \<Rightarrow> admin_mfa_env \<Rightarrow> faults \<Rightarrow> time \<Rightarrow> nat option \<Rightarrow> string \<Rightarrow> 'r account_state \<Rightarrow>
   (unit result \<times> OTPSession option) \<times> 'r account_state" where
  "SendPendingEnrollmentCode F A fl now rnd enrollmentToken st =
     (if \<not> emailSvc A \<or> \<not> redisCli (fa_auth F) then ((Inl (Wrapped ''email MFA not configured on this server''), None), st)
      else
        let key = mfaEnrollKey F enrollmentToken in
        (case loadOTPSession F fl now key st of
           Inl _ \<Rightarrow> ((Inl (Wrapped ''invalid or expired enrollment session''), None), st)
         | Inr sess \<Rightarrow>
             if \<not> methodAllowed (os_Methods sess) MFAMethodEmail then ((Inl ErrMFAMethodNotAllowed, Some sess), st)
             else (case bump_resends F fl now key MFAEnrollmentSessionTTL st of
                     (Inl e, st1) \<Rightarrow> ((Inl e, Some sess), st1)
                   | (Inr _, st1) \<Rightarrow>
                       (case mintAndSend F fl now rnd (key @ '':email'') (os_Email sess) (appNameByID fl (os_AppID sess) st1)
                               (os_TenantID sess) (appRowIDFromClaim (os_AppID sess)) MFAEnrollmentSessionTTL st1 of
                          (x, st2) \<Rightarrow> ((x, Some sess), st2)))))"

definition EnrollPending ::
  "'r mfa_env \<Rightarrow> admin_mfa_env \<Rightarrow> faults \<Rightarrow> time \<Rightarrow> (string \<Rightarrow> string \<Rightarrow> (string \<times> string) option) \<Rightarrow> string option \<Rightarrow>
   string list option \<Rightarrow> string \<Rightarrow> 'r account_state \<Rightarrow> (EnrollResult \<times> OTPSession) result \<times> 'r account_state" where
  "EnrollPending F A fl now key nonce bufs enrollmentToken st =
     (if \<not> totpSvc A \<or> \<not> redisCli (fa_auth F) then (Inl (Wrapped ''TOTP not configured on this server''), st)
      else
        let k = mfaEnrollKey F enrollmentToken in
        (case loadOTPSession F fl now k st of
           Inl _ \<Rightarrow> (Inl (Wrapped ''invalid or expired enrollment session''), st)
         | Inr sess \<Rightarrow>
             if \<not> methodAllowed (os_Methods sess) MFAMethodTOTP then (Inl ErrMFAMethodNotAllowed, st)
             else (case TOTP_IsActive fl (os_UserID sess) (as_mfa st) of
                     Inl e \<Rightarrow> (Inl e, st)
                   | Inr active \<Rightarrow>
                       if active then (Inl (Wrapped ''invalid or expired enrollment session''), clearOTPSession F fl now k st)
                       else (case Enroll F fl key nonce bufs (os_UserID sess) (os_TenantID sess) (os_Email sess)
                                    (appNameByID fl (os_AppID sess) st) (as_mfa st) of
                               (Inl e, db) \<Rightarrow> (Inl e, st\<lparr>as_mfa := db\<rparr>)
                             | (Inr r, db) \<Rightarrow> (Inr (r, sess), st\<lparr>as_mfa := db\<rparr>)))))"

end
