(* ===== verification/Login.thy ===== *)
theory Login
  imports OtpSession
begin

text \<open>
  Signing in with a password (\<^verbatim>\<open>Login\<close>, \<^verbatim>\<open>mfaGate\<close>, \<^verbatim>\<open>LoginOTP\<close>, \<^verbatim>\<open>ActivatePending\<close> of
  \<^verbatim>\<open>internal/auth/service.go\<close>, and \<^verbatim>\<open>adminMFAGate\<close> of \<^verbatim>\<open>internal/auth/admin_mfa_policy.go\<close>): from the
  credentials to a token pair, a challenge for a second factor, or a refusal.

  The state joins the account state with the two policy resolvers a login consults and the stored password
  hashes. The password hasher is an argument; the random values one login may draw are inputs. The rows the
  candidate query returns are in the order of the user table. What the login starts in the background without
  waiting, the advisory breach check, is left out, and the timing settlement has no result.
\<close>

definition GrantPassword :: string where "GrantPassword = ''password''"
definition minHardLockDurationSeconds :: int where "minHardLockDurationSeconds = 60"
definition loginMaxRealCompares :: nat where "loginMaxRealCompares = 1"

subsection \<open>Inputs and state\<close>

record login_client =
  oc_id :: int
  oc_tenant :: int
  oc_client_id :: string
  oc_secret_hash :: string
  oc_active :: bool
  oc_deleted :: "time option"

record 'r login_env =
  le_mint :: "'r mint_env"
  le_block :: "'r block_env"
  le_mfa :: "'r mfa_env"
  le_admin :: admin_mfa_env
  le_clients :: "login_client list"
  le_appSvc :: bool
  hasher_Verify :: "string \<Rightarrow> string \<Rightarrow> bool"
  hasher_NeedsRehash :: "string \<Rightarrow> bool"

record 'r login_state =
  ls_account :: "'r account_state"
  ls_sessions :: "SessionPolicy policy_service"
  ls_adminMFA :: "AdminMFAPolicy policy_service"
  ls_credentials :: "int \<rightharpoonup> string"

record LoginInput =
  li_ClientID :: string
  li_ClientSecret :: string
  li_Email :: string
  li_Password :: string
  li_Persistent :: bool
  li_Roles :: "string list"
  li_VerifiedApp :: "(int \<times> int) option"
  li_Organization :: string

text \<open>
  What one login draws: an unblock token per account, the token of a challenge, the emailed code, the
  refresh token, and the fresh hash of the password.
\<close>

record login_random =
  lr_unblock :: "int \<Rightarrow> string"
  lr_session :: "string option"
  lr_code :: "nat option"
  lr_refresh :: "string option"
  lr_hash :: "string option"

datatype LoginResult = LToken AuthResult | LOTPChallenge OTPChallenge | LMFAEnrollment MFAEnrollmentChallenge

abbreviation ls_block :: "'r login_state \<Rightarrow> 'r block_state" where
  "ls_block ls \<equiv> as_block (ls_account ls)"

definition put_block :: "'r block_state \<Rightarrow> 'r login_state \<Rightarrow> 'r login_state" where
  "put_block b ls = ls\<lparr>ls_account := (ls_account ls)\<lparr>as_block := b\<rparr>\<rparr>"

text \<open>The authority tables, with the users as the lockout service left them.\<close>

definition current_authority :: "'r login_env \<Rightarrow> 'r login_state \<Rightarrow> authority_db" where
  "current_authority E ls = (me_authority (le_mint E))\<lparr>users := map user_row.truncate (bs_users (ls_block ls))\<rparr>"

definition issue ::
  "'r login_env \<Rightarrow> faults \<Rightarrow> time \<Rightarrow> string option \<Rightarrow> int \<Rightarrow> int \<Rightarrow> string \<Rightarrow> string \<Rightarrow> string list \<Rightarrow> sessionContext \<Rightarrow>
   string \<Rightarrow> 'r login_state \<Rightarrow> AuthResult result \<times> 'r login_state" where
  "issue E fl now raw userID tenantID email role perms sess appID ls =
     (case issueTokenPair ((le_mint E)\<lparr>me_authority := current_authority E ls\<rparr>) fl now raw userID tenantID email role perms
             sess appID \<lparr>ms_auth = bs_auth (ls_block ls), ms_policy = ls_sessions ls\<rparr> of
        (x, ms) \<Rightarrow> (x, (put_block ((ls_block ls)\<lparr>bs_auth := ms_auth ms\<rparr>) ls)\<lparr>ls_sessions := ms_policy ms\<rparr>))"

definition login_context :: "bool \<Rightarrow> string list option \<Rightarrow> orgSessionRequest \<Rightarrow> string list \<Rightarrow> sessionContext" where
  "login_context persistent activeRoles org amr =
     \<lparr>sc_sessionID = None, sc_persistent = persistent, sc_amr = amr, sc_authTime = None, sc_grant = GrantPassword,
      sc_activeRoles = activeRoles, sc_audience = [], sc_pinnedAudience = [], sc_filterPerms = False, sc_org = org,
      sc_absoluteCap = None\<rparr>"

definition org_request :: "string \<Rightarrow> bool \<Rightarrow> orgSessionRequest" where
  "org_request requested skip = \<lparr>org_requested = requested, org_boundID = None, org_personal = False, org_skip = skip\<rparr>"

subsection \<open>The application and the candidates\<close>

definition AuthenticateClient :: "'r login_env \<Rightarrow> faults \<Rightarrow> string \<Rightarrow> string \<Rightarrow> (int \<times> int) result" where
  "AuthenticateClient E fl clientID clientSecret =
     (if fl ''authenticate client'' then Inl (Wrapped ''authenticate client'')
      else case find (\<lambda>c. oc_client_id c = clientID \<and> oc_secret_hash c = HashToken (fa_auth (le_mfa E)) clientSecret
                 \<and> oc_deleted c = None \<and> oc_active c) (le_clients E) of
             None \<Rightarrow> Inl (Wrapped ''invalid client credentials'')
           | Some c \<Rightarrow> Inr (oc_tenant c, oc_id c))"

definition authenticateApp :: "'r login_env \<Rightarrow> faults \<Rightarrow> string \<Rightarrow> string \<Rightarrow> (int \<times> int) result" where
  "authenticateApp E fl clientID clientSecret =
     (if \<not> le_appSvc E then Inl (Wrapped ''application service not configured'')
      else if clientID = [] then Inl (Wrapped ''invalid client credentials'')
      else AuthenticateClient E fl clientID clientSecret)"

definition ValidateClientID :: "'r login_env \<Rightarrow> faults \<Rightarrow> int \<Rightarrow> string \<Rightarrow> int result" where
  "ValidateClientID E fl tenantID clientID =
     (if fl ''validate client_id'' then Inl (Wrapped ''validate client_id'')
      else case find (\<lambda>c. oc_tenant c = tenantID \<and> oc_client_id c = clientID \<and> oc_deleted c = None) (le_clients E) of
             None \<Rightarrow> Inl (Wrapped ''invalid client_id'') | Some c \<Rightarrow> Inr (oc_id c))"

text \<open>The tenant, the row and the claim of the authenticated application; zeros and the empty claim without one.\<close>

definition login_app :: "'r login_env \<Rightarrow> faults \<Rightarrow> LoginInput \<Rightarrow> (int \<times> int \<times> string) result" where
  "login_app E fl i =
     (case li_VerifiedApp i of
        Some (tid, aid) \<Rightarrow> Inr (tid, aid, FormatInt aid)
      | None \<Rightarrow>
          if li_ClientSecret i \<noteq> [] then
            (case authenticateApp E fl (li_ClientID i) (li_ClientSecret i) of
               Inl e \<Rightarrow> Inl e | Inr (tid, aid) \<Rightarrow> Inr (tid, aid, FormatInt aid))
          else Inr (0, 0, []))"

text \<open>\<^verbatim>\<open>strings.TrimSpace\<close> on ASCII text, and the canonical form of an address.\<close>

definition TrimSpace :: "string \<Rightarrow> string" where
  "TrimSpace s = rev (dropWhile is_space (rev (dropWhile is_space s)))"

definition Normalize :: "string \<Rightarrow> string" where
  "Normalize email = ToLower (TrimSpace email)"

record loginCandidate =
  lc_userID :: int
  lc_tenantID :: int
  lc_email :: string
  lc_passwordHash :: string
  lc_roleName :: string
  lc_isActive :: bool

definition autoExpirySecs :: "LockoutPolicy \<Rightarrow> int" where
  "autoExpirySecs p =
     (if 0 < HardLockDuration p \<and> whole_seconds (HardLockDuration p) < minHardLockDurationSeconds
      then whole_seconds (HardLockDuration p) else minHardLockDurationSeconds)"

definition login_candidate :: "authority_db \<Rightarrow> time \<Rightarrow> string \<Rightarrow> int \<Rightarrow> int \<Rightarrow> int \<Rightarrow> lockout_row \<Rightarrow> bool" where
  "login_candidate db now email secs appTenantID appRowID u \<longleftrightarrow>
     u_email u = email \<and> u_deleted u = None
     \<and> (\<exists>t \<in> set (tenants db). t_id t = u_tenant u \<and> t_active t)
     \<and> (u_active u \<or> (0 < secs \<and> block_reason u = Some BlockReasonFailedAttempts
          \<and> (case u_blocked u of None \<Rightarrow> False | Some b \<Rightarrow> b < now - secs * Second)))
     \<and> (if appRowID \<noteq> 0 then u_tenant u = appTenantID \<and> u_application u = Some appRowID else u_application u = None)"

definition role_name :: "authority_db \<Rightarrow> lockout_row \<Rightarrow> string" where
  "role_name db u =
     (case find (\<lambda>r. u_role u = Some (r_id r) \<and> r_deleted r = None) (roles db) of None \<Rightarrow> [] | Some r \<Rightarrow> r_name r)"

definition login_candidates ::
  "'r login_env \<Rightarrow> time \<Rightarrow> string \<Rightarrow> int \<Rightarrow> int \<Rightarrow> int \<Rightarrow> 'r login_state \<Rightarrow> loginCandidate list" where
  "login_candidates E now email secs appTenantID appRowID ls =
     concat (map (\<lambda>u. case ls_credentials ls (u_id u) of
                        None \<Rightarrow> []
                      | Some h \<Rightarrow> [\<lparr>lc_userID = u_id u, lc_tenantID = u_tenant u, lc_email = u_email u, lc_passwordHash = h,
                                   lc_roleName = role_name (me_authority (le_mint E)) u, lc_isActive = u_active u\<rparr>])
       (filter (login_candidate (me_authority (le_mint E)) now email secs appTenantID appRowID) (bs_users (ls_block ls))))"

text \<open>The comparisons: at most \<open>loginMaxRealCompares\<close> candidates, counting the matches and keeping the last.\<close>

fun compare_loop ::
  "(string \<Rightarrow> string \<Rightarrow> bool) \<Rightarrow> string \<Rightarrow> nat \<Rightarrow> nat \<Rightarrow> loginCandidate option \<Rightarrow> loginCandidate list \<Rightarrow> nat \<times> loginCandidate option" where
  "compare_loop verify pw checked cnt matched [] = (cnt, matched)"
| "compare_loop verify pw checked cnt matched (c # cs) =
     (if loginMaxRealCompares \<le> checked then (cnt, matched)
      else if verify pw (lc_passwordHash c) then compare_loop verify pw (Suc checked) (Suc cnt) (Some c) cs
      else compare_loop verify pw (Suc checked) cnt matched cs)"

definition rehashIfStale ::
  "'r login_env \<Rightarrow> faults \<Rightarrow> string option \<Rightarrow> int \<Rightarrow> string \<Rightarrow> 'r login_state \<Rightarrow> 'r login_state" where
  "rehashIfStale E fl newHash userID storedHash ls =
     (if \<not> hasher_NeedsRehash E storedHash then ls
      else case newHash of
             None \<Rightarrow> ls
           | Some h \<Rightarrow> if fl ''login: rehash write failed'' then ls
                       else ls\<lparr>ls_credentials := (case ls_credentials ls userID of
                              None \<Rightarrow> ls_credentials ls | Some _ \<Rightarrow> (ls_credentials ls)(userID \<mapsto> h))\<rparr>)"

subsection \<open>The gate of the second factor\<close>

definition on_account ::
  "'r login_state \<Rightarrow> 'a result \<times> 'r account_state \<Rightarrow> ('a \<Rightarrow> LoginResult) \<Rightarrow> string \<Rightarrow> LoginResult option result \<times> 'r login_state" where
  "on_account ls y wrap lbl =
     (case y of
        (Inl e, st) \<Rightarrow> (Inl (Wrapped lbl), ls\<lparr>ls_account := st\<rparr>)
      | (Inr c, st) \<Rightarrow> (Inr (Some (wrap c)), ls\<lparr>ls_account := st\<rparr>))"

fun active_factors :: "(string \<Rightarrow> bool result) \<Rightarrow> string list \<Rightarrow> string list result" where
  "active_factors f [] = Inr []"
| "active_factors f (m # ms) =
     (case f m of
        Inl e \<Rightarrow> Inl e
      | Inr active \<Rightarrow>
          (case active_factors f ms of Inl e \<Rightarrow> Inl e | Inr rest \<Rightarrow> Inr (if active then m # rest else rest)))"

definition no_org :: orgSessionRequest where
  "no_org = org_request [] False"

text \<open>
  The code the gate mails in the background is mailed at once here; its failure is only logged.
\<close>

definition sendLoginEmailInBackground ::
  "'r login_env \<Rightarrow> faults \<Rightarrow> time \<Rightarrow> nat option \<Rightarrow> string \<Rightarrow> string \<Rightarrow> string \<Rightarrow> int \<Rightarrow> 'r account_state \<Rightarrow> 'r account_state" where
  "sendLoginEmailInBackground E fl now rnd otpSessionToken email appID tenantID st =
     snd (mintAndSend (le_mfa E) fl now rnd (otpSessionKey (le_mfa E) otpSessionToken @ '':email'') email
            (appNameByID fl appID st) tenantID (appRowIDFromClaim appID) OTPSessionTTL st)"

definition adminMFAGate ::
  "'r login_env \<Rightarrow> faults \<Rightarrow> time \<Rightarrow> login_random \<Rightarrow> pending_login \<Rightarrow> bool \<Rightarrow> 'r login_state \<Rightarrow>
   LoginResult option result \<times> 'r login_state" where
  "adminMFAGate E fl now rnd p platform ls =
     (if \<not> redisCli (fa_auth (le_mfa E)) then (Inl ErrAdminMFAUnavailable, ls)
      else case AdminMFAPolicyFor (le_admin E) fl now (pl_tenantID p) platform (ls_adminMFA ls) of
        (policy, sv) \<Rightarrow>
          let ls1 = ls\<lparr>ls_adminMFA := sv\<rparr>;
              usable = filter (adminMethodUsable (le_admin E)) (ap_AllowedMethods policy)
          in if usable = [] then (Inl ErrAdminMFAUnavailable, ls1)
             else (case active_factors (\<lambda>m. factorActive fl (pl_userID p) m (as_mfa (ls_account ls1))) usable of
                     Inl e \<Rightarrow> (Inl e, ls1)
                   | Inr active \<Rightarrow>
                       if active \<noteq> [] then
                         (let sendEmailNow = (active = [MFAMethodEmail]);
                              methods = (if MFAMethodEmail \<notin> set active \<and> MFAMethodEmail \<in> set usable
                                         then active @ [MFAMethodEmail] else active)
                          in case createOTPSessionWith (le_mfa E) (le_admin E) fl now (lr_session rnd) (lr_code rnd) p methods
                                    no_org False (ls_account ls1) of
                               (Inl e, st) \<Rightarrow> (Inl (Wrapped ''create OTP session''), ls1\<lparr>ls_account := st\<rparr>)
                             | (Inr c, st) \<Rightarrow>
                                 if sendEmailNow
                                 then (Inr (Some (LOTPChallenge (c\<lparr>oc_EmailCodeSent := True\<rparr>))),
                                       ls1\<lparr>ls_account := sendLoginEmailInBackground E fl now (lr_code rnd) (oc_OTPSessionToken c)
                                              (pl_email p) (pl_appID p) (pl_tenantID p) st\<rparr>)
                                 else (Inr (Some (LOTPChallenge c)), ls1\<lparr>ls_account := st\<rparr>))
                       else on_account ls1
                              (createMFAEnrollmentSession (le_mfa E) fl now (lr_session rnd) p usable no_org (ls_account ls1))
                              LMFAEnrollment ''create MFA enrollment session''))"

text \<open>A factor status that cannot be read counts as not active.\<close>

definition app_factors :: "'r login_env \<Rightarrow> faults \<Rightarrow> int \<Rightarrow> (string \<Rightarrow> bool) \<Rightarrow> mfa_db \<Rightarrow> string list" where
  "app_factors E fl userID permitted db =
     (let totpActive = (case TOTP_IsActive fl userID db of Inr b \<Rightarrow> b | Inl _ \<Rightarrow> False);
          emailActive = emailSvc (le_admin E) \<and> (case emailMFAActive fl userID db of Inr b \<Rightarrow> b | Inl _ \<Rightarrow> False)
      in (if totpActive \<and> permitted MFAMethodTOTP then [MFAMethodTOTP] else [])
         @ (if emailActive \<and> permitted MFAMethodEmail then [MFAMethodEmail] else []))"

definition appMFAGate ::
  "'r login_env \<Rightarrow> faults \<Rightarrow> time \<Rightarrow> login_random \<Rightarrow> pending_login \<Rightarrow> int \<Rightarrow> orgSessionRequest \<Rightarrow> 'r login_state \<Rightarrow>
   LoginResult option result \<times> 'r login_state" where
  "appMFAGate E fl now rnd p appRowID org ls =
     (if \<not> totpSvc (le_admin E) \<or> \<not> redisCli (fa_auth (le_mfa E)) then (Inr None, ls)
      else case (if appRowID \<noteq> 0 then GetAppMFAConfig fl appRowID (as_mfa (ls_account ls)) else Inr ([], [])) of
        Inl e \<Rightarrow> (Inl (Wrapped ''load app MFA policy''), ls)
      | Inr (mode, allowedMethods) \<Rightarrow>
          let methods = app_factors E fl (pl_userID p) (\<lambda>m. appRowID = 0 \<or> methodAllowed allowedMethods m) (as_mfa (ls_account ls))
          in if methods \<noteq> [] then
               on_account ls (createOTPSession (le_mfa E) (le_admin E) fl now (lr_session rnd) (lr_code rnd) p methods org (ls_account ls))
                 LOTPChallenge ''create OTP session''
             else if appRowID \<noteq> 0 \<and> mode = MFAModeRequired then
               on_account ls (createMFAEnrollmentSession (le_mfa E) fl now (lr_session rnd) p allowedMethods org (ls_account ls))
                 LMFAEnrollment ''create MFA enrollment session''
             else (Inr None, ls))"

definition mfaGate ::
  "'r login_env \<Rightarrow> faults \<Rightarrow> time \<Rightarrow> login_random \<Rightarrow> pending_login \<Rightarrow> int \<Rightarrow> orgSessionRequest \<Rightarrow> 'r login_state \<Rightarrow>
   LoginResult option result \<times> 'r login_state" where
  "mfaGate E fl now rnd p appRowID org ls =
     (case (if adminMFA (le_admin E) \<and> appRowID = 0
            then administratorKind fl (pl_userID p) (pl_perms p) (current_authority E ls) else Inr (False, False)) of
        Inl e \<Rightarrow> (Inl e, ls)
      | Inr (admin, platform) \<Rightarrow>
          if admin then adminMFAGate E fl now rnd p platform ls else appMFAGate E fl now rnd p appRowID org ls)"

subsection \<open>The login\<close>

definition invalid_credentials :: goerror where
  "invalid_credentials = Wrapped ''invalid credentials''"

text \<open>No candidate matched: every candidate's account counts a failure, and a lone one reports its soft lock.\<close>

definition record_failures ::
  "'r login_env \<Rightarrow> faults \<Rightarrow> time \<Rightarrow> login_random \<Rightarrow> loginCandidate list \<Rightarrow> 'r block_state \<Rightarrow> 'r block_state" where
  "record_failures E fl now rnd cs b =
     fold (\<lambda>c b. snd (RecordFailedLogin (le_block E) fl now (lr_unblock rnd (lc_userID c)) (lc_tenantID c) (lc_userID c) b)) cs b"

definition login_no_match ::
  "'r login_env \<Rightarrow> faults \<Rightarrow> time \<Rightarrow> login_random \<Rightarrow> loginCandidate list \<Rightarrow> 'r login_state \<Rightarrow> LoginResult result \<times> 'r login_state" where
  "login_no_match E fl now rnd cs ls =
     (let b = record_failures E fl now rnd cs (ls_block ls); ls1 = put_block b ls in
      (case cs of
         [c] \<Rightarrow> (case SoftLockedFor (le_block E) fl now (lc_tenantID c) (lc_userID c) b of
                   (retryAfter, True) \<Rightarrow> (Inl (SoftLockError retryAfter), ls1)
                 | (_, False) \<Rightarrow> (Inl invalid_credentials, ls1))
       | _ \<Rightarrow> (Inl invalid_credentials, ls1)))"

text \<open>The password matched: what the account must still pass before roles and factors are looked at.\<close>

definition login_unlock ::
  "'r login_env \<Rightarrow> faults \<Rightarrow> time \<Rightarrow> int \<Rightarrow> LockoutPolicy \<Rightarrow> loginCandidate \<Rightarrow> 'r login_state \<Rightarrow> unit result \<times> 'r login_state" where
  "login_unlock E fl now appRowID policy0 c ls =
     (let (policy, b1) = (if appRowID = 0 then policyFor fl now (lc_tenantID c) None (ls_block ls) else (policy0, ls_block ls));
          (lifted, b2) = (if lc_isActive c then (True, b1)
                          else ExpireHardLock (le_block E) fl now (lc_tenantID c) (lc_userID c) (HardLockDuration policy) b1)
      in if \<not> lifted then (Inl invalid_credentials, put_block b2 ls)
         else case SoftLockedFor (le_block E) fl now (lc_tenantID c) (lc_userID c) b2 of
                (retryAfter, True) \<Rightarrow> (Inl (SoftLockError retryAfter), put_block b2 ls)
              | (_, False) \<Rightarrow> (Inr (), put_block (ResetFailedLogins (le_block E) fl now (lc_tenantID c) (lc_userID c) b2) ls))"

definition login_roles ::
  "'r login_env \<Rightarrow> faults \<Rightarrow> LoginInput \<Rightarrow> loginCandidate \<Rightarrow> 'r login_state \<Rightarrow> (string list option \<times> string list) result" where
  "login_roles E fl i c ls =
     (let db = current_authority E ls;
          active = (if li_Roles i = [] then Inr None
                    else case loadRoles fl (lc_userID c) (lc_tenantID c) db of
                           Inl e \<Rightarrow> Inl (Wrapped ''resolve session roles'')
                         | Inr held \<Rightarrow> resolveActiveRoles (li_Roles i) held)
      in case active of
           Inl e \<Rightarrow> Inl e
         | Inr activeRoles \<Rightarrow>
             Inr (activeRoles, case loadPermissionsScoped fl (lc_userID c) (lc_tenantID c) activeRoles db of
                                 Inl _ \<Rightarrow> [] | Inr perms \<Rightarrow> perms))"

text \<open>The rest of the login, after the gate let it through.\<close>

definition login_issue ::
  "'r login_env \<Rightarrow> faults \<Rightarrow> time \<Rightarrow> login_random \<Rightarrow> LoginInput \<Rightarrow> pending_login \<Rightarrow> orgSessionRequest \<Rightarrow> 'r login_state \<Rightarrow>
   LoginResult result \<times> 'r login_state" where
  "login_issue E fl now rnd i p org ls =
     (case (if pl_appID p = [] \<and> li_ClientID i \<noteq> [] \<and> le_appSvc E then
              (case ValidateClientID E fl (pl_tenantID p) (li_ClientID i) of
                 Inl _ \<Rightarrow> Inl (Wrapped ''invalid client_id'') | Inr aid \<Rightarrow> Inr (FormatInt aid))
            else Inr (pl_appID p)) of
        Inl e \<Rightarrow> (Inl e, ls)
      | Inr appID \<Rightarrow>
          (case issue E fl now (lr_refresh rnd) (pl_userID p) (pl_tenantID p) (pl_email p) (pl_roleName p) (pl_perms p)
                  (login_context (pl_persistent p) (pl_activeRoles p) org [AMRPassword]) appID ls of
             (Inl e, ls1) \<Rightarrow> (Inl e, ls1)
           | (Inr pair, ls1) \<Rightarrow> (Inr (LToken pair), ls1)))"

definition login_matched ::
  "'r login_env \<Rightarrow> faults \<Rightarrow> time \<Rightarrow> login_random \<Rightarrow> LoginInput \<Rightarrow> int \<Rightarrow> string \<Rightarrow> LockoutPolicy \<Rightarrow> loginCandidate \<Rightarrow>
   'r login_state \<Rightarrow> LoginResult result \<times> 'r login_state" where
  "login_matched E fl now rnd i appRowID appID policy0 c ls =
     (case login_unlock E fl now appRowID policy0 c (rehashIfStale E fl (lr_hash rnd) (lc_userID c) (lc_passwordHash c) ls) of
        (Inl e, ls1) \<Rightarrow> (Inl e, ls1)
      | (Inr _, ls1) \<Rightarrow>
          (case login_roles E fl i c ls1 of
             Inl e \<Rightarrow> (Inl e, ls1)
           | Inr (activeRoles, perms) \<Rightarrow>
               let p = \<lparr>pl_userID = lc_userID c, pl_tenantID = lc_tenantID c, pl_email = lc_email c, pl_roleName = lc_roleName c,
                        pl_perms = perms, pl_appID = appID, pl_persistent = li_Persistent i, pl_activeRoles = activeRoles\<rparr>;
                   org = org_request (TrimSpace (li_Organization i)) (li_VerifiedApp i \<noteq> None)
               in (case mfaGate E fl now rnd p appRowID org ls1 of
                     (Inl e, ls2) \<Rightarrow> (Inl e, ls2)
                   | (Inr (Some r), ls2) \<Rightarrow> (Inr r, ls2)
                   | (Inr None, ls2) \<Rightarrow> login_issue E fl now rnd i p org ls2)))"

definition Login ::
  "'r login_env \<Rightarrow> faults \<Rightarrow> time \<Rightarrow> login_random \<Rightarrow> LoginInput \<Rightarrow> 'r login_state \<Rightarrow> LoginResult result \<times> 'r login_state" where
  "Login E fl now rnd i ls =
     (case login_app E fl i of
        Inl e \<Rightarrow> (Inl e, ls)
      | Inr (appTenantID, appRowID, appID) \<Rightarrow>
          (case policyFor fl now appTenantID (if appRowID \<noteq> 0 then Some appRowID else None) (ls_block ls) of
             (policy, b) \<Rightarrow>
               let ls0 = put_block b ls in
               if fl ''fetch login candidates'' then (Inl (Wrapped ''fetch login candidates''), ls0)
               else
                 let cs = login_candidates E now (Normalize (li_Email i)) (autoExpirySecs policy) appTenantID appRowID ls0 in
                 if cs = [] then (Inl invalid_credentials, ls0)
                 else (case compare_loop (hasher_Verify E) (li_Password i) 0 0 None cs of
                         (cnt, matched) \<Rightarrow>
                           if cnt = 0 then login_no_match E fl now rnd cs ls0
                           else if 1 < cnt then (Inl invalid_credentials, ls0)
                           else (case matched of
                                   None \<Rightarrow> (Inl invalid_credentials, ls0)
                                 | Some c \<Rightarrow> login_matched E fl now rnd i appRowID appID policy c ls0))))"

subsection \<open>Completing a challenge\<close>

definition issue_session ::
  "'r login_env \<Rightarrow> faults \<Rightarrow> time \<Rightarrow> string option \<Rightarrow> OTPSession \<Rightarrow> 'r login_state \<Rightarrow> AuthResult result \<times> 'r login_state" where
  "issue_session E fl now raw sess ls =
     issue E fl now raw (os_UserID sess) (os_TenantID sess) (os_Email sess) (os_RoleName sess) (os_Perms sess)
       (login_context (os_Persistent sess) (os_ActiveRoles sess) (org_request (os_OrgRequest sess) (os_SkipOrganization sess))
          [AMRPassword, AMROTP, AMRMFA]) (os_AppID sess) ls"

text \<open>Whichever method of the session the code satisfies: the emailed code, a TOTP code, a backup code.\<close>

definition verify_challenge ::
  "'r mfa_env \<Rightarrow> faults \<Rightarrow> time \<Rightarrow> OTPSession \<Rightarrow> string \<Rightarrow> string \<Rightarrow> 'r account_state \<Rightarrow> bool \<times> 'r account_state" where
  "verify_challenge F fl now sess key code st =
     (case (if methodAllowed (os_Methods sess) MFAMethodEmail then consumeEmailCode F fl now (key @ '':email'') code st else (False, st)) of
        (True, st1) \<Rightarrow> (True, st1)
      | (False, st1) \<Rightarrow>
          if methodAllowed (os_Methods sess) MFAMethodTOTP then
            (case prove_totp F fl now (os_UserID sess) code (as_mfa st1) of (ok, db) \<Rightarrow> (ok, st1\<lparr>as_mfa := db\<rparr>))
          else (False, st1))"

definition LoginOTP ::
  "'r login_env \<Rightarrow> faults \<Rightarrow> time \<Rightarrow> string option \<Rightarrow> string \<Rightarrow> string \<Rightarrow> 'r login_state \<Rightarrow> AuthResult result \<times> 'r login_state" where
  "LoginOTP E fl now raw token code ls =
     (let F = le_mfa E; key = otpSessionKey F token in
      if \<not> totpSvc (le_admin E) \<or> \<not> redisCli (fa_auth F) then (Inl (Wrapped ''TOTP not configured on this server''), ls)
      else case loadOTPSession F fl now key (ls_account ls) of
             Inl _ \<Rightarrow> (Inl (Wrapped ''invalid or expired OTP session''), ls)
           | Inr sess \<Rightarrow>
               (case bumpOTPAttempts F fl now key OTPSessionTTL (ls_account ls) of
                  (Inl e, st1) \<Rightarrow> (Inl e, ls\<lparr>ls_account := st1\<rparr>)
                | (Inr _, st1) \<Rightarrow>
                    (case verify_challenge F fl now sess key code st1 of
                       (False, st2) \<Rightarrow> (Inl (Wrapped ''invalid TOTP code''), ls\<lparr>ls_account := st2\<rparr>)
                     | (True, st2) \<Rightarrow> issue_session E fl now raw sess (ls\<lparr>ls_account := clearOTPSession F fl now key st2\<rparr>))))"

text \<open>The code either confirms the mailed enrolment or activates the pending authenticator.\<close>

definition activate_factor ::
  "'r mfa_env \<Rightarrow> admin_mfa_env \<Rightarrow> faults \<Rightarrow> time \<Rightarrow> OTPSession \<Rightarrow> string \<Rightarrow> string \<Rightarrow> 'r account_state \<Rightarrow> unit result \<times> 'r account_state" where
  "activate_factor F A fl now sess key code st =
     (case (if methodAllowed (os_Methods sess) MFAMethodEmail \<and> emailSvc A then consumeEmailCode F fl now (key @ '':email'') code st
            else (False, st)) of
        (True, st1) \<Rightarrow> ActivatePendingEnrollment fl (os_UserID sess) (os_TenantID sess) st1
      | (False, st1) \<Rightarrow>
          if \<not> methodAllowed (os_Methods sess) MFAMethodTOTP then (Inl (Wrapped ''invalid TOTP code''), st1)
          else (case VerifyAndActivate F fl now (os_UserID sess) code (as_mfa st1) of (x, db) \<Rightarrow> (x, st1\<lparr>as_mfa := db\<rparr>)))"

definition ActivatePending ::
  "'r login_env \<Rightarrow> faults \<Rightarrow> time \<Rightarrow> string option \<Rightarrow> string \<Rightarrow> string \<Rightarrow> 'r login_state \<Rightarrow>
   (AuthResult result \<times> OTPSession option) \<times> 'r login_state" where
  "ActivatePending E fl now raw enrollmentToken code ls =
     (let F = le_mfa E; key = mfaEnrollKey F enrollmentToken in
      if \<not> totpSvc (le_admin E) \<or> \<not> redisCli (fa_auth F) then ((Inl (Wrapped ''TOTP not configured on this server''), None), ls)
      else case loadOTPSession F fl now key (ls_account ls) of
             Inl _ \<Rightarrow> ((Inl (Wrapped ''invalid or expired enrollment session''), None), ls)
           | Inr sess \<Rightarrow>
               (case bumpOTPAttempts F fl now key MFAEnrollmentSessionTTL (ls_account ls) of
                  (Inl e, st1) \<Rightarrow> ((Inl e, Some sess), ls\<lparr>ls_account := st1\<rparr>)
                | (Inr _, st1) \<Rightarrow>
                    (case activate_factor F (le_admin E) fl now sess key code st1 of
                       (Inl e, st2) \<Rightarrow> ((Inl e, Some sess), ls\<lparr>ls_account := st2\<rparr>)
                     | (Inr _, st2) \<Rightarrow>
                         (case issue_session E fl now raw sess (ls\<lparr>ls_account := clearOTPSession F fl now key st2\<rparr>) of
                            (x, ls3) \<Rightarrow> ((x, Some sess), ls3)))))"

end
