(* ===== verification/SecondFactor.thy ===== *)
theory SecondFactor
  imports Mfa
begin

text \<open>
  What the second factors guarantee: backup codes, the application's policy, the emailed code and its attempt
  budget, and the mandate of an application that requires a factor.
\<close>

subsection \<open>Backup codes\<close>

lemma consume_hash_found: "consume_hash h True hs = (True, hs)"
  by (induction hs) auto

lemma consume_hash: "consume_hash h False hs = (h \<in> set hs, remove1 h hs)"
  by (induction hs) (auto simp: consume_hash_found)

lemma backup_lookup_InrD:
  assumes "backup_lookup F fl u code db = Inr remaining"
  obtains r where "totp_secrets db u = Some r" "ts_active r" "hashBackupCode F code \<in> set (backup_codes r)"
    "remaining = remove1 (hashBackupCode F code) (backup_codes r)"
  using assms by (auto simp: backup_lookup_def consume_hash split: if_splits option.splits)

lemma set_totp_same [simp]: "totp_secrets (set_totp u r db) u = r"
  by (simp add: set_totp_def)

lemma VerifyBackupCode_InrD:
  assumes "VerifyBackupCode F fl u code db = (Inr x, db')"
  obtains r where "totp_secrets db u = Some r" "ts_active r" "hashBackupCode F code \<in> set (backup_codes r)"
    "db' = set_totp u (Some (r\<lparr>backup_codes := remove1 (hashBackupCode F code) (backup_codes r)\<rparr>)) db"
  using assms
  by (auto simp: VerifyBackupCode_def backup_apply_def split: sum.splits if_splits elim!: backup_lookup_InrD)

lemma VerifyBackupCode_Inr_iff:
  "(\<exists>db'. VerifyBackupCode F no_faults u code db = (Inr (), db')) \<longleftrightarrow>
     (\<exists>r. totp_secrets db u = Some r \<and> ts_active r \<and> hashBackupCode F code \<in> set (backup_codes r))"
  by (auto simp: VerifyBackupCode_def backup_lookup_def backup_apply_def consume_hash split: option.splits)

text \<open>
  C8: a backup code works once. An accepted code matched a stored hash of the active enrolment, exactly one
  occurrence of it is taken out of the stored hashes and nothing else changes; when no other stored code has
  the same hash, presenting the code again is refused, whatever else fails.
\<close>

theorem backup_code_single_use:
  assumes run: "VerifyBackupCode F fl u code db = (Inr (), db')"
  shows "\<exists>r. totp_secrets db u = Some r \<and> ts_active r
      \<and> db' = set_totp u (Some (r\<lparr>backup_codes := remove1 (hashBackupCode F code) (backup_codes r)\<rparr>)) db
      \<and> count_list (backup_codes r) (hashBackupCode F code) =
          Suc (count_list (remove1 (hashBackupCode F code) (backup_codes r)) (hashBackupCode F code))
      \<and> (distinct (backup_codes r) \<longrightarrow> (\<forall>fl'. \<exists>e. VerifyBackupCode F fl' u code db' = (Inl e, db')))"
proof -
  from run obtain r where r: "totp_secrets db u = Some r" "ts_active r" "hashBackupCode F code \<in> set (backup_codes r)"
    and db': "db' = set_totp u (Some (r\<lparr>backup_codes := remove1 (hashBackupCode F code) (backup_codes r)\<rparr>)) db"
    by (rule VerifyBackupCode_InrD)
  have "count_list xs h = Suc (count_list (remove1 h xs) h)" if "h \<in> set xs" for xs :: "string list" and h
    using that by (induction xs) auto
  moreover have "\<exists>e. VerifyBackupCode F fl' u code db' = (Inl e, db')" if "distinct (backup_codes r)" for fl'
    using that r by (auto simp: db' VerifyBackupCode_def backup_lookup_def consume_hash)
  ultimately show ?thesis using r db' by blast
qed

text \<open>
  C27: the consumption of a backup code races. Both the check and the write of a code are statements of their
  own and the write stores the list the check computed, so when two requests check before either writes,
  the same code is accepted twice; and with two different codes the later write brings the other one back.
\<close>

theorem backup_code_race:
  assumes c1: "backup_lookup F no_faults u code1 db = Inr rem1" and c2: "backup_lookup F no_faults u code2 db = Inr rem2"
    and first: "backup_apply no_faults u rem1 db = (x1, db1)" and second: "backup_apply no_faults u rem2 db1 = (x2, db2)"
  shows "x1 = Inr () \<and> x2 = Inr ()
    \<and> (hashBackupCode F code1 \<noteq> hashBackupCode F code2 \<longrightarrow> (\<exists>db3. VerifyBackupCode F no_faults u code1 db2 = (Inr (), db3)))"
proof -
  from c1 obtain r where r: "totp_secrets db u = Some r" "ts_active r" "hashBackupCode F code1 \<in> set (backup_codes r)"
    by (rule backup_lookup_InrD)
  from c2 r have rem2: "rem2 = remove1 (hashBackupCode F code2) (backup_codes r)" by (auto elim: backup_lookup_InrD)
  have "db1 = set_totp u (Some (r\<lparr>backup_codes := rem1\<rparr>)) db" using first r by (simp add: backup_apply_def)
  with second have "totp_secrets db2 u = Some (r\<lparr>backup_codes := rem2\<rparr>)" by (auto simp: backup_apply_def)
  then show ?thesis
    using first second r unfolding VerifyBackupCode_Inr_iff by (auto simp: backup_apply_def rem2)
qed

subsection \<open>A sample\<close>

definition sample_mfa_env :: "keyspace mfa_env" where
  "sample_mfa_env =
     \<lparr>fa_auth = keyspace_env id, fa_aead = sample_aead, fa_totp = \<lparr>encKey = replicate 32 (CHR 0x11)\<rparr>,
      totp_Validate = (\<lambda>now code secret. code = secret), fa_audit = True, fa_templates = None, fa_senders = None,
      fa_deliver = (\<lambda>_ _. True)\<rparr>"

definition sample_totp :: "bool \<Rightarrow> string list \<Rightarrow> totp_secret" where
  "sample_totp active codes = \<lparr>ts_tenant = 1, secret_enc = [], ts_active = active, backup_codes = codes\<rparr>"

definition sample_mfa_db :: mfa_db where
  "sample_mfa_db =
     \<lparr>totp_secrets = [7 \<mapsto> sample_totp True [''AAAA'', ''BBBB'']], email_mfa_settings = Map.empty,
      application_mfa_settings = Map.empty, webauthn_credentials = []\<rparr>"

lemmas sample_hash = hashBackupCode_def sample_mfa_env_def ToUpper_def to_upper_def is_lower_def in_range_def

lemma char_of_65 [simp]: "char_of (65 :: nat) = CHR ''A''"
  by code_simp

lemma backup_code_single_use_witness:
  "\<exists>e db'. VerifyBackupCode sample_mfa_env no_faults 7 ''aaaa'' sample_mfa_db = (Inr (), db')
     \<and> VerifyBackupCode sample_mfa_env no_faults 7 ''AAAA'' db' = (Inl e, db')"
proof -
  let ?r = "sample_totp True [''AAAA'', ''BBBB'']"
  let ?db = "set_totp 7 (Some (sample_totp True [''BBBB''])) sample_mfa_db"
  have h: "hashBackupCode sample_mfa_env ''aaaa'' = ''AAAA''" "hashBackupCode sample_mfa_env ''AAAA'' = ''AAAA''"
    by (simp_all add: sample_hash)
  have run: "VerifyBackupCode sample_mfa_env no_faults 7 c sample_mfa_db = (Inr (), ?db)"
    if "hashBackupCode sample_mfa_env c = ''AAAA''" for c
    by (simp add: VerifyBackupCode_def backup_lookup_def backup_apply_def that sample_mfa_db_def sample_totp_def set_totp_def)
  have "totp_secrets sample_mfa_db 7 = Some ?r" "distinct (backup_codes ?r)"
    by (simp_all add: sample_mfa_db_def sample_totp_def)
  with backup_code_single_use [OF run [OF h(2)]]
  have "\<forall>fl'. \<exists>e. VerifyBackupCode sample_mfa_env fl' 7 ''AAAA'' ?db = (Inl e, ?db)"
    by (metis option.inject)
  with run [OF h(1)] show ?thesis by blast
qed

lemma backup_code_race_witness:
  "\<exists>r1 r2 db1 db2 db3. backup_lookup sample_mfa_env no_faults 7 ''AAAA'' sample_mfa_db = Inr r1
     \<and> backup_lookup sample_mfa_env no_faults 7 ''BBBB'' sample_mfa_db = Inr r2
     \<and> backup_apply no_faults 7 r1 sample_mfa_db = (Inr (), db1) \<and> backup_apply no_faults 7 r2 db1 = (Inr (), db2)
     \<and> VerifyBackupCode sample_mfa_env no_faults 7 ''AAAA'' db2 = (Inr (), db3)"
proof -
  have h: "hashBackupCode sample_mfa_env ''AAAA'' = ''AAAA''" "hashBackupCode sample_mfa_env ''BBBB'' = ''BBBB''"
    by (simp_all add: sample_hash)
  have l: "backup_lookup sample_mfa_env no_faults 7 ''AAAA'' sample_mfa_db = Inr [''BBBB'']"
    "backup_lookup sample_mfa_env no_faults 7 ''BBBB'' sample_mfa_db = Inr [''AAAA'']"
    by (simp_all add: backup_lookup_def h sample_mfa_db_def sample_totp_def)
  obtain x1 db1 where 1: "backup_apply no_faults 7 [''BBBB''] sample_mfa_db = (x1, db1)" by fastforce
  obtain x2 db2 where 2: "backup_apply no_faults 7 [''AAAA''] db1 = (x2, db2)" by fastforce
  from backup_code_race [OF l 1 2] h l 1 2 show ?thesis by auto
qed

subsection \<open>Enrolling an authenticator\<close>

text \<open>
  What an enrolment hands out is what later verifies. The secret the authenticator got from the enrolment
  comes back out of the encrypted column: the enrolment is not active until a code of that secret is
  presented, any such code activates it, from then on exactly the codes of that secret verify, and every backup
  code of the response is accepted.
\<close>

theorem enrolled_authenticator_verifies:
  assumes open_seal: "\<And>k n p. length k = 32 \<Longrightarrow> gcm_open (fa_aead F) k n (gcm_seal (fa_aead F) k n p) = Some p"
    and enc: "length (encKey (fa_totp F)) = 32" "length n = 12"
    and gen: "key (if issuer = [] then TOTPIssuer else issuer) email = Some (secret, url)"
    and enrol: "Enroll F fl key (Some n) bufs u t email issuer db = (Inr r, db1)"
    and activate: "VerifyAndActivate F no_faults now u code db1 = (x, db2)"
  shows "TOTP_IsActive no_faults u db1 = Inr False \<and> (x = Inr () \<longleftrightarrow> totp_Validate F now code secret)
    \<and> (x = Inr () \<longrightarrow> TOTP_IsActive no_faults u db2 = Inr True
        \<and> (\<forall>now' c. Verify F no_faults now' u c db2 = Inr () \<longleftrightarrow> totp_Validate F now' c secret)
        \<and> (\<forall>c \<in> set (BackupCodes r). \<exists>db3. VerifyBackupCode F no_faults u c db2 = (Inr (), db3)))"
proof -
  let ?e = "base64_EncodeToString (n @ gcm_seal (fa_aead F) (encKey (fa_totp F)) n secret)"
  from enrol gen enc obtain bs tn where bs: "bufs = Some bs" "BackupCodes r = map backup_code bs"
    and db1: "db1 = set_totp u (Some \<lparr>ts_tenant = tn, secret_enc = ?e, ts_active = False,
      backup_codes = map (hashBackupCode F \<circ> backup_code) bs\<rparr>) db"
    by (auto simp: Enroll_def encryptAESGCM_def aes_key_ok_def generateBackupCodes_def split: option.splits if_splits)
  have dec: "decryptAESGCM (fa_aead F) (encKey (fa_totp F)) ?e = Inr secret"
    using enc by (simp add: decryptAESGCM_def' base64_DecodeString_Encode decryptGCM_envelope aes_key_ok_def open_seal)
  have x: "x = Inr () \<longleftrightarrow> totp_Validate F now code secret"
    using activate by (auto simp: VerifyAndActivate_def loadSecret_def db1 dec split: if_splits)
  have db2: "x = Inr () \<Longrightarrow> totp_secrets db2 u = Some \<lparr>ts_tenant = tn, secret_enc = ?e, ts_active = True,
      backup_codes = map (hashBackupCode F \<circ> backup_code) bs\<rparr>"
    using activate by (auto simp: VerifyAndActivate_def loadSecret_def db1 dec split: if_splits)
  have "\<exists>db3. VerifyBackupCode F no_faults u c db2 = (Inr (), db3)" if "c \<in> set (BackupCodes r)" "x = Inr ()" for c
    unfolding VerifyBackupCode_Inr_iff using that db2 by (auto simp: bs)
  moreover have "x = Inr () \<Longrightarrow> Verify F no_faults now' u c db2 = Inr () \<longleftrightarrow> totp_Validate F now' c secret" for now' c
    by (simp add: Verify_def loadSecret_def db2 dec)
  moreover have "x = Inr () \<Longrightarrow> TOTP_IsActive no_faults u db2 = Inr True" by (simp add: TOTP_IsActive_def db2)
  moreover have "TOTP_IsActive no_faults u db1 = Inr False" by (simp add: TOTP_IsActive_def db1)
  ultimately show ?thesis using x by blast
qed

lemma enrolled_authenticator_verifies_witness:
  "\<exists>r db1 db2. Enroll sample_mfa_env no_faults (\<lambda>_ _. Some (''s'', ''u'')) (Some ''123456789012'') (Some [''abcdefgh'']) 8 3 ''a'' [] sample_mfa_db = (Inr r, db1)
     \<and> VerifyAndActivate sample_mfa_env no_faults 5 8 ''s'' db1 = (Inr (), db2)
     \<and> Verify sample_mfa_env no_faults 9 8 ''s'' db2 = Inr () \<and> Verify sample_mfa_env no_faults 9 8 ''z'' db2 \<noteq> Inr ()"
proof -
  let ?k = "\<lambda>_ _. Some (''s'', ''u'')" and ?n = "''123456789012''"
  let ?e = "Enroll sample_mfa_env no_faults ?k (Some ?n) (Some [''abcdefgh'']) 8 3 ''a'' [] sample_mfa_db"
  have "(case fst ?e of Inr _ \<Rightarrow> True | Inl _ \<Rightarrow> False)" by code_simp
  then obtain r db1 where e: "?e = (Inr r, db1)" by (auto split: sum.splits) (metis prod.collapse)
  obtain x db2 where v: "VerifyAndActivate sample_mfa_env no_faults 5 8 ''s'' db1 = (x, db2)" by fastforce
  have "TOTP_IsActive no_faults 8 db1 = Inr False \<and> (x = Inr () \<longleftrightarrow> totp_Validate sample_mfa_env 5 ''s'' ''s'')
    \<and> (x = Inr () \<longrightarrow> TOTP_IsActive no_faults 8 db2 = Inr True
        \<and> (\<forall>now' c. Verify sample_mfa_env no_faults now' 8 c db2 = Inr () \<longleftrightarrow> totp_Validate sample_mfa_env now' c ''s'')
        \<and> (\<forall>c \<in> set (BackupCodes r). \<exists>db3. VerifyBackupCode sample_mfa_env no_faults 8 c db2 = (Inr (), db3)))"
    by (rule enrolled_authenticator_verifies [OF _ _ _ _ e v])
      (simp_all add: sample_mfa_env_def sample_aead_def HasPrefix_def)
  then show ?thesis using e v by (auto simp: sample_mfa_env_def)
qed

subsection \<open>The policy of an application\<close>

text \<open>
  The policy an operator stores is the one enforced, and only in the operator's tenant. An accepted write
  is what \<^verbatim>\<open>GetAppMFAConfig\<close> reads back (a missing method list keeps the one in force), it touches
  no other application and not the magic-link settings; a policy row of another tenant is never changed.
\<close>

theorem app_policy_pinned_to_tenant:
  assumes run: "SetAppMFAPolicy fl now tid app mode methods by db = (x, db')"
  shows "(case x of
      Inr _ \<Rightarrow> GetAppMFAConfig no_faults app db' =
                 Inr (mode, case methods of Some ms \<Rightarrow> ms | None \<Rightarrow> snd (projr (GetAppMFAConfig no_faults app db)))
               \<and> (\<forall>r. application_mfa_settings db app = Some r \<longrightarrow> am_tenant r = tid)
               \<and> (\<exists>r. application_mfa_settings db' app = Some r \<and> am_tenant r = tid \<and> ValidMFAMode (am_mode r)
                    \<and> (\<forall>r0. application_mfa_settings db app = Some r0 \<longrightarrow>
                         magic_link_enabled r = magic_link_enabled r0 \<and> magic_link_redirect_url r = magic_link_redirect_url r0))
    | Inl _ \<Rightarrow> db' = db)
    \<and> (\<forall>r. application_mfa_settings db app = Some r \<longrightarrow> am_tenant r \<noteq> tid \<longrightarrow> db' = db)
    \<and> totp_secrets db' = totp_secrets db \<and> email_mfa_settings db' = email_mfa_settings db
    \<and> (\<forall>a. a \<noteq> app \<longrightarrow> application_mfa_settings db' a = application_mfa_settings db a)"
proof -
  show ?thesis
    using run
    by (auto simp: SetAppMFAPolicy_def upsert_app_setting_def put_app_setting_def GetAppMFAConfig_def Let_def
        ValidMFAMethods_def defaultMFAMethods_def split: if_splits option.splits)
qed

lemma app_policy_pinned_to_tenant_witness:
  "\<exists>db'. SetAppMFAPolicy no_faults 5 1 9 ''required'' (Some [''email'']) None sample_mfa_db = (Inr (), db')
     \<and> GetAppMFAConfig no_faults 9 db' = Inr (''required'', [''email''])
     \<and> SetAppMFAPolicy no_faults 5 2 9 ''disabled'' None None db' = (Inl ErrAppNotFound, db')"
proof -
  obtain db' where run: "SetAppMFAPolicy no_faults 5 1 9 ''required'' (Some [''email'']) None sample_mfa_db = (Inr (), db')"
    by (simp add: SetAppMFAPolicy_def ValidMFAMode_def ValidMFAMethods_def upsert_app_setting_def mfa_names sample_mfa_db_def Let_def)
  from app_policy_pinned_to_tenant [OF run]
  have 1: "GetAppMFAConfig no_faults 9 db' = Inr (''required'', [''email''])"
    and 2: "\<exists>r. application_mfa_settings db' 9 = Some r \<and> am_tenant r = 1" by auto
  from 2 have "SetAppMFAPolicy no_faults 5 2 9 ''disabled'' None None db' = (Inl ErrAppNotFound, db')"
    by (auto simp: SetAppMFAPolicy_def ValidMFAMode_def upsert_app_setting_def mfa_names Let_def)
  with run 1 show ?thesis by blast
qed

subsection \<open>The budget of an emailed code\<close>

text \<open>A guess at the code under a key: the failing calls, the instant and the code.\<close>

type_synonym guess = "faults \<times> time \<times> string"

definition guess_time :: "guess \<Rightarrow> time" where "guess_time g = fst (snd g)"
definition guess_clean :: "guess \<Rightarrow> bool" where "guess_clean g \<longleftrightarrow> fst g = no_faults"

definition guess_code :: "'r mfa_env \<Rightarrow> string \<Rightarrow> guess \<Rightarrow> 'r account_state \<Rightarrow> bool \<times> 'r account_state" where
  "guess_code F key g st =
     (case g of (fl, now, code) \<Rightarrow> (case verifyStoredCode F fl now key code st of (x, st') \<Rightarrow> (x = Inr (), st')))"

locale mfa_service =
  fixes F :: "'r mfa_env"
  assumes store: "redis_store (fa_redis F)"
begin

lemma code_ttl_pos: "0 < EmailOTPTTL + Minute"
  by (simp add: EmailOTPTTL_def)

text \<open>After the budget is spent every guess fails, whatever the code and whichever calls fail.\<close>

lemma verifyStoredCode_spent:
  assumes spent: "budget_spent (fa_redis F) (as_redis st) t key (key @ '':attempts'') MaxOTPAttempts" and now: "t \<le> now"
    and run: "verifyStoredCode F fl now key code st = (x, st')"
  shows "x \<noteq> Inr () \<and> budget_spent (fa_redis F) (as_redis st') now key (key @ '':attempts'') MaxOTPAttempts"
proof (cases "fl ''redis get'' \<or> rget (fa_redis F) (as_redis st) now key = None")
  case True
  then show ?thesis using run budget_spent_mono [OF spent now] by (auto simp: verifyStoredCode_def split: if_splits)
next
  case False
  let ?c = "key @ '':attempts''"
  obtain m r where b: "bump_counter (fa_redis F) fl now ?c (EmailOTPTTL + Minute) (as_redis st) = (m, r)" by fastforce
  have l: "(0::int) < MaxOTPAttempts" and k: "key \<noteq> ?c" by (simp_all add: MaxOTPAttempts_def)
  from redis_store.bump_counter_spent [OF store spent l now code_ttl_pos k _ b] False
  have m: "\<forall>k. m = Some k \<longrightarrow> MaxOTPAttempts < k" and r: "budget_spent (fa_redis F) r now key ?c MaxOTPAttempts" by auto
  have "budget_spent (fa_redis F) (rdel (fa_redis F) (rdel (fa_redis F) r now key) now ?c) now key ?c MaxOTPAttempts"
    by (rule budget_spent_gone) (simp add: redis_store.get_del [OF store])
  with run False b m r show ?thesis by (auto simp: verifyStoredCode_def Let_def split: option.splits if_splits)
qed

text \<open>A wrong guess while the code lives is counted and leaves the code where it was.\<close>

lemma verifyStoredCode_counts:
  assumes at: "counter_at (fa_redis F) (as_redis st) t (key @ '':attempts'') n H" and n: "0 \<le> n" "n < MaxOTPAttempts"
    and now: "t \<le> now" "now < H" "H \<le> now + (EmailOTPTTL + Minute)"
    and live: "value_until (fa_redis F) (as_redis st) t key h H"
    and run: "verifyStoredCode F no_faults now key code st = (x, st')" "x \<noteq> Inr ()"
  shows "counter_at (fa_redis F) (as_redis st') now (key @ '':attempts'') (n + 1) H \<and> value_until (fa_redis F) (as_redis st') now key h H"
proof -
  let ?c = "key @ '':attempts''"
  have "int64_range (n + 1)" using n by (simp add: int64_range_def MaxOTPAttempts_def)
  from redis_store.bump_counter_counts [OF store at n(1) this now code_ttl_pos, of no_faults]
  obtain r where b: "bump_counter (fa_redis F) no_faults now ?c (EmailOTPTTL + Minute) (as_redis st) = (Some (n + 1), r)"
    and c: "counter_at (fa_redis F) r now ?c (n + 1) H" by auto
  have k: "now \<le> s \<Longrightarrow> rget (fa_redis F) r s key = rget (fa_redis F) (as_redis st) s key" for s
    using redis_store.bump_counter_other [OF store code_ttl_pos, of now s key ?c no_faults "as_redis st"] b by simp
  have "rget (fa_redis F) (as_redis st) now key = Some h" using live now by (simp add: value_until_def)
  then have "as_redis st' = r"
    using run n(2) b by (auto simp: verifyStoredCode_def Let_def MaxOTPAttempts_def split: if_splits)
  then show ?thesis using c k live now(1) by (auto simp: value_until_def)
qed

lemma guess_code_budget:
  "attempt_budget (fa_redis F) (guess_code F key) as_redis guess_time guess_clean (\<lambda>_. True) key MaxOTPAttempts (EmailOTPTTL + Minute)"
proof (intro attempt_budget.intro attempt_budget_axioms.intro store)
  show "0 < MaxOTPAttempts" "int64_range MaxOTPAttempts" by (simp_all add: MaxOTPAttempts_def int64_range_def)
next
  fix s t g b s'
  assume a: "budget_spent (fa_redis F) (as_redis s) t key (key @ '':attempts'') MaxOTPAttempts" "t \<le> guess_time g"
    "guess_code F key g s = (b, s')"
  obtain fl now code where g: "g = (fl, now, code)" by (cases g)
  obtain x st' where v: "verifyStoredCode F fl now key code s = (x, st')" by fastforce
  from verifyStoredCode_spent [OF a(1) _ v] a(2,3) g v
  show "\<not> b \<and> budget_spent (fa_redis F) (as_redis s') (guess_time g) key (key @ '':attempts'') MaxOTPAttempts"
    by (auto simp: guess_code_def guess_time_def)
next
  fix s t n H v g s'
  assume a: "counter_at (fa_redis F) (as_redis s) t (key @ '':attempts'') n H" "value_until (fa_redis F) (as_redis s) t key v H"
    "0 \<le> n" "n < MaxOTPAttempts" "t \<le> guess_time g" "guess_time g < H" "H \<le> guess_time g + (EmailOTPTTL + Minute)"
    "guess_clean g" "guess_code F key g s = (False, s')"
  obtain now code where g: "g = (no_faults, now, code)" using a(8) by (metis guess_clean_def prod.collapse)
  obtain x st' where v: "verifyStoredCode F no_faults now key code s = (x, st')" by fastforce
  have "x \<noteq> Inr ()" "s' = st'" using a(9) g v by (auto simp: guess_code_def)
  with verifyStoredCode_counts [OF a(1,3,4) _ _ _ a(2) v] a(5-7) g
  show "counter_at (fa_redis F) (as_redis s') (guess_time g) (key @ '':attempts'') (n + 1) H
      \<and> value_until (fa_redis F) (as_redis s') (guess_time g) key v H
      \<or> budget_spent (fa_redis F) (as_redis s') (guess_time g) key (key @ '':attempts'') MaxOTPAttempts"
    by (auto simp: guess_time_def)
qed

end

sublocale mfa_service < codes: attempt_budget "fa_redis F" "guess_code F key" as_redis guess_time guess_clean "\<lambda>_. True" key
    MaxOTPAttempts "EmailOTPTTL + Minute" for key
  by (rule guess_code_budget)

interpretation keyspace_mfa: mfa_service "F\<lparr>fa_auth := keyspace_env h\<rparr>" for F h
  by (rule mfa_service.intro) (simp add: keyspace_env_def ks.redis_store_axioms)

interpretation sample_mfa: mfa_service sample_mfa_env
  by (rule mfa_service.intro) (simp add: sample_mfa_env_def keyspace_env_def ks.redis_store_axioms)

text \<open>
  C24: an emailed code can be guessed at five times. After a code is minted under a key, take any number of
  guesses at it, in order of time: if the first five are refused, every later one is, the right code included
  and whichever of their calls fail. The counter cannot expire before the code does.
\<close>

theorem email_code_attempts_bounded:
  assumes svc: "mfa_service F" and ttl: "0 < ttl" "ttl \<le> EmailOTPTTL"
    and mint: "mintAndSend F no_faults t0 rnd key email appName tid app ttl st = (Inr (), st1)"
    and times: "sorted (t0 # map guess_time gs)" and nf: "\<forall>g \<in> set (take 5 gs). guess_clean g"
    and fail: "True \<notin> set (take 5 (try_run (guess_code F key) gs st1))"
  shows "True \<notin> set (try_run (guess_code F key) gs st1)"
proof -
  note store = mfa_service.store [OF svc]
  note budget = mfa_service.guess_code_budget [OF svc, of key]
  let ?R = "fa_redis F" and ?c = "key @ '':attempts''"
  obtain code where code: "generateEmailOTP rnd = Inr code" using mint by (auto simp: mintAndSend_def split: sum.splits)
  let ?r = "rdel ?R (rset ?R (as_redis st) t0 key (HashToken (fa_auth F) code) ttl) t0 ?c"
  from mint have "as_redis st1 = ?r \<or> as_redis st1 = rdel ?R ?r t0 key"
    by (auto simp: mintAndSend_def Let_def auditEmailSuppressed_def put_redis_def set_redis_def code split: if_splits)
  then show ?thesis
  proof
    assume r: "as_redis st1 = ?r"
    have v: "value_until ?R (as_redis st1) t0 key (HashToken (fa_auth F) code) (t0 + ttl)"
      using ttl(1) by (simp add: r value_until_def redis_store.get_del [OF store] redis_store.get_set [OF store])
    have c: "counter_at ?R (as_redis st1) t0 ?c 0 (t0 + ttl)" unfolding r by (rule redis_store.counter_fresh [OF store])
    show ?thesis
      by (rule attempt_budget.try_run_bounded [OF budget c v _ _ _ times])
        (use ttl(2) nf fail in \<open>simp_all add: MaxOTPAttempts_def\<close>)
  next
    assume r: "as_redis st1 = rdel ?R ?r t0 key"
    have "budget_spent ?R (as_redis st1) t0 key ?c MaxOTPAttempts"
      by (rule budget_spent_gone) (simp add: r redis_store.get_del [OF store])
    from attempt_budget.try_run_spent [OF budget this times] show ?thesis .
  qed
qed

definition sample_member :: "int option \<Rightarrow> lockout_row" where
  "sample_member app = (sample_account True 0 None)\<lparr>u_application := app\<rparr>"

definition sample_account_state :: "mfa_db \<Rightarrow> keyspace account_state" where
  "sample_account_state db = \<lparr>as_block = sample_block_state True 0 None, as_mfa = db, as_mail = []\<rparr>"

definition sample_guesses :: "guess list" where
  "sample_guesses = map (\<lambda>c. (no_faults, Second, c)) [''000001'', ''000002'', ''000003'', ''000004'', ''000005'', ''000042'']"

lemma sample_guesses: "map guess_time sample_guesses = replicate 6 Second" "\<forall>g \<in> set sample_guesses. guess_clean g"
  by (simp_all add: sample_guesses_def guess_time_def guess_clean_def eval_nat_numeral)

lemma email_code_attempts_bounded_witness:
  "\<exists>st1. mintAndSend sample_mfa_env no_faults 0 (Some 42) ''k'' ''a@b'' [] 3 None EmailOTPTTL (sample_account_state sample_mfa_db) = (Inr (), st1)
     \<and> True \<notin> set (try_run (guess_code sample_mfa_env ''k'') sample_guesses st1)
     \<and> fst (guess_code sample_mfa_env ''k'' (no_faults, Second, ''000042'') st1)"
proof -
  let ?m = "mintAndSend sample_mfa_env no_faults 0 (Some 42) ''k'' ''a@b'' [] 3 None EmailOTPTTL (sample_account_state sample_mfa_db)"
  have "fst ?m = Inr ()" by code_simp
  then obtain st1 where m: "?m = (Inr (), st1)" by (metis prod.collapse)
  have "fst (guess_code sample_mfa_env ''k'' (no_faults, Second, ''000042'') (snd ?m))" by code_simp
  moreover have "True \<notin> set (take 5 (try_run (guess_code sample_mfa_env ''k'') sample_guesses (snd ?m)))" by code_simp
  then have "True \<notin> set (take 5 (try_run (guess_code sample_mfa_env ''k'') sample_guesses st1))" using m by simp
  from email_code_attempts_bounded [OF sample_mfa.mfa_service_axioms _ _ m _ _ this]
  have "True \<notin> set (try_run (guess_code sample_mfa_env ''k'') sample_guesses st1)"
    using sample_guesses by (auto simp: EmailOTPTTL_def dest: in_set_takeD)
  ultimately show ?thesis using m by auto
qed

subsection \<open>An application that requires a factor\<close>

definition has_factor :: "mfa_db \<Rightarrow> int \<Rightarrow> bool" where
  "has_factor db u \<longleftrightarrow> (case totp_secrets db u of None \<Rightarrow> False | Some r \<Rightarrow> ts_active r)
     \<or> (case email_mfa_settings db u of None \<Rightarrow> False | Some r \<Rightarrow> em_active r)"

definition mandated :: "'r account_state \<Rightarrow> int \<Rightarrow> bool" where
  "mandated st u \<longleftrightarrow>
     (\<exists>x \<in> set (bs_users (as_block st)). u_id x = u \<and>
        (case Option.bind (u_application x) (application_mfa_settings (as_mfa st)) of
           None \<Rightarrow> False | Some r \<Rightarrow> am_mode r = MFAModeRequired))"

text \<open>The only active factor of the user is the authenticator.\<close>

definition authenticator_only :: "mfa_db \<Rightarrow> int \<Rightarrow> bool" where
  "authenticator_only db u \<longleftrightarrow> (case totp_secrets db u of None \<Rightarrow> False | Some r \<Rightarrow> ts_active r)
     \<and> \<not> (case email_mfa_settings db u of None \<Rightarrow> False | Some r \<Rightarrow> em_active r)"

text \<open>
  What a signed-in user can do to the factors of the account. A new enrolment of the authenticator is among it unless the
  authenticator is the only active factor of the user who starts it.
\<close>

inductive self_service :: "'r mfa_env \<Rightarrow> 'r account_state \<Rightarrow> 'r account_state \<Rightarrow> bool" for F where
  disable_totp: "self_service F st (snd (DisableUser F fl now u t code st))"
| disable_email: "self_service F st (snd (Email_Disable F fl now u t code st))"
| activate_totp: "self_service F st (st\<lparr>as_mfa := snd (VerifyAndActivate F fl now u code (as_mfa st))\<rparr>)"
| regenerate: "self_service F st (st\<lparr>as_mfa := snd (RegenerateBackupCodes F fl now bufs u code (as_mfa st))\<rparr>)"
| begin_email: "self_service F st (snd (BeginEnrollment F fl now rnd u t email st))"
| activate_email: "self_service F st (snd (ActivateEnrollment F fl now u code st))"
| send_email: "self_service F st (snd (SendVerificationCode F fl now rnd u t email st))"
| start_totp: "\<not> authenticator_only (as_mfa st) u \<Longrightarrow> self_service F st (snd (EnrollUser F fl now key nonce bufs u t email code st))"

text \<open>The tables the policy is read from.\<close>

definition policy_view :: "'r account_state \<Rightarrow> lockout_row list \<times> (int \<rightharpoonup> application_mfa_setting)" where
  "policy_view st = (bs_users (as_block st), application_mfa_settings (as_mfa st))"

lemma mandated_cong: "policy_view st' = policy_view st \<Longrightarrow> mandated st' u = mandated st u"
  by (simp add: mandated_def policy_view_def)

lemma set_factor_simps [simp]:
  "application_mfa_settings (set_totp u r db) = application_mfa_settings db"
  "application_mfa_settings (set_email u q db) = application_mfa_settings db"
  "email_mfa_settings (set_totp u r db) = email_mfa_settings db" "totp_secrets (set_email u q db) = totp_secrets db"
  "email_mfa_settings (set_email u q db) = (email_mfa_settings db)(u := q)"
  "totp_secrets (set_totp u r db) = (totp_secrets db)(u := r)"
  by (simp_all add: set_totp_def set_email_def)

lemma mail_frame:
  "policy_view (snd (mintAndSend F fl now rnd k e n t a ttl st)) = policy_view st"
  "as_mfa (snd (mintAndSend F fl now rnd k e n t a ttl st)) = as_mfa st"
  "policy_view (snd (verifyStoredCode F fl now k c st)) = policy_view st"
  "as_mfa (snd (verifyStoredCode F fl now k c st)) = as_mfa st"
  by (auto simp: mintAndSend_def verifyStoredCode_def auditEmailSuppressed_def policy_view_def Let_def
      split: sum.splits option.splits prod.splits)

lemma verifyStoredCode_frame:
  "verifyStoredCode F fl now k c st = (x, st1) \<Longrightarrow> policy_view st1 = policy_view st \<and> as_mfa st1 = as_mfa st"
  using mail_frame(3,4) [of F fl now k c st] by simp

lemma prove_totp_frame:
  assumes "prove_totp F fl now u code db = (b, db1)"
  shows "has_factor db1 v = has_factor db v \<and> application_mfa_settings db1 = application_mfa_settings db
    \<and> email_mfa_settings db1 = email_mfa_settings db"
  using assms
  by (auto simp: prove_totp_def VerifyBackupCode_def backup_apply_def has_factor_def split: sum.splits if_splits option.splits)

text \<open>A new enrolment: nobody else's factors move, an emailed factor stays, and where it succeeds the authenticator is inactive.\<close>

lemma Enroll_cases:
  assumes "Enroll F fl key nonce bufs v t email issuer db = (x, db')"
  shows "isl x \<and> db' = db \<or> \<not> isl x \<and> (\<exists>q. totp_secrets db' = (totp_secrets db)(v := Some q) \<and> \<not> ts_active q)
    \<and> email_mfa_settings db' = email_mfa_settings db \<and> application_mfa_settings db' = application_mfa_settings db"
proof (cases "isl x")
  case True
  then show ?thesis using assms by (auto simp: Enroll_def split: option.splits sum.splits if_splits prod.splits)
next
  case False
  with assms obtain q where "db' = set_totp v (Some q) db" "\<not> ts_active q"
    by (auto simp: Enroll_def simp del: set_factor_simps split: option.splits sum.splits if_splits prod.splits)
  with False show ?thesis by auto
qed

lemma EnrollUser_cases:
  assumes "EnrollUser F fl now key nonce bufs v t email code st = (x, st')"
  obtains "isl x" "st' = st"
  | b db1 where "prove_totp F fl now v code (as_mfa st) = (b, db1)" "isl x" "st' = st\<lparr>as_mfa := db1\<rparr>"
  | db1 issuer db2 where "db1 = as_mfa st \<or> (\<exists>b. prove_totp F fl now v code (as_mfa st) = (b, db1))"
      "Enroll F fl key nonce bufs v t email issuer db1 = (x, db2)" "st' = st\<lparr>as_mfa := db2\<rparr>"
proof -
  note def = assms [unfolded EnrollUser_def]
  consider "isl x" "st' = st" | uc active where "mfa_context fl v t st = Inr uc" "TOTP_IsActive fl v (as_mfa st) = Inr active"
    "\<not> (uc_appRowID uc \<noteq> None \<and> uc_mode uc = MFAModeDisabled)" "methodPermitted uc MFAMethodTOTP" "\<not> (active \<and> code = [])"
    using def by (cases "mfa_context fl v t st"; cases "TOTP_IsActive fl v (as_mfa st)") (auto split: if_split_asm)
  then show ?thesis
  proof cases
    case 1
    then show ?thesis by (rule that(1))
  next
    case (2 uc active)
    obtain b db1 where p: "(if active then prove_totp F fl now v code (as_mfa st) else (True, as_mfa st)) = (b, db1)" by fastforce
    note def = def [unfolded 2(1,2) sum.case if_not_P [OF 2(3)] if_not_P [OF 2(5)] p prod.case]
    show ?thesis
    proof (cases b)
      case False
      with p have "prove_totp F fl now v code (as_mfa st) = (b, db1)" by (simp split: if_split_asm)
      moreover have "isl x" "st' = st\<lparr>as_mfa := db1\<rparr>" using def False 2(4) by auto
      ultimately show ?thesis by (rule that(2))
    next
      case True
      obtain db2 where e: "Enroll F fl key nonce bufs v t email (if uc_appName uc \<noteq> [] then uc_appName uc else TOTPIssuer) db1 = (x, db2)"
        "st' = st\<lparr>as_mfa := db2\<rparr>" using def True 2(4) by (auto split: prod.splits)
      have "db1 = as_mfa st \<or> (\<exists>b. prove_totp F fl now v code (as_mfa st) = (b, db1))" using p by (auto split: if_split_asm)
      then show ?thesis using e by (rule that(3))
    qed
  qed
qed

lemma EnrollUser_frame:
  assumes run: "EnrollUser F fl now key nonce bufs v t email code st = (x, st')"
  shows "policy_view st' = policy_view st \<and> email_mfa_settings (as_mfa st') = email_mfa_settings (as_mfa st)
    \<and> (\<forall>w. w \<noteq> v \<or> isl x \<longrightarrow> has_factor (as_mfa st') w = has_factor (as_mfa st) w)
    \<and> (\<not> isl x \<longrightarrow> (\<exists>q. totp_secrets (as_mfa st') v = Some q \<and> \<not> ts_active q))"
  using run
proof (cases rule: EnrollUser_cases)
  case 1
  then show ?thesis by simp
next
  case (2 b db1)
  then show ?thesis using prove_totp_frame [OF 2(1)] by (simp add: policy_view_def)
next
  case (3 db1 issuer db2)
  have f: "has_factor db1 w = has_factor (as_mfa st) w \<and> application_mfa_settings db1 = application_mfa_settings (as_mfa st)
      \<and> email_mfa_settings db1 = email_mfa_settings (as_mfa st)" for w
    using 3(1) prove_totp_frame by blast
  have "has_factor db2 w = has_factor db1 w" if "w \<noteq> v \<or> isl x" for w
    using Enroll_cases [OF 3(2)] that by (auto simp: has_factor_def)
  with Enroll_cases [OF 3(2)] f show ?thesis unfolding 3(3) by (auto simp: policy_view_def)
qed

lemma mandated_context:
  assumes "mandated st u" "distinct (map u_id (bs_users (as_block st)))" "mfa_context fl u t st = Inr uc"
  shows "uc_appRowID uc \<noteq> None \<and> uc_mode uc = MFAModeRequired"
proof -
  obtain x where x: "x \<in> set (bs_users (as_block st))" "u_id x = u"
    "case Option.bind (u_application x) (application_mfa_settings (as_mfa st)) of None \<Rightarrow> False | Some r \<Rightarrow> am_mode r = MFAModeRequired"
    using assms(1) unfolding mandated_def by blast
  obtain y where y: "find (\<lambda>w. u_id w = u \<and> u_tenant w = t \<and> u_deleted w = None) (bs_users (as_block st)) = Some y"
    and uc: "uc_appRowID uc = u_application y"
      "uc_mode uc = (case Option.bind (u_application y) (application_mfa_settings (as_mfa st)) of None \<Rightarrow> MFAModeOptional | Some r \<Rightarrow> am_mode r)"
    using assms(3) by (auto simp: loadUserMFAContext_def Let_def split: if_splits option.splits)
  have "y \<in> set (bs_users (as_block st))" "u_id y = u" using y by (auto simp: find_Some_iff)
  with x assms(2) have "y = x" by (auto simp: distinct_map inj_on_def)
  then show ?thesis using x(3) uc by (auto simp: bind_eq_Some_conv split: option.splits)
qed

lemma self_service_step:
  assumes "self_service F st st'" "distinct (map u_id (bs_users (as_block st)))" "mandated st u" "has_factor (as_mfa st) u"
  shows "policy_view st' = policy_view st \<and> has_factor (as_mfa st') u"
  using assms(1)
proof (cases rule: self_service.cases)
  case (disable_totp fl now v t code)
  show ?thesis
  proof (cases "DisableUser_check fl v t st")
    case (Inr x)
    obtain b db1 where p: "prove_totp F fl now v code (as_mfa st) = (b, db1)" by fastforce
    note f = prove_totp_frame [OF p, of u]
    have "v = u \<Longrightarrow> \<exists>r. email_mfa_settings (as_mfa st) u = Some r \<and> em_active r"
      using Inr mandated_context [OF assms(3,2), of fl t]
      by (auto simp: DisableUser_check_def emailMFAActive_def split: sum.splits if_splits option.splits)
    then show ?thesis
      using disable_totp Inr p f assms(4)
      by (auto simp: DisableUser_def Disable_def policy_view_def has_factor_def split: bool.splits)
  qed (use disable_totp assms in \<open>simp add: DisableUser_def\<close>)
next
  case (disable_email fl now v t code)
  show ?thesis
  proof (cases "Email_Disable_check fl v t st")
    case (Inr x)
    obtain y st1 where y: "verifyStoredCode F fl now (emailVerifyKey v) code st = (y, st1)" by fastforce
    note f = verifyStoredCode_frame [OF y]
    have "v = u \<Longrightarrow> \<exists>r. totp_secrets (as_mfa st) u = Some r \<and> ts_active r"
      using Inr mandated_context [OF assms(3,2), of fl t]
      by (auto simp: Email_Disable_check_def TOTP_IsActive_def split: sum.splits if_splits option.splits)
    then show ?thesis
      using disable_email Inr y f assms(4)
      by (auto simp: Email_Disable_def Email_Disable_apply_def policy_view_def has_factor_def split: sum.splits)
  qed (use disable_email assms in \<open>simp add: Email_Disable_def\<close>)
next
  case (activate_totp fl now v code)
  then show ?thesis using assms(4)
    by (auto simp: VerifyAndActivate_def policy_view_def has_factor_def split: sum.splits if_splits option.splits)
next
  case (regenerate fl now bufs v code)
  obtain b db1 where p: "prove_totp F fl now v code (as_mfa st) = (b, db1)" by fastforce
  note f = prove_totp_frame [OF p, of u]
  show ?thesis using regenerate p f assms(4)
    by (auto simp: RegenerateBackupCodes_def policy_view_def has_factor_def split: bool.splits option.splits)
next
  case (begin_email fl now rnd v t email)
  have "policy_view (st\<lparr>as_mfa := set_email v q (as_mfa st)\<rparr>) = policy_view st" for q by (simp add: policy_view_def)
  moreover have "email_mfa_settings (as_mfa st) v = None \<Longrightarrow>
      has_factor (set_email v (Some \<lparr>em_tenant = t, em_active = False\<rparr>) (as_mfa st)) u" using assms(4) by (auto simp: has_factor_def)
  ultimately show ?thesis using assms(4)
    by (simp add: begin_email BeginEnrollment_def mail_frame split: sum.split)
next
  case (activate_email fl now v code)
  obtain y st1 where y: "verifyStoredCode F fl now (emailVerifyKey v) code st = (y, st1)" by fastforce
  note f = verifyStoredCode_frame [OF y]
  show ?thesis using activate_email y f assms(4)
    by (auto simp: ActivateEnrollment_def has_factor_def policy_view_def split: sum.splits option.splits)
next
  case (send_email fl now rnd v t email)
  then show ?thesis using assms(4) by (simp add: SendVerificationCode_def mail_frame split: sum.split)
next
  case (start_totp v fl now key nonce bufs t email code)
  obtain x st2 where run: "EnrollUser F fl now key nonce bufs v t email code st = (x, st2)" by fastforce
  then have st': "st' = st2" using start_totp(1) by simp
  note f = EnrollUser_frame [OF run]
  have "has_factor (as_mfa st2) u"
  proof (cases "u \<noteq> v \<or> isl x")
    case True
    then show ?thesis using f assms(4) by blast
  next
    case False
    with start_totp(2) assms(4) have "case email_mfa_settings (as_mfa st) u of None \<Rightarrow> False | Some r \<Rightarrow> em_active r"
      by (auto simp: authenticator_only_def has_factor_def)
    with f show ?thesis by (simp add: has_factor_def)
  qed
  with f st' show ?thesis by simp
qed

lemma self_service_steps:
  assumes "(self_service F)\<^sup>*\<^sup>* st st'" "distinct (map u_id (bs_users (as_block st)))" "mandated st u" "has_factor (as_mfa st) u"
  shows "policy_view st' = policy_view st \<and> has_factor (as_mfa st') u"
  using assms(1)
proof (induction rule: rtranclp_induct)
  case (step st1 st2)
  then have v: "policy_view st1 = policy_view st" "has_factor (as_mfa st1) u" by auto
  then have "distinct (map u_id (bs_users (as_block st1)))" "mandated st1 u"
    using assms(2,3) mandated_cong [OF v(1)] by (auto simp: policy_view_def)
  from self_service_step [OF step.hyps(2) this v(2)] v(1) show ?case by simp
qed (use assms in simp)

text \<open>
  C17: under a mandate the last factor stays, with one exception. For a user whose application requires a second factor, whatever
  sequence of activations, enrolments, code requests, regenerations and removals is run one after the other, by anybody and with
  any of their calls failing, an account that has an active factor keeps one, as long as nobody starts a new enrolment of an
  authenticator that is the only active factor. The exception is exact: at any point of such a sequence, a successful new
  enrolment leaves the user a factor if and only if the authenticator was not the only one.
\<close>

theorem mandate_keeps_a_factor:
  assumes "(self_service F)\<^sup>*\<^sup>* st st'" "distinct (map u_id (bs_users (as_block st)))"
    and "mandated st u" "has_factor (as_mfa st) u"
  shows "mandated st' u \<and> has_factor (as_mfa st') u
    \<and> (\<forall>fl now key nonce bufs t email code r st''. EnrollUser F fl now key nonce bufs u t email code st' = (Inr r, st'') \<longrightarrow>
         has_factor (as_mfa st'') u = (\<not> authenticator_only (as_mfa st') u))"
proof -
  note k = self_service_steps [OF assms]
  have "has_factor (as_mfa st'') u = (\<not> authenticator_only (as_mfa st') u)"
    if run: "EnrollUser F fl now key nonce bufs u t email code st' = (Inr r, st'')" for fl now key nonce bufs t email code r st''
    using EnrollUser_frame [OF run] k by (auto simp: has_factor_def authenticator_only_def)
  with k mandated_cong assms(3) show ?thesis by blast
qed

definition sample_required_db :: "bool \<Rightarrow> mfa_db" where
  "sample_required_db email =
     \<lparr>totp_secrets = [7 \<mapsto> sample_totp True [''AAAA'', ''BBBB'']],
      email_mfa_settings = [7 \<mapsto> \<lparr>em_tenant = 3, em_active = email\<rparr>],
      application_mfa_settings = [9 \<mapsto> \<lparr>am_tenant = 3, am_mode = MFAModeRequired, am_methods = [MFAMethodTOTP, MFAMethodEmail],
        magic_link_enabled = False, magic_link_redirect_url = [], am_updated_by = None, am_updated_at = 0\<rparr>],
      webauthn_credentials = []\<rparr>"

definition sample_required_state :: "bool \<Rightarrow> keyspace account_state" where
  "sample_required_state email =
     \<lparr>as_block = (sample_block_state True 0 None)\<lparr>bs_users := [sample_member (Some 9)]\<rparr>,
      as_mfa = sample_required_db email, as_mail = []\<rparr>"

lemma sample_required:
  "distinct (map u_id (bs_users (as_block (sample_required_state e))))" "mandated (sample_required_state e) 7"
  "has_factor (as_mfa (sample_required_state e)) 7"
  by (simp_all add: sample_required_state_def sample_required_db_def mandated_def has_factor_def sample_member_def
      sample_account_def sample_totp_def)

lemma mandate_keeps_a_factor_witness:
  "\<exists>st'. (self_service sample_mfa_env)\<^sup>*\<^sup>* (sample_required_state True) st' \<and> totp_secrets (as_mfa st') 7 = None \<and> has_factor (as_mfa st') 7"
proof -
  let ?st = "snd (DisableUser sample_mfa_env no_faults 5 7 3 ''AAAA'' (sample_required_state True))"
  have "(self_service sample_mfa_env)\<^sup>*\<^sup>* (sample_required_state True) ?st"
    by (rule r_into_rtranclp) (rule disable_totp)
  moreover have "totp_secrets (as_mfa ?st) 7 = None" by code_simp
  ultimately show ?thesis
    using mandate_keeps_a_factor [of sample_mfa_env "sample_required_state True" ?st 7] sample_required [of True] by blast
qed

text \<open>
  The mandate races itself, and a new enrolment sidesteps it. When both removals pass their policy check
  before either deletes, both factors go; and re-enrolling the authenticator, which needs a current code but no
  other factor, deactivates the old secret at once, before the new one is confirmed.
\<close>

theorem mandate_can_lose_last_factor:
  assumes both: "DisableUser_check fl u t st = Inr ()" "Email_Disable_check fl u t st = Inr ()"
    and first: "Disable F fl now u code (as_mfa st) = (Inr (), db1)"
    and second: "Email_Disable_apply F fl' now' u code' (st\<lparr>as_mfa := db1\<rparr>) = (Inr (), st2)"
    and enrol: "EnrollUser F fl now key nonce bufs u t email code'' st' = (Inr r, st3)"
    and only: "email_mfa_settings (as_mfa st') u = None"
  shows "\<not> has_factor (as_mfa st2) u \<and> \<not> has_factor (as_mfa st3) u"
proof
  obtain x st1 where v: "verifyStoredCode F fl' now' (emailVerifyKey u) code' (st\<lparr>as_mfa := db1\<rparr>) = (x, st1)" by fastforce
  from first have "totp_secrets db1 u = None" by (auto simp: Disable_def split: prod.splits bool.splits if_splits)
  with second v verifyStoredCode_frame [OF v] show "\<not> has_factor (as_mfa st2) u"
    by (auto simp: Email_Disable_apply_def has_factor_def split: sum.splits if_splits)
next
  obtain b db2 where p: "prove_totp F fl now u code'' (as_mfa st') = (b, db2)" by fastforce
  have "email_mfa_settings db2 u = None" using prove_totp_frame [OF p, of u] only by simp
  with enrol p only show "\<not> has_factor (as_mfa st3) u"
    by (auto simp: EnrollUser_def Enroll_def has_factor_def split: sum.splits if_splits option.splits prod.splits bool.splits)
qed

lemma mandate_can_lose_last_factor_witness:
  "\<exists>st db1 st2 r st3. mandated st 7 \<and> has_factor (as_mfa st) 7
     \<and> DisableUser_check no_faults 7 3 st = Inr () \<and> Email_Disable_check no_faults 7 3 st = Inr ()
     \<and> Disable sample_mfa_env no_faults 5 7 ''AAAA'' (as_mfa st) = (Inr (), db1)
     \<and> Email_Disable_apply sample_mfa_env no_faults 5 7 ''000042'' (st\<lparr>as_mfa := db1\<rparr>) = (Inr (), st2)
     \<and> EnrollUser sample_mfa_env no_faults 5 (\<lambda>_ _. Some (''s'', ''u'')) (Some ''123456789012'') (Some []) 7 3 ''a'' ''AAAA''
         (st\<lparr>as_mfa := set_email 7 None (as_mfa st)\<rparr>) = (Inr r, st3)
     \<and> \<not> has_factor (as_mfa st2) 7 \<and> \<not> has_factor (as_mfa st3) 7"
proof -
  let ?st = "snd (mintAndSend sample_mfa_env no_faults 0 (Some 42) (emailVerifyKey 7) ''a@b'' [] 3 None EmailOTPTTL (sample_required_state True))"
  let ?key = "\<lambda>_ _. Some (''s'', ''u'')" and ?st' = "?st\<lparr>as_mfa := set_email 7 None (as_mfa ?st)\<rparr>"
  have both: "DisableUser_check no_faults 7 3 ?st = Inr ()" "Email_Disable_check no_faults 7 3 ?st = Inr ()" by code_simp+
  have "fst (Disable sample_mfa_env no_faults 5 7 ''AAAA'' (as_mfa ?st)) = Inr ()" by code_simp
  then obtain db1 where first: "Disable sample_mfa_env no_faults 5 7 ''AAAA'' (as_mfa ?st) = (Inr (), db1)" by (metis prod.collapse)
  have "fst (Email_Disable_apply sample_mfa_env no_faults 5 7 ''000042''
      (?st\<lparr>as_mfa := snd (Disable sample_mfa_env no_faults 5 7 ''AAAA'' (as_mfa ?st))\<rparr>)) = Inr ()" by code_simp
  then obtain st2 where second: "Email_Disable_apply sample_mfa_env no_faults 5 7 ''000042'' (?st\<lparr>as_mfa := db1\<rparr>) = (Inr (), st2)"
    unfolding first snd_conv by (metis prod.collapse)
  have "(case fst (EnrollUser sample_mfa_env no_faults 5 ?key (Some ''123456789012'') (Some []) 7 3 ''a'' ''AAAA'' ?st') of
      Inr _ \<Rightarrow> True | Inl _ \<Rightarrow> False)" by code_simp
  then obtain r st3 where enrol: "EnrollUser sample_mfa_env no_faults 5 ?key (Some ''123456789012'') (Some []) 7 3 ''a'' ''AAAA'' ?st' = (Inr r, st3)"
    by (auto split: sum.splits) (metis prod.collapse)
  have m: "mandated ?st 7" "has_factor (as_mfa ?st) 7"
    using sample_required [of True] by (simp_all only: mandated_cong [OF mail_frame(1)] mail_frame(2))
  from mandate_can_lose_last_factor [OF both first second enrol] both first second enrol m show ?thesis
    by (intro exI [of _ ?st] exI [of _ db1] exI [of _ st2] exI [of _ r] exI [of _ st3]) simp
qed

end
