(* ===== verification/SignIn.thy ===== *)
theory SignIn
  imports Login SecondFactor
begin

text \<open>
  What a sign-in guarantees: who gets tokens from the password alone, what a second factor adds, how often it may
  be tried, and what the two steps carry from one to the other.
\<close>

subsection \<open>The password step\<close>

lemma compare_loop_bound: "compare_loop v pw k n m cs = (cnt, m') \<Longrightarrow> cnt \<le> n + (loginMaxRealCompares - k)"
  by (induction cs arbitrary: k n m) (fastforce split: if_splits)+

lemma compare_loop_match:
  "compare_loop v pw k n m cs = (cnt, Some c) \<Longrightarrow> m = Some c \<or> c \<in> set cs \<and> v pw (lc_passwordHash c)"
  by (induction cs arbitrary: k n m) (fastforce split: if_splits)+

lemma put_block_fields [simp]:
  "ls_block (put_block b ls) = b" "as_mfa (ls_account (put_block b ls)) = as_mfa (ls_account ls)"
  "ls_credentials (put_block b ls) = ls_credentials ls" "put_block b (put_block b' ls) = put_block b ls"
  "ls_sessions (put_block b ls) = ls_sessions ls" "ls_adminMFA (put_block b ls) = ls_adminMFA ls"
  by (simp_all add: put_block_def)

lemma login_candidatesD:
  assumes "c \<in> set (login_candidates E now email secs at ar ls)"
  obtains u where "u \<in> set (bs_users (ls_block ls))" "login_candidate (me_authority (le_mint E)) now email secs at ar u"
    "ls_credentials ls (u_id u) = Some (lc_passwordHash c)" "lc_userID c = u_id u" "lc_tenantID c = u_tenant u"
    "lc_email c = u_email u" "lc_isActive c = u_active u"
  using assms by (auto simp: login_candidates_def split: option.splits)

lemma login_unlock_frame:
  "login_unlock E fl now ar pol c ls = (x, ls') \<Longrightarrow> as_mfa (ls_account ls') = as_mfa (ls_account ls)"
  by (auto simp: login_unlock_def Let_def split: prod.splits if_splits bool.splits)

text \<open>The lockout policy a sign-in is judged by: the application's, or that of the account's own tenant.\<close>

definition sign_in_policy :: "faults \<Rightarrow> time \<Rightarrow> int \<Rightarrow> int \<Rightarrow> lockout_row \<Rightarrow> 'r block_state \<Rightarrow> LockoutPolicy" where
  "sign_in_policy fl now at ar u st =
     fst (if ar \<noteq> 0 then policyFor fl now at (Some ar) st else policyFor fl now (u_tenant u) None st)"

lemma Resolve_again:
  "fst (LockoutPolicy_Resolve rows fl now t None (snd (LockoutPolicy_Resolve rows fl now t0 None sv))) = fst (LockoutPolicy_Resolve rows fl now t None sv)"
proof (cases "\<not> sv_pool sv \<or> cache_lookup now t0 None sv \<noteq> None \<or> isl (LockoutPolicy_load rows fl t0 None)")
  case True
  then have "snd (LockoutPolicy_Resolve rows fl now t0 None sv) = sv"
    by (auto simp: LockoutPolicy_Resolve_def isl_def split: option.splits)
  then show ?thesis by simp
next
  case False
  then obtain q where miss: "sv_pool sv" "cache_lookup now t0 None sv = None" "LockoutPolicy_load rows fl t0 None = Inr q"
    by (cases "LockoutPolicy_load rows fl t0 None"; cases "cache_lookup now t0 None sv") auto
  define sv' where "sv' = sv\<lparr>sv_cache := (sv_cache sv)(policy_key t0 None \<mapsto> (q, now))\<rparr>"
  have "snd (LockoutPolicy_Resolve rows fl now t0 None sv) = sv'" using miss by (simp add: LockoutPolicy_Resolve_def sv'_def)
  moreover have "fst (LockoutPolicy_Resolve rows fl now t None sv') = fst (LockoutPolicy_Resolve rows fl now t None sv)"
  proof (cases "t = t0")
    case True
    have "cache_lookup now t0 None sv' = (if 0 < sv_ttl sv then Some (q, now) else None)" by (simp add: cache_lookup_def sv'_def)
    with True miss show ?thesis by (simp add: LockoutPolicy_Resolve_def sv'_def)
  next
    case False
    then have "cache_lookup now t None sv' = cache_lookup now t None sv" by (simp add: cache_lookup_def sv'_def policy_key_def split: option.split)
    then show ?thesis by (simp add: LockoutPolicy_Resolve_def sv'_def split: option.splits sum.splits)
  qed
  ultimately show ?thesis by simp
qed

lemma policyFor_again: "fst (policyFor fl now t None (snd (policyFor fl now t0 None st))) = fst (policyFor fl now t None st)"
proof (cases "bs_policySvc st")
  case (Some sv)
  then show ?thesis using Resolve_again [of "bs_policies st" fl now t t0 sv]
    by (simp add: policyFor_def case_prod_beta)
qed (simp add: policyFor_def)

lemma policyFor_frame:
  "bs_users (snd (policyFor fl now t a st)) = bs_users st" "SoftLockedFor B fl' \<tau> t' u (snd (policyFor fl now t a st)) = SoftLockedFor B fl' \<tau> t' u st"
  by (auto simp: policyFor_def SoftLockedFor_def split: option.splits prod.splits)

text \<open>No lock stands in the way: no soft lock of an active account, and the automatic lock of an inactive one has lapsed.\<close>

definition lock_free :: "'r block_env \<Rightarrow> faults \<Rightarrow> time \<Rightarrow> LockoutPolicy \<Rightarrow> lockout_row \<Rightarrow> 'r block_state \<Rightarrow> bool" where
  "lock_free B fl now pol u st \<longleftrightarrow>
     (if u_active u then \<not> snd (SoftLockedFor B fl now (u_tenant u) (u_id u) st)
      else 0 < HardLockDuration pol \<and> (\<exists>v \<in> set (bs_users st). lock_expired now (u_tenant u) (u_id u) (HardLockDuration pol) v))"

lemma lock_free_frame: "lock_free B fl now pol u (snd (policyFor fl' now' t a st)) = lock_free B fl now pol u st"
  unfolding lock_free_def policyFor_frame by (rule refl)

lemma ExpireHardLock_lifts:
  "ExpireHardLock B fl now t u d st = (True, st') \<Longrightarrow> 0 < d \<and> (\<exists>v \<in> set (bs_users st). lock_expired now t u d v)"
  by (auto simp: ExpireHardLock_def find_Some_iff split: if_splits option.splits)

lemma login_unlock_passes:
  assumes "login_unlock E fl now ar pol c ls = (Inr x, ls')" "lc_tenantID c = u_tenant u" "lc_userID c = u_id u" "lc_isActive c = u_active u"
  shows "lock_free (le_block E) fl now (if ar = 0 then fst (policyFor fl now (u_tenant u) None (ls_block ls)) else pol) u (ls_block ls)"
proof -
  obtain q b1 where q: "(if ar = 0 then policyFor fl now (u_tenant u) None (ls_block ls) else (pol, ls_block ls)) = (q, b1)" by fastforce
  then have q': "q = (if ar = 0 then fst (policyFor fl now (u_tenant u) None (ls_block ls)) else pol)"
    and b1: "b1 = ls_block ls \<or> b1 = snd (policyFor fl now (u_tenant u) None (ls_block ls))" by (auto split: if_splits)
  from b1 have b1: "bs_users b1 = bs_users (ls_block ls)" "SoftLockedFor B fl now t v b1 = SoftLockedFor B fl now t v (ls_block ls)" for B :: "'a block_env" and t v
    by (auto simp: policyFor_frame)
  obtain lifted b2 where r: "(if u_active u then (True, b1) else ExpireHardLock (le_block E) fl now (u_tenant u) (u_id u) (HardLockDuration q) b1) = (lifted, b2)"
    by fastforce
  have run: "(if \<not> lifted then (Inl invalid_credentials, put_block b2 ls)
     else case SoftLockedFor (le_block E) fl now (u_tenant u) (u_id u) b2 of
            (retryAfter, True) \<Rightarrow> (Inl (SoftLockError retryAfter), put_block b2 ls)
          | (_, False) \<Rightarrow> (Inr (), put_block (ResetFailedLogins (le_block E) fl now (u_tenant u) (u_id u) b2) ls)) = (Inr x, ls')"
    using assms(1) by (simp only: login_unlock_def assms(2-4) q r Let_def prod.case)
  then have lifted: "lifted" and soft: "\<not> snd (SoftLockedFor (le_block E) fl now (u_tenant u) (u_id u) b2)"
    by (auto split: if_splits prod.splits bool.splits)
  show ?thesis
  proof (cases "u_active u")
    case True
    with r have "b2 = b1" by simp
    with True soft show ?thesis by (simp add: lock_free_def b1)
  next
    case False
    with r lifted have "ExpireHardLock (le_block E) fl now (u_tenant u) (u_id u) (HardLockDuration q) b1 = (True, b2)" by simp
    from ExpireHardLock_lifts [OF this] False show ?thesis unfolding lock_free_def q' [symmetric] b1 by simp
  qed
qed

lemma rehash_frame [simp]:
  "ls_account (rehashIfStale E fl h u s ls) = ls_account ls"
  by (simp add: rehashIfStale_def split: option.split)

text \<open>The way to a token: one candidate matched, the unlock and the role checks passed, and the gate was silent.\<close>

lemma Login_LTokenD:
  assumes run: "Login E fl now rnd i ls = (Inr (LToken tok), ls')" and app: "login_app E fl i = Inr (at, ar, appID)"
  obtains u h p org ls1 ls2 where
    "u \<in> set (bs_users (ls_block ls))" "u_email u = Normalize (li_Email i)" "u_deleted u = None"
    "lock_free (le_block E) fl now (sign_in_policy fl now at ar u (ls_block ls)) u (ls_block ls)"
    "if ar \<noteq> 0 then u_tenant u = at \<and> u_application u = Some ar else u_application u = None"
    "ls_credentials ls (u_id u) = Some h" "hasher_Verify E (li_Password i) h"
    "pl_userID p = u_id u" "pl_tenantID p = u_tenant u" "pl_appID p = appID"
    "mfaGate E fl now rnd p ar org ls1 = (Inr None, ls2)" "as_mfa (ls_account ls1) = as_mfa (ls_account ls)"
proof -
  obtain pol b where b: "policyFor fl now at (if ar \<noteq> 0 then Some ar else None) (ls_block ls) = (pol, b)" by fastforce
  have u0: "bs_users b = bs_users (ls_block ls)"
    using durableD [OF redis_tier_fields(5), of fl now at "if ar \<noteq> 0 then Some ar else None" "ls_block ls"] b by simp
  let ?ls0 = "put_block b ls"
  let ?cs = "login_candidates E now (Normalize (li_Email i)) (autoExpirySecs pol) at ar ?ls0"
  obtain cnt m where m: "compare_loop (hasher_Verify E) (li_Password i) 0 0 None ?cs = (cnt, m)" by fastforce
  have nm: "fst (login_no_match E fl now rnd cs l) \<noteq> Inr r" for cs l r
    by (auto simp: login_no_match_def Let_def split: list.splits prod.splits bool.splits)
  from run b m nm obtain c where c: "m = Some c"
    and match: "login_matched E fl now rnd i ar appID pol c ?ls0 = (Inr (LToken tok), ls')"
    by (auto simp: Login_def app Let_def split: if_splits option.splits) (metis fst_conv)+
  from compare_loop_match [OF m [unfolded c]]
  have cc: "c \<in> set ?cs" "hasher_Verify E (li_Password i) (lc_passwordHash c)" by auto
  obtain u where u: "u \<in> set (bs_users (ls_block ?ls0))"
    "login_candidate (me_authority (le_mint E)) now (Normalize (li_Email i)) (autoExpirySecs pol) at ar u"
    "ls_credentials ?ls0 (u_id u) = Some (lc_passwordHash c)" "lc_userID c = u_id u" "lc_tenantID c = u_tenant u" "lc_isActive c = u_active u"
    by (rule login_candidatesD [OF cc(1)]) blast
  let ?ls1 = "rehashIfStale E fl (lr_hash rnd) (lc_userID c) (lc_passwordHash c) ?ls0"
  obtain x ls1 where un: "login_unlock E fl now ar pol c ?ls1 = (x, ls1)" by fastforce
  from match un obtain rs perms where r: "login_roles E fl i c ls1 = Inr (rs, perms)"
    by (auto simp: login_matched_def split: sum.splits prod.splits)
  let ?p = "\<lparr>pl_userID = lc_userID c, pl_tenantID = lc_tenantID c, pl_email = lc_email c, pl_roleName = lc_roleName c,
      pl_perms = perms, pl_appID = appID, pl_persistent = li_Persistent i, pl_activeRoles = rs\<rparr>"
  let ?org = "org_request (TrimSpace (li_Organization i)) (li_VerifiedApp i \<noteq> None)"
  obtain y ls2 where g: "mfaGate E fl now rnd ?p ar ?org ls1 = (y, ls2)" by fastforce
  have on: "on_account l q w k \<noteq> (Inr (Some (LToken t)), l')" if "\<And>z. w z \<noteq> LToken t" for l w k t l' and q :: "'z result \<times> _"
    using that by (auto simp: on_account_def split: sum.splits prod.splits)
  have "y \<noteq> Inr (Some (LToken tok))" using g
    by (auto simp: mfaGate_def adminMFAGate_def appMFAGate_def Let_def on split: sum.splits prod.splits if_splits)
  then have "y = Inr None" using match un r g by (auto simp: login_matched_def Let_def split: sum.splits option.splits)
  with g have "mfaGate E fl now rnd ?p ar ?org ls1 = (Inr None, ls2)" by simp
  moreover have "as_mfa (ls_account ls1) = as_mfa (ls_account ls)" using login_unlock_frame [OF un] by simp
  moreover have "lock_free (le_block E) fl now (sign_in_policy fl now at ar u (ls_block ls)) u (ls_block ls)"
  proof -
    from match un have "x = Inr ()" by (auto simp: login_matched_def split: sum.splits)
    from login_unlock_passes [OF un [unfolded this] u(5,4,6)]
    have "lock_free (le_block E) fl now (if ar = 0 then fst (policyFor fl now (u_tenant u) None b) else pol) u b" by (cases "ar = 0") simp_all
    moreover have "b = snd (policyFor fl now at (if ar \<noteq> 0 then Some ar else None) (ls_block ls))"
      "pol = fst (policyFor fl now at (if ar \<noteq> 0 then Some ar else None) (ls_block ls))" using b by simp_all
    ultimately show ?thesis by (cases "ar = 0") (simp_all add: lock_free_frame sign_in_policy_def policyFor_again)
  qed
  ultimately show ?thesis using u u0 cc(2) by (intro that [of u _ ?p ?org ls1 ls2]) (auto simp: login_candidate_def split: if_splits)
qed

text \<open>Standing as an administrator, as the tables say it, whatever permissions a session would carry.\<close>

definition is_administrator :: "authority_db \<Rightarrow> int \<Rightarrow> bool" where
  "is_administrator db uid \<longleftrightarrow>
     (\<exists>g \<in> set (admin_grants db). g_user g = uid \<and> g_deleted g = None \<and> g_activated g \<noteq> None)
     \<or> ''tenant:manage'' \<in> set (held_names uid db) \<or> ''admin:access'' \<in> set (held_names uid db)"

lemma administratorKind_tables:
  "administratorKind fl uid perms db = Inr (False, platform) \<Longrightarrow> \<not> is_administrator db uid"
  by (auto simp: administratorKind_def is_administrator_def Let_def split: if_splits)

lemma current_authority_tables [simp]: "is_administrator (current_authority E ls) uid = is_administrator (me_authority (le_mint E)) uid"
  by (simp add: is_administrator_def held_names_def current_authority_def perms_of_role_def)

lemma adminMFAGate_not_silent: "adminMFAGate E fl now rnd p platform ls \<noteq> (Inr None, ls')"
  by (auto simp: adminMFAGate_def on_account_def Let_def split: prod.splits sum.splits if_splits)

definition permitted_method :: "mfa_db \<Rightarrow> int \<Rightarrow> string \<Rightarrow> bool" where
  "permitted_method db ar m \<longleftrightarrow> ar = 0 \<or> methodAllowed (snd (projr (GetAppMFAConfig no_faults ar db))) m"

lemma appMFAGate_silentD:
  assumes "appMFAGate E fl now rnd p ar org ls = (Inr None, ls')" "totpSvc (le_admin E)" "redisCli (fa_auth (le_mfa E))"
    and "\<not> fl ''check TOTP active''" "\<not> fl ''check email MFA active''"
  shows "\<forall>m. factorActive no_faults (pl_userID p) m (as_mfa (ls_account ls)) = Inr True \<longrightarrow> (m = MFAMethodEmail \<longrightarrow> emailSvc (le_admin E))
      \<longrightarrow> \<not> permitted_method (as_mfa (ls_account ls)) ar m"
    and "ar \<noteq> 0 \<Longrightarrow> GetAppMFAMode no_faults ar (as_mfa (ls_account ls)) \<noteq> Inr MFAModeRequired"
proof -
  let ?db = "as_mfa (ls_account ls)"
  from assms obtain mode am where cfg: "(if ar \<noteq> 0 then GetAppMFAConfig fl ar ?db else Inr ([], [])) = Inr (mode, am)"
    and none: "app_factors E fl (pl_userID p) (\<lambda>m. ar = 0 \<or> methodAllowed am m) ?db = []" and mode: "ar \<noteq> 0 \<longrightarrow> mode \<noteq> MFAModeRequired"
    by (auto simp: appMFAGate_def on_account_def Let_def split: sum.splits prod.splits if_splits)
  have cfg': "ar \<noteq> 0 \<Longrightarrow> GetAppMFAConfig no_faults ar ?db = Inr (mode, am)"
    using cfg by (auto simp: GetAppMFAConfig_def split: if_splits)
  then have pm: "permitted_method ?db ar m \<longleftrightarrow> ar = 0 \<or> methodAllowed am m" for m
    by (cases "ar = 0") (simp_all add: permitted_method_def)
  show "\<forall>m. factorActive no_faults (pl_userID p) m ?db = Inr True \<longrightarrow> (m = MFAMethodEmail \<longrightarrow> emailSvc (le_admin E))
      \<longrightarrow> \<not> permitted_method ?db ar m"
    using none assms(4,5) unfolding pm
    by (auto simp: app_factors_def factorActive_def TOTP_IsActive_def emailMFAActive_def Let_def split: if_splits option.splits)
  show "ar \<noteq> 0 \<Longrightarrow> GetAppMFAMode no_faults ar ?db \<noteq> Inr MFAModeRequired"
    using cfg' mode by (simp add: GetAppMFAMode_def)
qed


text \<open>
  C29: a factor that cannot be read is skipped. While the queries for the factor statuses fail and the policy's
  read succeeds, the gate of a user who is no administrator answers as if there were no factor: unless the application
  requires one, tokens are issued to an account with an active authenticator.
\<close>

theorem unreadable_factor_is_skipped:
  assumes fails: "fl ''check TOTP active''" "fl ''check email MFA active''" and cfg: "\<not> fl ''load app MFA config''"
    and mode: "appRow \<noteq> 0 \<Longrightarrow> GetAppMFAMode no_faults appRow (as_mfa (ls_account ls)) \<noteq> Inr MFAModeRequired"
    and user: "adminMFA (le_admin E) \<and> appRow = 0 \<Longrightarrow>
      \<exists>platform. administratorKind fl (pl_userID p) (pl_perms p) (current_authority E ls) = Inr (False, platform)"
  shows "mfaGate E fl now rnd p appRow org ls = (Inr None, ls)"
proof -
  have "appMFAGate E fl now rnd p appRow org ls = (Inr None, ls)"
    using assms(1-4)
    by (auto simp: appMFAGate_def app_factors_def TOTP_IsActive_def emailMFAActive_def GetAppMFAMode_def GetAppMFAConfig_def Let_def
        split: sum.splits prod.splits option.splits if_splits)
  then show ?thesis using user by (auto simp: mfaGate_def split: sum.splits)
qed

subsection \<open>A sample\<close>

definition sample_login_env :: "keyspace login_env" where
  "sample_login_env =
     \<lparr>le_mint = sample_mint_env\<lparr>me_authority := no_authority\<lparr>tenants := [\<lparr>t_id = 3, t_active = True, t_deleted = None\<rparr>]\<rparr>\<rparr>,
      le_block = sample_block_env, le_mfa = sample_mfa_env, le_admin = sample_admin_env, le_clients = [], le_appSvc = True,
      hasher_Verify = (\<lambda>pw h. pw = h), hasher_NeedsRehash = (\<lambda>_. False)\<rparr>"

definition no_factor_db :: mfa_db where
  "no_factor_db = \<lparr>totp_secrets = Map.empty, email_mfa_settings = Map.empty, application_mfa_settings = Map.empty,
     webauthn_credentials = []\<rparr>"

definition sample_login_state :: "mfa_db \<Rightarrow> keyspace login_state" where
  "sample_login_state db =
     \<lparr>ls_account = sample_account_state db, ls_sessions = NewSessionPolicyService True, ls_adminMFA = sample_admin_svc,
      ls_credentials = [7 \<mapsto> ''pw'']\<rparr>"

definition sample_login :: LoginInput where
  "sample_login = \<lparr>li_ClientID = [], li_ClientSecret = [], li_Email = '' A@b.c'', li_Password = ''pw'', li_Persistent = False,
     li_Roles = [], li_VerifiedApp = None, li_Organization = []\<rparr>"

definition sample_random :: login_random where
  "sample_random = \<lparr>lr_unblock = (\<lambda>_. ''u''), lr_session = Some ''tok'', lr_code = Some 42, lr_refresh = Some ''fresh'', lr_hash = None\<rparr>"

definition token_result :: "LoginResult result \<Rightarrow> bool" where
  "token_result x = (case x of Inr (LToken _) \<Rightarrow> True | _ \<Rightarrow> False)"

lemma token_resultD: "token_result (fst y) \<Longrightarrow> \<exists>tok ls. y = (Inr (LToken tok), ls)"
  by (cases y) (auto simp: token_result_def split: sum.splits LoginResult.splits)


lemma unreadable_factor_is_skipped_witness:
  "let fl = (\<lambda>x. x = ''check TOTP active'' \<or> x = ''check email MFA active''); ls = sample_login_state sample_factors in
   factorActive no_faults 7 MFAMethodTOTP (as_mfa (ls_account ls)) = Inr True
   \<and> token_result (fst (Login sample_login_env fl 0 sample_random sample_login ls))
   \<and> (\<forall>p. pl_userID p = 7 \<longrightarrow> pl_perms p = [] \<longrightarrow> mfaGate sample_login_env fl 0 sample_random p 0 no_org ls = (Inr None, ls))"
proof -
  let ?fl = "\<lambda>x. x = ''check TOTP active'' \<or> x = ''check email MFA active''" and ?ls = "sample_login_state sample_factors"
  have "factorActive no_faults 7 MFAMethodTOTP (as_mfa (ls_account ?ls)) = Inr True"
    "token_result (fst (Login sample_login_env ?fl 0 sample_random sample_login ?ls))" by code_simp+
  moreover have k: "administratorKind ?fl 7 [] (current_authority sample_login_env ?ls) = Inr (False, False)" by code_simp
  moreover have "mfaGate sample_login_env ?fl 0 sample_random p 0 no_org ?ls = (Inr None, ?ls)" if "pl_userID p = 7" "pl_perms p = []" for p
    by (rule unreadable_factor_is_skipped) (use that k in auto)
  ultimately show ?thesis unfolding Let_def by blast
qed

end
