(* ===== verification/Challenge.thy ===== *)
theory Challenge
  imports SignIn
begin

text \<open>
  The second step of a login: what the challenge stored in Redis carries over from the password step (\<open>OTPSession\<close>
  of \<^verbatim>\<open>otp_session.go\<close>), and how often it can be tried (\<open>LoginOTP\<close> of \<^verbatim>\<open>service.go\<close>). The locale states the
  service over any Redis that keeps its laws; it is interpreted on the keyspace of the library.
\<close>

subsection \<open>What the challenge carries\<close>

definition session_ok :: "OTPSession \<Rightarrow> bool" where
  "session_ok s \<longleftrightarrow> int64_range (os_UserID s) \<and> int64_range (os_TenantID s) \<and> ascii (os_Email s) \<and> ascii (os_RoleName s)
     \<and> list_all ascii (os_Perms s) \<and> (case os_ActiveRoles s of None \<Rightarrow> True | Some rs \<Rightarrow> list_all ascii rs)
     \<and> ascii (os_AppID s) \<and> list_all ascii (os_Methods s) \<and> ascii (os_OrgRequest s)"

lemma otp_of_json_otp_json: "otp_of_json (otp_json s) = Some s"
  by (cases s) (auto simp: otp_of_json_def otp_json_def field_int_def field_str_def field_strs_def field_bool_def str_slice_def
      split: option.splits)

lemma json_ok_otp_json: "session_ok s \<Longrightarrow> json_ok (otp_json s)"
  by (auto simp: session_ok_def otp_json_def str_slice_def list_all_iff ascii_def split: option.splits)

lemma decode_otp_json: "session_ok s \<Longrightarrow> Option.bind (parse_json (print_json (otp_json s))) otp_of_json = Some s"
  by (simp add: parse_json_print json_ok_otp_json otp_of_json_otp_json)

lemma append_self_neq: "xs \<noteq> [] \<Longrightarrow> k @ xs \<noteq> k" "xs \<noteq> [] \<Longrightarrow> k \<noteq> k @ xs"
  by simp_all

context mfa_service
begin

lemma mintAndSend_other:
  assumes "now \<le> s" "k \<noteq> key" "k \<noteq> key @ '':attempts''" "0 < ttl"
  shows "rget (fa_redis F) (as_redis (snd (mintAndSend F fl now rnd key e n t a ttl st))) s k = rget (fa_redis F) (as_redis st) s k"
  using assms
  by (auto simp: mintAndSend_def auditEmailSuppressed_def Let_def put_redis_def set_redis_def redis_store.get_del [OF store]
      redis_store.get_set [OF store] split: sum.splits)

text \<open>A stored session reads back as it was until its deadline, and not after.\<close>

lemma load_store:
  assumes run: "storePreAuthSession F fl t0 raw keyFn ttl sess st = (Inr tok, st1)" and ttl: "0 < ttl" and t: "t0 \<le> t"
    and ok: "session_ok sess"
  shows "loadOTPSession F no_faults t (keyFn tok) st1 =
      (if t < t0 + ttl then Inr sess else Inl (Wrapped ''OTP session not found or expired''))"
    and "value_until (fa_redis F) (as_redis st1) t0 (keyFn tok) (print_json (otp_json sess)) (t0 + ttl)"
  using run ttl t
  by (auto simp: storePreAuthSession_def loadOTPSession_def value_until_def redis_store.get_set [OF store] decode_otp_json [OF ok]
      split: option.splits if_splits)

lemma load_otp_cong:
  "rget (fa_redis F) (as_redis st') t k = rget (fa_redis F) (as_redis st) t k \<Longrightarrow>
     loadOTPSession F fl t k st' = loadOTPSession F fl t k st"
  by (simp add: loadOTPSession_def)

lemma createOTPSessionWith_loads:
  assumes run: "createOTPSessionWith F A fl t0 raw rnd p methods org send st = (Inr c, st')" and t: "t0 \<le> t"
    and ok: "session_ok (otp_session p methods org)"
  shows "oc_Methods c = methods \<and> loadOTPSession F no_faults t (otpSessionKey F (oc_OTPSessionToken c)) st' =
      (if t < t0 + OTPSessionTTL then Inr (otp_session p methods org) else Inl (Wrapped ''OTP session not found or expired''))"
proof -
  have ttl: "0 < OTPSessionTTL" by (simp add: OTPSessionTTL_def)
  obtain x st1 where s: "storePreAuthSession F fl t0 raw (otpSessionKey F) OTPSessionTTL (otp_session p methods org) st = (x, st1)" by fastforce
  obtain tok where x: "x = Inr tok" using run s by (auto simp: createOTPSessionWith_def split: sum.splits)
  let ?k = "otpSessionKey F tok"
  obtain y st2 where m: "mintAndSend F fl t0 rnd (?k @ '':email'') (pl_email p) (appNameByID fl (pl_appID p) st1)
      (pl_tenantID p) (appRowIDFromClaim (pl_appID p)) OTPSessionTTL st1 = (y, st2)" by fastforce
  have "rget (fa_redis F) (as_redis st2) t ?k = rget (fa_redis F) (as_redis st1) t ?k"
    using mintAndSend_other [OF t _ _ ttl, of ?k "?k @ '':email''" fl rnd "pl_email p" "appNameByID fl (pl_appID p) st1" "pl_tenantID p"
      "appRowIDFromClaim (pl_appID p)" st1] by (simp add: m)
  then have "loadOTPSession F no_faults t ?k st2 = loadOTPSession F no_faults t ?k st1" by (rule load_otp_cong)
  moreover have "st' = st1 \<or> st' = st2" "oc_OTPSessionToken c = tok" "oc_Methods c = methods"
    using run s m by (auto simp: createOTPSessionWith_def x Let_def split: sum.splits if_splits)
  ultimately show ?thesis using load_store(1) [OF s [unfolded x] ttl t ok] by auto
qed

end

text \<open>
  C16: the second step signs in exactly the login the first step vouched for. A challenge created at \<open>t0\<close> is read
  back until five minutes later, and not after. When the challenge is completed in that time, the token pair is
  minted for the same user and tenant, with the same role, permissions, role scope, application, organisation
  request and persistence that the password step computed, and with the second factor recorded in the methods.
\<close>

theorem second_factor_completes_same_login:
  assumes svc: "mfa_service (le_mfa E)" and ok: "session_ok (otp_session p methods org)"
    and org: "org = org_request (org_requested org) (org_skip org)"
    and challenge: "createOTPSessionWith (le_mfa E) (le_admin E) fl t0 tok rnd p methods org send st = (Inr c, st1)" "t0 \<le> t"
    and ls: "ls_account ls = st1"
    and run: "LoginOTP E no_faults t raw (oc_OTPSessionToken c) code ls = (x, ls')"
  shows "(t0 + OTPSessionTTL \<le> t \<longrightarrow> x = Inl (Wrapped ''invalid or expired OTP session'') \<or> x = Inl (Wrapped ''TOTP not configured on this server''))
    \<and> (\<forall>tokens. x = Inr tokens \<longrightarrow> (\<exists>ls2. issue E no_faults t raw (pl_userID p) (pl_tenantID p) (pl_email p) (pl_roleName p) (pl_perms p)
           (login_context (pl_persistent p) (pl_activeRoles p) org [AMRPassword, AMROTP, AMRMFA]) (pl_appID p) ls2 = (Inr tokens, ls')))"
proof -
  have l: "loadOTPSession (le_mfa E) no_faults t (otpSessionKey (le_mfa E) (oc_OTPSessionToken c)) (ls_account ls) =
      (if t < t0 + OTPSessionTTL then Inr (otp_session p methods org) else Inl (Wrapped ''OTP session not found or expired''))"
    using mfa_service.createOTPSessionWith_loads [OF svc challenge ok] by (simp add: ls)
  have i: "issue_session E no_faults t raw (otp_session p methods org) ls2 =
      issue E no_faults t raw (pl_userID p) (pl_tenantID p) (pl_email p) (pl_roleName p) (pl_perms p)
        (login_context (pl_persistent p) (pl_activeRoles p) org [AMRPassword, AMROTP, AMRMFA]) (pl_appID p) ls2" for ls2
    using org by (simp add: issue_session_def otp_session_def)
  show ?thesis
    using run l by (auto simp: LoginOTP_def Let_def i split: if_splits sum.splits prod.splits bool.splits)
qed

subsection \<open>The budget of a challenge\<close>

text \<open>A try at a challenge: the failing calls, the instant, the refresh token drawn and the code.\<close>

type_synonym otp_try = "faults \<times> time \<times> string option \<times> string"

definition try_time :: "otp_try \<Rightarrow> time" where "try_time g = fst (snd g)"
definition try_clean :: "otp_try \<Rightarrow> bool" where "try_clean g \<longleftrightarrow> fst g = no_faults"

definition try_otp :: "'r login_env \<Rightarrow> string \<Rightarrow> otp_try \<Rightarrow> 'r login_state \<Rightarrow> bool \<times> 'r login_state" where
  "try_otp E token g ls =
     (case g of (fl, now, raw, code) \<Rightarrow> (case LoginOTP E fl now raw token code ls of (x, ls') \<Rightarrow> (case x of Inr _ \<Rightarrow> True | Inl _ \<Rightarrow> False, ls')))"

definition ls_redis :: "'r login_state \<Rightarrow> 'r" where
  "ls_redis ls = as_redis (ls_account ls)"

definition decodable :: "string \<Rightarrow> bool" where
  "decodable v \<longleftrightarrow> Option.bind (parse_json v) otp_of_json \<noteq> None"

lemma issue_failed: "issue E fl now raw u t e r ps sc a ls = (Inl err, ls') \<Longrightarrow> ls_redis ls' = ls_redis ls"
  by (auto simp: issue_def issueTokenPair_def issueTokenPairWithScope_def ls_redis_def put_block_def
      split: prod.splits sum.splits option.splits)

lemma verify_challenge_failed: "verify_challenge F fl now sess key code st = (False, st') \<Longrightarrow> as_redis st' = as_redis st"
  by (auto simp: verify_challenge_def consumeEmailCode_def split: if_splits prod.splits bool.splits)

locale login_service =
  fixes E :: "'r login_env"
  assumes svc: "mfa_service (le_mfa E)" and wired: "totpSvc (le_admin E)" "redisCli (fa_auth (le_mfa E))"
begin

abbreviation "LR \<equiv> fa_redis (le_mfa E)"

lemmas lstore = mfa_service.store [OF svc]

lemma clear_gone: "now \<le> s \<Longrightarrow> \<not> fl ''redis del'' \<Longrightarrow> rget LR (as_redis (clearOTPSession (le_mfa E) fl now key st)) s key = None"
  by (simp add: clearOTPSession_def redis_store.get_del [OF lstore])

lemma otp_ttl_pos: "0 < OTPSessionTTL + Minute"
  by (simp add: OTPSessionTTL_def)

lemma LoginOTP_spent:
  assumes spent: "budget_spent LR (ls_redis ls) t key (key @ '':attempts'') MaxOTPAttempts" and now: "t \<le> now"
    and key: "key = otpSessionKey (le_mfa E) token" and run: "LoginOTP E fl now raw token code ls = (x, ls')"
  shows "(\<exists>e. x = Inl e) \<and> budget_spent LR (ls_redis ls') now key (key @ '':attempts'') MaxOTPAttempts"
proof (cases "loadOTPSession (le_mfa E) fl now key (ls_account ls)")
  case (Inl e)
  then show ?thesis using run budget_spent_mono [OF spent now] wired by (auto simp: LoginOTP_def Let_def key)
next
  case (Inr sess)
  let ?c = "key @ '':attempts''"
  have live: "rget LR (ls_redis ls) now key \<noteq> None"
    using Inr by (auto simp: loadOTPSession_def ls_redis_def split: if_splits option.splits)
  obtain m r where b: "bump_counter LR fl now ?c (OTPSessionTTL + Minute) (ls_redis ls) = (m, r)" by fastforce
  have l: "(0::int) < MaxOTPAttempts" and k: "key \<noteq> ?c" by (simp_all add: MaxOTPAttempts_def)
  from redis_store.bump_counter_spent [OF lstore spent l now otp_ttl_pos k live b]
  have m: "\<forall>k. m = Some k \<longrightarrow> MaxOTPAttempts < k" and r: "budget_spent LR r now key ?c MaxOTPAttempts" by auto
  let ?st = "put_redis r (ls_account ls)"
  have "budget_spent LR (as_redis (clearOTPSession (le_mfa E) fl now key ?st)) now key ?c MaxOTPAttempts"
  proof (cases "fl ''redis del''")
    case True
    then show ?thesis using r by (simp add: clearOTPSession_def)
  next
    case False
    then show ?thesis by (intro budget_spent_gone) (simp add: clear_gone)
  qed
  moreover have "\<exists>e st. x = Inl e \<and> ls' = ls\<lparr>ls_account := st\<rparr> \<and> st \<in> {?st, clearOTPSession (le_mfa E) fl now key ?st}"
    using run Inr b m wired
    by (auto simp: LoginOTP_def Let_def key [symmetric] bumpOTPAttempts_def ls_redis_def split: option.splits if_splits)
  ultimately show ?thesis using r by (auto simp: ls_redis_def)
qed

lemma LoginOTP_counts:
  assumes at: "counter_at LR (ls_redis ls) t (key @ '':attempts'') n H" and live: "value_until LR (ls_redis ls) t key v H"
    and v: "decodable v" and n: "0 \<le> n" "n < MaxOTPAttempts" and now: "t \<le> now" "now < H" "H \<le> now + (OTPSessionTTL + Minute)"
    and key: "key = otpSessionKey (le_mfa E) token" and run: "LoginOTP E no_faults now raw token code ls = (Inl e, ls')"
  shows "counter_at LR (ls_redis ls') now (key @ '':attempts'') (n + 1) H \<and> value_until LR (ls_redis ls') now key v H
    \<or> budget_spent LR (ls_redis ls') now key (key @ '':attempts'') MaxOTPAttempts"
proof -
  let ?c = "key @ '':attempts''" and ?st = "ls_account ls"
  have get: "rget LR (as_redis ?st) now key = Some v" using live now by (simp add: value_until_def ls_redis_def)
  then obtain sess where s: "loadOTPSession (le_mfa E) no_faults now key ?st = Inr sess"
    using v by (auto simp: loadOTPSession_def decodable_def)
  have "int64_range (n + 1)" using n by (simp add: int64_range_def MaxOTPAttempts_def)
  from redis_store.bump_counter_counts [OF lstore at n(1) this now otp_ttl_pos, of no_faults]
  obtain r where b: "bump_counter LR no_faults now ?c (OTPSessionTTL + Minute) (as_redis ?st) = (Some (n + 1), r)"
    and c: "counter_at LR r now ?c (n + 1) H" by (auto simp: ls_redis_def)
  have k: "now \<le> q \<Longrightarrow> rget LR r q key = rget LR (as_redis ?st) q key" for q
    using redis_store.bump_counter_other [OF lstore otp_ttl_pos, of now q key ?c no_faults "as_redis ?st"] b by simp
  have B: "bumpOTPAttempts (le_mfa E) no_faults now key OTPSessionTTL ?st = (Inr (), put_redis r ?st)"
    using b n(2) by (simp add: bumpOTPAttempts_def)
  obtain ok st2 where w: "verify_challenge (le_mfa E) no_faults now sess key code (put_redis r ?st) = (ok, st2)" by fastforce
  show ?thesis
  proof (cases ok)
    case False
    then have "ls_redis ls' = r" using run wired s B w verify_challenge_failed [of "le_mfa E" no_faults now sess key code "put_redis r ?st" st2]
      by (auto simp: LoginOTP_def Let_def key [symmetric] ls_redis_def)
    then show ?thesis using c k live now(1) by (auto simp: value_until_def ls_redis_def)
  next
    case True
    let ?ls = "ls\<lparr>ls_account := clearOTPSession (le_mfa E) no_faults now key st2\<rparr>"
    have "issue_session E no_faults now raw sess ?ls = (Inl e, ls')"
      using run wired s B w True by (auto simp: LoginOTP_def Let_def key [symmetric])
    then have "ls_redis ls' = ls_redis ?ls" unfolding issue_session_def by (rule issue_failed)
    then have "rget LR (ls_redis ls') q key = None" if "now \<le> q" for q using clear_gone [OF that] by (simp add: ls_redis_def)
    then show ?thesis by (intro disjI2 budget_spent_gone)
  qed
qed

lemma login_otp_budget:
  "attempt_budget LR (try_otp E token) ls_redis try_time try_clean decodable (otpSessionKey (le_mfa E) token) MaxOTPAttempts
     (OTPSessionTTL + Minute)"
proof (intro attempt_budget.intro attempt_budget_axioms.intro lstore)
  show "0 < MaxOTPAttempts" "int64_range MaxOTPAttempts" by (simp_all add: MaxOTPAttempts_def int64_range_def)
next
  let ?k = "otpSessionKey (le_mfa E) token"
  fix s t g b s'
  assume a: "budget_spent LR (ls_redis s) t ?k (?k @ '':attempts'') MaxOTPAttempts" "t \<le> try_time g" "try_otp E token g s = (b, s')"
  obtain fl now raw code where g: "g = (fl, now, raw, code)" by (cases g)
  obtain x ls' where v: "LoginOTP E fl now raw token code s = (x, ls')" by fastforce
  from LoginOTP_spent [OF a(1) _ refl v] a(2,3) g v
  show "\<not> b \<and> budget_spent LR (ls_redis s') (try_time g) ?k (?k @ '':attempts'') MaxOTPAttempts"
    by (auto simp: try_otp_def try_time_def)
next
  let ?k = "otpSessionKey (le_mfa E) token"
  fix s t n H v g s'
  assume a: "counter_at LR (ls_redis s) t (?k @ '':attempts'') n H" "value_until LR (ls_redis s) t ?k v H" "decodable v"
    "0 \<le> n" "n < MaxOTPAttempts" "t \<le> try_time g" "try_time g < H" "H \<le> try_time g + (OTPSessionTTL + Minute)"
    "try_clean g" "try_otp E token g s = (False, s')"
  obtain now raw code where g: "g = (no_faults, now, raw, code)" using a(9) by (metis try_clean_def prod.collapse)
  obtain e ls' where v: "LoginOTP E no_faults now raw token code s = (Inl e, ls')"
    using a(10) g by (auto simp: try_otp_def split: prod.splits sum.splits)
  then have "s' = ls'" using a(10) g by (simp add: try_otp_def)
  with LoginOTP_counts [OF a(1-5) _ _ _ refl v] a(6-8) g
  show "counter_at LR (ls_redis s') (try_time g) (?k @ '':attempts'') (n + 1) H \<and> value_until LR (ls_redis s') (try_time g) ?k v H
      \<or> budget_spent LR (ls_redis s') (try_time g) ?k (?k @ '':attempts'') MaxOTPAttempts"
    by (auto simp: try_time_def)
qed

end

sublocale login_service < otp: attempt_budget "fa_redis (le_mfa E)" "try_otp E token" ls_redis try_time try_clean decodable
    "otpSessionKey (le_mfa E) token" MaxOTPAttempts "OTPSessionTTL + Minute" for token
  by (rule login_otp_budget)

text \<open>The model's own keyspace provides the service.\<close>

interpretation keyspace_login: login_service
  "E\<lparr>le_mfa := F\<lparr>fa_auth := keyspace_env h\<rparr>, le_admin := (le_admin E)\<lparr>totpSvc := True\<rparr>\<rparr>" for E :: "keyspace login_env" and F h
  by (rule login_service.intro) (simp_all add: mfa_service.intro keyspace_env_def ks.redis_store_axioms)

interpretation sample_service: login_service sample_login_env
  by (rule login_service.intro)
    (simp_all add: sample_login_env_def sample_mfa.mfa_service_axioms, simp_all add: sample_admin_env_def sample_mfa_env_def keyspace_env_def)

context mfa_service
begin

lemma createOTPSessionWith_keys:
  assumes run: "createOTPSessionWith F A fl t0 raw rnd p methods org send st = (Inr c, st')"
  defines "key \<equiv> otpSessionKey F (oc_OTPSessionToken c)"
  shows "t0 \<le> t \<Longrightarrow> k \<noteq> key @ '':email'' \<Longrightarrow> k \<noteq> key @ '':email:attempts'' \<Longrightarrow> rget (fa_redis F) (as_redis st') t k =
    (if k = key then if t < t0 + OTPSessionTTL then Some (print_json (otp_json (otp_session p methods org))) else None
     else rget (fa_redis F) (as_redis st) t k)"
proof -
  assume t: "t0 \<le> t" and k: "k \<noteq> key @ '':email''" "k \<noteq> key @ '':email:attempts''"
  have ttl: "0 < OTPSessionTTL" by (simp add: OTPSessionTTL_def)
  obtain x st1 where s: "storePreAuthSession F fl t0 raw (otpSessionKey F) OTPSessionTTL (otp_session p methods org) st = (x, st1)" by fastforce
  obtain tok where x: "x = Inr tok" using run s by (auto simp: createOTPSessionWith_def split: sum.splits)
  obtain y st2 where m: "mintAndSend F fl t0 rnd (otpSessionKey F tok @ '':email'') (pl_email p) (appNameByID fl (pl_appID p) st1)
      (pl_tenantID p) (appRowIDFromClaim (pl_appID p)) OTPSessionTTL st1 = (y, st2)" by fastforce
  have c: "st' = st1 \<or> st' = st2" "oc_OTPSessionToken c = tok"
    using run s m by (auto simp: createOTPSessionWith_def x Let_def split: sum.splits if_splits)
  have "rget (fa_redis F) (as_redis st2) t k = rget (fa_redis F) (as_redis st1) t k"
    using mintAndSend_other [OF t _ _ ttl, of k "otpSessionKey F tok @ '':email''"] m k by (simp add: key_def c(2)) (metis snd_conv)
  moreover have "rget (fa_redis F) (as_redis st1) t k =
    (if k = key then if t < t0 + OTPSessionTTL then Some (print_json (otp_json (otp_session p methods org))) else None
     else rget (fa_redis F) (as_redis st) t k)"
    using s t ttl by (auto simp: x key_def c(2) storePreAuthSession_def redis_store.get_set [OF store] split: option.splits if_splits)
  ultimately show ?thesis using c(1) by auto
qed

end

text \<open>
  C5: a challenge can be tried five times. After the password step stored a challenge under a token whose
  attempt counter does not exist (tokens are 32 random bytes), take any number of tries at it, in order of time,
  by authenticator code, by emailed code or by backup code: if the first five are refused, every later one is, the
  right code included and whichever of their calls fail. The counter outlives the challenge by a minute, so it
  cannot expire first and start over.
\<close>

theorem otp_challenge_attempts_bounded:
  assumes svc: "login_service E" and ok: "session_ok (otp_session p methods org)"
    and challenge: "createOTPSessionWith (le_mfa E) (le_admin E) fl t0 tok rnd p methods org send st = (Inr c, st1)"
    and fresh: "\<And>t. t0 \<le> t \<Longrightarrow> rget (fa_redis (le_mfa E)) (as_redis st) t (otpSessionKey (le_mfa E) (oc_OTPSessionToken c) @ '':attempts'') = None"
    and ls: "ls_account ls = st1" and times: "sorted (t0 # map try_time gs)" and nf: "\<forall>g \<in> set (take 5 gs). try_clean g"
    and fail: "True \<notin> set (take 5 (try_run (try_otp E (oc_OTPSessionToken c)) gs ls))"
  shows "True \<notin> set (try_run (try_otp E (oc_OTPSessionToken c)) gs ls)"
proof -
  note budget = login_service.login_otp_budget [OF svc, of "oc_OTPSessionToken c"]
  let ?F = "le_mfa E" and ?key = "otpSessionKey (le_mfa E) (oc_OTPSessionToken c)"
  note keys = mfa_service.createOTPSessionWith_keys [OF login_service.svc [OF svc] challenge]
  let ?v = "print_json (otp_json (otp_session p methods org))"
  have v: "value_until (fa_redis ?F) (ls_redis ls) t0 ?key ?v (t0 + OTPSessionTTL)"
    using keys [of _ ?key] by (simp add: value_until_def ls_redis_def ls)
  have c: "counter_at (fa_redis ?F) (ls_redis ls) t0 (?key @ '':attempts'') 0 (t0 + OTPSessionTTL)"
    using keys [of _ "?key @ '':attempts''"] fresh by (simp add: counter_at_def ls_redis_def ls)
  have "decodable ?v" using decode_otp_json [OF ok] by (simp add: decodable_def)
  from attempt_budget.try_run_bounded [OF budget c v this _ _ times] nf fail show ?thesis by (simp add: MaxOTPAttempts_def)
qed

subsection \<open>A sample\<close>

definition sample_pending :: pending_login where
  "sample_pending = \<lparr>pl_userID = 7, pl_tenantID = 3, pl_email = ''a@b.c'', pl_roleName = ''member'', pl_perms = [''x:read''],
     pl_appID = [], pl_persistent = True, pl_activeRoles = None\<rparr>"

definition sample_challenge :: "OTPChallenge result \<times> keyspace account_state" where
  "sample_challenge = createOTPSessionWith (le_mfa sample_login_env) (le_admin sample_login_env) no_faults 0 (Some ''tok'') (Some 42)
     sample_pending [MFAMethodEmail] no_org True (sample_account_state no_factor_db)"

definition sample_challenged :: "keyspace login_state" where
  "sample_challenged = (sample_login_state no_factor_db)\<lparr>ls_account := snd sample_challenge\<rparr>"

lemma sample_challenge:
  obtains c where "createOTPSessionWith (le_mfa sample_login_env) (le_admin sample_login_env) no_faults 0 (Some ''tok'') (Some 42)
     sample_pending [MFAMethodEmail] no_org True (sample_account_state no_factor_db) = (Inr c, snd sample_challenge)"
    "oc_OTPSessionToken c = ''tok''" "session_ok (otp_session sample_pending [MFAMethodEmail] no_org)"
proof -
  have "map_sum id oc_OTPSessionToken (fst sample_challenge) = Inr ''tok''" by code_simp
  then obtain c where "fst sample_challenge = Inr c" "oc_OTPSessionToken c = ''tok''" by (cases "fst sample_challenge") auto
  moreover have "session_ok (otp_session sample_pending [MFAMethodEmail] no_org)" by code_simp
  ultimately show ?thesis by (intro that [of c]) (simp_all add: sample_challenge_def prod_eq_iff)
qed

lemma LoginOTP_accepts:
  assumes "totpSvc (le_admin E)" "redisCli (fa_auth (le_mfa E))"
    and "loadOTPSession (le_mfa E) fl now (otpSessionKey (le_mfa E) token) (ls_account ls) = Inr sess"
    and "bumpOTPAttempts (le_mfa E) fl now (otpSessionKey (le_mfa E) token) OTPSessionTTL (ls_account ls) = (Inr (), st1)"
    and "verify_challenge (le_mfa E) fl now sess (otpSessionKey (le_mfa E) token) code st1 = (True, st2)"
  shows "LoginOTP E fl now raw token code ls = issue_session E fl now raw sess
    (ls\<lparr>ls_account := clearOTPSession (le_mfa E) fl now (otpSessionKey (le_mfa E) token) st2\<rparr>)"
  using assms by (simp add: LoginOTP_def Let_def)

lemma sample_challenge_accepted:
  obtains tokens ls' where
    "LoginOTP sample_login_env no_faults Minute (Some ''fresh'') ''tok'' ''000042'' sample_challenged = (Inr tokens, ls')"
proof -
  let ?F = "le_mfa sample_login_env" and ?s = "otp_session sample_pending [MFAMethodEmail] no_org" and ?st = "snd sample_challenge"
  let ?k = "otpSessionKey ?F ''tok''" and ?b = "bumpOTPAttempts (le_mfa sample_login_env) no_faults Minute
    (otpSessionKey (le_mfa sample_login_env) ''tok'') OTPSessionTTL (snd sample_challenge)"
  let ?v = "verify_challenge ?F no_faults Minute ?s ?k ''000042'' (snd ?b)"
  let ?i = "issue_session sample_login_env no_faults Minute (Some ''fresh'') ?s
    (sample_challenged\<lparr>ls_account := clearOTPSession ?F no_faults Minute ?k (snd ?v)\<rparr>)"
  obtain c where c: "createOTPSessionWith ?F (le_admin sample_login_env) no_faults 0 (Some ''tok'') (Some 42)
     sample_pending [MFAMethodEmail] no_org True (sample_account_state no_factor_db) = (Inr c, ?st)"
    "oc_OTPSessionToken c = ''tok''" "session_ok ?s"
    by (rule sample_challenge)
  have a: "ls_account sample_challenged = ?st" by (simp add: sample_challenged_def)
  from mfa_service.createOTPSessionWith_loads [OF sample_service.svc c(1) _ c(3), of Minute]
  have l: "loadOTPSession ?F no_faults Minute ?k (ls_account sample_challenged) = Inr ?s" by (simp add: a c(2) OTPSessionTTL_def)
  have "fst ?b = Inr ()" by code_simp
  then have b: "bumpOTPAttempts ?F no_faults Minute ?k OTPSessionTTL (ls_account sample_challenged) = (Inr (), snd ?b)"
    by (simp add: a prod_eq_iff)
  have "fst ?v" by code_simp
  then have v: "?v = (True, snd ?v)" by (simp add: prod_eq_iff)
  have "\<not> isl (fst ?i)" by code_simp
  then obtain tokens ls' where "?i = (Inr tokens, ls')" by (metis prod.collapse sum.collapse(2))
  with LoginOTP_accepts [OF sample_service.wired l b v, of "Some ''fresh''"] show ?thesis by (intro that [of tokens ls']) simp
qed

lemma second_factor_completes_same_login_witness:
  "\<exists>tokens ls'. LoginOTP sample_login_env no_faults Minute (Some ''fresh'') ''tok'' ''000042'' sample_challenged = (Inr tokens, ls')
     \<and> (\<exists>ls2. issue sample_login_env no_faults Minute (Some ''fresh'') 7 3 ''a@b.c'' ''member'' [''x:read'']
          (login_context True None no_org [AMRPassword, AMROTP, AMRMFA]) [] ls2 = (Inr tokens, ls'))"
proof -
  obtain c where c: "createOTPSessionWith (le_mfa sample_login_env) (le_admin sample_login_env) no_faults 0 (Some ''tok'') (Some 42)
     sample_pending [MFAMethodEmail] no_org True (sample_account_state no_factor_db) = (Inr c, snd sample_challenge)"
    "oc_OTPSessionToken c = ''tok''" "session_ok (otp_session sample_pending [MFAMethodEmail] no_org)"
    by (rule sample_challenge)
  obtain tokens ls' where l:
    "LoginOTP sample_login_env no_faults Minute (Some ''fresh'') ''tok'' ''000042'' sample_challenged = (Inr tokens, ls')"
    by (rule sample_challenge_accepted)
  have o: "no_org = org_request (org_requested no_org) (org_skip no_org)" by code_simp
  have a: "ls_account sample_challenged = snd sample_challenge" by (simp add: sample_challenged_def)
  from second_factor_completes_same_login [OF sample_service.svc c(3) o c(1) _ a, of Minute "Some ''fresh''" "''000042''" "Inr tokens" ls'] l c(2)
  show ?thesis by (auto simp: sample_pending_def)
qed

text \<open>Two wrong codes, and four tries after the challenge has expired, the last with the right code.\<close>

definition sample_tries :: "otp_try list" where
  "sample_tries = map (\<lambda>(s, c). (no_faults, s, Some ''fresh'', c)) [(Second, ''000001''), (Second, ''000002''), (OTPSessionTTL, ''000003''),
     (OTPSessionTTL, ''000004''), (OTPSessionTTL, ''000005''), (OTPSessionTTL, ''000042'')]"

lemma otp_challenge_attempts_bounded_witness:
  "True \<notin> set (try_run (try_otp sample_login_env ''tok'') sample_tries sample_challenged) \<and> length sample_tries = 6"
proof -
  obtain c where c: "createOTPSessionWith (le_mfa sample_login_env) (le_admin sample_login_env) no_faults 0 (Some ''tok'') (Some 42)
     sample_pending [MFAMethodEmail] no_org True (sample_account_state no_factor_db) = (Inr c, snd sample_challenge)"
    "oc_OTPSessionToken c = ''tok''" "session_ok (otp_session sample_pending [MFAMethodEmail] no_org)"
    by (rule sample_challenge)
  have a: "ls_account sample_challenged = snd sample_challenge" by (simp add: sample_challenged_def)
  have "rget (fa_redis (le_mfa sample_login_env)) (as_redis (sample_account_state no_factor_db)) t k = None" for t k
    by (simp add: sample_login_env_def sample_mfa_env_def keyspace_env_def sample_account_state_def sample_block_state_def keyspace_ops_def ks_get_def)
  moreover have "True \<notin> set (take 5 (try_run (try_otp sample_login_env ''tok'') sample_tries sample_challenged))" by code_simp
  moreover have "sorted (0 # map try_time sample_tries)" by code_simp
  moreover have "\<forall>g \<in> set (take 5 sample_tries). try_clean g" "length sample_tries = 6" by (simp_all add: try_clean_def sample_tries_def)
  ultimately show ?thesis
    using otp_challenge_attempts_bounded [OF sample_service.login_service_axioms c(3,1) _ a, of sample_tries] c(2) by simp
qed

end
