(* ===== verification/Pkce.thy ===== *)
theory Pkce
  imports Encoding
begin

text \<open>
  Proof keys for the authorization code flow (\<^verbatim>\<open>pkce.go\<close>): the shape of verifiers and challenges, and the
  check of one against the other. \<^verbatim>\<open>crypto/sha256\<close> is the parameter \<open>sha\<close>, of which only the length of a digest is used.
\<close>

definition PKCEMethodS256 :: string where "PKCEMethodS256 = ''S256''"
definition minVerifierLen :: nat where "minVerifierLen = 43"
definition maxVerifierLen :: nat where "maxVerifierLen = 128"

subsection \<open>The URL alphabet, without padding\<close>

definition url_char :: "char \<Rightarrow> char" where
  "url_char c = (if c = CHR ''+'' then CHR ''-'' else if c = CHR ''/'' then CHR ''_'' else c)"

definition std_char :: "char \<Rightarrow> char" where
  "std_char c = (if c = CHR ''-'' then CHR ''+'' else if c = CHR ''_'' then CHR ''/'' else c)"

definition RawURLEncoding_Encode :: "string \<Rightarrow> string" where
  "RawURLEncoding_Encode s = map url_char (filter (\<lambda>c. c \<noteq> CHR ''='') (base64_EncodeToString s))"

definition RawURLEncoding_Decode :: "string \<Rightarrow> string option" where
  "RawURLEncoding_Decode s =
     (let t = filter (\<lambda>c. c \<notin> {CHR 0x0A, CHR 0x0D}) s in
      if length t mod 4 = 1 \<or> set t \<inter> {CHR ''='', CHR ''+'', CHR ''/''} \<noteq> {} then None
      else base64_DecodeString (map std_char t @ replicate ((4 - length t mod 4) mod 4) (CHR ''='')))"

subsection \<open>Verifiers and challenges\<close>

definition isUnreservedPKCE :: "char \<Rightarrow> bool" where
  "isUnreservedPKCE b \<longleftrightarrow> is_upper b \<or> is_lower b \<or> is_digit b \<or> b \<in> {CHR ''-'', CHR ''.'', CHR ''_'', CHR ''~''}"

definition ValidateCodeVerifier :: "string \<Rightarrow> unit result" where
  "ValidateCodeVerifier verifier =
     (if length verifier < minVerifierLen \<or> length verifier > maxVerifierLen then Inl ErrInvalidCodeVerifier
      else if \<not> list_all isUnreservedPKCE verifier then Inl ErrInvalidCodeVerifier else Inr ())"

definition ValidateCodeChallenge :: "string \<Rightarrow> string \<Rightarrow> unit result" where
  "ValidateCodeChallenge challenge method =
     (if method \<noteq> PKCEMethodS256 then Inl ErrUnsupportedChallengeMethod
      else if challenge = [] then Inl ErrMissingCodeChallenge
      else if length challenge \<noteq> 43 then Inl ErrInvalidCodeVerifier
      else if RawURLEncoding_Decode challenge = None then Inl ErrInvalidCodeVerifier else Inr ())"

definition DeriveS256Challenge :: "(string \<Rightarrow> string) \<Rightarrow> string \<Rightarrow> string" where
  "DeriveS256Challenge sha verifier = RawURLEncoding_Encode (sha verifier)"

definition VerifyPKCE :: "(string \<Rightarrow> string) \<Rightarrow> string \<Rightarrow> string \<Rightarrow> string \<Rightarrow> unit result" where
  "VerifyPKCE sha challenge method verifier =
     (if method \<noteq> PKCEMethodS256 then Inl ErrUnsupportedChallengeMethod
      else case ValidateCodeVerifier verifier of
             Inl e \<Rightarrow> Inl e
           | Inr _ \<Rightarrow> if DeriveS256Challenge sha verifier \<noteq> challenge then Inl ErrInvalidCodeVerifier else Inr ())"

lemma VerifyPKCE_Inr:
  "VerifyPKCE sha challenge method verifier = Inr () \<longleftrightarrow>
     method = PKCEMethodS256 \<and> ValidateCodeVerifier verifier = Inr () \<and> challenge = DeriveS256Challenge sha verifier"
  by (auto simp: VerifyPKCE_def split: sum.splits)

subsection \<open>The round trip of the encoding\<close>

lemma url_char_inverse: "d < 64 \<Longrightarrow> std_char (url_char (b64_char d)) = b64_char d"
  and url_char_plain: "d < 64 \<Longrightarrow> url_char (b64_char d) \<notin> {CHR ''='', CHR ''+'', CHR ''/'', CHR 0x0A, CHR 0x0D}"
proof -
  have "list_all (\<lambda>d. std_char (url_char (b64_char d)) = b64_char d
      \<and> url_char (b64_char d) \<notin> {CHR ''='', CHR ''+'', CHR ''/'', CHR 0x0A, CHR 0x0D}) [0..<64]" by code_simp
  then show "d < 64 \<Longrightarrow> std_char (url_char (b64_char d)) = b64_char d"
    "d < 64 \<Longrightarrow> url_char (b64_char d) \<notin> {CHR ''='', CHR ''+'', CHR ''/'', CHR 0x0A, CHR 0x0D}" by (simp_all add: list_all_iff)
qed

lemma sextets_no_pad:
  assumes "b < 256" "c < 256" shows "CHR ''='' \<notin> set (sextets a b c)"
  using sextets_chars [OF assms, of "CHR ''=''" a] b64_char(2) by metis

lemma filter_absent: "x \<notin> set xs \<Longrightarrow> filter (\<lambda>c. c \<noteq> x) xs = xs"
  by (induction xs) auto

lemma sextets_length: "length (sextets a b c) = 4"
  by (simp add: sextets_def)

lemma add_3_mod3: "Suc (Suc (Suc n)) mod 3 = n mod 3"
  using mod_add_self2 [of n 3] by (simp only: numeral_3_eq_3 add_Suc_right add_0_right)

text \<open>The padded text is the unpadded one and the padding its length asks for.\<close>

lemma base64_shape:
  defines "raw \<equiv> \<lambda>s. filter (\<lambda>c. c \<noteq> CHR ''='') (base64_EncodeToString s)"
  shows "\<exists>n. base64_EncodeToString s = raw s @ replicate n (CHR ''='') \<and> n = (3 - length s mod 3) mod 3 \<and> length (raw s) mod 4 = (4 - n) mod 4
    \<and> length (raw s) + n = 4 * ((length s + 2) div 3)"
proof (induction s rule: base64_EncodeToString.induct)
  case (1 a b c cs)
  then obtain n where n: "base64_EncodeToString cs = raw cs @ replicate n (CHR ''='')" "n = (3 - length cs mod 3) mod 3"
    "length (raw cs) mod 4 = (4 - n) mod 4" "length (raw cs) + n = 4 * ((length cs + 2) div 3)" by blast
  have r: "raw (a # b # c # cs) = sextets a (of_char b) (of_char c) @ raw cs"
    using filter_absent [OF sextets_no_pad [OF of_char_256 [of b] of_char_256 [of c], of a]] by (simp add: raw_def)
  have d: "(length (a # b # c # cs) + 2) div 3 = Suc ((length cs + 2) div 3)" by simp
  have m: "length (a # b # c # cs) mod 3 = length cs mod 3" by (simp only: length_Cons add_3_mod3)
  have e: "base64_EncodeToString (a # b # c # cs) = raw (a # b # c # cs) @ replicate n (CHR ''='')" by (simp add: n(1) r)
  have l: "length (raw (a # b # c # cs)) = 4 + length (raw cs)" by (simp add: r sextets_length)
  have "length (raw (a # b # c # cs)) mod 4 = (4 - n) mod 4" using n(3) unfolding l by simp
  moreover have "length (raw (a # b # c # cs)) + n = 4 * ((length (a # b # c # cs) + 2) div 3)" using n(4) unfolding l d by simp
  ultimately show ?case using e n(2) unfolding m by blast
next
  case (2 a b)
  have "CHR ''='' \<notin> set (take 3 (sextets a (of_char b) 0))"
    using sextets_no_pad [OF of_char_256 [of b], of 0 a] in_set_takeD by fastforce
  then have "raw [a, b] = take 3 (sextets a (of_char b) 0)" by (simp add: raw_def filter_absent)
  then show ?case by (intro exI [of _ 1]) (simp add: sextets_length)
next
  case (3 a)
  have "CHR ''='' \<notin> set (take 2 (sextets a 0 0))" using sextets_no_pad [of 0 0 a] in_set_takeD by fastforce
  then have "raw [a] = take 2 (sextets a 0 0)" by (simp add: raw_def filter_absent)
  then show ?case by (intro exI [of _ 2]) (simp add: sextets_length numeral_2_eq_2)
next
  case 4
  show ?case by (simp add: raw_def)
qed

lemma RawURLEncoding_length:
  "length (RawURLEncoding_Encode s) + (3 - length s mod 3) mod 3 = 4 * ((length s + 2) div 3)"
  using base64_shape [of s] by (auto simp: RawURLEncoding_Encode_def)

text \<open>What the encoder writes is well-formed, and decodes to what was encoded.\<close>

lemma RawURLEncoding_roundtrip: "RawURLEncoding_Decode (RawURLEncoding_Encode s) = Some s"
proof -
  let ?raw = "filter (\<lambda>c. c \<noteq> CHR ''='') (base64_EncodeToString s)"
  have raw: "\<exists>d < 64. c = b64_char d" if "c \<in> set ?raw" for c using base64_chars [of c s] that by auto
  then have plain: "url_char c \<notin> {CHR ''='', CHR ''+'', CHR ''/'', CHR 0x0A, CHR 0x0D}" "std_char (url_char c) = c"
    if "c \<in> set ?raw" for c using that url_char_plain url_char_inverse by (blast, metis)
  have t: "filter (\<lambda>c. c \<notin> {CHR 0x0A, CHR 0x0D}) (RawURLEncoding_Encode s) = RawURLEncoding_Encode s"
    using plain(1) by (auto simp: RawURLEncoding_Encode_def filter_id_conv)
  have no: "set (RawURLEncoding_Encode s) \<inter> {CHR ''='', CHR ''+'', CHR ''/''} = {}"
    using plain(1) unfolding RawURLEncoding_Encode_def set_map by blast
  have undo: "map std_char (RawURLEncoding_Encode s) = ?raw"
    unfolding RawURLEncoding_Encode_def map_map by (rule map_idI) (simp add: plain(2))
  obtain n where n: "base64_EncodeToString s = ?raw @ replicate n (CHR ''='')" "n < 3" "length ?raw mod 4 = (4 - n) mod 4"
    using base64_shape [of s] by auto
  have l: "length (RawURLEncoding_Encode s) = length ?raw" by (simp add: RawURLEncoding_Encode_def)
  consider "n = 0" | "n = 1" | "n = 2" using n(2) by linarith
  then have "length ?raw mod 4 \<noteq> 1" "(4 - length ?raw mod 4) mod 4 = n" unfolding n(3) by (cases; simp)+
  then have "RawURLEncoding_Decode (RawURLEncoding_Encode s) = base64_DecodeString (?raw @ replicate n (CHR ''=''))"
    unfolding RawURLEncoding_Decode_def t Let_def using no by (simp add: l undo)
  then show ?thesis by (simp add: n(1) [symmetric] base64_DecodeString_Encode)
qed

text \<open>
  A challenge a client derives from its verifier passes the check at the authorize endpoint: a digest has
  32 bytes, so its encoding has 43 characters.
\<close>

lemma derived_challenge_valid:
  assumes "length (sha verifier) = 32"
  shows "ValidateCodeChallenge (DeriveS256Challenge sha verifier) PKCEMethodS256 = Inr ()"
  using assms RawURLEncoding_length [of "sha verifier"]
  by (auto simp: ValidateCodeChallenge_def DeriveS256Challenge_def RawURLEncoding_roundtrip)

end
