(* ===== verification/AuthzCode.thy ===== *)
theory AuthzCode
  imports Pkce Login
begin

text \<open>
  The authorization server's clients and codes (\<^verbatim>\<open>authzserver.go\<close>), with the login codes of the social login
  (\<^verbatim>\<open>oauthflow.go\<close>) that share the table \<^verbatim>\<open>oauth_authorization_codes\<close>. A code is stored by its hash under a
  unique index, and consumed by one conditional \<^verbatim>\<open>UPDATE\<close>.
\<close>

definition GrantKindLoginCode :: string where "GrantKindLoginCode = ''login_code''"
definition GrantKindAuthzCode :: string where "GrantKindAuthzCode = ''authorization_code''"
definition AuthorizationCodeTTL :: duration where "AuthorizationCodeTTL = 60 * Second"
definition loginCodeTTL :: duration where "loginCodeTTL = 60 * Second"

subsection \<open>Clients\<close>

record client_row = login_client +
  cr_name :: string
  cr_app_type :: string
  cr_redirect_uris :: "string list"
  cr_scopes :: "string list"
  cr_grant_types :: "string list"
  cr_require_pkce :: bool
  cr_first_party :: bool
  cr_audience :: "string option"
  cr_require_audience :: bool

record AuthzClient =
  ac_RowID :: int
  ac_TenantID :: int
  ac_ClientID :: string
  ac_Name :: string
  ac_AppType :: string
  ac_RedirectURIs :: "string list"
  ac_Scopes :: "string list"
  ac_GrantTypes :: "string list"
  ac_RequirePKCE :: bool
  ac_FirstParty :: bool
  ac_Audience :: string
  ac_RequireAudience :: bool
  ac_Confidential :: bool

text \<open>A client without a secret has the empty hash, which no digest equals.\<close>

definition LookupClient :: "faults \<Rightarrow> string \<Rightarrow> client_row list \<Rightarrow> AuthzClient result" where
  "LookupClient fl clientID cs =
     (if clientID = [] then Inl ErrClientNotFound
      else if fl ''lookup oauth client'' then Inl (Wrapped ''lookup oauth client'')
      else case find (\<lambda>c. oc_client_id c = clientID \<and> oc_deleted c = None \<and> oc_active c) cs of
             None \<Rightarrow> Inl ErrClientNotFound
           | Some c \<Rightarrow>
               Inr \<lparr>ac_RowID = oc_id c, ac_TenantID = oc_tenant c, ac_ClientID = oc_client_id c, ac_Name = cr_name c,
                    ac_AppType = cr_app_type c, ac_RedirectURIs = cr_redirect_uris c, ac_Scopes = cr_scopes c,
                    ac_GrantTypes = cr_grant_types c, ac_RequirePKCE = cr_require_pkce c, ac_FirstParty = cr_first_party c,
                    ac_Audience = (case cr_audience c of None \<Rightarrow> [] | Some a \<Rightarrow> a),
                    ac_RequireAudience = cr_require_audience c, ac_Confidential = (oc_secret_hash c \<noteq> [])\<rparr>)"

definition ResolveRedirectURI :: "AuthzClient \<Rightarrow> string \<Rightarrow> string result" where
  "ResolveRedirectURI c requested =
     (if ac_RedirectURIs c = [] then Inl ErrNoRedirectURIsRegistered
      else if requested = [] then
        (case ac_RedirectURIs c of [uri] \<Rightarrow> Inr uri | _ \<Rightarrow> Inl ErrRedirectURINotRegistered)
      else if requested \<in> set (ac_RedirectURIs c) then Inr requested
      else Inl ErrRedirectURINotRegistered)"

definition AllowsGrant :: "AuthzClient \<Rightarrow> string \<Rightarrow> bool" where
  "AllowsGrant c grantType \<longleftrightarrow> ac_GrantTypes c = [] \<or> grantType \<in> set (ac_GrantTypes c)"

definition ParseScopeParam :: "string \<Rightarrow> string list" where
  "ParseScopeParam raw = Fields raw"

definition HasScope :: "string list \<Rightarrow> string \<Rightarrow> bool" where
  "HasScope granted scope \<longleftrightarrow> scope \<in> set granted"

subsection \<open>The table of codes\<close>

record authz_code =
  ac_tenant :: int
  ac_client :: string
  ac_user :: int
  code_hash :: string
  code_challenge :: "string option"
  code_challenge_method :: "string option"
  redirect_uri :: string
  ac_scopes :: "string list"
  ac_nonce :: "string option"
  ac_auth_time :: "time option"
  grant_kind :: string
  ac_audience :: "string option"
  ac_expires_at :: time
  ac_used_at :: "time option"
  ac_org :: "int option"

text \<open>An insert under the unique index on \<open>code_hash\<close>.\<close>

definition insert_code :: "authz_code \<Rightarrow> authz_code list \<Rightarrow> authz_code list option" where
  "insert_code c cs = (if code_hash c \<in> code_hash ` set cs then None else Some (cs @ [c]))"

definition nullIfEmpty :: "string \<Rightarrow> string option" where
  "nullIfEmpty s = (if s = [] then None else Some s)"

record IssueAuthorizationCodeParams =
  ip_TenantID :: int
  ip_ClientID :: string
  ip_UserID :: int
  ip_RedirectURI :: string
  ip_Scopes :: "string list"
  ip_CodeChallenge :: string
  ip_Nonce :: string
  ip_AuthTime :: "time option"
  ip_Audience :: string
  ip_OrganizationID :: "int option"

definition IssueAuthorizationCode ::
  "(string \<Rightarrow> string) \<Rightarrow> faults \<Rightarrow> time \<Rightarrow> string option \<Rightarrow> IssueAuthorizationCodeParams \<Rightarrow> authz_code list \<Rightarrow>
   string result \<times> authz_code list" where
  "IssueAuthorizationCode H fl now raw p cs =
     (case raw of
        None \<Rightarrow> (Inl (Wrapped ''generate authorization code''), cs)
      | Some code \<Rightarrow>
          (case (if fl ''persist authorization code'' then None
                 else insert_code \<lparr>ac_tenant = ip_TenantID p, ac_client = ip_ClientID p, ac_user = ip_UserID p,
                        code_hash = H code, code_challenge = Some (ip_CodeChallenge p),
                        code_challenge_method = Some PKCEMethodS256, redirect_uri = ip_RedirectURI p,
                        ac_scopes = ip_Scopes p, ac_nonce = nullIfEmpty (ip_Nonce p),
                        ac_auth_time = Some (case ip_AuthTime p of None \<Rightarrow> now | Some t \<Rightarrow> t),
                        grant_kind = GrantKindAuthzCode, ac_audience = nullIfEmpty (ip_Audience p),
                        ac_expires_at = now + AuthorizationCodeTTL, ac_used_at = None, ac_org = ip_OrganizationID p\<rparr> cs) of
             None \<Rightarrow> (Inl (Wrapped ''persist authorization code''), cs)
           | Some cs' \<Rightarrow> (Inr code, cs')))"

record RedeemedCode =
  rc_TenantID :: int
  rc_UserID :: int
  rc_ClientID :: string
  rc_RedirectURI :: string
  rc_Scopes :: "string list"
  rc_Nonce :: string
  rc_AuthTime :: "time option"
  rc_Audience :: string
  rc_OrganizationID :: "int option"

definition wasAlreadyUsed :: "faults \<Rightarrow> string \<Rightarrow> authz_code list \<Rightarrow> bool" where
  "wasAlreadyUsed fl codeHash cs \<longleftrightarrow>
     \<not> fl ''was already used'' \<and> (\<exists>c \<in> set cs. code_hash c = codeHash \<and> grant_kind c = GrantKindAuthzCode \<and> ac_used_at c \<noteq> None)"

text \<open>The consuming statement: the rows it hits are stamped, the first of them is returned.\<close>

definition consume_code :: "(authz_code \<Rightarrow> bool) \<Rightarrow> time \<Rightarrow> authz_code list \<Rightarrow> (authz_code \<times> authz_code list) option" where
  "consume_code hit now cs =
     (case find hit cs of
        None \<Rightarrow> None
      | Some c \<Rightarrow> Some (c, update_where hit (\<lambda>c. c\<lparr>ac_used_at := Some now\<rparr>) cs))"

definition redeemable :: "time \<Rightarrow> string \<Rightarrow> string \<Rightarrow> authz_code \<Rightarrow> bool" where
  "redeemable now codeHash clientID c \<longleftrightarrow> code_hash c = codeHash \<and> ac_client c = clientID \<and> grant_kind c = GrantKindAuthzCode
     \<and> ac_used_at c = None \<and> ac_expires_at c > now"

definition RedeemAuthorizationCode ::
  "(string \<Rightarrow> string) \<Rightarrow> (string \<Rightarrow> string) \<Rightarrow> faults \<Rightarrow> time \<Rightarrow> string \<Rightarrow> string \<Rightarrow> string \<Rightarrow> string \<Rightarrow> authz_code list \<Rightarrow>
   RedeemedCode result \<times> authz_code list" where
  "RedeemAuthorizationCode H sha fl now clientID rawCode redirectURI verifier cs =
     (if clientID = [] \<or> rawCode = [] then (Inl ErrInvalidAuthorizationCode, cs)
      else if fl ''redeem authorization code'' then (Inl (Wrapped ''redeem authorization code''), cs)
      else case consume_code (redeemable now (H rawCode) clientID) now cs of
        None \<Rightarrow> (Inl (if wasAlreadyUsed fl (H rawCode) cs then ErrAuthorizationCodeReplayed else ErrInvalidAuthorizationCode), cs)
      | Some (c, cs') \<Rightarrow>
          (if redirectURI \<noteq> redirect_uri c then Inl ErrInvalidAuthorizationCode
           else case code_challenge c of
             None \<Rightarrow> Inl ErrInvalidAuthorizationCode
           | Some challenge \<Rightarrow>
               if challenge = [] then Inl ErrInvalidAuthorizationCode
               else (case VerifyPKCE sha challenge (case code_challenge_method c of None \<Rightarrow> [] | Some m \<Rightarrow> m) verifier of
                 Inl _ \<Rightarrow> Inl ErrInvalidCodeVerifier
               | Inr _ \<Rightarrow>
                   Inr \<lparr>rc_TenantID = ac_tenant c, rc_UserID = ac_user c, rc_ClientID = clientID, rc_RedirectURI = redirect_uri c,
                        rc_Scopes = ac_scopes c, rc_Nonce = (case ac_nonce c of None \<Rightarrow> [] | Some n \<Rightarrow> n),
                        rc_AuthTime = ac_auth_time c, rc_Audience = (case ac_audience c of None \<Rightarrow> [] | Some a \<Rightarrow> a),
                        rc_OrganizationID = ac_org c\<rparr>), cs'))"

subsection \<open>Login codes\<close>

text \<open>The regular expressions of \<^verbatim>\<open>oauthflow.go\<close>.\<close>

definition verifierRe :: "string \<Rightarrow> bool" where
  "verifierRe s \<longleftrightarrow> 43 \<le> length s \<and> length s \<le> 128
     \<and> list_all (\<lambda>c. is_upper c \<or> is_lower c \<or> is_digit c \<or> c \<in> set ''._~-'') s"

definition challengeRe :: "string \<Rightarrow> bool" where
  "challengeRe s \<longleftrightarrow> length s = 43 \<and> list_all (\<lambda>c. is_upper c \<or> is_lower c \<or> is_digit c \<or> c \<in> set ''_-'') s"

definition createLoginCode ::
  "(string \<Rightarrow> string) \<Rightarrow> faults \<Rightarrow> time \<Rightarrow> string option \<Rightarrow> int \<Rightarrow> string \<Rightarrow> string \<Rightarrow> string \<Rightarrow> int \<Rightarrow> authz_code list \<Rightarrow>
   string result \<times> authz_code list" where
  "createLoginCode H fl now raw tenantID clientID redirect clientChallenge userID cs =
     (case raw of
        None \<Rightarrow> (Inl (Wrapped ''generate login code''), cs)
      | Some code \<Rightarrow>
          (case (if fl ''persist login code'' then None
                 else insert_code \<lparr>ac_tenant = tenantID, ac_client = clientID, ac_user = userID, code_hash = H code,
                        code_challenge = nullIfEmpty clientChallenge,
                        code_challenge_method = (if clientChallenge = [] then None else Some ''S256''),
                        redirect_uri = redirect, ac_scopes = [], ac_nonce = None, ac_auth_time = None,
                        grant_kind = GrantKindLoginCode, ac_audience = None, ac_expires_at = now + loginCodeTTL,
                        ac_used_at = None, ac_org = None\<rparr> cs) of
             None \<Rightarrow> (Inl (Wrapped ''persist login code''), cs)
           | Some cs' \<Rightarrow> (Inr code, cs')))"

definition exchangeable :: "time \<Rightarrow> string \<Rightarrow> string \<Rightarrow> string option \<Rightarrow> authz_code \<Rightarrow> bool" where
  "exchangeable now codeHash clientID wantChallenge c \<longleftrightarrow> code_hash c = codeHash \<and> ac_client c = clientID
     \<and> grant_kind c = GrantKindLoginCode \<and> code_challenge c = wantChallenge \<and> ac_used_at c = None \<and> ac_expires_at c > now"

text \<open>The first half of \<^verbatim>\<open>ExchangeLoginCode\<close>, up to the consumed row.\<close>

definition consumeLoginCode ::
  "(string \<Rightarrow> string) \<Rightarrow> (string \<Rightarrow> string) \<Rightarrow> faults \<Rightarrow> time \<Rightarrow> string \<Rightarrow> string \<Rightarrow> string \<Rightarrow> authz_code list \<Rightarrow>
   (int \<times> int) result \<times> authz_code list" where
  "consumeLoginCode H sha fl now clientID rawCode codeVerifier cs =
     (if clientID = [] \<or> rawCode = [] then (Inl ErrInvalidLoginCode, cs)
      else if codeVerifier \<noteq> [] \<and> \<not> verifierRe codeVerifier then (Inl ErrInvalidLoginCode, cs)
      else if fl ''consume login code'' then (Inl (Wrapped ''consume login code''), cs)
      else case consume_code (exchangeable now (H rawCode) clientID
                   (if codeVerifier = [] then None else Some (DeriveS256Challenge sha codeVerifier))) now cs of
             None \<Rightarrow> (Inl ErrInvalidLoginCode, cs)
           | Some (c, cs') \<Rightarrow> (Inr (ac_tenant c, ac_user c), cs'))"

lemma verifierRe_iff: "verifierRe s \<longleftrightarrow> ValidateCodeVerifier s = Inr ()"
  by (auto simp: verifierRe_def ValidateCodeVerifier_def isUnreservedPKCE_def minVerifierLen_def maxVerifierLen_def list_all_iff)

subsection \<open>What can happen to the table\<close>

text \<open>One request against the table, and the hash of the code it creates or presents.\<close>

inductive code_step :: "(string \<Rightarrow> string) \<Rightarrow> (string \<Rightarrow> string) \<Rightarrow> string \<Rightarrow> authz_code list \<Rightarrow> authz_code list \<Rightarrow> bool" for H sha where
  issue: "code_step H sha (H raw) cs (snd (IssueAuthorizationCode H fl now (Some raw) p cs))"
| login: "code_step H sha (H raw) cs (snd (createLoginCode H fl now (Some raw) tid cid redirect challenge uid cs))"
| redeem: "code_step H sha (H raw) cs (snd (RedeemAuthorizationCode H sha fl now cid raw redirect verifier cs))"
| exchange: "code_step H sha (H raw) cs (snd (consumeLoginCode H sha fl now cid raw verifier cs))"

text \<open>Any sequence of requests whose codes have their hash outside \<open>A\<close>.\<close>

inductive code_steps :: "(string \<Rightarrow> string) \<Rightarrow> (string \<Rightarrow> string) \<Rightarrow> string set \<Rightarrow> authz_code list \<Rightarrow> authz_code list \<Rightarrow> bool" for H sha A where
  done_steps: "code_steps H sha A cs cs"
| next_step: "code_steps H sha A cs cs' \<Longrightarrow> code_step H sha h cs' cs'' \<Longrightarrow> h \<notin> A \<Longrightarrow> code_steps H sha A cs cs''"

definition codes_ok :: "authz_code list \<Rightarrow> bool" where
  "codes_ok cs \<longleftrightarrow> distinct (map code_hash cs)"

definition code_spent :: "string \<Rightarrow> authz_code list \<Rightarrow> bool" where
  "code_spent h cs \<longleftrightarrow> codes_ok cs \<and> (\<exists>c \<in> set cs. code_hash c = h \<and> ac_used_at c \<noteq> None)"

lemma stamped_hashes [simp]: "map code_hash (update_where hit (\<lambda>c. c\<lparr>ac_used_at := t\<rparr>) cs) = map code_hash cs"
  by (auto simp: update_where_def)

lemma consume_code_Some:
  assumes "consume_code hit now cs = Some (c, cs')"
  shows "c \<in> set cs" "hit c" "cs' = update_where hit (\<lambda>c. c\<lparr>ac_used_at := Some now\<rparr>) cs"
  using assms by (auto simp: consume_code_def find_Some_iff split: option.splits)

lemma consume_code_None: "consume_code hit now cs = None \<longleftrightarrow> (\<forall>c \<in> set cs. \<not> hit c)"
  using find_None_iff [of hit cs] by (auto simp: consume_code_def split: option.splits)

lemma unique_code: "codes_ok cs \<Longrightarrow> c \<in> set cs \<Longrightarrow> c' \<in> set cs \<Longrightarrow> code_hash c = code_hash c' \<Longrightarrow> c = c'"
  unfolding codes_ok_def by (metis distinct_map inj_onD)

lemma redeem_table:
  "snd (RedeemAuthorizationCode H sha fl now cid raw redirect verifier cs) = cs
   \<or> (\<exists>c. consume_code (redeemable now (H raw) cid) now cs
         = Some (c, snd (RedeemAuthorizationCode H sha fl now cid raw redirect verifier cs)))"
  by (cases "consume_code (redeemable now (H raw) cid) now cs") (auto simp: RedeemAuthorizationCode_def)

lemma exchange_table:
  "snd (consumeLoginCode H sha fl now cid raw verifier cs) = cs
   \<or> (\<exists>c w. consume_code (exchangeable now (H raw) cid w) now cs = Some (c, snd (consumeLoginCode H sha fl now cid raw verifier cs)))"
  by (cases "consume_code (exchangeable now (H raw) cid (if verifier = [] then None else Some (DeriveS256Challenge sha verifier))) now cs")
    (auto simp: consumeLoginCode_def)

text \<open>A request either leaves the table alone, adds a row under a fresh hash, or stamps rows of its hash that were unused.\<close>

lemma code_step_cases:
  assumes "code_step H sha h cs cs'"
  obtains "cs' = cs"
    | c where "cs' = cs @ [c]" "code_hash c = h" "h \<notin> code_hash ` set cs"
    | hit now where "cs' = update_where hit (\<lambda>c. c\<lparr>ac_used_at := Some now\<rparr>) cs" "\<And>c. hit c \<Longrightarrow> code_hash c = h \<and> ac_used_at c = None"
  using assms
proof cases
  case (issue raw fl now p)
  then show ?thesis using that(1,2) by (auto simp: IssueAuthorizationCode_def insert_code_def split: if_splits option.splits)
next
  case (login raw fl now tid cid redirect challenge uid)
  then show ?thesis using that(1,2) by (auto simp: createLoginCode_def insert_code_def split: if_splits option.splits)
next
  case (redeem raw fl now cid redirect verifier)
  from redeem_table [of H sha fl now cid raw redirect verifier cs]
  show ?thesis unfolding redeem(2) [symmetric]
    using that(1) that(3) [of "redeemable now (H raw) cid" now] redeem(1) consume_code_Some(3) by (metis redeemable_def)
next
  case (exchange raw fl now cid verifier)
  from exchange_table [of H sha fl now cid raw verifier cs]
  show ?thesis unfolding exchange(2) [symmetric]
    using that(1) that(3) [of "exchangeable now (H raw) cid _" now] exchange(1) consume_code_Some(3) by (metis exchangeable_def)
qed

lemma code_step_ok: "code_step H sha h cs cs' \<Longrightarrow> codes_ok cs \<Longrightarrow> codes_ok cs'"
  by (erule code_step_cases) (auto simp: codes_ok_def)

lemma code_step_spent: "code_step H sha h cs cs' \<Longrightarrow> code_spent k cs \<Longrightarrow> code_spent k cs'"
proof (unfold code_spent_def, elim conjE bexE, intro conjI)
  fix c assume s: "code_step H sha h cs cs'" and ok: "codes_ok cs" and c: "c \<in> set cs" "code_hash c = k" "ac_used_at c \<noteq> None"
  show "codes_ok cs'" using s ok by (rule code_step_ok)
  show "\<exists>c \<in> set cs'. code_hash c = k \<and> ac_used_at c \<noteq> None"
    using s c by (elim code_step_cases) (force simp: update_where_def)+
qed

text \<open>A spent code stays of its kind.\<close>

definition spent_as :: "string \<Rightarrow> string \<Rightarrow> authz_code list \<Rightarrow> bool" where
  "spent_as g h cs \<longleftrightarrow> (\<exists>c \<in> set cs. code_hash c = h \<and> grant_kind c = g \<and> ac_used_at c \<noteq> None)"

lemma code_step_spent_as: "code_step H sha h cs cs' \<Longrightarrow> spent_as g k cs \<Longrightarrow> spent_as g k cs'"
  unfolding spent_as_def by (elim code_step_cases) (force simp: update_where_def)+

lemma code_step_keeps:
  assumes "code_step H sha h cs cs'" "c \<in> set cs" "code_hash c \<noteq> h"
  shows "c \<in> set cs'"
  using assms by (elim code_step_cases) (force simp: update_where_def)+

lemma code_steps_ok: "code_steps H sha A cs cs' \<Longrightarrow> codes_ok cs \<Longrightarrow> codes_ok cs'"
  by (induction rule: code_steps.induct) (auto intro: code_step_ok)

lemma code_steps_spent: "code_steps H sha A cs cs' \<Longrightarrow> code_spent k cs \<Longrightarrow> code_spent k cs'"
  by (induction rule: code_steps.induct) (auto intro: code_step_spent)

lemma code_steps_spent_as: "code_steps H sha A cs cs' \<Longrightarrow> spent_as g k cs \<Longrightarrow> spent_as g k cs'"
  by (induction rule: code_steps.induct) (auto intro: code_step_spent_as)

lemma code_steps_keeps: "code_steps H sha A cs cs' \<Longrightarrow> c \<in> set cs \<Longrightarrow> code_hash c \<in> A \<Longrightarrow> c \<in> set cs'"
  by (induction rule: code_steps.induct) (auto intro: code_step_keeps)

text \<open>A spent code is refused at both endpoints.\<close>

lemma spent_refused:
  assumes "code_spent (H raw) cs"
  shows "fst (RedeemAuthorizationCode H sha fl now cid raw redirect verifier cs) \<noteq> Inr r"
    "fst (consumeLoginCode H sha fl now cid raw verifier cs) \<noteq> Inr u"
proof -
  from assms obtain c where ok: "codes_ok cs" and c: "c \<in> set cs" "code_hash c = H raw" "ac_used_at c \<noteq> None" by (auto simp: code_spent_def)
  have u: "ac_used_at c' \<noteq> None" if "c' \<in> set cs" "code_hash c' = H raw" for c'
    using unique_code [OF ok c(1) that(1)] c that by auto
  have n: "consume_code (redeemable now (H raw) cid) now cs = None" "consume_code (exchangeable now (H raw) cid w) now cs = None" for w
    using u by (auto simp: consume_code_None redeemable_def exchangeable_def)
  show "fst (RedeemAuthorizationCode H sha fl now cid raw redirect verifier cs) \<noteq> Inr r"
    "fst (consumeLoginCode H sha fl now cid raw verifier cs) \<noteq> Inr u"
    by (simp_all add: RedeemAuthorizationCode_def consumeLoginCode_def n)
qed

lemma consumed_spent:
  assumes "codes_ok cs" "consume_code hit now cs = Some (c, cs')"
  shows "code_spent (code_hash c) cs'"
proof -
  note k = consume_code_Some [OF assms(2)]
  have "c\<lparr>ac_used_at := Some now\<rparr> \<in> set cs'" using k by (auto simp: update_where_def)
  then show ?thesis using assms(1) unfolding code_spent_def k(3) codes_ok_def
    by (intro conjI bexI [of _ "c\<lparr>ac_used_at := Some now\<rparr>"]) simp_all
qed

lemma consumed_spent_as:
  assumes "consume_code hit now cs = Some (c, cs')"
  shows "spent_as (grant_kind c) (code_hash c) cs'"
  using consume_code_Some [OF assms] unfolding spent_as_def by (intro bexI [of _ "c\<lparr>ac_used_at := Some now\<rparr>"]) (auto simp: update_where_def)

text \<open>The answer to a code that was spent: a replay, or an unknown code when it was a login code.\<close>

lemma spent_answer:
  assumes "code_spent (H raw) cs" "spent_as g (H raw) cs" "raw \<noteq> []" "cid \<noteq> []"
    and "\<not> fl ''redeem authorization code''" "\<not> fl ''was already used''"
  shows "RedeemAuthorizationCode H sha fl now cid raw redirect verifier cs
    = (Inl (if g = GrantKindAuthzCode then ErrAuthorizationCodeReplayed else ErrInvalidAuthorizationCode), cs)"
proof -
  from assms(2) obtain c where c: "c \<in> set cs" "code_hash c = H raw" "grant_kind c = g" "ac_used_at c \<noteq> None" by (auto simp: spent_as_def)
  have u: "c' = c" if "c' \<in> set cs" "code_hash c' = H raw" for c'
    using assms(1) c that unique_code by (metis code_spent_def)
  then have "consume_code (redeemable now (H raw) cid) now cs = None" unfolding consume_code_None redeemable_def using c(4) by metis
  moreover have "wasAlreadyUsed fl (H raw) cs \<longleftrightarrow> g = GrantKindAuthzCode" unfolding wasAlreadyUsed_def using c u assms(6) by metis
  ultimately show ?thesis using assms(3-5) by (simp add: RedeemAuthorizationCode_def)
qed

lemma Redeem_consumed:
  assumes "RedeemAuthorizationCode H sha fl now cid raw redirect verifier cs = (x, cs1)" "x = Inl ErrInvalidCodeVerifier \<or> (\<exists>r. x = Inr r)"
  shows "raw \<noteq> [] \<and> (\<exists>c. consume_code (redeemable now (H raw) cid) now cs = Some (c, cs1))"
proof (cases "consume_code (redeemable now (H raw) cid) now cs")
  case None
  with assms show ?thesis by (auto simp: RedeemAuthorizationCode_def split: if_splits)
next
  case (Some y)
  obtain c cs' where y: "y = (c, cs')" by fastforce
  from assms have "raw \<noteq> []" "cs' = cs1" unfolding RedeemAuthorizationCode_def Some y by (auto split: if_split_asm)
  with Some y show ?thesis by simp
qed

lemma exchange_consumed:
  assumes "consumeLoginCode H sha fl now cid raw verifier cs = (Inr u, cs1)"
  shows "raw \<noteq> [] \<and> (\<exists>c w. consume_code (exchangeable now (H raw) cid w) now cs = Some (c, cs1))"
  using assms by (cases "consume_code (exchangeable now (H raw) cid (if verifier = [] then None else Some (DeriveS256Challenge sha verifier))) now cs")
    (auto simp: consumeLoginCode_def split: if_split_asm)

text \<open>
  C2: a code is good for one try, and a second try is reported as a replay. Once a redemption of an authorization code
  succeeded, or failed on the verifier, no later presentation of that code succeeds at the token endpoint or at the
  social-login exchange, by any client, with any redirect target and verifier, at any time, whatever other requests ran in
  between in whatever order; and at the token endpoint, where the two queries succeed and a client is named, the answer is
  exactly that the code was replayed, with the table left as it is. The same holds once a login code was exchanged, except
  that the token endpoint, which knows no login codes, answers that the code is invalid.
\<close>

theorem code_single_use:
  assumes ok: "codes_ok cs"
    and first: "RedeemAuthorizationCode H sha fl now cid raw redirect verifier cs = (x, cs1) \<and> (x = Inl ErrInvalidCodeVerifier \<or> (\<exists>r. x = Inr r))
      \<or> (\<exists>u. consumeLoginCode H sha fl now cid raw verifier cs = (Inr u, cs1))"
    and others: "code_steps H sha {} cs1 cs2"
  shows "fst (RedeemAuthorizationCode H sha fl' now' cid' raw redirect' verifier' cs2) \<noteq> Inr r
    \<and> fst (consumeLoginCode H sha fl'' now'' cid'' raw verifier'' cs2) \<noteq> Inr u
    \<and> (cid' \<noteq> [] \<and> \<not> fl' ''redeem authorization code'' \<and> \<not> fl' ''was already used'' \<longrightarrow>
        RedeemAuthorizationCode H sha fl' now' cid' raw redirect' verifier' cs2
          = (Inl (if \<exists>u. consumeLoginCode H sha fl now cid raw verifier cs = (Inr u, cs1) then ErrInvalidAuthorizationCode
                  else ErrAuthorizationCodeReplayed), cs2))"
proof -
  let ?login = "\<exists>u. consumeLoginCode H sha fl now cid raw verifier cs = (Inr u, cs1)"
  let ?g = "if ?login then GrantKindLoginCode else GrantKindAuthzCode"
  have "raw \<noteq> [] \<and> code_spent (H raw) cs1 \<and> spent_as ?g (H raw) cs1"
  proof (cases ?login)
    case True
    then obtain c w where c: "raw \<noteq> []" "consume_code (exchangeable now (H raw) cid w) now cs = Some (c, cs1)" using exchange_consumed by metis
    then have "code_hash c = H raw" "grant_kind c = GrantKindLoginCode" using consume_code_Some(2) [OF c(2)] by (simp_all add: exchangeable_def)
    with c(1) consumed_spent [OF ok c(2)] consumed_spent_as [OF c(2)] show ?thesis unfolding if_P [OF True] by (simp only: simp_thms)
  next
    case False
    with first obtain c where c: "raw \<noteq> []" "consume_code (redeemable now (H raw) cid) now cs = Some (c, cs1)" using Redeem_consumed by metis
    then have "code_hash c = H raw" "grant_kind c = GrantKindAuthzCode" using consume_code_Some(2) [OF c(2)] by (simp_all add: redeemable_def)
    with c(1) consumed_spent [OF ok c(2)] consumed_spent_as [OF c(2)] show ?thesis unfolding if_not_P [OF False] by (simp only: simp_thms)
  qed
  then have raw: "raw \<noteq> []" and "code_spent (H raw) cs1" "spent_as ?g (H raw) cs1" by blast+
  then have s: "code_spent (H raw) cs2" "spent_as ?g (H raw) cs2" using code_steps_spent [OF others] code_steps_spent_as [OF others] by blast+
  have g: "(?g = GrantKindAuthzCode) = (\<not> ?login)" by (simp add: GrantKindAuthzCode_def GrantKindLoginCode_def)
  have "RedeemAuthorizationCode H sha fl' now' cid' raw redirect' verifier' cs2
      = (Inl (if ?login then ErrInvalidAuthorizationCode else ErrAuthorizationCodeReplayed), cs2)"
    if "cid' \<noteq> []" "\<not> fl' ''redeem authorization code''" "\<not> fl' ''was already used''"
    using spent_answer [where H = H and raw = raw, OF s raw that] unfolding g by (cases ?login) simp_all
  with spent_refused [where H = H and raw = raw, OF s(1)] show ?thesis by blast
qed

lemma Redeem_InrD:
  assumes run: "RedeemAuthorizationCode H sha fl now cid raw redirect verifier cs = (Inr r, cs')"
  obtains c where "consume_code (redeemable now (H raw) cid) now cs = Some (c, cs')" "redirect_uri c = redirect"
    "code_challenge c = Some (DeriveS256Challenge sha verifier)" "ValidateCodeVerifier verifier = Inr ()"
    "r = \<lparr>rc_TenantID = ac_tenant c, rc_UserID = ac_user c, rc_ClientID = cid, rc_RedirectURI = redirect_uri c,
          rc_Scopes = ac_scopes c, rc_Nonce = (case ac_nonce c of None \<Rightarrow> [] | Some n \<Rightarrow> n),
          rc_AuthTime = ac_auth_time c, rc_Audience = (case ac_audience c of None \<Rightarrow> [] | Some a \<Rightarrow> a), rc_OrganizationID = ac_org c\<rparr>"
proof -
  obtain c where c: "consume_code (redeemable now (H raw) cid) now cs = Some (c, cs')"
    using run by (cases "consume_code (redeemable now (H raw) cid) now cs") (auto simp: RedeemAuthorizationCode_def split: if_splits)
  obtain ch where ch: "code_challenge c = Some ch" "ch \<noteq> []" "redirect_uri c = redirect"
    using run by (cases "code_challenge c") (auto simp: RedeemAuthorizationCode_def c split: if_splits)
  let ?v = "VerifyPKCE sha ch (case code_challenge_method c of None \<Rightarrow> [] | Some m \<Rightarrow> m) verifier"
  have v: "?v = Inr ()" using run by (cases ?v) (auto simp: RedeemAuthorizationCode_def c ch split: if_splits)
  have "Inr r = (Inr \<lparr>rc_TenantID = ac_tenant c, rc_UserID = ac_user c, rc_ClientID = cid, rc_RedirectURI = redirect_uri c,
          rc_Scopes = ac_scopes c, rc_Nonce = (case ac_nonce c of None \<Rightarrow> [] | Some n \<Rightarrow> n),
          rc_AuthTime = ac_auth_time c, rc_Audience = (case ac_audience c of None \<Rightarrow> [] | Some a \<Rightarrow> a), rc_OrganizationID = ac_org c\<rparr> :: RedeemedCode result)"
    using run ch by (simp add: RedeemAuthorizationCode_def c v split: if_split_asm)
  then show ?thesis using that [OF c ch(3)] ch(1) v [unfolded VerifyPKCE_Inr] by simp
qed

lemma code_bound:
  shows redeem_bound: "fst (RedeemAuthorizationCode H sha fl now cid raw redirect verifier cs) = Inr r \<Longrightarrow>
      \<exists>c \<in> set cs. code_hash c = H raw \<and> grant_kind c = GrantKindAuthzCode \<and> ac_client c = cid \<and> redirect_uri c = redirect
        \<and> code_challenge c = Some (DeriveS256Challenge sha verifier) \<and> ValidateCodeVerifier verifier = Inr ()
        \<and> ac_used_at c = None \<and> now < ac_expires_at c \<and> rc_UserID r = ac_user c \<and> rc_TenantID r = ac_tenant c
        \<and> rc_Scopes r = ac_scopes c"
    and exchange_bound: "fst (consumeLoginCode H sha fl now cid raw verifier cs) = Inr (t, u) \<Longrightarrow>
      \<exists>c \<in> set cs. code_hash c = H raw \<and> grant_kind c = GrantKindLoginCode \<and> ac_client c = cid
        \<and> code_challenge c = (if verifier = [] then None else Some (DeriveS256Challenge sha verifier))
        \<and> ac_used_at c = None \<and> now < ac_expires_at c \<and> u = ac_user c \<and> t = ac_tenant c"
proof -
  assume "fst (RedeemAuthorizationCode H sha fl now cid raw redirect verifier cs) = Inr r"
  then obtain cs' where R: "RedeemAuthorizationCode H sha fl now cid raw redirect verifier cs = (Inr r, cs')" by (metis prod.collapse)
  obtain c where c: "consume_code (redeemable now (H raw) cid) now cs = Some (c, cs')" and "redirect_uri c = redirect"
    "code_challenge c = Some (DeriveS256Challenge sha verifier)" "ValidateCodeVerifier verifier = Inr ()"
    "rc_UserID r = ac_user c \<and> rc_TenantID r = ac_tenant c \<and> rc_Scopes r = ac_scopes c"
    by (rule Redeem_InrD [OF R]) auto
  with consume_code_Some [OF c] show "\<exists>c \<in> set cs. code_hash c = H raw \<and> grant_kind c = GrantKindAuthzCode \<and> ac_client c = cid \<and> redirect_uri c = redirect
        \<and> code_challenge c = Some (DeriveS256Challenge sha verifier) \<and> ValidateCodeVerifier verifier = Inr ()
        \<and> ac_used_at c = None \<and> now < ac_expires_at c \<and> rc_UserID r = ac_user c \<and> rc_TenantID r = ac_tenant c
        \<and> rc_Scopes r = ac_scopes c" by (auto simp: redeemable_def)
next
  assume "fst (consumeLoginCode H sha fl now cid raw verifier cs) = Inr (t, u)"
  then obtain c cs' where c: "consume_code (exchangeable now (H raw) cid (if verifier = [] then None else Some (DeriveS256Challenge sha verifier))) now cs = Some (c, cs')"
    and "u = ac_user c" "t = ac_tenant c" by (auto simp: consumeLoginCode_def split: if_splits option.splits)
  with consume_code_Some [OF c] show "\<exists>c \<in> set cs. code_hash c = H raw \<and> grant_kind c = GrantKindLoginCode \<and> ac_client c = cid
        \<and> code_challenge c = (if verifier = [] then None else Some (DeriveS256Challenge sha verifier))
        \<and> ac_used_at c = None \<and> now < ac_expires_at c \<and> u = ac_user c \<and> t = ac_tenant c" by (auto simp: exchangeable_def)
qed

text \<open>
  C19: the two credentials in the table do not stand in for each other. What the token endpoint redeems was
  issued as an authorization code to that client for that redirect target, carries a challenge, and the caller
  showed a well-formed verifier of it; what the exchange accepts was made as a login code, and its challenge is
  exactly that of the verifier shown, or absent when none was. Both were unused and unexpired.
\<close>

theorem code_kinds_disjoint:
  "(\<forall>r. fst (RedeemAuthorizationCode H sha fl now cid raw redirect verifier cs) = Inr r \<longrightarrow>
      (\<exists>c \<in> set cs. code_hash c = H raw \<and> grant_kind c = GrantKindAuthzCode \<and> ac_client c = cid \<and> redirect_uri c = redirect
        \<and> code_challenge c = Some (DeriveS256Challenge sha verifier) \<and> ValidateCodeVerifier verifier = Inr ()
        \<and> ac_used_at c = None \<and> now < ac_expires_at c \<and> rc_UserID r = ac_user c \<and> rc_TenantID r = ac_tenant c
        \<and> rc_Scopes r = ac_scopes c))
   \<and> (\<forall>t u. fst (consumeLoginCode H sha fl now cid raw verifier cs) = Inr (t, u) \<longrightarrow>
      (\<exists>c \<in> set cs. code_hash c = H raw \<and> grant_kind c = GrantKindLoginCode \<and> ac_client c = cid
        \<and> code_challenge c = (if verifier = [] then None else Some (DeriveS256Challenge sha verifier))
        \<and> ac_used_at c = None \<and> now < ac_expires_at c \<and> u = ac_user c \<and> t = ac_tenant c))"
  by (intro conjI allI impI, erule redeem_bound, erule exchange_bound)

text \<open>
  C18: what was authorised is what is redeemed. A code issued for some parameters is redeemed, within its minute
  and whatever other codes were issued and presented meanwhile, by the client it was issued to with its redirect
  target and the verifier of its challenge, to exactly those parameters; later it is refused as invalid.
\<close>

theorem authorization_code_roundtrip:
  assumes ok: "codes_ok cs" and issue: "IssueAuthorizationCode H fl t0 (Some raw) p cs = (Inr raw, cs1)"
    and others: "code_steps H sha {H raw} cs1 cs2"
    and client: "ip_ClientID p \<noteq> []" "raw \<noteq> []" and challenge: "ip_CodeChallenge p = DeriveS256Challenge sha verifier" "ip_CodeChallenge p \<noteq> []"
    and verifier: "ValidateCodeVerifier verifier = Inr ()"
  shows "fst (RedeemAuthorizationCode H sha no_faults t (ip_ClientID p) raw (ip_RedirectURI p) verifier cs2) =
    (if t < t0 + AuthorizationCodeTTL
     then Inr \<lparr>rc_TenantID = ip_TenantID p, rc_UserID = ip_UserID p, rc_ClientID = ip_ClientID p, rc_RedirectURI = ip_RedirectURI p,
               rc_Scopes = ip_Scopes p, rc_Nonce = ip_Nonce p, rc_AuthTime = Some (case ip_AuthTime p of None \<Rightarrow> t0 | Some a \<Rightarrow> a),
               rc_Audience = ip_Audience p, rc_OrganizationID = ip_OrganizationID p\<rparr>
     else Inl ErrInvalidAuthorizationCode)"
proof -
  let ?c = "\<lparr>ac_tenant = ip_TenantID p, ac_client = ip_ClientID p, ac_user = ip_UserID p,
      code_hash = H raw, code_challenge = Some (ip_CodeChallenge p), code_challenge_method = Some PKCEMethodS256,
      redirect_uri = ip_RedirectURI p, ac_scopes = ip_Scopes p, ac_nonce = nullIfEmpty (ip_Nonce p),
      ac_auth_time = Some (case ip_AuthTime p of None \<Rightarrow> t0 | Some t \<Rightarrow> t), grant_kind = GrantKindAuthzCode,
      ac_audience = nullIfEmpty (ip_Audience p), ac_expires_at = t0 + AuthorizationCodeTTL, ac_used_at = None, ac_org = ip_OrganizationID p\<rparr>"
  from issue have new: "H raw \<notin> code_hash ` set cs" "cs1 = cs @ [?c]"
    by (auto simp: IssueAuthorizationCode_def insert_code_def split: if_splits option.splits)
  then have ok2: "codes_ok cs2" using code_steps_ok [OF others] ok by (auto simp: codes_ok_def)
  have mem: "?c \<in> set cs2" using code_steps_keeps [OF others, of ?c] new by simp
  have only: "c = ?c" if "c \<in> set cs2" "code_hash c = H raw" for c using unique_code [OF ok2 that(1) mem] that(2) by simp
  have used: "\<not> wasAlreadyUsed no_faults (H raw) cs2" using only by (fastforce simp: wasAlreadyUsed_def)
  have hit: "redeemable t (H raw) (ip_ClientID p) c \<longleftrightarrow> c = ?c \<and> t < t0 + AuthorizationCodeTTL" if "c \<in> set cs2" for c
    using only [OF that] by (auto simp: redeemable_def)
  have n: "(case nullIfEmpty s of None \<Rightarrow> [] | Some n \<Rightarrow> n) = s" for s by (simp add: nullIfEmpty_def)
  show ?thesis
  proof (cases "consume_code (redeemable t (H raw) (ip_ClientID p)) t cs2")
    case None
    then have "\<not> t < t0 + AuthorizationCodeTTL" using hit mem by (auto simp: consume_code_None)
    then show ?thesis using client used by (simp add: RedeemAuthorizationCode_def None)
  next
    case (Some x)
    obtain c cs' where x: "x = (c, cs')" by fastforce
    have "c = ?c" "t < t0 + AuthorizationCodeTTL" using consume_code_Some [OF Some [unfolded x]] hit by auto
    then show ?thesis using client challenge verifier
      by (simp add: RedeemAuthorizationCode_def Some x n VerifyPKCE_def)
  qed
qed

subsection \<open>A sample\<close>

definition sample_sha :: "string \<Rightarrow> string" where
  "sample_sha s = take 32 (s @ replicate 32 (CHR ''x''))"

definition sample_verifier :: string where
  "sample_verifier = replicate 43 (CHR ''v'')"

definition sample_params :: IssueAuthorizationCodeParams where
  "sample_params = \<lparr>ip_TenantID = 3, ip_ClientID = ''shop'', ip_UserID = 7, ip_RedirectURI = ''https://shop/cb'', ip_Scopes = [''openid''],
     ip_CodeChallenge = DeriveS256Challenge sample_sha sample_verifier, ip_Nonce = ''n'', ip_AuthTime = None, ip_Audience = [],
     ip_OrganizationID = None\<rparr>"

definition sample_codes :: "authz_code list" where
  "sample_codes = snd (IssueAuthorizationCode id no_faults 0 (Some ''c0de'') sample_params [])"

lemma sample_codes: "codes_ok []" "IssueAuthorizationCode id no_faults 0 (Some ''c0de'') sample_params [] = (Inr ''c0de'', sample_codes)"
  "codes_ok sample_codes" "ValidateCodeVerifier sample_verifier = Inr ()" "ip_CodeChallenge sample_params \<noteq> []"
proof -
  have "fst (IssueAuthorizationCode id no_faults 0 (Some ''c0de'') sample_params []) = Inr ''c0de''" by code_simp
  then show "IssueAuthorizationCode id no_faults 0 (Some ''c0de'') sample_params [] = (Inr ''c0de'', sample_codes)"
    by (simp add: sample_codes_def prod_eq_iff)
  show "codes_ok []" "codes_ok sample_codes" "ValidateCodeVerifier sample_verifier = Inr ()" "ip_CodeChallenge sample_params \<noteq> []" by code_simp+
qed

lemma authorization_code_roundtrip_witness:
  "fst (RedeemAuthorizationCode id sample_sha no_faults Second ''shop'' ''c0de'' ''https://shop/cb'' sample_verifier sample_codes) =
     Inr \<lparr>rc_TenantID = 3, rc_UserID = 7, rc_ClientID = ''shop'', rc_RedirectURI = ''https://shop/cb'', rc_Scopes = [''openid''],
          rc_Nonce = ''n'', rc_AuthTime = Some 0, rc_Audience = [], rc_OrganizationID = None\<rparr>"
  using authorization_code_roundtrip [OF sample_codes(1,2) done_steps, of sample_sha sample_verifier Second] sample_codes(4,5)
  by (simp add: sample_params_def AuthorizationCodeTTL_def)

lemma code_kinds_disjoint_witness:
  "let redeem = RedeemAuthorizationCode id sample_sha no_faults Second ''shop'' ''c0de'' ''https://shop/cb'' sample_verifier sample_codes in
   \<not> isl (fst redeem) \<and> (\<exists>c \<in> set sample_codes. code_hash c = ''c0de'' \<and> grant_kind c = GrantKindAuthzCode \<and> ac_client c = ''shop'')"
proof -
  have "\<not> isl (fst (RedeemAuthorizationCode id sample_sha no_faults Second ''shop'' ''c0de'' ''https://shop/cb'' sample_verifier sample_codes))"
    by code_simp
  then obtain r where r: "fst (RedeemAuthorizationCode id sample_sha no_faults Second ''shop'' ''c0de'' ''https://shop/cb'' sample_verifier sample_codes) = Inr r"
    using sum.collapse(2) by metis
  from conjunct1 [OF code_kinds_disjoint, THEN spec, THEN mp, OF r] r show ?thesis by (auto simp: Let_def)
qed

lemma code_single_use_witness:
  "let cs1 = snd (RedeemAuthorizationCode id sample_sha no_faults Second ''shop'' ''c0de'' ''https://shop/cb'' sample_verifier sample_codes) in
   cs1 \<noteq> sample_codes
   \<and> RedeemAuthorizationCode id sample_sha no_faults (2 * Second) ''shop'' ''c0de'' ''https://shop/cb'' sample_verifier cs1
       = (Inl ErrAuthorizationCodeReplayed, cs1)"
proof -
  let ?x = "RedeemAuthorizationCode id sample_sha no_faults Second ''shop'' ''c0de'' ''https://shop/cb'' sample_verifier sample_codes"
  have x: "\<not> isl (fst ?x)" "map ac_used_at (snd ?x) = [Some Second]" "map ac_used_at sample_codes = [None]"
    "isl (fst (consumeLoginCode id sample_sha no_faults Second ''shop'' ''c0de'' sample_verifier sample_codes))" by code_simp+
  then obtain r cs1 where r: "?x = (Inr r, cs1)" by (metis prod.collapse sum.collapse(2))
  have "snd ?x \<noteq> sample_codes" using x(2,3) by (metis list.inject option.distinct(1))
  moreover have "RedeemAuthorizationCode id sample_sha no_faults (2 * Second) ''shop'' ''c0de'' ''https://shop/cb'' sample_verifier cs1
      = (Inl ErrAuthorizationCodeReplayed, cs1)"
    using code_single_use [OF sample_codes(3) disjI1 done_steps, OF conjI, OF r, of no_faults "2 * Second" "''shop''" "''https://shop/cb''"] x(4) by fastforce
  ultimately show ?thesis unfolding Let_def r snd_conv by blast
qed

end
