(* ===== verification/TokenEndpoint.thy ===== *)
theory TokenEndpoint
  imports AuthzCode Refresh
begin

text \<open>
  The OAuth token and revocation endpoints (\<^verbatim>\<open>internal/api/handlers/oauth_token.go\<close>) with the services behind
  them: the tokens of a redeemed code and of a machine client (\<^verbatim>\<open>service.go\<close>), and the ID token (\<^verbatim>\<open>idtoken.go\<close>).
  A request is its form with the parsed Basic header. The columns of a user that only the ID token reads, the
  issuer of a tenant and the signer of ID tokens are parameters.
\<close>

definition ScopeOpenID :: string where "ScopeOpenID = ''openid''"
definition ScopeProfile :: string where "ScopeProfile = ''profile''"
definition ScopeEmail :: string where "ScopeEmail = ''email''"
definition GrantAuthorizationCode :: string where "GrantAuthorizationCode = ''authorization_code''"
definition GrantClientCredentials :: string where "GrantClientCredentials = ''client_credentials''"
definition IDTokenTTL :: duration where "IDTokenTTL = AccessTokenTTL"

record profile =
  pf_first :: string
  pf_last :: string
  pf_email_verified :: bool
  pf_updated_at :: "time option"

record IDTokenSubject =
  sj_UserID :: string
  sj_Email :: string
  sj_EmailVerified :: bool
  sj_Name :: string
  sj_GivenName :: string
  sj_FamilyName :: string
  sj_UpdatedAt :: "time option"

record IDTokenClaims =
  it_Nonce :: string
  it_AuthTime :: int
  it_AtHash :: string
  it_Email :: string
  it_EmailVerified :: "bool option"
  it_Name :: string
  it_GivenName :: string
  it_FamilyName :: string
  it_UpdatedAt :: int
  it_ID :: string
  it_Issuer :: string
  it_Audience :: "string list"
  it_Subject :: string
  it_IssuedAt :: int
  it_ExpiresAt :: int

record 'r token_env =
  te_login :: "'r login_env"
  te_clients :: "client_row list"
  te_sha :: "string \<Rightarrow> string"
  te_profile :: "int \<Rightarrow> profile"
  te_issuer :: "int \<Rightarrow> string result"
  te_signID :: "int \<Rightarrow> IDTokenClaims \<Rightarrow> string result"

record 'r token_state =
  tk_login :: "'r login_state"
  tk_codes :: "authz_code list"

text \<open>The client registry the login service authenticates against is the same table.\<close>

definition token_login :: "'r token_env \<Rightarrow> 'r login_env" where
  "token_login Z = (te_login Z)\<lparr>le_clients := map login_client.truncate (te_clients Z)\<rparr>"

abbreviation te_hash :: "'r token_env \<Rightarrow> string \<Rightarrow> string" where
  "te_hash Z \<equiv> HashToken (fa_auth (le_mfa (te_login Z)))"

subsection \<open>The tokens of a redeemed code\<close>

definition login_mint :: "'r login_env \<Rightarrow> 'r login_state \<Rightarrow> 'r mint_env" where
  "login_mint E ls = (le_mint E)\<lparr>me_authority := current_authority E ls\<rparr>"

definition mint_view :: "'r login_state \<Rightarrow> 'r mint_state" where
  "mint_view ls = \<lparr>ms_auth = bs_auth (ls_block ls), ms_policy = ls_sessions ls\<rparr>"

definition put_mint :: "'r mint_state \<Rightarrow> 'r login_state \<Rightarrow> 'r login_state" where
  "put_mint ms ls = (put_block ((ls_block ls)\<lparr>bs_auth := ms_auth ms\<rparr>) ls)\<lparr>ls_sessions := ms_policy ms\<rparr>"

definition code_context :: "string \<Rightarrow> int option \<Rightarrow> sessionContext" where
  "code_context audience orgID =
     \<lparr>sc_sessionID = None, sc_persistent = False, sc_amr = [AMRPassword], sc_authTime = None, sc_grant = GrantAuthorizationCode,
      sc_activeRoles = None, sc_audience = audience, sc_pinnedAudience = [], sc_filterPerms = True,
      sc_org = \<lparr>org_requested = [], org_boundID = orgID, org_personal = (orgID = None), org_skip = False\<rparr>,
      sc_absoluteCap = None\<rparr>"

definition issueScopedTokenPair ::
  "'r login_env \<Rightarrow> faults \<Rightarrow> time \<Rightarrow> string option \<Rightarrow> int \<Rightarrow> int \<Rightarrow> string \<Rightarrow> string \<Rightarrow> string list \<Rightarrow> string \<Rightarrow> string \<Rightarrow>
   string list \<Rightarrow> int option \<Rightarrow> 'r login_state \<Rightarrow> AuthResult result \<times> 'r login_state" where
  "issueScopedTokenPair E fl now raw userID tenantID email role perms appID audience scopes orgID ls =
     (case issueTokenPairWithScope (login_mint E ls) fl now raw userID tenantID email role perms (code_context audience orgID)
             appID (Join scopes) (mint_view ls) of
        (x, ms) \<Rightarrow> (x, put_mint ms ls))"

text \<open>The live account of an application's user base, in a live tenant.\<close>

definition app_user :: "'r login_env \<Rightarrow> int \<Rightarrow> int \<Rightarrow> lockout_row \<Rightarrow> bool" where
  "app_user E tenantID appRowID u \<longleftrightarrow> u_tenant u = tenantID \<and> u_application u = Some appRowID \<and> u_active u \<and> u_deleted u = None
     \<and> (\<exists>t \<in> set (tenants (me_authority (le_mint E))). t_id t = u_tenant u \<and> t_active t)"

record AuthorizedUser =
  au_Tokens :: AuthResult
  au_Subject :: IDTokenSubject

definition IssueTokensForAuthorizationCode ::
  "'r token_env \<Rightarrow> faults \<Rightarrow> time \<Rightarrow> string option \<Rightarrow> int \<Rightarrow> int \<Rightarrow> int \<Rightarrow> string list \<Rightarrow> string \<Rightarrow> int option \<Rightarrow>
   'r login_state \<Rightarrow> AuthorizedUser result \<times> 'r login_state" where
  "IssueTokensForAuthorizationCode Z fl now raw tenantID userID appRowID grantedScopes audience orgID ls =
     (let E = token_login Z in
      if fl ''load user for authorization code'' then (Inl (Wrapped ''load user for authorization code''), ls)
      else case find (\<lambda>u. u_id u = userID \<and> app_user E tenantID appRowID u) (bs_users (ls_block ls)) of
        None \<Rightarrow> (Inl (Wrapped ''load user for authorization code''), ls)
      | Some u \<Rightarrow>
          let perms = (case loadPermissions fl userID tenantID (current_authority E ls) of Inl _ \<Rightarrow> [] | Inr ps \<Rightarrow> ps);
              pf = te_profile Z userID
          in (case issueScopedTokenPair E fl now raw userID tenantID (u_email u) (role_name (me_authority (le_mint E)) u) perms
                     (FormatInt appRowID) audience grantedScopes orgID ls of
                (Inl e, ls') \<Rightarrow> (Inl e, ls')
              | (Inr pair, ls') \<Rightarrow>
                  (Inr \<lparr>au_Tokens = pair,
                        au_Subject = \<lparr>sj_UserID = FormatInt userID, sj_Email = u_email u, sj_EmailVerified = pf_email_verified pf,
                          sj_Name = TrimSpace (pf_first pf @ '' '' @ pf_last pf), sj_GivenName = pf_first pf,
                          sj_FamilyName = pf_last pf, sj_UpdatedAt = pf_updated_at pf\<rparr>\<rparr>, ls')))"

definition LookupUserForApp ::
  "'r login_env \<Rightarrow> faults \<Rightarrow> int \<Rightarrow> int \<Rightarrow> string \<Rightarrow> 'r login_state \<Rightarrow> (int \<times> string) result" where
  "LookupUserForApp E fl tenantID appRowID email ls =
     (if fl ''lookup user for application'' then Inl (Wrapped ''lookup user for application'')
      else case find (\<lambda>u. u_email u = Normalize email \<and> app_user E tenantID appRowID u) (bs_users (ls_block ls)) of
             None \<Rightarrow> Inl (Wrapped ''lookup user for application'')
           | Some u \<Rightarrow> Inr (u_id u, u_email u))"

subsection \<open>The ID token\<close>

record IDTokenParams =
  ii_TenantID :: int
  ii_ClientID :: string
  ii_GrantedScopes :: "string list"
  ii_Nonce :: string
  ii_AuthTime :: "time option"
  ii_AccessToken :: string

definition ComputeAtHash :: "(string \<Rightarrow> string) \<Rightarrow> string \<Rightarrow> string" where
  "ComputeAtHash sha accessToken = RawURLEncoding_Encode (take (length (sha accessToken) div 2) (sha accessToken))"

definition id_claims ::
  "(string \<Rightarrow> string) \<Rightarrow> time \<Rightarrow> string \<Rightarrow> string \<Rightarrow> IDTokenParams \<Rightarrow> IDTokenSubject \<Rightarrow> IDTokenClaims" where
  "id_claims sha now jti issuer p subj =
     (let email = HasScope (ii_GrantedScopes p) ScopeEmail; prof = HasScope (ii_GrantedScopes p) ScopeProfile in
      \<lparr>it_Nonce = ii_Nonce p,
       it_AuthTime = (case ii_AuthTime p of None \<Rightarrow> 0 | Some t \<Rightarrow> unix t),
       it_AtHash = (if ii_AccessToken p = [] then [] else ComputeAtHash sha (ii_AccessToken p)),
       it_Email = (if email then sj_Email subj else []),
       it_EmailVerified = (if email then Some (sj_EmailVerified subj) else None),
       it_Name = (if prof then sj_Name subj else []), it_GivenName = (if prof then sj_GivenName subj else []),
       it_FamilyName = (if prof then sj_FamilyName subj else []),
       it_UpdatedAt = (if prof then (case sj_UpdatedAt subj of None \<Rightarrow> 0 | Some t \<Rightarrow> unix t) else 0),
       it_ID = jti, it_Issuer = issuer, it_Audience = [ii_ClientID p], it_Subject = sj_UserID subj,
       it_IssuedAt = unix now, it_ExpiresAt = unix (now + IDTokenTTL)\<rparr>)"

definition SignIDToken ::
  "'r token_env \<Rightarrow> time \<Rightarrow> string \<Rightarrow> IDTokenParams \<Rightarrow> IDTokenSubject \<Rightarrow> string result" where
  "SignIDToken Z now jti p subj =
     (case te_issuer Z (ii_TenantID p) of
        Inl e \<Rightarrow> Inl e
      | Inr issuer \<Rightarrow> te_signID Z (ii_TenantID p) (id_claims (te_sha Z) now jti issuer p subj))"

subsection \<open>Service tokens\<close>

definition service_claims :: "string \<Rightarrow> int \<Rightarrow> int \<Rightarrow> string list \<Rightarrow> Claims" where
  "service_claims clientID tenantID appID scopes =
     \<lparr>cl_UserID = clientID, cl_TenantID = FormatInt tenantID, cl_AppID = FormatInt appID, cl_Email = [], cl_Role = ''service'',
      cl_Roles = [], cl_ActiveRoles = None, cl_Permissions = scopes, cl_Scope = [], cl_AdminScope = [], cl_AdminApps = None,
      cl_OrgID = [], cl_OrgName = [], cl_OrgRoles = [], cl_OrgPermissions = [], cl_SessionID = []\<rparr>"

definition IssueServiceToken ::
  "'r token_env \<Rightarrow> faults \<Rightarrow> int \<Rightarrow> int \<Rightarrow> string \<Rightarrow> (string \<times> int) result" where
  "IssueServiceToken Z fl tenantID appID requestedAudience =
     (let M = le_mint (te_login Z) in
      if fl ''load app client_id and scopes'' then Inl (Wrapped ''load app client_id and scopes'')
      else case find (\<lambda>c. oc_id c = appID \<and> oc_tenant c = tenantID \<and> oc_deleted c = None) (te_clients Z) of
        None \<Rightarrow> Inl (Wrapped ''load app client_id and scopes'')
      | Some c \<Rightarrow>
          (case ResolveMintAudience (me_scheme M) fl \<lparr>ar_AppRowID = appID, ar_Requested = requestedAudience, ar_Pinned = []\<rparr>
                  (me_audience_db M) of
             Inl e \<Rightarrow> Inl e
           | Inr aud \<Rightarrow>
               let scopes = (case ma_GrantedScopes aud of None \<Rightarrow> cr_scopes c | Some gs \<Rightarrow> FilterScopes (cr_scopes c) gs)
               in (case me_sign M tenantID (ma_Value aud) GrantClientCredentials
                          (service_claims (oc_client_id c) tenantID appID scopes) of
                     Inl e \<Rightarrow> Inl (Wrapped ''sign service token'')
                   | Inr token \<Rightarrow> Inr (token, whole_seconds AccessTokenTTL))))"

subsection \<open>The endpoints\<close>

record token_request =
  tr_basic :: "(string \<times> string) option"
  tr_grant_type :: string
  tr_client_id :: string
  tr_client_secret :: string
  tr_code :: string
  tr_code_verifier :: string
  tr_redirect_uri :: string
  tr_refresh_token :: string
  tr_audience :: string
  tr_resource :: string
  tr_token :: string

record TokenResponse =
  resp_AccessToken :: string
  resp_TokenType :: string
  resp_ExpiresIn :: int
  resp_RefreshToken :: string
  resp_IDToken :: string
  resp_Scope :: string

text \<open>An answer: a token response, an error with its status and code, or an empty body.\<close>

datatype answer = TokenOK TokenResponse | Fail int string | NoContent int

definition clientCredentialsFromRequest :: "token_request \<Rightarrow> string \<times> string" where
  "clientCredentialsFromRequest q = (case tr_basic q of Some p \<Rightarrow> p | None \<Rightarrow> (tr_client_id q, tr_client_secret q))"

definition requestedAudience :: "token_request \<Rightarrow> string" where
  "requestedAudience q = (if tr_audience q \<noteq> [] then tr_audience q else tr_resource q)"

definition authenticateClient :: "'r token_env \<Rightarrow> faults \<Rightarrow> string \<Rightarrow> string \<Rightarrow> AuthzClient result" where
  "authenticateClient Z fl clientID clientSecret =
     (case LookupClient fl clientID (te_clients Z) of
        Inl _ \<Rightarrow> Inl ErrInvalidClient
      | Inr client \<Rightarrow>
          if \<not> ac_Confidential client then Inr client
          else if clientSecret = [] then Inl ErrInvalidClient
          else (case AuthenticateClient (token_login Z) fl (ac_ClientID client) clientSecret of
                  Inl _ \<Rightarrow> Inl ErrInvalidClient | Inr _ \<Rightarrow> Inr client))"

definition failClient :: answer where "failClient = Fail 401 ''invalid_client''"

definition redeem_failure :: "goerror \<Rightarrow> answer" where
  "redeem_failure e =
     (if e \<in> {ErrAuthorizationCodeReplayed, ErrInvalidCodeVerifier, ErrUnsupportedChallengeMethod, ErrInvalidAuthorizationCode}
      then Fail 400 ''invalid_grant'' else Fail 500 ''server_error'')"

text \<open>What one exchange draws: the refresh token and the identifier of the ID token.\<close>

definition authorizationCodeGrant ::
  "'r token_env \<Rightarrow> faults \<Rightarrow> time \<Rightarrow> string option \<Rightarrow> string \<Rightarrow> token_request \<Rightarrow> 'r token_state \<Rightarrow> answer \<times> 'r token_state" where
  "authorizationCodeGrant Z fl now raw jti q st =
     (case clientCredentialsFromRequest q of (clientID, clientSecret) \<Rightarrow>
      (case authenticateClient Z fl clientID clientSecret of
         Inl _ \<Rightarrow> (failClient, st)
       | Inr client \<Rightarrow>
           if \<not> AllowsGrant client ''authorization_code'' then (Fail 400 ''unauthorized_client'', st)
           else (case RedeemAuthorizationCode (te_hash Z) (te_sha Z) fl now (ac_ClientID client) (tr_code q) (tr_redirect_uri q)
                        (tr_code_verifier q) (tk_codes st) of
             (Inl e, cs) \<Rightarrow> (redeem_failure e, st\<lparr>tk_codes := cs\<rparr>)
           | (Inr redeemed, cs) \<Rightarrow>
               let st1 = st\<lparr>tk_codes := cs\<rparr> in
               if rc_TenantID redeemed \<noteq> ac_TenantID client then (Fail 400 ''invalid_grant'', st1)
               else if requestedAudience q \<noteq> [] \<and> requestedAudience q \<noteq> rc_Audience redeemed then (Fail 400 ''invalid_target'', st1)
               else (case IssueTokensForAuthorizationCode Z fl now raw (rc_TenantID redeemed) (rc_UserID redeemed) (ac_RowID client)
                            (rc_Scopes redeemed) (rc_Audience redeemed) (rc_OrganizationID redeemed) (tk_login st1) of
                 (Inl e, ls) \<Rightarrow> (Fail 400 ''invalid_grant'', st1\<lparr>tk_login := ls\<rparr>)
               | (Inr issued, ls) \<Rightarrow>
                   let st2 = st1\<lparr>tk_login := ls\<rparr>; t = au_Tokens issued;
                       resp = \<lparr>resp_AccessToken = AccessToken t, resp_TokenType = ''Bearer'', resp_ExpiresIn = ExpiresIn t,
                               resp_RefreshToken = RefreshToken t, resp_IDToken = [], resp_Scope = Join (rc_Scopes redeemed)\<rparr>
                   in if HasScope (rc_Scopes redeemed) ScopeOpenID then
                        (case SignIDToken Z now jti \<lparr>ii_TenantID = rc_TenantID redeemed, ii_ClientID = ac_ClientID client,
                                ii_GrantedScopes = rc_Scopes redeemed, ii_Nonce = rc_Nonce redeemed,
                                ii_AuthTime = rc_AuthTime redeemed, ii_AccessToken = AccessToken t\<rparr> (au_Subject issued) of
                           Inl _ \<Rightarrow> (Fail 500 ''server_error'', st2)
                         | Inr idToken \<Rightarrow> (TokenOK (resp\<lparr>resp_IDToken := idToken\<rparr>), st2))
                      else (TokenOK resp, st2)))))"

definition refresh_failure :: "goerror \<Rightarrow> answer" where
  "refresh_failure e =
     (if e = ErrInvalidTarget \<or> e = ErrAudienceRequired then Fail 400 ''invalid_target'' else Fail 400 ''invalid_grant'')"

definition refresh_exchange ::
  "'r token_env \<Rightarrow> faults \<Rightarrow> time \<Rightarrow> string option \<Rightarrow> string \<Rightarrow> 'r token_state \<Rightarrow> answer \<times> 'r token_state" where
  "refresh_exchange Z fl now raw token st =
     (if token = [] then (Fail 400 ''invalid_request'', st)
      else case Refresh (login_mint (token_login Z) (tk_login st)) fl now raw token (mint_view (tk_login st)) of
             (x, ms) \<Rightarrow>
               (case x of
                  Inl e \<Rightarrow> refresh_failure e
                | Inr t \<Rightarrow> TokenOK \<lparr>resp_AccessToken = AccessToken t, resp_TokenType = ''Bearer'', resp_ExpiresIn = ExpiresIn t,
                                   resp_RefreshToken = RefreshToken t, resp_IDToken = [], resp_Scope = []\<rparr>,
                st\<lparr>tk_login := put_mint ms (tk_login st)\<rparr>))"

definition refreshTokenGrant ::
  "'r token_env \<Rightarrow> faults \<Rightarrow> time \<Rightarrow> string option \<Rightarrow> token_request \<Rightarrow> 'r token_state \<Rightarrow> answer \<times> 'r token_state" where
  "refreshTokenGrant Z fl now raw q st =
     (case clientCredentialsFromRequest q of (clientID, clientSecret) \<Rightarrow>
        if clientID = [] then refresh_exchange Z fl now raw (tr_refresh_token q) st
        else (case authenticateClient Z fl clientID clientSecret of
                Inl _ \<Rightarrow> (failClient, st)
              | Inr client \<Rightarrow>
                  if \<not> AllowsGrant client ''refresh_token'' then (Fail 400 ''unauthorized_client'', st)
                  else refresh_exchange Z fl now raw (tr_refresh_token q) st))"

definition clientCredentialsGrant :: "'r token_env \<Rightarrow> faults \<Rightarrow> token_request \<Rightarrow> answer" where
  "clientCredentialsGrant Z fl q =
     (case clientCredentialsFromRequest q of (clientID, clientSecret) \<Rightarrow>
        if clientID = [] \<or> clientSecret = [] then failClient
        else (case AuthenticateClient (token_login Z) fl clientID clientSecret of
                Inl _ \<Rightarrow> failClient
              | Inr (tenantID, appRowID) \<Rightarrow>
                  if (case LookupClient fl clientID (te_clients Z) of
                        Inr client \<Rightarrow> \<not> AllowsGrant client ''client_credentials'' | Inl _ \<Rightarrow> False)
                  then Fail 400 ''unauthorized_client''
                  else (case IssueServiceToken Z fl tenantID appRowID (requestedAudience q) of
                          Inl e \<Rightarrow> if e = ErrInvalidTarget \<or> e = ErrAudienceRequired then Fail 400 ''invalid_target''
                                   else Fail 500 ''server_error''
                        | Inr (token, expiresIn) \<Rightarrow>
                            TokenOK \<lparr>resp_AccessToken = token, resp_TokenType = ''Bearer'', resp_ExpiresIn = expiresIn,
                                     resp_RefreshToken = [], resp_IDToken = [], resp_Scope = []\<rparr>)))"

definition Token ::
  "'r token_env \<Rightarrow> faults \<Rightarrow> time \<Rightarrow> string option \<Rightarrow> string \<Rightarrow> token_request \<Rightarrow> 'r token_state \<Rightarrow> answer \<times> 'r token_state" where
  "Token Z fl now raw jti q st =
     (if tr_grant_type q = ''authorization_code'' then authorizationCodeGrant Z fl now raw jti q st
      else if tr_grant_type q = ''refresh_token'' then refreshTokenGrant Z fl now raw q st
      else if tr_grant_type q = ''client_credentials'' then (clientCredentialsGrant Z fl q, st)
      else if tr_grant_type q = [] then (Fail 400 ''invalid_request'', st)
      else (Fail 400 ''unsupported_grant_type'', st))"

text \<open>The tables of sessions and tokens inside the state of a login.\<close>

abbreviation login_db :: "'r login_state \<Rightarrow> session_db" where
  "login_db ls \<equiv> st_db (bs_auth (ls_block ls))"

definition put_login_db :: "session_db \<Rightarrow> 'r login_state \<Rightarrow> 'r login_state" where
  "put_login_db db ls = put_block ((ls_block ls)\<lparr>bs_auth := (bs_auth (ls_block ls))\<lparr>st_db := db\<rparr>\<rparr>) ls"

definition Revoke :: "'r token_env \<Rightarrow> faults \<Rightarrow> time \<Rightarrow> token_request \<Rightarrow> 'r token_state \<Rightarrow> answer \<times> 'r token_state" where
  "Revoke Z fl now q st =
     (case clientCredentialsFromRequest q of (clientID, clientSecret) \<Rightarrow>
        if clientID = [] then (failClient, st)
        else (case authenticateClient Z fl clientID clientSecret of
                Inl _ \<Rightarrow> (failClient, st)
              | Inr client \<Rightarrow>
                  if tr_token q = [] then (NoContent 200, st)
                  else (case RevokeRefreshTokenForTenant (fa_auth (le_mfa (te_login Z))) fl now (tr_token q) (ac_TenantID client)
                               (ac_RowID client) (login_db (tk_login st)) of
                          (x, db) \<Rightarrow> (NoContent 200, st\<lparr>tk_login := put_login_db db (tk_login st)\<rparr>))))"

end
