(* ===== verification/Rfc3339.thy ===== *)
theory Rfc3339
  imports Prelude
begin

text \<open>
  The JSON text of a \<^verbatim>\<open>time.Time\<close> in UTC: \<^verbatim>\<open>RFC3339Nano\<close>, as \<^verbatim>\<open>MarshalJSON\<close> writes it and
  \<^verbatim>\<open>UnmarshalJSON\<close> reads it, over the proleptic Gregorian calendar. Days are counted from 1 January of year 1 in
  cycles of 400, 100, 4 and 1 years, the way the package \<^verbatim>\<open>time\<close> does.
\<close>

subsection \<open>The calendar\<close>

definition leap :: "int \<Rightarrow> bool" where
  "leap y \<longleftrightarrow> y mod 4 = 0 \<and> (y mod 100 \<noteq> 0 \<or> y mod 400 = 0)"

definition days_before_year :: "int \<Rightarrow> int" where
  "days_before_year y = (let z = y - 1 in 365 * z + z div 4 - z div 100 + z div 400)"

definition month_days :: "int \<Rightarrow> int list" where
  "month_days y = [31, if leap y then 29 else 28, 31, 30, 31, 30, 31, 31, 30, 31, 30, 31]"

text \<open>The year and the day in it.\<close>

definition year_of_day :: "int \<Rightarrow> int \<times> int" where
  "year_of_day d =
     (let n400 = d div 146097; r400 = d mod 146097;
          n100 = min 3 (r400 div 36524); r100 = r400 - 36524 * n100;
          n4 = r100 div 1461; r4 = r100 mod 1461;
          n1 = min 3 (r4 div 365)
      in (400 * n400 + 100 * n100 + 4 * n4 + n1 + 1, r4 - 365 * n1))"

fun month_of_day :: "int list \<Rightarrow> int \<Rightarrow> nat \<times> int" where
  "month_of_day [] d = (1, d + 1)"
| "month_of_day (m # ms) d = (if d < m then (1, d + 1) else (case month_of_day ms (d - m) of (i, e) \<Rightarrow> (Suc i, e)))"

definition epoch_days :: int where "epoch_days = 719162"

definition day_number :: "int \<Rightarrow> nat \<Rightarrow> int \<Rightarrow> int" where
  "day_number y m d = days_before_year y + sum_list (take (m - 1) (month_days y)) + (d - 1)"

definition year_of :: "time \<Rightarrow> int" where
  "year_of t = fst (year_of_day (epoch_days + unix t div 86400))"

lemma mod_pos_bounds: "0 < (n :: int) \<Longrightarrow> 0 \<le> d mod n \<and> d mod n < n"
  by simp

lemma year_of_day_days: "year_of_day d = (y, r) \<Longrightarrow> days_before_year y + r = d"
proof -
  assume run: "year_of_day d = (y, r)"
  define a where "a = d div 146097"
  define ra where "ra = d mod 146097"
  define b where "b = min 3 (ra div 36524)"
  define rb where "rb = ra - 36524 * b"
  define c where "c = rb div 1461"
  define rc where "rc = rb mod 1461"
  define e where "e = min 3 (rc div 365)"
  have y: "y = 400 * a + 100 * b + 4 * c + e + 1" and r: "r = rc - 365 * e"
    using run unfolding year_of_day_def Let_def e_def rc_def c_def rb_def b_def ra_def a_def by (simp_all only: prod.inject)
  have ra: "0 \<le> ra" "ra < 146097" "d = 146097 * a + ra" by (simp_all add: ra_def a_def)
  then have b: "0 \<le> b" "b \<le> 3" "0 \<le> rb" "b < 3 \<longrightarrow> rb < 36524" "rb \<le> 36524" unfolding b_def rb_def by (auto simp: min_def)
  have c: "0 \<le> c" "0 \<le> rc" "rc < 1461" "rb = 1461 * c + rc" "c < 25" using b by (auto simp: c_def rc_def)
  then have e: "0 \<le> e" "e \<le> 3" by (auto simp: e_def)
  have d4: "(400 * a + 100 * b + 4 * c + e) div 4 = 100 * a + 25 * b + c" using e by linarith
  have d100: "(400 * a + 100 * b + 4 * c + e) div 100 = 4 * a + b" using e c by linarith
  have d400: "(400 * a + 100 * b + 4 * c + e) div 400 = a" using e c b by linarith
  have "days_before_year y = 365 * (400 * a + 100 * b + 4 * c + e) + (100 * a + 25 * b + c) - (4 * a + b) + a"
    unfolding days_before_year_def Let_def y using d4 d100 d400 by simp
  then show ?thesis using r ra(3) c(4) rb_def by simp
qed

lemma year_of_day_rest: "year_of_day d = (y, r) \<Longrightarrow> 0 \<le> r \<and> r < sum_list (month_days y)"
proof -
  assume run: "year_of_day d = (y, r)"
  define a where "a = d div 146097"
  define ra where "ra = d mod 146097"
  define b where "b = min 3 (ra div 36524)"
  define rb where "rb = ra - 36524 * b"
  define c where "c = rb div 1461"
  define rc where "rc = rb mod 1461"
  define e where "e = min 3 (rc div 365)"
  have y: "y = 400 * a + 100 * b + 4 * c + e + 1" and r: "r = rc - 365 * e"
    using run unfolding year_of_day_def Let_def e_def rc_def c_def rb_def b_def ra_def a_def by (simp_all only: prod.inject)
  have ra: "0 \<le> ra" "ra < 146097" by (simp_all add: ra_def)
  then have b: "0 \<le> b" "b \<le> 3" "0 \<le> rb" "b < 3 \<longrightarrow> rb < 36524" "rb \<le> 36524" unfolding b_def rb_def by (auto simp: min_def)
  have c: "0 \<le> c" "0 \<le> rc" "rc < 1461" "rb = 1461 * c + rc" "c < 25" using b by (auto simp: c_def rc_def)
  have e: "0 \<le> e" "e \<le> 3" "0 \<le> r" "e < 3 \<longrightarrow> r < 365" "r \<le> 365" using c unfolding r e_def by (auto simp: min_def)
  have "leap y" if "r = 365"
  proof -
    have rc: "e = 3" "rc = 1460" using that e r c(3) by linarith+
    then have "y = 4 * (100 * a + 25 * b + c + 1)" using y by simp
    then have four: "y mod 4 = 0" by simp
    have "y mod 400 = 0" if "y mod 100 = 0"
    proof -
      have "y = 4 * c + 4 + 100 * (4 * a + b)" using y rc by simp
      then have "(4 * c + 4) mod 100 = 0" using that mod_mult_self2 [of "4 * c + 4" 100 "4 * a + b"] by metis
      then have c24: "c = 24" using c(1,5) by (cases "4 * c + 4 < 100") (simp_all add: mod_pos_pos_trivial)
      then have "rb = 36524" using c(4) rc by simp
      then have "b = 3" using b by linarith
      then have "y = 400 * (a + 1)" using y rc c24 by simp
      then show ?thesis by simp
    qed
    with four show ?thesis by (auto simp: leap_def)
  qed
  then show ?thesis using e by (cases "r = 365") (auto simp: month_days_def)
qed

lemma month_of_day_days:
  "0 \<le> d \<Longrightarrow> d < sum_list ms \<Longrightarrow> month_of_day ms d = (i, e) \<Longrightarrow>
    0 < i \<and> i \<le> length ms \<and> sum_list (take (i - 1) ms) + (e - 1) = d \<and> 1 \<le> e \<and> e \<le> ms ! (i - 1)"
proof (induction ms arbitrary: d i e)
  case (Cons m ms)
  show ?case
  proof (cases "d < m")
    case False
    then obtain j where j: "month_of_day ms (d - m) = (j, e)" "i = Suc j" using Cons.prems(3) by (auto split: prod.splits)
    from Cons.IH [OF _ _ j(1)] Cons.prems False have "0 < j \<and> j \<le> length ms \<and> sum_list (take (j - 1) ms) + (e - 1) = d - m \<and> 1 \<le> e \<and> e \<le> ms ! (j - 1)"
      by simp
    then show ?thesis unfolding j(2) by (cases j) auto
  qed (use Cons.prems in auto)
qed simp

subsection \<open>The text\<close>

text \<open>Fixed width, leading zeros.\<close>

fun fixed_digits :: "nat \<Rightarrow> nat \<Rightarrow> string" where
  "fixed_digits 0 n = []"
| "fixed_digits (Suc k) n = fixed_digits k (n div 10) @ [digit_char (n mod 10)]"

definition trim_zeros :: "string \<Rightarrow> string" where
  "trim_zeros s = rev (dropWhile (\<lambda>c. c = CHR ''0'') (rev s))"

definition fraction :: "int \<Rightarrow> string" where
  "fraction ns = (if ns = 0 then [] else CHR ''.'' # trim_zeros (fixed_digits 9 (nat ns)))"

text \<open>\<open>None\<close> is the error of \<^verbatim>\<open>MarshalJSON\<close> on a year outside of four digits.\<close>

definition format_time :: "time \<Rightarrow> string option" where
  "format_time t =
     (let s = unix t; sod = s mod 86400 in
      case year_of_day (epoch_days + s div 86400) of (y, yday) \<Rightarrow>
        (case month_of_day (month_days y) yday of (m, d) \<Rightarrow>
           if y < 0 \<or> y > 9999 then None
           else Some (fixed_digits 4 (nat y) @ ''-'' @ fixed_digits 2 m @ ''-'' @ fixed_digits 2 (nat d) @ ''T''
                      @ fixed_digits 2 (nat (sod div 3600)) @ '':'' @ fixed_digits 2 (nat (sod div 60 mod 60)) @ '':''
                      @ fixed_digits 2 (nat (sod mod 60)) @ fraction (t mod Second) @ ''Z'')))"

text \<open>The zone: \<^verbatim>\<open>Z\<close> or an offset, in seconds east of UTC.\<close>

definition parse_zone :: "string \<Rightarrow> int option" where
  "parse_zone s =
     (case s of
        [c] \<Rightarrow> if c = CHR ''Z'' then Some 0 else None
      | [g, h1, h2, c, m1, m2] \<Rightarrow>
          (case (parse_digits 0 [h1, h2], parse_digits 0 [m1, m2]) of
             (Some h, Some m) \<Rightarrow>
               if c = CHR '':'' \<and> h < 24 \<and> m < 60 \<and> g \<in> {CHR ''+'', CHR ''-''}
               then Some ((if g = CHR ''-'' then -1 else 1) * (3600 * int h + 60 * int m)) else None
           | _ \<Rightarrow> None)
      | _ \<Rightarrow> None)"

text \<open>The fraction, digits past the ninth ignored, and the zone after it.\<close>

definition parse_tail :: "string \<Rightarrow> (int \<times> int) option" where
  "parse_tail s =
     (case s of
        [] \<Rightarrow> None
      | c # r \<Rightarrow>
          if c \<noteq> CHR ''.'' then map_option (\<lambda>z. (0, z)) (parse_zone s)
          else (let ds = takeWhile is_digit r in
                case (parse_digits 0 (take 9 (ds @ replicate 9 (CHR ''0''))), parse_zone (dropWhile is_digit r)) of
                  (Some ns, Some z) \<Rightarrow> if ds = [] then None else Some (int ns, z)
                | _ \<Rightarrow> None))"

definition parse_time :: "string \<Rightarrow> time option" where
  "parse_time s =
     (if length s < 20 \<or> [s ! 4, s ! 7, s ! 10, s ! 13, s ! 16] \<noteq> ''--T::'' then None
      else case (parse_digits 0 (take 4 s), parse_digits 0 (take 2 (drop 5 s)), parse_digits 0 (take 2 (drop 8 s)),
                 parse_digits 0 (take 2 (drop 11 s)), parse_digits 0 (take 2 (drop 14 s)), parse_digits 0 (take 2 (drop 17 s)),
                 parse_tail (drop 19 s)) of
             (Some y, Some m, Some d, Some hh, Some mm, Some ss, Some (ns, z)) \<Rightarrow>
               if 1 \<le> m \<and> m \<le> 12 \<and> 1 \<le> d \<and> int d \<le> month_days (int y) ! (m - 1) \<and> hh < 24 \<and> mm < 60 \<and> ss < 60
               then Some (((day_number (int y) m (int d) - epoch_days) * 86400 + 3600 * int hh + 60 * int mm + int ss - z) * Second + ns)
               else None
           | _ \<Rightarrow> None)"

lemma length_fixed_digits [simp]: "length (fixed_digits k n) = k"
  by (induction k arbitrary: n) auto

lemma parse_fixed_digits: "n < 10 ^ k \<Longrightarrow> parse_digits 0 (fixed_digits k n) = Some n"
proof (induction k arbitrary: n)
  case (Suc k)
  then have "n div 10 < 10 ^ k" by auto
  from Suc.IH [OF this] show ?case by (simp add: parse_digits_append)
qed simp

lemma fixed_digits_digit: "c \<in> set (fixed_digits k n) \<Longrightarrow> is_digit c"
proof (induction k arbitrary: n)
  case (Suc k)
  have "n mod 10 < 10" by simp
  then have "is_digit (digit_char (n mod 10))" by (simp add: is_digit_def in_range_def of_char_digit_char)
  with Suc show ?case by auto
qed simp

lemma fixed_2: "length (fixed_digits 2 n) = 2" "length (fixed_digits 4 n) = 4" by simp_all

lemma trim_zeros_pad: "trim_zeros s @ replicate (length s - length (trim_zeros s)) (CHR ''0'') = s"
proof -
  let ?P = "\<lambda>c. c = CHR ''0''"
  have split: "s = trim_zeros s @ rev (takeWhile ?P (rev s))"
    unfolding trim_zeros_def by (metis rev_append rev_rev_ident takeWhile_dropWhile_id)
  have z: "replicate (length (takeWhile ?P xs)) (CHR ''0'') = takeWhile ?P xs" for xs by (induction xs) auto
  have "rev (takeWhile ?P (rev s)) = replicate (length (takeWhile ?P (rev s))) (CHR ''0'')"
    by (metis z rev_replicate)
  moreover have "length s - length (trim_zeros s) = length (takeWhile ?P (rev s))"
    using arg_cong [OF split, of length] by simp
  ultimately show ?thesis using split by metis
qed

lemma trim_zeros_Nil: "trim_zeros s = [] \<Longrightarrow> s = replicate (length s) (CHR ''0'')"
  using trim_zeros_pad [of s] by simp

lemma parse_digits_zeros: "parse_digits a (replicate k (CHR ''0'')) = Some (a * 10 ^ k)"
  by (induction k arbitrary: a) (auto simp: char_digit_def)

lemma parse_tail_fraction:
  assumes "0 \<le> ns" "ns < Second"
  shows "parse_tail (fraction ns @ ''Z'') = Some (ns, 0)"
proof (cases "ns = 0")
  case False
  let ?f = "fixed_digits 9 (nat ns)" and ?ds = "trim_zeros (fixed_digits 9 (nat ns))"
  have num: "parse_digits 0 ?f = Some (nat ns)" using assms by (intro parse_fixed_digits) auto
  have dig: "\<forall>c \<in> set ?ds. is_digit c" using fixed_digits_digit by (auto simp: trim_zeros_def dest: set_dropWhileD)
  have tw: "takeWhile is_digit (?ds @ ''Z'') = ?ds" "dropWhile is_digit (?ds @ ''Z'') = ''Z''"
    using dig takeWhile_append2 [of ?ds is_digit "''Z''"] dropWhile_append2 [of ?ds is_digit "''Z''"] by (simp_all add: is_digit_def in_range_def)
  have pad: "?f = ?ds @ replicate (9 - length ?ds) (CHR ''0'')" using trim_zeros_pad [of ?f] by simp
  then have len: "length ?ds \<le> 9" by (metis length_append length_fixed_digits le_add1)
  have "take 9 (?ds @ replicate 9 (CHR ''0'')) = ?f"
    using pad len by (simp add: min_def)
  moreover have "?ds \<noteq> []"
  proof
    assume "?ds = []"
    then have "?f = replicate 9 (CHR ''0'')" using trim_zeros_Nil [of ?f] by simp
    with num parse_digits_zeros [of 0 9] have "nat ns = 0" by simp
    with False assms show False by simp
  qed
  ultimately show ?thesis using False num tw assms by (simp add: parse_tail_def fraction_def Let_def parse_zone_def)
qed (simp add: parse_tail_def fraction_def parse_zone_def)

lemma split_text:
  assumes "length y = 4" "length m = 2" "length d = 2" "length h = 2" "length i = 2" "length s = 2"
  shows "parse_time (y @ ''-'' @ m @ ''-'' @ d @ ''T'' @ h @ '':'' @ i @ '':'' @ s @ r) =
    (if r = [] then None
     else case (parse_digits 0 y, parse_digits 0 m, parse_digits 0 d, parse_digits 0 h, parse_digits 0 i, parse_digits 0 s, parse_tail r) of
       (Some y, Some m, Some d, Some hh, Some mm, Some ss, Some (ns, z)) \<Rightarrow>
         if 1 \<le> m \<and> m \<le> 12 \<and> 1 \<le> d \<and> int d \<le> month_days (int y) ! (m - 1) \<and> hh < 24 \<and> mm < 60 \<and> ss < 60
         then Some (((day_number (int y) m (int d) - epoch_days) * 86400 + 3600 * int hh + 60 * int mm + int ss - z) * Second + ns)
         else None
     | _ \<Rightarrow> None)"
proof -
  let ?t = "y @ ''-'' @ m @ ''-'' @ d @ ''T'' @ h @ '':'' @ i @ '':'' @ s @ r"
  have "length ?t = 19 + length r" using assms by simp
  moreover have "[?t ! 4, ?t ! 7, ?t ! 10, ?t ! 13, ?t ! 16] = ''--T::''"
    using assms by (simp add: nth_append)
  moreover have "take 4 ?t = y" "take 2 (drop 5 ?t) = m" "take 2 (drop 8 ?t) = d" "take 2 (drop 11 ?t) = h" "take 2 (drop 14 ?t) = i"
    "take 2 (drop 17 ?t) = s" "drop 19 ?t = r"
    using assms by (simp_all add: drop_Cons')
  ultimately show ?thesis unfolding parse_time_def by (cases r) simp_all
qed

lemma clock_parts: "3600 * (x div 3600) + 60 * (x div 60 mod 60) + x mod 60 = (x :: int)"
proof -
  have "x div 3600 = x div 60 div 60" by (simp add: div_mult2_eq' [symmetric] flip: zdiv_zmult2_eq)
  then show ?thesis using mult_div_mod_eq [of 60 x] mult_div_mod_eq [of 60 "x div 60"] by linarith
qed

lemma parse_time_parts:
  assumes "y < 10000" "1 \<le> m" "m \<le> 12" "1 \<le> d" "int d \<le> month_days (int y) ! (m - 1)" "hh < 24" "mm < 60" "ss < 60" "0 \<le> ns" "ns < Second"
  shows "parse_time (fixed_digits 4 y @ ''-'' @ fixed_digits 2 m @ ''-'' @ fixed_digits 2 d @ ''T'' @ fixed_digits 2 hh @ '':''
      @ fixed_digits 2 mm @ '':'' @ fixed_digits 2 ss @ fraction ns @ ''Z'')
    = Some (((day_number (int y) m (int d) - epoch_days) * 86400 + 3600 * int hh + 60 * int mm + int ss) * Second + ns)"
proof -
  have "month_days (int y) ! (m - 1) \<le> 31" using assms(3) by (auto simp: month_days_def nth_Cons' split: if_splits)
  then have "d < 100" using assms(5) by linarith
  then have ds: "parse_digits 0 (fixed_digits 4 y) = Some y" "parse_digits 0 (fixed_digits 2 m) = Some m" "parse_digits 0 (fixed_digits 2 d) = Some d"
    "parse_digits 0 (fixed_digits 2 hh) = Some hh" "parse_digits 0 (fixed_digits 2 mm) = Some mm" "parse_digits 0 (fixed_digits 2 ss) = Some ss"
    using assms by (simp_all add: parse_fixed_digits)
  show ?thesis
    by (subst split_text) (use ds parse_tail_fraction [OF assms(9,10)] assms in simp_all)
qed

text \<open>An instant of a four-digit year survives its text.\<close>

lemma parse_format_time:
  assumes "format_time t = Some s"
  shows "parse_time s = Some t"
proof -
  define u where "u = unix t"
  define sod where "sod = u mod 86400"
  define hh where "hh = sod div 3600"
  define mm where "mm = sod div 60 mod 60"
  define ss where "ss = sod mod 60"
  obtain y r where yr: "year_of_day (epoch_days + u div 86400) = (y, r)" by fastforce
  obtain m d where md: "month_of_day (month_days y) r = (m, d)" by fastforce
  have y: "0 \<le> y" "y \<le> 9999" and s: "s = fixed_digits 4 (nat y) @ ''-'' @ fixed_digits 2 m @ ''-'' @ fixed_digits 2 (nat d) @ ''T''
       @ fixed_digits 2 (nat hh) @ '':'' @ fixed_digits 2 (nat mm) @ '':'' @ fixed_digits 2 (nat ss) @ fraction (t mod Second) @ ''Z''"
    using assms by (auto simp: format_time_def Let_def yr md u_def [symmetric] sod_def [symmetric] hh_def [symmetric] mm_def [symmetric]
        ss_def [symmetric] split: if_splits)
  from year_of_day_rest [OF yr] have r: "0 \<le> r" "r < sum_list (month_days y)" by auto
  from month_of_day_days [OF r md] have m: "1 \<le> m" "m \<le> 12" "1 \<le> d" "d \<le> month_days y ! (m - 1)"
    and sum: "sum_list (take (m - 1) (month_days y)) + (d - 1) = r" by (auto simp: month_days_def)
  have day: "day_number y m d = epoch_days + u div 86400"
    using year_of_day_days [OF yr] sum by (simp add: day_number_def)
  have "0 \<le> sod" "sod < 86400" by (simp_all add: sod_def)
  then have parts: "0 \<le> hh" "hh < 24" "0 \<le> mm" "mm < 60" "0 \<le> ss" "ss < 60" by (auto simp: hh_def mm_def ss_def)
  have tot: "3600 * hh + 60 * mm + ss = sod" unfolding hh_def mm_def ss_def by (rule clock_parts)
  have t: "(u div 86400 * 86400 + sod) * Second + t mod Second = t" by (simp add: u_def sod_def unix_def)
  have "parse_time s = Some (((day_number (int (nat y)) m (int (nat d)) - epoch_days) * 86400 + 3600 * int (nat hh) + 60 * int (nat mm)
      + int (nat ss)) * Second + t mod Second)"
    unfolding s by (rule parse_time_parts) (use y m parts in simp_all)
  also have "\<dots> = Some t" using tot t y m parts day by simp
  finally show ?thesis .
qed

lemma format_time_total: "0 \<le> year_of t \<Longrightarrow> year_of t \<le> 9999 \<Longrightarrow> \<exists>s. format_time t = Some s"
  by (auto simp: format_time_def year_of_def Let_def split: prod.splits)

end
