(* ===== verification/AuthzSession.thy ===== *)
theory AuthzSession
  imports TokenEndpoint Rfc3339
begin

text \<open>
  The state behind the hosted login pages (\<^verbatim>\<open>internal/auth/authzsession.go\<close>): authorization requests parked in Redis
  while the user signs in, the sessions of completed hosted logins, and the nonces already spent. Records are stored
  as the JSON text of their structs, under the hash of a random handle. Each operation takes the store, the hash, the
  calls that fail and the instant, and returns the new keyspace.
\<close>

definition authzRequestTTL :: duration where "authzRequestTTL = 15 * Minute"
definition AuthzSessionTTL :: duration where "AuthzSessionTTL = 12 * Hour"
definition authzNonceTTL :: duration where "authzNonceTTL = IDTokenTTL"

record AuthzRequest =
  aq_ClientID :: string
  aq_TenantID :: int
  aq_AppRowID :: int
  aq_RedirectURI :: string
  aq_Scopes :: "string list"
  aq_State :: string
  aq_Nonce :: string
  aq_CodeChallenge :: string
  aq_Audience :: string
  aq_AppName :: string
  aq_OTPSessionToken :: string
  aq_OTPMethods :: "string list"
  aq_Email :: string
  aq_Organization :: string

record AuthzSession =
  az_UserID :: int
  az_TenantID :: int
  az_Email :: string
  az_AuthTime :: time

subsection \<open>The stored text\<close>

text \<open>A field with \<^verbatim>\<open>omitempty\<close>.\<close>

definition omit_str :: "string \<Rightarrow> string \<Rightarrow> (string \<times> json) list" where
  "omit_str k v = (if v = [] then [] else [(k, JStr v)])"

definition authz_request_json :: "AuthzRequest \<Rightarrow> json" where
  "authz_request_json q =
     JObj ([(''client_id'', JStr (aq_ClientID q)), (''tenant_id'', JNum (aq_TenantID q)), (''app_row_id'', JNum (aq_AppRowID q)),
            (''redirect_uri'', JStr (aq_RedirectURI q)), (''scopes'', str_slice (aq_Scopes q)), (''state'', JStr (aq_State q)),
            (''nonce'', JStr (aq_Nonce q)), (''code_challenge'', JStr (aq_CodeChallenge q))]
           @ omit_str ''audience'' (aq_Audience q) @ omit_str ''app_name'' (aq_AppName q)
           @ omit_str ''otp_session_token'' (aq_OTPSessionToken q)
           @ (if aq_OTPMethods q = [] then [] else [(''otp_methods'', str_slice (aq_OTPMethods q))])
           @ omit_str ''email'' (aq_Email q) @ omit_str ''organization'' (aq_Organization q))"

definition authz_request_of_json :: "json \<Rightarrow> AuthzRequest option" where
  "authz_request_of_json v =
     (let kvs = (case v of JObj kvs \<Rightarrow> Some kvs | JNull \<Rightarrow> Some [] | _ \<Rightarrow> None) in
      case kvs of
        None \<Rightarrow> None
      | Some kvs \<Rightarrow>
          (case (field_str kvs ''client_id'', field_int kvs ''tenant_id'', field_int kvs ''app_row_id'', field_str kvs ''redirect_uri'',
                 field_strs kvs ''scopes'', field_str kvs ''state'', field_str kvs ''nonce'') of
             (Some cid, Some tid, Some app, Some uri, Some scopes, Some st, Some nonce) \<Rightarrow>
               (case (field_str kvs ''code_challenge'', field_str kvs ''audience'', field_str kvs ''app_name'',
                      field_str kvs ''otp_session_token'', field_strs kvs ''otp_methods'', field_str kvs ''email'',
                      field_str kvs ''organization'') of
                  (Some challenge, Some aud, Some name, Some otp, Some methods, Some email, Some org) \<Rightarrow>
                    Some \<lparr>aq_ClientID = cid, aq_TenantID = tid, aq_AppRowID = app, aq_RedirectURI = uri,
                          aq_Scopes = (case scopes of None \<Rightarrow> [] | Some xs \<Rightarrow> xs), aq_State = st, aq_Nonce = nonce,
                          aq_CodeChallenge = challenge, aq_Audience = aud, aq_AppName = name, aq_OTPSessionToken = otp,
                          aq_OTPMethods = (case methods of None \<Rightarrow> [] | Some xs \<Rightarrow> xs), aq_Email = email, aq_Organization = org\<rparr>
                | _ \<Rightarrow> None)
           | _ \<Rightarrow> None))"

text \<open>
  The zero \<^verbatim>\<open>time.Time\<close>, which an absent or \<^verbatim>\<open>null\<close> field leaves, is midnight of 1 January of year 1.
\<close>

definition zero_time :: time where "zero_time = - (epoch_days * 86400 * Second)"

definition field_time :: "(string \<times> json) list \<Rightarrow> string \<Rightarrow> time option" where
  "field_time kvs k =
     (case map_of kvs k of
        None \<Rightarrow> Some zero_time
      | Some JNull \<Rightarrow> Some zero_time
      | Some (JStr s) \<Rightarrow> parse_time s
      | _ \<Rightarrow> None)"

definition authz_session_json :: "AuthzSession \<Rightarrow> json option" where
  "authz_session_json s =
     map_option (\<lambda>t. JObj [(''user_id'', JNum (az_UserID s)), (''tenant_id'', JNum (az_TenantID s)), (''email'', JStr (az_Email s)),
       (''auth_time'', JStr t)]) (format_time (az_AuthTime s))"

definition authz_session_of_json :: "json \<Rightarrow> AuthzSession option" where
  "authz_session_of_json v =
     (let kvs = (case v of JObj kvs \<Rightarrow> Some kvs | JNull \<Rightarrow> Some [] | _ \<Rightarrow> None) in
      case kvs of
        None \<Rightarrow> None
      | Some kvs \<Rightarrow>
          (case (field_int kvs ''user_id'', field_int kvs ''tenant_id'', field_str kvs ''email'', field_time kvs ''auth_time'') of
             (Some uid, Some tid, Some email, Some t) \<Rightarrow> Some \<lparr>az_UserID = uid, az_TenantID = tid, az_Email = email, az_AuthTime = t\<rparr>
           | _ \<Rightarrow> None))"

subsection \<open>Keys\<close>

definition authzRequestKey :: "(string \<Rightarrow> string) \<Rightarrow> string \<Rightarrow> string" where
  "authzRequestKey H handle = ''oauth:authz:req:'' @ H handle"

definition authzSessionKey :: "(string \<Rightarrow> string) \<Rightarrow> string \<Rightarrow> string" where
  "authzSessionKey H handle = ''oauth:authz:sess:'' @ H handle"

definition authzNonceKey :: "(string \<Rightarrow> string) \<Rightarrow> int \<Rightarrow> string \<Rightarrow> string \<Rightarrow> string" where
  "authzNonceKey H tenantID clientID nonce =
     ''oauth:authz:nonce:'' @ H (FormatInt tenantID @ '':'' @ H clientID @ '':'' @ H nonce)"

subsection \<open>Operations\<close>

definition BurnNonce ::
  "'r redis_ops \<Rightarrow> (string \<Rightarrow> string) \<Rightarrow> faults \<Rightarrow> time \<Rightarrow> int \<Rightarrow> string \<Rightarrow> string \<Rightarrow> 'r \<Rightarrow> unit result \<times> 'r" where
  "BurnNonce R H fl now tenantID clientID nonce r =
     (if nonce = [] then (Inr (), r)
      else if fl ''burn authz nonce'' then (Inl (Wrapped ''burn authz nonce''), r)
      else (case rsetnx R r now (authzNonceKey H tenantID clientID nonce) ''1'' authzNonceTTL of
              (True, r') \<Rightarrow> (Inr (), r')
            | (False, r') \<Rightarrow> (Inl ErrNonceReplayed, r')))"

definition ReleaseNonce ::
  "'r redis_ops \<Rightarrow> (string \<Rightarrow> string) \<Rightarrow> faults \<Rightarrow> time \<Rightarrow> int \<Rightarrow> string \<Rightarrow> string \<Rightarrow> 'r \<Rightarrow> 'r" where
  "ReleaseNonce R H fl now tenantID clientID nonce r =
     (if nonce = [] \<or> fl ''release authz nonce'' then r else rdel R r now (authzNonceKey H tenantID clientID nonce))"

text \<open>\<open>raw\<close> is the handle \<^verbatim>\<open>GenerateRefreshToken\<close> draws.\<close>

definition SaveRequest ::
  "'r redis_ops \<Rightarrow> (string \<Rightarrow> string) \<Rightarrow> faults \<Rightarrow> time \<Rightarrow> string option \<Rightarrow> AuthzRequest \<Rightarrow> 'r \<Rightarrow> string result \<times> 'r" where
  "SaveRequest R H fl now raw q r =
     (case raw of
        None \<Rightarrow> (Inl (Wrapped ''generate authz request handle''), r)
      | Some handle \<Rightarrow>
          if fl ''store authz request'' then (Inl (Wrapped ''store authz request''), r)
          else (Inr handle, rset R r now (authzRequestKey H handle) (print_json (authz_request_json q)) authzRequestTTL))"

definition GetRequest ::
  "'r redis_ops \<Rightarrow> (string \<Rightarrow> string) \<Rightarrow> faults \<Rightarrow> time \<Rightarrow> string \<Rightarrow> 'r \<Rightarrow> AuthzRequest result" where
  "GetRequest R H fl now handle r =
     (if handle = [] then Inl ErrAuthzRequestNotFound
      else if fl ''load authz request'' then Inl (Wrapped ''load authz request'')
      else case rget R r now (authzRequestKey H handle) of
             None \<Rightarrow> Inl ErrAuthzRequestNotFound
           | Some raw \<Rightarrow> (case Option.bind (parse_json raw) authz_request_of_json of
                            None \<Rightarrow> Inl (Wrapped ''unmarshal authz request'')
                          | Some q \<Rightarrow> Inr q))"

definition UpdateRequest ::
  "'r redis_ops \<Rightarrow> (string \<Rightarrow> string) \<Rightarrow> faults \<Rightarrow> time \<Rightarrow> string \<Rightarrow> AuthzRequest \<Rightarrow> 'r \<Rightarrow> unit result \<times> 'r" where
  "UpdateRequest R H fl now handle q r =
     (if fl ''update authz request'' then (Inl (Wrapped ''update authz request''), r)
      else (Inr (), rsetkeep R r now (authzRequestKey H handle) (print_json (authz_request_json q))))"

definition DeleteRequest :: "'r redis_ops \<Rightarrow> (string \<Rightarrow> string) \<Rightarrow> faults \<Rightarrow> time \<Rightarrow> string \<Rightarrow> 'r \<Rightarrow> 'r" where
  "DeleteRequest R H fl now handle r = (if fl ''delete authz request'' then r else rdel R r now (authzRequestKey H handle))"

definition CreateSession ::
  "'r redis_ops \<Rightarrow> (string \<Rightarrow> string) \<Rightarrow> faults \<Rightarrow> time \<Rightarrow> string option \<Rightarrow> AuthzSession \<Rightarrow> 'r \<Rightarrow> string result \<times> 'r" where
  "CreateSession R H fl now raw sess r =
     (case raw of
        None \<Rightarrow> (Inl (Wrapped ''generate authz session handle''), r)
      | Some handle \<Rightarrow>
          (case authz_session_json sess of
             None \<Rightarrow> (Inl (Wrapped ''marshal authz session''), r)
           | Some v \<Rightarrow>
               if fl ''store authz session'' then (Inl (Wrapped ''store authz session''), r)
               else (Inr handle, rset R r now (authzSessionKey H handle) (print_json v) AuthzSessionTTL)))"

definition GetSession ::
  "'r redis_ops \<Rightarrow> (string \<Rightarrow> string) \<Rightarrow> faults \<Rightarrow> time \<Rightarrow> string \<Rightarrow> 'r \<Rightarrow> AuthzSession result" where
  "GetSession R H fl now handle r =
     (if handle = [] then Inl ErrAuthzSessionNotFound
      else if fl ''load authz session'' then Inl (Wrapped ''load authz session'')
      else case rget R r now (authzSessionKey H handle) of
             None \<Rightarrow> Inl ErrAuthzSessionNotFound
           | Some raw \<Rightarrow> (case Option.bind (parse_json raw) authz_session_of_json of
                            None \<Rightarrow> Inl (Wrapped ''unmarshal authz session'')
                          | Some sess \<Rightarrow> Inr sess))"

definition DeleteSession :: "'r redis_ops \<Rightarrow> (string \<Rightarrow> string) \<Rightarrow> faults \<Rightarrow> time \<Rightarrow> string \<Rightarrow> 'r \<Rightarrow> 'r" where
  "DeleteSession R H fl now handle r =
     (if handle = [] \<or> fl ''delete authz session'' then r else rdel R r now (authzSessionKey H handle))"

subsection \<open>Reading back what was stored\<close>

definition request_ok :: "AuthzRequest \<Rightarrow> bool" where
  "request_ok q \<longleftrightarrow> int64_range (aq_TenantID q) \<and> int64_range (aq_AppRowID q) \<and> list_all ascii (aq_Scopes q) \<and> list_all ascii (aq_OTPMethods q)
     \<and> list_all ascii [aq_ClientID q, aq_RedirectURI q, aq_State q, aq_Nonce q, aq_CodeChallenge q, aq_Audience q, aq_AppName q,
                       aq_OTPSessionToken q, aq_Email q, aq_Organization q]"

definition sso_ok :: "AuthzSession \<Rightarrow> bool" where
  "sso_ok s \<longleftrightarrow> int64_range (az_UserID s) \<and> int64_range (az_TenantID s) \<and> ascii (az_Email s)
     \<and> 0 \<le> year_of (az_AuthTime s) \<and> year_of (az_AuthTime s) \<le> 9999"

lemma map_of_omit_str [simp]: "map_of (omit_str k v) k' = (if k' = k \<and> v \<noteq> [] then Some (JStr v) else None)"
  by (simp add: omit_str_def)

lemma authz_request_roundtrip: "authz_request_of_json (authz_request_json q) = Some q"
  by (cases q) (simp add: authz_request_of_json_def authz_request_json_def field_int_def field_str_def field_strs_def str_slice_def
      map_add_def omit_str_def)

lemma json_ok_request: "request_ok q \<Longrightarrow> json_ok (authz_request_json q)"
  by (auto simp: request_ok_def authz_request_json_def omit_str_def str_slice_def list_all_iff ascii_def)

lemma decode_request: "request_ok q \<Longrightarrow> Option.bind (parse_json (print_json (authz_request_json q))) authz_request_of_json = Some q"
  by (simp add: parse_json_print json_ok_request authz_request_roundtrip)

lemma ascii_simps [simp]:
  "ascii []" "ascii (c # cs) \<longleftrightarrow> (of_char c :: nat) < 128 \<and> ascii cs" "ascii (xs @ ys) \<longleftrightarrow> ascii xs \<and> ascii ys"
  by (simp_all add: ascii_def)

lemma ascii_digits: "\<forall>c \<in> set s. is_digit c \<Longrightarrow> ascii s"
  by (auto simp: ascii_def list_all_iff is_digit_def in_range_def)

lemma ascii_fixed_digits [simp]: "ascii (fixed_digits k n)"
  using ascii_digits fixed_digits_digit by blast

lemma ascii_trim_zeros: "ascii s \<Longrightarrow> ascii (trim_zeros s)"
  by (auto simp: ascii_def list_all_iff trim_zeros_def dest: set_dropWhileD)

lemma ascii_format_time:
  assumes "format_time t = Some s"
  shows "ascii s"
proof -
  have "ascii (fraction ns)" for ns
    using ascii_trim_zeros [OF ascii_fixed_digits [of 9 "nat ns"]] by (simp add: fraction_def)
  with assms show ?thesis by (auto simp: format_time_def Let_def split: prod.splits if_splits)
qed

lemma decode_session:
  assumes "authz_session_json s = Some v" "sso_ok s"
  shows "Option.bind (parse_json (print_json v)) authz_session_of_json = Some s"
proof -
  from assms(1) obtain t where t: "format_time (az_AuthTime s) = Some t"
    and v: "v = JObj [(''user_id'', JNum (az_UserID s)), (''tenant_id'', JNum (az_TenantID s)), (''email'', JStr (az_Email s)), (''auth_time'', JStr t)]"
    by (auto simp: authz_session_json_def)
  have "json_ok v" using assms(2) ascii_format_time [OF t] by (auto simp: v sso_ok_def ascii_def)
  then have "parse_json (print_json v) = Some v" by (rule parse_json_print)
  moreover have "authz_session_of_json v = Some s" using parse_format_time [OF t]
    by (cases s) (simp add: v authz_session_of_json_def field_int_def field_str_def field_time_def)
  ultimately show ?thesis by simp
qed

subsection \<open>The store over Redis\<close>

locale authz_store = redis_store R for R :: "'r redis_ops" +
  fixes H :: "string \<Rightarrow> string"
begin

lemma keys_differ:
  "authzRequestKey H a \<noteq> authzSessionKey H b" "authzSessionKey H b \<noteq> authzRequestKey H a"
  "authzNonceKey H t c n \<noteq> authzRequestKey H a" "authzRequestKey H a \<noteq> authzNonceKey H t c n"
  "authzNonceKey H t c n \<noteq> authzSessionKey H b" "authzSessionKey H b \<noteq> authzNonceKey H t c n"
  by (simp_all add: authzRequestKey_def authzSessionKey_def authzNonceKey_def)

lemma GetRequest_saved:
  assumes "SaveRequest R H fl t0 (Some h) q r = (Inr handle, r')" "request_ok q" "h \<noteq> []" "t0 \<le> t"
  shows "GetRequest R H no_faults t handle r' = (if t < t0 + authzRequestTTL then Inr q else Inl ErrAuthzRequestNotFound)"
  using assms by (auto simp: SaveRequest_def GetRequest_def get_set authzRequestTTL_def decode_request split: if_splits)

lemma GetSession_created:
  assumes "CreateSession R H fl t0 (Some h) s r = (Inr handle, r')" "sso_ok s" "h \<noteq> []" "t0 \<le> t"
  shows "GetSession R H no_faults t handle r' = (if t < t0 + AuthzSessionTTL then Inr s else Inl ErrAuthzSessionNotFound)"
  using assms decode_session [of s]
  by (auto simp: CreateSession_def GetSession_def get_set AuthzSessionTTL_def split: if_splits option.splits)

text \<open>An update keeps the deadline of a live request; of an expired one it makes a request that never expires.\<close>

lemma GetRequest_updated:
  assumes "UpdateRequest R H fl t0 handle q r = (Inr (), r')" "request_ok q" "handle \<noteq> []" "t0 \<le> t"
  shows "GetRequest R H no_faults t handle r' =
    (if rget R r t0 (authzRequestKey H handle) = None \<or> rget R r t (authzRequestKey H handle) \<noteq> None then Inr q
     else Inl ErrAuthzRequestNotFound)"
  using assms by (auto simp: UpdateRequest_def GetRequest_def get_setkeep decode_request split: if_splits option.splits)

lemma GetRequest_deleted:
  assumes "t0 \<le> t" "handle \<noteq> []"
  shows "GetRequest R H no_faults t handle (DeleteRequest R H no_faults t0 handle r) = Inl ErrAuthzRequestNotFound"
  using assms by (simp add: GetRequest_def DeleteRequest_def get_del)

lemma authzNonceTTL_pos: "0 < authzNonceTTL"
  by (simp add: authzNonceTTL_def IDTokenTTL_def AccessTokenTTL_def)

lemma nonce_burned:
  assumes "BurnNonce R H fl t0 tid cid n r = (Inr (), r')" "n \<noteq> []" "t0 \<le> t" "t < t0 + authzNonceTTL"
  shows "rget R r' t (authzNonceKey H tid cid n) \<noteq> None"
  using assms authzNonceTTL_pos by (auto simp: BurnNonce_def setnx get_set split: if_splits)

lemma nonce_held:
  assumes "n \<noteq> []" "rget R r t (authzNonceKey H tid cid n) \<noteq> None"
  shows "BurnNonce R H no_faults t tid cid n r = (Inl ErrNonceReplayed, r)"
  using assms authzNonceTTL_pos by (auto simp: BurnNonce_def setnx)

end

interpretation kauthz: authz_store keyspace_ops H for H
  by unfold_locales

end
