(* ===== verification/Organization.thy ===== *)
theory Organization
  imports Login "HOL-Library.Product_Lexorder" "HOL-Library.AList"
begin

text \<open>
  Organisations of an application (\<^verbatim>\<open>internal/auth/organization.go\<close>): their administration, their members and the
  roles members hold, the switch of an application between the three modes, the sessions a change ends
  (\<^verbatim>\<open>organization_mint.go\<close>), and the decision which organisation a new session belongs to. Users, roles and
  permissions are the rows of \<open>authority_db\<close>. The read-only listings with their search patterns are left out.
\<close>

definition OrganizationsModeOff :: string where "OrganizationsModeOff = ''off''"
definition OrganizationsModeOptional :: string where "OrganizationsModeOptional = ''optional''"
definition OrganizationsModeRequired :: string where "OrganizationsModeRequired = ''required''"
definition OrganizationMemberActive :: string where "OrganizationMemberActive = ''active''"
definition OrganizationMemberSuspended :: string where "OrganizationMemberSuspended = ''suspended''"
definition MaxOrganizationsPerApplication :: nat where "MaxOrganizationsPerApplication = 10000"
definition MaxMembersPerOrganization :: nat where "MaxMembersPerOrganization = 5000"
definition MaxOrganizationRolesPerMember :: nat where "MaxOrganizationRolesPerMember = 20"
definition maxOrganizationMetadataBytes :: nat where "maxOrganizationMetadataBytes = 4096"
definition maxOrganizationDisplayName :: nat where "maxOrganizationDisplayName = 200"
definition RevokeReasonOrganization :: string where "RevokeReasonOrganization = ''organization_access_changed''"

subsection \<open>Tables\<close>

record organization_row =
  o_id :: int
  o_public_id :: string
  o_tenant :: int
  o_app :: int
  o_slug :: string
  o_display_name :: string
  o_metadata :: json
  o_active :: bool
  o_created_by :: "int option"
  o_created_at :: time
  o_updated_at :: time
  o_deleted :: "time option"

record org_member =
  m_org :: int
  m_app :: int
  m_user :: int
  m_tenant :: int
  m_status :: string
  m_invited_by :: "int option"
  m_joined_at :: time

record org_member_role =
  mr_org :: int
  mr_user :: int
  mr_role :: int
  mr_app :: int
  mr_tenant :: int
  mr_granted_by :: "int option"
  mr_granted_at :: time

record org_invitation =
  iv_org :: int
  iv_accepted_at :: "time option"
  iv_revoked_at :: "time option"

text \<open>The columns of \<^verbatim>\<open>oauth_clients\<close> the service reads.\<close>

record org_app =
  oa_id :: int
  oa_tenant :: int
  oa_deleted :: "time option"
  oa_mode :: string

record org_db =
  organizations :: "organization_row list"
  org_members :: "org_member list"
  org_member_roles :: "org_member_role list"
  org_invitations :: "org_invitation list"
  org_apps :: "org_app list"
  next_org_id :: int

record OrganizationScope =
  sp_TenantID :: int
  sp_AppRowID :: int

record Organization =
  on_ID :: string
  on_Slug :: string
  on_DisplayName :: string
  on_Metadata :: json
  on_IsActive :: bool
  on_MemberCount :: nat
  on_CreatedAt :: time
  on_UpdatedAt :: time
  on_rowID :: int

record OrganizationRef =
  or_ID :: string
  or_Slug :: string
  or_DisplayName :: string
  or_rowID :: int

record OrganizationMember =
  om_UserID :: string
  om_Email :: string
  om_Status :: string
  om_Roles :: "string list"
  om_JoinedAt :: time

record MemberRolesResult =
  mx_UserID :: string
  mx_Roles :: "string list"
  mx_Assigned :: "string list"
  mx_Removed :: "string list"

record CreateOrganizationInput =
  ci_Slug :: string
  ci_DisplayName :: string
  ci_Metadata :: "(string \<times> json) list option"
  ci_CreatedBy :: "int option"

record UpdateOrganizationInput =
  ui_DisplayName :: "string option"
  ui_Metadata :: "(string \<times> json) list option"
  ui_IsActive :: "bool option"

text \<open>\<open>og_enabled\<close> is false for a nil service too; \<open>og_sessions\<close> says whether the session revoker is wired.\<close>

record 'r org_env =
  og_service :: "'r auth_env"
  og_enabled :: bool
  og_sessions :: bool
  og_authority :: authority_db

record 'r org_state =
  og_db :: org_db
  og_auth :: "'r auth_state"

subsection \<open>Identifiers and validation\<close>

definition base62Alphabet :: string where
  "base62Alphabet = ''ABCDEFGHIJKLMNOPQRSTUVWXYZabcdefghijklmnopqrstuvwxyz0123456789''"

text \<open>\<open>draws\<close> are the numbers below 62 the random source yields, \<open>None\<close> when it fails.\<close>

definition randomBase62 :: "nat list option \<Rightarrow> string result" where
  "randomBase62 draws =
     (case draws of None \<Rightarrow> Inl (Wrapped ''generate identifier'') | Some is \<Rightarrow> Inr (map (\<lambda>i. base62Alphabet ! i) is))"

definition newOrganizationPublicID :: "nat list option \<Rightarrow> string result" where
  "newOrganizationPublicID draws = (case randomBase62 draws of Inl e \<Rightarrow> Inl e | Inr r \<Rightarrow> Inr (''org_'' @ r))"

text \<open>\<^verbatim>\<open>^[a-z0-9]([a-z0-9-]{0,61}[a-z0-9])?$\<close> and \<^verbatim>\<open>^org_[A-Za-z0-9]{20}$\<close>\<close>

definition organizationSlugRe :: "string \<Rightarrow> bool" where
  "organizationSlugRe s \<longleftrightarrow> s \<noteq> [] \<and> length s \<le> 63 \<and> label_char (hd s) \<and> label_char (last s)
     \<and> list_all (\<lambda>c. label_char c \<or> c = CHR ''-'') s"

definition organizationPublicIDRe :: "string \<Rightarrow> bool" where
  "organizationPublicIDRe s \<longleftrightarrow> HasPrefix s ''org_'' \<and> length s = 24 \<and> list_all is_alnum (drop 4 s)"

definition NormalizeOrganizationSlug :: "string \<Rightarrow> string" where
  "NormalizeOrganizationSlug slug = ToLower (TrimSpace slug)"

definition validateOrganizationMetadata :: "(string \<times> json) list option \<Rightarrow> json result" where
  "validateOrganizationMetadata md =
     (case md of
        None \<Rightarrow> Inr (JObj [])
      | Some kvs \<Rightarrow> if maxOrganizationMetadataBytes < length (print_json (JObj kvs)) then Inl ErrInvalidOrganizationMetadata
                    else Inr (JObj kvs))"

definition validOrganizationsMode :: "string \<Rightarrow> bool" where
  "validOrganizationsMode mode \<longleftrightarrow> mode \<in> {OrganizationsModeOff, OrganizationsModeOptional, OrganizationsModeRequired}"

text \<open>The number of runes of valid UTF-8: the bytes that do not continue one.\<close>

definition rune_count :: "string \<Rightarrow> nat" where
  "rune_count s = length (filter (\<lambda>c. \<not> in_range 128 191 c) s)"

definition valid_name :: "string \<Rightarrow> bool" where
  "valid_name n \<longleftrightarrow> n \<noteq> [] \<and> rune_count n \<le> maxOrganizationDisplayName"

definition org_guard :: "'r org_env \<Rightarrow> unit result" where
  "org_guard E = (if og_enabled E then Inr () else Inl ErrOrganizationsDisabled)"

definition organizationRefArgs :: "string \<Rightarrow> bool \<times> string" where
  "organizationRefArgs ref =
     (let ref = TrimSpace ref in if organizationPublicIDRe ref then (True, ref) else (False, NormalizeOrganizationSlug ref))"

definition matches_ref :: "string \<Rightarrow> organization_row \<Rightarrow> bool" where
  "matches_ref ref o' = (case organizationRefArgs ref of (byID, v) \<Rightarrow> if byID then o_public_id o' = v else o_slug o' = v)"

fun normalise_loop :: "string list \<Rightarrow> string list \<Rightarrow> string list" where
  "normalise_loop seen [] = []"
| "normalise_loop seen (raw # rest) =
     (let n = TrimSpace raw in
      if n = [] \<or> n \<in> set seen then normalise_loop seen rest else n # normalise_loop (n # seen) rest)"

definition normaliseRoleNames :: "string list \<Rightarrow> string list" where
  "normaliseRoleNames names = normalise_loop [] names"

subsection \<open>Sessions a change ends\<close>

definition collectSessions :: "faults \<Rightarrow> (user_session \<Rightarrow> bool) \<Rightarrow> session_db \<Rightarrow> (int \<times> int \<times> int) list" where
  "collectSessions fl hit db =
     (if fl ''list sessions to revoke'' then []
      else map (\<lambda>s. (us_id s, us_user s, us_tenant s)) (filter (\<lambda>s. hit s \<and> us_revoked_at s = None) (sessions db)))"

fun revokeSessionRows ::
  "'r auth_env \<Rightarrow> faults \<Rightarrow> time \<Rightarrow> (int \<times> int \<times> int) list \<Rightarrow> 'r auth_state \<Rightarrow> int \<times> 'r auth_state" where
  "revokeSessionRows E fl now [] st = (0, st)"
| "revokeSessionRows E fl now ((sid, uid, tid) # rows) st =
     (case revokeSession E fl now uid tid sid RevokeReasonOrganization st of
        (x, st1) \<Rightarrow>
          (case revokeSessionRows E fl now rows st1 of
             (n, st2) \<Rightarrow> ((case x of Inl _ \<Rightarrow> n | Inr k \<Rightarrow> n + k), st2)))"

definition revokeOrganizationSessions ::
  "'r auth_env \<Rightarrow> faults \<Rightarrow> time \<Rightarrow> int \<Rightarrow> int option \<Rightarrow> 'r auth_state \<Rightarrow> int \<times> 'r auth_state" where
  "revokeOrganizationSessions E fl now orgRowID userID st =
     revokeSessionRows E fl now
       (collectSessions fl (\<lambda>s. us_org s = Some orgRowID \<and> (userID = None \<or> userID = Some (us_user s))) (st_db st)) st"

definition revokeApplicationSessionsByBinding ::
  "'r org_env \<Rightarrow> faults \<Rightarrow> time \<Rightarrow> int \<Rightarrow> bool \<Rightarrow> 'r auth_state \<Rightarrow> int \<times> 'r auth_state" where
  "revokeApplicationSessionsByBinding E fl now appRowID bound st =
     revokeSessionRows (og_service E) fl now
       (collectSessions fl
          (\<lambda>s. us_app s = Some appRowID
             \<and> (if bound then us_org s \<noteq> None
                else us_org s = None \<and> (\<exists>u \<in> set (users (og_authority E)). u_id u = us_user s \<and> u_application u = Some appRowID)))
          (st_db st)) st"

definition end_org_sessions :: "'r org_env \<Rightarrow> faults \<Rightarrow> time \<Rightarrow> int \<Rightarrow> int option \<Rightarrow> 'r org_state \<Rightarrow> 'r org_state" where
  "end_org_sessions E fl now org uid st =
     (if og_sessions E then st\<lparr>og_auth := snd (revokeOrganizationSessions (og_service E) fl now org uid (og_auth st))\<rparr> else st)"

definition deny_member :: "'r org_env \<Rightarrow> faults \<Rightarrow> time \<Rightarrow> int \<Rightarrow> int \<Rightarrow> 'r org_state \<Rightarrow> 'r org_state" where
  "deny_member E fl now userID tenantID st =
     (if og_sessions E then st\<lparr>og_auth := DenyUserSessions (og_service E) fl now userID tenantID (og_auth st)\<rparr> else st)"

subsection \<open>The mode of an application\<close>

definition ApplicationMode :: "'r org_env \<Rightarrow> faults \<Rightarrow> int \<Rightarrow> org_db \<Rightarrow> string result" where
  "ApplicationMode E fl appRowID db =
     (if \<not> og_enabled E \<or> appRowID = 0 then Inr OrganizationsModeOff
      else if fl ''read organizations mode'' then Inl (Wrapped ''read organizations mode'')
      else case find (\<lambda>a. oa_id a = appRowID \<and> oa_deleted a = None) (org_apps db) of
             None \<Rightarrow> Inr OrganizationsModeOff
           | Some a \<Rightarrow> Inr (oa_mode a))"

definition app_in_scope :: "OrganizationScope \<Rightarrow> org_app \<Rightarrow> bool" where
  "app_in_scope sc a \<longleftrightarrow> oa_id a = sp_AppRowID sc \<and> oa_tenant a = sp_TenantID sc \<and> oa_deleted a = None"

definition VerifyScope :: "'r org_env \<Rightarrow> faults \<Rightarrow> OrganizationScope \<Rightarrow> org_db \<Rightarrow> unit result" where
  "VerifyScope E fl sc db =
     (case org_guard E of
        Inl e \<Rightarrow> Inl e
      | Inr _ \<Rightarrow>
          if fl ''verify application scope'' then Inl (Wrapped ''verify application scope'')
          else if \<exists>a \<in> set (org_apps db). app_in_scope sc a then Inr () else Inl ErrOrganizationNotFound)"

text \<open>A user of the application who could not sign in once it requires an organisation.\<close>

definition without_membership :: "org_db \<Rightarrow> OrganizationScope \<Rightarrow> user_row \<Rightarrow> bool" where
  "without_membership db sc u \<longleftrightarrow> u_tenant u = sp_TenantID sc \<and> u_application u = Some (sp_AppRowID sc) \<and> u_deleted u = None \<and> u_active u
     \<and> \<not> (\<exists>m \<in> set (org_members db). \<exists>g \<in> set (organizations db). o_id g = m_org m \<and> m_user m = u_id u
            \<and> m_status m = OrganizationMemberActive \<and> o_active g \<and> o_deleted g = None)"

definition SetApplicationMode ::
  "'r org_env \<Rightarrow> faults \<Rightarrow> time \<Rightarrow> OrganizationScope \<Rightarrow> string \<Rightarrow> bool \<Rightarrow> 'r org_state \<Rightarrow> string result \<times> 'r org_state" where
  "SetApplicationMode E fl now sc mode force st =
     (case VerifyScope E fl sc (og_db st) of
        Inl e \<Rightarrow> (Inl e, st)
      | Inr _ \<Rightarrow>
          if \<not> validOrganizationsMode mode then (Inl ErrInvalidOrganizationsMode, st)
          else
            let check = (mode = OrganizationsModeRequired \<and> \<not> force);
                missing = length (filter (without_membership (og_db st) sc) (users (og_authority E)))
            in if check \<and> fl ''count users without organization'' then (Inl (Wrapped ''count users without organization''), st)
               else if check \<and> 0 < missing then (Inl (OrganizationsModeUnmetError (int missing)), st)
               else if fl ''begin update organizations mode'' then (Inl (Wrapped ''begin update organizations mode''), st)
               else (case find (app_in_scope sc) (org_apps (og_db st)) of
                 None \<Rightarrow> (Inl ErrOrganizationNotFound, st)
               | Some a \<Rightarrow>
                   if fl ''read organizations mode'' then (Inl (Wrapped ''read organizations mode''), st)
                   else if fl ''update organizations mode'' then (Inl (Wrapped ''update organizations mode''), st)
                   else if fl ''commit organizations mode'' then (Inl (Wrapped ''commit organizations mode''), st)
                   else
                     let st1 = st\<lparr>og_db := (og_db st)\<lparr>org_apps := update_where
                           (\<lambda>a. oa_id a = sp_AppRowID sc \<and> oa_tenant a = sp_TenantID sc) (\<lambda>a. a\<lparr>oa_mode := mode\<rparr>) (org_apps (og_db st))\<rparr>\<rparr>
                     in (Inr (oa_mode a),
                         if og_sessions E \<and> oa_mode a \<noteq> mode \<and> mode \<noteq> OrganizationsModeOptional
                         then st1\<lparr>og_auth := snd (revokeApplicationSessionsByBinding E fl now (sp_AppRowID sc)
                                (mode = OrganizationsModeOff) (og_auth st1))\<rparr>
                         else st1)))"

subsection \<open>Organisations\<close>

definition scanOrganization :: "org_db \<Rightarrow> organization_row \<Rightarrow> Organization" where
  "scanOrganization db o' =
     \<lparr>on_ID = o_public_id o', on_Slug = o_slug o', on_DisplayName = o_display_name o', on_Metadata = o_metadata o',
      on_IsActive = o_active o', on_MemberCount = length (filter (\<lambda>m. m_org m = o_id o') (org_members db)),
      on_CreatedAt = o_created_at o', on_UpdatedAt = o_updated_at o', on_rowID = o_id o'\<rparr>"

definition org_in_scope :: "OrganizationScope \<Rightarrow> organization_row \<Rightarrow> bool" where
  "org_in_scope sc o' \<longleftrightarrow> o_tenant o' = sp_TenantID sc \<and> o_app o' = sp_AppRowID sc \<and> o_deleted o' = None"

text \<open>\<open>label\<close> names the call: the first read of an operation or the one after its commit.\<close>

definition getOrganization :: "string \<Rightarrow> faults \<Rightarrow> OrganizationScope \<Rightarrow> string \<Rightarrow> org_db \<Rightarrow> Organization result" where
  "getOrganization label fl sc ref db =
     (if snd (organizationRefArgs ref) = [] then Inl ErrOrganizationNotFound
      else if fl label then Inl (Wrapped ''load organization'')
      else case find (\<lambda>o'. org_in_scope sc o' \<and> matches_ref ref o') (organizations db) of
             None \<Rightarrow> Inl ErrOrganizationNotFound
           | Some o' \<Rightarrow> Inr (scanOrganization db o'))"

definition GetOrganization :: "'r org_env \<Rightarrow> faults \<Rightarrow> OrganizationScope \<Rightarrow> string \<Rightarrow> org_db \<Rightarrow> Organization result" where
  "GetOrganization E fl sc ref db =
     (case org_guard E of Inl e \<Rightarrow> Inl e | Inr _ \<Rightarrow> getOrganization ''load organization'' fl sc ref db)"

text \<open>The insert under the unique indexes on the public identifier and on the live slugs of an application.\<close>

definition insert_organization :: "organization_row \<Rightarrow> org_db \<Rightarrow> org_db option" where
  "insert_organization row db =
     (if \<exists>o' \<in> set (organizations db). o_public_id o' = o_public_id row
           \<or> (o_app o' = o_app row \<and> o_slug o' = o_slug row \<and> o_deleted o' = None) then None
      else Some (db\<lparr>organizations := organizations db @ [row\<lparr>o_id := next_org_id db\<rparr>], next_org_id := next_org_id db + 1\<rparr>))"

definition CreateOrganization ::
  "'r org_env \<Rightarrow> faults \<Rightarrow> time \<Rightarrow> nat list option \<Rightarrow> OrganizationScope \<Rightarrow> CreateOrganizationInput \<Rightarrow> 'r org_state \<Rightarrow>
   Organization result \<times> 'r org_state" where
  "CreateOrganization E fl now draws sc i st =
     (let slug = NormalizeOrganizationSlug (ci_Slug i); name = TrimSpace (ci_DisplayName i); db = og_db st in
      case org_guard E of
        Inl e \<Rightarrow> (Inl e, st)
      | Inr _ \<Rightarrow>
          if \<not> organizationSlugRe slug then (Inl ErrInvalidOrganizationSlug, st)
          else if \<not> valid_name name then (Inl ErrInvalidOrganizationName, st)
          else (case validateOrganizationMetadata (ci_Metadata i) of
            Inl e \<Rightarrow> (Inl e, st)
          | Inr md \<Rightarrow>
              (case newOrganizationPublicID draws of
                 Inl e \<Rightarrow> (Inl e, st)
               | Inr publicID \<Rightarrow>
                   if fl ''begin create organization'' then (Inl (Wrapped ''begin create organization''), st)
                   else if fl ''lock organization count'' then (Inl (Wrapped ''lock organization count''), st)
                   else if fl ''count organizations'' then (Inl (Wrapped ''count organizations''), st)
                   else if MaxOrganizationsPerApplication \<le> length (filter (org_in_scope sc) (organizations db))
                   then (Inl ErrOrganizationLimitReached, st)
                   else if fl ''insert organization'' then (Inl (Wrapped ''insert organization''), st)
                   else if \<not> (\<exists>a \<in> set (org_apps db). app_in_scope sc a) then (Inl ErrOrganizationNotFound, st)
                   else
                     let row = \<lparr>o_id = next_org_id db, o_public_id = publicID, o_tenant = sp_TenantID sc, o_app = sp_AppRowID sc,
                                o_slug = slug, o_display_name = name, o_metadata = md, o_active = True, o_created_by = ci_CreatedBy i,
                                o_created_at = now, o_updated_at = now, o_deleted = None\<rparr>
                     in (case insert_organization row db of
                           None \<Rightarrow> (Inl ErrOrganizationSlugTaken, st)
                         | Some db' \<Rightarrow>
                             if fl ''commit create organization'' then (Inl (Wrapped ''commit create organization''), st)
                             else (Inr ((scanOrganization db row)\<lparr>on_MemberCount := 0\<rparr>), st\<lparr>og_db := db'\<rparr>)))))"

text \<open>The name and the metadata an update carries.\<close>

definition update_name :: "string option \<Rightarrow> string option result" where
  "update_name n =
     (case n of
        None \<Rightarrow> Inr None
      | Some s \<Rightarrow> if valid_name (TrimSpace s) then Inr (Some (TrimSpace s)) else Inl ErrInvalidOrganizationName)"

definition update_metadata :: "(string \<times> json) list option \<Rightarrow> json option result" where
  "update_metadata md =
     (case md of
        None \<Rightarrow> Inr None
      | Some _ \<Rightarrow> (case validateOrganizationMetadata md of Inl e \<Rightarrow> Inl e | Inr j \<Rightarrow> Inr (Some j)))"

definition set_organization :: "int \<Rightarrow> (organization_row \<Rightarrow> organization_row) \<Rightarrow> org_db \<Rightarrow> org_db" where
  "set_organization i f db = db\<lparr>organizations := update_where (\<lambda>o'. o_id o' = i) f (organizations db)\<rparr>"

definition UpdateOrganization ::
  "'r org_env \<Rightarrow> faults \<Rightarrow> time \<Rightarrow> OrganizationScope \<Rightarrow> string \<Rightarrow> UpdateOrganizationInput \<Rightarrow> 'r org_state \<Rightarrow>
   Organization result \<times> 'r org_state" where
  "UpdateOrganization E fl now sc ref i st =
     (case org_guard E of
        Inl e \<Rightarrow> (Inl e, st)
      | Inr _ \<Rightarrow>
          (case update_name (ui_DisplayName i) of
             Inl e \<Rightarrow> (Inl e, st)
           | Inr name \<Rightarrow>
               (case update_metadata (ui_Metadata i) of
                  Inl e \<Rightarrow> (Inl e, st)
                | Inr md \<Rightarrow>
                    if fl ''begin update organization'' then (Inl (Wrapped ''begin update organization''), st)
                    else (case getOrganization ''load organization'' fl sc ref (og_db st) of
                      Inl e \<Rightarrow> (Inl e, st)
                    | Inr cur \<Rightarrow>
                        if fl ''update organization'' then (Inl (Wrapped ''update organization''), st)
                        else if fl ''commit update organization'' then (Inl (Wrapped ''commit update organization''), st)
                        else
                          let st1 = st\<lparr>og_db := set_organization (on_rowID cur)
                                (\<lambda>o'. o'\<lparr>o_display_name := coalesce name (o_display_name o'), o_metadata := coalesce md (o_metadata o'),
                                         o_active := coalesce (ui_IsActive i) (o_active o'), o_updated_at := now\<rparr>) (og_db st)\<rparr>;
                              st2 = (if ui_IsActive i = Some False \<and> on_IsActive cur
                                     then end_org_sessions E fl now (on_rowID cur) None st1 else st1)
                          in (getOrganization ''reload organization'' fl sc (on_ID cur) (og_db st2), st2)))))"

definition DeleteOrganization ::
  "'r org_env \<Rightarrow> faults \<Rightarrow> time \<Rightarrow> OrganizationScope \<Rightarrow> string \<Rightarrow> 'r org_state \<Rightarrow> Organization result \<times> 'r org_state" where
  "DeleteOrganization E fl now sc ref st =
     (case org_guard E of
        Inl e \<Rightarrow> (Inl e, st)
      | Inr _ \<Rightarrow>
          if fl ''begin delete organization'' then (Inl (Wrapped ''begin delete organization''), st)
          else (case getOrganization ''load organization'' fl sc ref (og_db st) of
            Inl e \<Rightarrow> (Inl e, st)
          | Inr cur \<Rightarrow>
              if fl ''delete organization'' then (Inl (Wrapped ''delete organization''), st)
              else if fl ''close organization invitations'' then (Inl (Wrapped ''close organization invitations''), st)
              else if fl ''commit delete organization'' then (Inl (Wrapped ''commit delete organization''), st)
              else
                let db1 = set_organization (on_rowID cur) (\<lambda>o'. o'\<lparr>o_deleted := Some now, o_active := False, o_updated_at := now\<rparr>) (og_db st);
                    db2 = db1\<lparr>org_invitations := update_where
                            (\<lambda>v. iv_org v = on_rowID cur \<and> iv_accepted_at v = None \<and> iv_revoked_at v = None)
                            (\<lambda>v. v\<lparr>iv_revoked_at := Some now\<rparr>) (org_invitations db1)\<rparr>
                in (Inr (cur\<lparr>on_IsActive := False\<rparr>), end_org_sessions E fl now (on_rowID cur) None (st\<lparr>og_db := db2\<rparr>))))"

subsection \<open>Members\<close>

definition requireApplicationUser :: "'r org_env \<Rightarrow> faults \<Rightarrow> OrganizationScope \<Rightarrow> int \<Rightarrow> unit result" where
  "requireApplicationUser E fl sc userID =
     (if fl ''verify application user'' then Inl (Wrapped ''verify application user'')
      else if \<exists>u \<in> set (users (og_authority E)). u_id u = userID \<and> u_tenant u = sp_TenantID sc
                \<and> u_application u = Some (sp_AppRowID sc) \<and> u_deleted u = None
      then Inr () else Inl ErrUserNotInApplication)"

text \<open>The answer says whether a membership was created.\<close>

definition addMemberTx ::
  "'r org_env \<Rightarrow> faults \<Rightarrow> time \<Rightarrow> OrganizationScope \<Rightarrow> int \<Rightarrow> int \<Rightarrow> int option \<Rightarrow> org_db \<Rightarrow> (bool \<times> org_db) result" where
  "addMemberTx E fl now sc orgRowID userID invitedBy db =
     (case requireApplicationUser E fl sc userID of
        Inl e \<Rightarrow> Inl e
      | Inr _ \<Rightarrow>
          if fl ''count members'' then Inl (Wrapped ''count members'')
          else if \<exists>m \<in> set (org_members db). m_org m = orgRowID \<and> m_user m = userID then Inr (False, db)
          else if MaxMembersPerOrganization \<le> length (filter (\<lambda>m. m_org m = orgRowID) (org_members db))
          then Inl ErrOrganizationMemberLimitReached
          else if fl ''insert member'' then Inl (Wrapped ''insert member'')
          else Inr (True, db\<lparr>org_members := org_members db @
                 [\<lparr>m_org = orgRowID, m_app = sp_AppRowID sc, m_user = userID, m_tenant = sp_TenantID sc,
                   m_status = OrganizationMemberActive, m_invited_by = invitedBy, m_joined_at = now\<rparr>]\<rparr>))"

text \<open>The live roles a member holds, in the order they were granted.\<close>

definition member_role_rows :: "int \<Rightarrow> int \<Rightarrow> org_db \<Rightarrow> org_member_role list" where
  "member_role_rows org uid db = filter (\<lambda>mr. mr_org mr = org \<and> mr_user mr = uid) (org_member_roles db)"

definition role_of :: "authority_db \<Rightarrow> org_member_role \<Rightarrow> role_row option" where
  "role_of A mr = find (\<lambda>r. r_id r = mr_role mr) (roles A)"

definition member_roles :: "authority_db \<Rightarrow> int \<Rightarrow> int \<Rightarrow> org_db \<Rightarrow> string list" where
  "member_roles A org uid db =
     map snd (sort_key fst (List.map_filter
       (\<lambda>mr. case role_of A mr of
               Some r \<Rightarrow> if r_deleted r = None then Some ((mr_granted_at mr, r_id r), r_name r) else None
             | None \<Rightarrow> None) (member_role_rows org uid db)))"

definition getMember ::
  "'r org_env \<Rightarrow> string \<Rightarrow> faults \<Rightarrow> OrganizationScope \<Rightarrow> int \<Rightarrow> int \<Rightarrow> org_db \<Rightarrow> OrganizationMember result" where
  "getMember E label fl sc orgRowID userID db =
     (if fl label then Inl (Wrapped ''load member'')
      else case find (\<lambda>m. m_org m = orgRowID \<and> m_user m = userID \<and> m_tenant m = sp_TenantID sc \<and> m_app m = sp_AppRowID sc)
                 (org_members db) of
             None \<Rightarrow> Inl ErrOrganizationMemberNotFound
           | Some m \<Rightarrow>
               (case find (\<lambda>u. u_id u = userID) (users (og_authority E)) of
                  None \<Rightarrow> Inl ErrOrganizationMemberNotFound
                | Some u \<Rightarrow> Inr \<lparr>om_UserID = FormatInt userID, om_Email = u_email u, om_Status = m_status m,
                                 om_Roles = member_roles (og_authority E) orgRowID userID db, om_JoinedAt = m_joined_at m\<rparr>))"

definition GetMember ::
  "'r org_env \<Rightarrow> faults \<Rightarrow> OrganizationScope \<Rightarrow> string \<Rightarrow> int \<Rightarrow> org_db \<Rightarrow> OrganizationMember result" where
  "GetMember E fl sc ref userID db =
     (case GetOrganization E fl sc ref db of
        Inl e \<Rightarrow> Inl e
      | Inr org \<Rightarrow> getMember E ''load member'' fl sc (on_rowID org) userID db)"

text \<open>The names that are live, non-system roles of the application, with their ids.\<close>

definition app_role :: "OrganizationScope \<Rightarrow> string \<Rightarrow> role_row \<Rightarrow> bool" where
  "app_role sc n r \<longleftrightarrow> r_tenant r = sp_TenantID sc \<and> r_application r = Some (sp_AppRowID sc) \<and> r_name r = n
     \<and> \<not> r_system r \<and> r_deleted r = None"

definition resolveApplicationRoles ::
  "'r org_env \<Rightarrow> faults \<Rightarrow> OrganizationScope \<Rightarrow> string list \<Rightarrow> (string \<Rightarrow> int option) result" where
  "resolveApplicationRoles E fl sc names =
     (if names = [] then Inr Map.empty
      else if fl ''resolve roles'' then Inl (Wrapped ''resolve roles'')
      else
        let ids = (\<lambda>n. if n \<in> set names then map_option r_id (find (app_role sc n) (rev (roles (og_authority E)))) else None)
        in if \<exists>n \<in> set names. ids n = None then Inl ErrRoleNotInApplication else Inr ids)"

text \<open>
  The roles held, by name; of two rows with one name the later one stays, as in a Go map. What a replacement
  removes is listed in the order it was held.
\<close>

definition held_roles :: "authority_db \<Rightarrow> int \<Rightarrow> int \<Rightarrow> org_db \<Rightarrow> (string \<times> int) list" where
  "held_roles A org uid db =
     fold (\<lambda>(n, i) m. AList.update n i m)
       (List.map_filter (\<lambda>mr. map_option (\<lambda>r. (r_name r, r_id r)) (role_of A mr)) (member_role_rows org uid db)) []"

definition assignRolesTx ::
  "'r org_env \<Rightarrow> faults \<Rightarrow> time \<Rightarrow> OrganizationScope \<Rightarrow> int \<Rightarrow> int \<Rightarrow> string list \<Rightarrow> bool \<Rightarrow> int option \<Rightarrow> org_db \<Rightarrow>
   ((string list \<times> string list) \<times> org_db) result" where
  "assignRolesTx E fl now sc orgRowID userID requested replace grantedBy db =
     (let names = normaliseRoleNames requested in
      case resolveApplicationRoles E fl sc names of
        Inl e \<Rightarrow> Inl e
      | Inr ids \<Rightarrow>
          if fl ''verify member'' then Inl (Wrapped ''verify member'')
          else if \<not> (\<exists>m \<in> set (org_members db). m_org m = orgRowID \<and> m_user m = userID \<and> m_app m = sp_AppRowID sc)
          then Inl ErrOrganizationMemberNotFound
          else if fl ''load member roles'' then Inl (Wrapped ''load member roles'')
          else
            let held = held_roles (og_authority E) orgRowID userID db;
                dropped = (if replace then filter (\<lambda>(n, i). n \<notin> set names) held else []);
                kept = (if replace then filter (\<lambda>(n, i). n \<in> set names) held else held);
                assigned = filter (\<lambda>n. n \<notin> set (map fst kept)) names
            in if dropped \<noteq> [] \<and> fl ''remove member roles'' then Inl (Wrapped ''remove member roles'')
               else if MaxOrganizationRolesPerMember < length kept + length assigned then Inl ErrOrganizationRoleLimitReached
               else if assigned \<noteq> [] \<and> fl ''grant member role'' then Inl (Wrapped ''grant member role'')
               else
                 let left = filter (\<lambda>mr. \<not> (mr_org mr = orgRowID \<and> mr_user mr = userID \<and> mr_role mr \<in> set (map snd dropped)))
                              (org_member_roles db);
                     fresh = map (\<lambda>n. \<lparr>mr_org = orgRowID, mr_user = userID, mr_role = the (ids n), mr_app = sp_AppRowID sc,
                                        mr_tenant = sp_TenantID sc, mr_granted_by = grantedBy, mr_granted_at = now\<rparr>)
                               (filter (\<lambda>n. \<not> (\<exists>mr \<in> set left. mr_org mr = orgRowID \<and> mr_user mr = userID \<and> Some (mr_role mr) = ids n))
                                  assigned)
                 in Inr ((assigned, map fst dropped), db\<lparr>org_member_roles := left @ fresh\<rparr>))"

definition AddMember ::
  "'r org_env \<Rightarrow> faults \<Rightarrow> time \<Rightarrow> OrganizationScope \<Rightarrow> string \<Rightarrow> int \<Rightarrow> string list \<Rightarrow> int option \<Rightarrow> 'r org_state \<Rightarrow>
   (OrganizationMember \<times> bool) result \<times> 'r org_state" where
  "AddMember E fl now sc ref userID requested invitedBy st =
     (case org_guard E of
        Inl e \<Rightarrow> (Inl e, st)
      | Inr _ \<Rightarrow>
          if fl ''begin add member'' then (Inl (Wrapped ''begin add member''), st)
          else (case getOrganization ''load organization'' fl sc ref (og_db st) of
            Inl e \<Rightarrow> (Inl e, st)
          | Inr org \<Rightarrow>
              (case addMemberTx E fl now sc (on_rowID org) userID invitedBy (og_db st) of
                 Inl e \<Rightarrow> (Inl e, st)
               | Inr (created, db1) \<Rightarrow>
                   (case (if normaliseRoleNames requested = [] then Inr db1
                          else case assignRolesTx E fl now sc (on_rowID org) userID requested False invitedBy db1 of
                                 Inl e \<Rightarrow> Inl e | Inr (_, db2) \<Rightarrow> Inr db2) of
                      Inl e \<Rightarrow> (Inl e, st)
                    | Inr db2 \<Rightarrow>
                        if fl ''commit add member'' then (Inl (Wrapped ''commit add member''), st)
                        else
                          let st1 = st\<lparr>og_db := db2\<rparr>;
                              st2 = (if \<not> created \<and> requested \<noteq> [] then deny_member E fl now userID (sp_TenantID sc) st1 else st1)
                          in ((case getMember E ''load member'' fl sc (on_rowID org) userID (og_db st2) of
                                 Inl e \<Rightarrow> Inl e | Inr m \<Rightarrow> Inr (m, created)), st2)))))"

definition is_member :: "int \<Rightarrow> int \<Rightarrow> org_member \<Rightarrow> bool" where
  "is_member org uid m \<longleftrightarrow> m_org m = org \<and> m_user m = uid"

definition SetMemberStatus ::
  "'r org_env \<Rightarrow> faults \<Rightarrow> time \<Rightarrow> OrganizationScope \<Rightarrow> string \<Rightarrow> int \<Rightarrow> string \<Rightarrow> 'r org_state \<Rightarrow>
   OrganizationMember result \<times> 'r org_state" where
  "SetMemberStatus E fl now sc ref userID status st =
     (case org_guard E of
        Inl e \<Rightarrow> (Inl e, st)
      | Inr _ \<Rightarrow>
          if status \<notin> {OrganizationMemberActive, OrganizationMemberSuspended} then (Inl ErrInvalidOrganizationMemberStatus, st)
          else (case getOrganization ''load organization'' fl sc ref (og_db st) of
            Inl e \<Rightarrow> (Inl e, st)
          | Inr org \<Rightarrow>
              if fl ''update member status'' then (Inl (Wrapped ''update member status''), st)
              else if \<not> (\<exists>m \<in> set (org_members (og_db st)). is_member (on_rowID org) userID m) then (Inl ErrOrganizationMemberNotFound, st)
              else
                let st1 = st\<lparr>og_db := (og_db st)\<lparr>org_members := update_where (is_member (on_rowID org) userID)
                      (\<lambda>m. m\<lparr>m_status := status\<rparr>) (org_members (og_db st))\<rparr>\<rparr>;
                    st2 = (if status = OrganizationMemberSuspended then end_org_sessions E fl now (on_rowID org) (Some userID) st1 else st1)
                in (getMember E ''load member'' fl sc (on_rowID org) userID (og_db st2), st2)))"

text \<open>Deleting a membership deletes the roles that hang off it.\<close>

definition delete_member :: "int \<Rightarrow> int \<Rightarrow> org_db \<Rightarrow> org_db" where
  "delete_member org uid db =
     db\<lparr>org_members := filter (\<lambda>m. \<not> is_member org uid m) (org_members db),
        org_member_roles := filter (\<lambda>mr. \<not> (mr_org mr = org \<and> mr_user mr = uid)) (org_member_roles db)\<rparr>"

definition RemoveMember ::
  "'r org_env \<Rightarrow> faults \<Rightarrow> time \<Rightarrow> OrganizationScope \<Rightarrow> string \<Rightarrow> int \<Rightarrow> 'r org_state \<Rightarrow> unit result \<times> 'r org_state" where
  "RemoveMember E fl now sc ref userID st =
     (case GetOrganization E fl sc ref (og_db st) of
        Inl e \<Rightarrow> (Inl e, st)
      | Inr org \<Rightarrow>
          if fl ''remove member'' then (Inl (Wrapped ''remove member''), st)
          else if \<not> (\<exists>m \<in> set (org_members (og_db st)). is_member (on_rowID org) userID m) then (Inl ErrOrganizationMemberNotFound, st)
          else (Inr (), end_org_sessions E fl now (on_rowID org) (Some userID) (st\<lparr>og_db := delete_member (on_rowID org) userID (og_db st)\<rparr>)))"

definition roles_result :: "OrganizationMember result \<Rightarrow> string list \<Rightarrow> string list \<Rightarrow> MemberRolesResult result" where
  "roles_result x assigned removed =
     (case x of
        Inl e \<Rightarrow> Inl e
      | Inr m \<Rightarrow> Inr \<lparr>mx_UserID = om_UserID m, mx_Roles = om_Roles m, mx_Assigned = assigned, mx_Removed = removed\<rparr>)"

definition AssignMemberRoles ::
  "'r org_env \<Rightarrow> faults \<Rightarrow> time \<Rightarrow> OrganizationScope \<Rightarrow> string \<Rightarrow> int \<Rightarrow> string list \<Rightarrow> bool \<Rightarrow> int option \<Rightarrow> 'r org_state \<Rightarrow>
   MemberRolesResult result \<times> 'r org_state" where
  "AssignMemberRoles E fl now sc ref userID requested replace grantedBy st =
     (case org_guard E of
        Inl e \<Rightarrow> (Inl e, st)
      | Inr _ \<Rightarrow>
          if normaliseRoleNames requested = [] \<and> \<not> replace then (Inl ErrNoRolesRequested, st)
          else if fl ''begin assign member roles'' then (Inl (Wrapped ''begin assign member roles''), st)
          else (case getOrganization ''load organization'' fl sc ref (og_db st) of
            Inl e \<Rightarrow> (Inl e, st)
          | Inr org \<Rightarrow>
              (case assignRolesTx E fl now sc (on_rowID org) userID requested replace grantedBy (og_db st) of
                 Inl e \<Rightarrow> (Inl e, st)
               | Inr ((assigned, removed), db) \<Rightarrow>
                   if fl ''commit assign member roles'' then (Inl (Wrapped ''commit assign member roles''), st)
                   else
                     let st1 = st\<lparr>og_db := db\<rparr>;
                         st2 = (if assigned \<noteq> [] \<or> removed \<noteq> [] then deny_member E fl now userID (sp_TenantID sc) st1 else st1)
                     in (roles_result (getMember E ''load member'' fl sc (on_rowID org) userID (og_db st2)) assigned removed, st2))))"

definition RemoveMemberRole ::
  "'r org_env \<Rightarrow> faults \<Rightarrow> time \<Rightarrow> OrganizationScope \<Rightarrow> string \<Rightarrow> int \<Rightarrow> string \<Rightarrow> 'r org_state \<Rightarrow>
   MemberRolesResult result \<times> 'r org_state" where
  "RemoveMemberRole E fl now sc ref userID roleName st =
     (case GetOrganization E fl sc ref (og_db st) of
        Inl e \<Rightarrow> (Inl e, st)
      | Inr org \<Rightarrow>
          (case getMember E ''verify member'' fl sc (on_rowID org) userID (og_db st) of
             Inl e \<Rightarrow> (Inl e, st)
           | Inr _ \<Rightarrow>
               if fl ''remove member role'' then (Inl (Wrapped ''remove member role''), st)
               else
                 let hit = (\<lambda>mr. mr_org mr = on_rowID org \<and> mr_user mr = userID
                              \<and> (case role_of (og_authority E) mr of None \<Rightarrow> False | Some r \<Rightarrow> r_name r = TrimSpace roleName));
                     any = (\<exists>mr \<in> set (org_member_roles (og_db st)). hit mr);
                     st1 = st\<lparr>og_db := (og_db st)\<lparr>org_member_roles := filter (\<lambda>mr. \<not> hit mr) (org_member_roles (og_db st))\<rparr>\<rparr>;
                     st2 = (if any then deny_member E fl now userID (sp_TenantID sc) st1 else st1)
                 in (roles_result (getMember E ''load member'' fl sc (on_rowID org) userID (og_db st2)) []
                       (if any then [TrimSpace roleName] else []), st2)))"

subsection \<open>The organisation of a new session\<close>

definition resolveOrganizationRowID :: "faults \<Rightarrow> int \<Rightarrow> string \<Rightarrow> org_db \<Rightarrow> int result" where
  "resolveOrganizationRowID fl appRowID ref db =
     (if snd (organizationRefArgs ref) = [] then Inl ErrOrganizationAccessDenied
      else if fl ''resolve organization'' then Inl ErrOrganizationUnavailable
      else case find (\<lambda>o'. o_app o' = appRowID \<and> o_deleted o' = None \<and> o_active o' \<and> matches_ref ref o') (organizations db) of
             None \<Rightarrow> Inl ErrOrganizationAccessDenied
           | Some o' \<Rightarrow> Inr (o_id o'))"

text \<open>An active member of a live organisation of the application: what every sign-in to it depends on.\<close>

definition may_sign_in :: "org_db \<Rightarrow> int \<Rightarrow> int \<Rightarrow> organization_row \<Rightarrow> bool" where
  "may_sign_in db userID appRowID o' \<longleftrightarrow> o_app o' = appRowID \<and> o_deleted o' = None \<and> o_active o'
     \<and> (\<exists>m \<in> set (org_members db). m_org m = o_id o' \<and> m_user m = userID \<and> m_status m = OrganizationMemberActive)"

definition org_permission_names :: "authority_db \<Rightarrow> int \<Rightarrow> int \<Rightarrow> org_db \<Rightarrow> string list" where
  "org_permission_names A org uid db =
     names_sorted (map p_name (concat (map
       (\<lambda>mr. case role_of A mr of
               Some r \<Rightarrow> if r_deleted r = None then filter (\<lambda>p. p_deleted p = None) (perms_of_role A (r_id r)) else []
             | None \<Rightarrow> []) (member_role_rows org uid db))))"

definition loadMintOrganization ::
  "'r org_env \<Rightarrow> faults \<Rightarrow> int \<Rightarrow> int \<Rightarrow> int \<Rightarrow> org_db \<Rightarrow> mintOrganization result" where
  "loadMintOrganization E fl orgRowID userID appRowID db =
     (if fl ''load organization'' then Inl ErrOrganizationUnavailable
      else case find (\<lambda>o'. o_id o' = orgRowID \<and> may_sign_in db userID appRowID o') (organizations db) of
             None \<Rightarrow> Inl ErrOrganizationAccessDenied
           | Some o' \<Rightarrow>
               if fl ''load organization roles'' \<or> fl ''load organization permissions'' then Inl ErrOrganizationUnavailable
               else Inr \<lparr>mo_rowID = orgRowID, mo_publicID = o_public_id o', mo_slug = o_slug o',
                         mo_roles = member_roles (og_authority E) orgRowID userID db,
                         mo_permissions = org_permission_names (og_authority E) orgRowID userID db\<rparr>)"

definition lockMintMembership :: "faults \<Rightarrow> int \<Rightarrow> int \<Rightarrow> int \<Rightarrow> org_db \<Rightarrow> goerror option" where
  "lockMintMembership fl orgRowID userID appRowID db =
     (if fl ''lock organization membership'' then Some ErrOrganizationUnavailable
      else if \<exists>o' \<in> set (organizations db). o_id o' = orgRowID \<and> may_sign_in db userID appRowID o' then None
      else Some ErrOrganizationAccessDenied)"

definition org_ref :: "organization_row \<Rightarrow> OrganizationRef" where
  "org_ref o' = \<lparr>or_ID = o_public_id o', or_Slug = o_slug o', or_DisplayName = o_display_name o', or_rowID = o_id o'\<rparr>"

definition activeMembershipRefs :: "faults \<Rightarrow> int \<Rightarrow> int \<Rightarrow> org_db \<Rightarrow> OrganizationRef list result" where
  "activeMembershipRefs fl userID appRowID db =
     (if fl ''list memberships'' then Inl ErrOrganizationUnavailable
      else Inr (map org_ref (sort_key (\<lambda>o'. (o_display_name o', o_id o'))
             (filter (\<lambda>o'. o_deleted o' = None \<and> o_active o'
                \<and> (\<exists>m \<in> set (org_members db). m_org m = o_id o' \<and> m_user m = userID \<and> m_app m = appRowID
                     \<and> m_status m = OrganizationMemberActive)) (organizations db)))))"

definition userApplicationID :: "'r org_env \<Rightarrow> faults \<Rightarrow> int \<Rightarrow> int option result" where
  "userApplicationID E fl userID =
     (if fl ''load user application'' then Inl ErrOrganizationUnavailable
      else case find (\<lambda>u. u_id u = userID) (users (og_authority E)) of
             None \<Rightarrow> Inl ErrOrganizationAccessDenied | Some u \<Rightarrow> Inr (u_application u))"

record OrganizationDecision =
  od_OrgRowID :: "int option"
  od_Choices :: "OrganizationRef list"
  od_applies :: bool

definition DecideOrganization ::
  "'r org_env \<Rightarrow> faults \<Rightarrow> int \<Rightarrow> int \<Rightarrow> string \<Rightarrow> bool \<Rightarrow> org_db \<Rightarrow> OrganizationDecision result" where
  "DecideOrganization E fl userID appRowID requested personal db =
     (let none = (\<lambda>applies. \<lparr>od_OrgRowID = None, od_Choices = [], od_applies = applies\<rparr>);
          bound = (\<lambda>i. \<lparr>od_OrgRowID = Some i, od_Choices = [], od_applies = True\<rparr>);
          requested = TrimSpace requested in
      case ApplicationMode E fl appRowID db of
        Inl _ \<Rightarrow> Inl ErrOrganizationUnavailable
      | Inr mode \<Rightarrow>
          if mode = OrganizationsModeOff then Inr (none False)
          else (case userApplicationID E fl userID of
            Inl e \<Rightarrow> Inl e
          | Inr userApp \<Rightarrow>
              if userApp \<noteq> Some appRowID then Inr (none False)
              else if requested \<noteq> [] then
                (case resolveOrganizationRowID fl appRowID requested db of
                   Inl e \<Rightarrow> Inl e
                 | Inr orgRowID \<Rightarrow>
                     (case loadMintOrganization E fl orgRowID userID appRowID db of Inl e \<Rightarrow> Inl e | Inr _ \<Rightarrow> Inr (bound orgRowID)))
              else if personal then (if mode = OrganizationsModeRequired then Inl ErrOrganizationAccessDenied else Inr (none True))
              else if mode = OrganizationsModeOptional then Inr (none True)
              else (case activeMembershipRefs fl userID appRowID db of
                Inl e \<Rightarrow> Inl e
              | Inr [] \<Rightarrow> Inl ErrOrganizationAccessDenied
              | Inr [r] \<Rightarrow> Inr (bound (or_rowID r))
              | Inr refs \<Rightarrow> Inr \<lparr>od_OrgRowID = None, od_Choices = refs, od_applies = True\<rparr>)))"

end
