(* ===== verification/HostedLogin.thy ===== *)
theory HostedLogin
  imports AuthzSession Organization
begin

text \<open>
  The authorization endpoint and the login pages behind it (\<^verbatim>\<open>internal/api/handlers/oauth_authorize.go\<close>). A request is
  its query, its form and its cookie; an answer is a page or a redirect, with the session cookie it sets. A redirect
  keeps the target and the parameters set on its query; error descriptions, page texts, metrics and audit records are
  left out. Whether \<^verbatim>\<open>url.Parse\<close> accepts a URI is a parameter.
\<close>

record 'r hosted_env =
  he_token :: "'r token_env"
  he_organizations :: bool
  he_audiences :: bool
  he_requireState :: bool
  he_parses :: "string \<Rightarrow> bool"

record 'r hosted_state =
  hs_token :: "'r token_state"
  hs_orgs :: org_db

record hosted_request =
  hq_client_id :: string
  hq_redirect_uri :: string
  hq_response_type :: string
  hq_scope :: string
  hq_state :: string
  hq_nonce :: string
  hq_code_challenge :: string
  hq_code_challenge_method :: string
  hq_audience :: string
  hq_resource :: string
  hq_organization :: string
  hq_cookie :: "string option"
  hq_request :: string
  hq_email :: string
  hq_password :: string
  hq_code :: string

text \<open>What one request draws: for the sign-in, for the parked request, for the session and for the code.\<close>

record hosted_random =
  hr_login :: login_random
  hr_handle :: "string option"
  hr_session :: "string option"
  hr_code :: "string option"

datatype page =
    LoginPage int string
  | MFAPage int string
  | OrganizationPage string "OrganizationRef list"
  | ErrorPage int
  | RedirectTo string "(string \<times> string) list"

record answer_page =
  an_page :: page
  an_cookie :: "string option"

definition plain :: "page \<Rightarrow> answer_page" where
  "plain p = \<lparr>an_page = p, an_cookie = None\<rparr>"

subsection \<open>Views of the state\<close>

abbreviation he_redis :: "'r hosted_env \<Rightarrow> 'r redis_ops" where
  "he_redis E \<equiv> fa_redis (le_mfa (te_login (he_token E)))"

abbreviation he_hash :: "'r hosted_env \<Rightarrow> string \<Rightarrow> string" where
  "he_hash E \<equiv> te_hash (he_token E)"

abbreviation hs_login :: "'r hosted_state \<Rightarrow> 'r login_state" where
  "hs_login st \<equiv> tk_login (hs_token st)"

abbreviation hs_codes :: "'r hosted_state \<Rightarrow> authz_code list" where
  "hs_codes st \<equiv> tk_codes (hs_token st)"

abbreviation hs_redis :: "'r hosted_state \<Rightarrow> 'r" where
  "hs_redis st \<equiv> as_redis (ls_account (hs_login st))"

definition put_hs_login :: "'r login_state \<Rightarrow> 'r hosted_state \<Rightarrow> 'r hosted_state" where
  "put_hs_login ls st = st\<lparr>hs_token := (hs_token st)\<lparr>tk_login := ls\<rparr>\<rparr>"

definition put_hs_redis :: "'r \<Rightarrow> 'r hosted_state \<Rightarrow> 'r hosted_state" where
  "put_hs_redis r st = put_hs_login ((hs_login st)\<lparr>ls_account := put_redis r (ls_account (hs_login st))\<rparr>) st"

definition put_hs_codes :: "authz_code list \<Rightarrow> 'r hosted_state \<Rightarrow> 'r hosted_state" where
  "put_hs_codes cs st = st\<lparr>hs_token := (hs_token st)\<lparr>tk_codes := cs\<rparr>\<rparr>"

definition hosted_orgs :: "'r hosted_env \<Rightarrow> 'r hosted_state \<Rightarrow> 'r org_env" where
  "hosted_orgs E st =
     \<lparr>og_service = fa_auth (le_mfa (te_login (he_token E))), og_enabled = he_organizations E, og_sessions = True,
      og_authority = current_authority (token_login (he_token E)) (hs_login st)\<rparr>"

subsection \<open>Answers\<close>

definition redirectError :: "'r hosted_env \<Rightarrow> string \<Rightarrow> string \<Rightarrow> string \<Rightarrow> page" where
  "redirectError E redirectURI state code =
     (if \<not> he_parses E redirectURI then ErrorPage 400
      else RedirectTo redirectURI ((''error'', code) # (if state = [] then [] else [(''state'', state)])))"

definition renderEnrollmentDeadEnd :: page where "renderEnrollmentDeadEnd = ErrorPage 403"

definition delete_request :: "'r hosted_env \<Rightarrow> faults \<Rightarrow> time \<Rightarrow> string \<Rightarrow> 'r hosted_state \<Rightarrow> 'r hosted_state" where
  "delete_request E fl now handle st =
     (if handle = [] then st else put_hs_redis (DeleteRequest (he_redis E) (he_hash E) fl now handle (hs_redis st)) st)"

definition currentSession :: "'r hosted_env \<Rightarrow> faults \<Rightarrow> time \<Rightarrow> string option \<Rightarrow> 'r hosted_state \<Rightarrow> AuthzSession option" where
  "currentSession E fl now cookie st =
     (case cookie of
        None \<Rightarrow> None
      | Some v \<Rightarrow> if v = [] then None
                  else (case GetSession (he_redis E) (he_hash E) fl now v (hs_redis st) of Inl _ \<Rightarrow> None | Inr sess \<Rightarrow> Some sess))"

text \<open>\<open>Inl\<close> is the answer already given, \<open>Inr\<close> the organisation of the code.\<close>

definition resolveOrganization ::
  "'r hosted_env \<Rightarrow> faults \<Rightarrow> time \<Rightarrow> hosted_random \<Rightarrow> string \<Rightarrow> AuthzRequest \<Rightarrow> AuthzSession \<Rightarrow> 'r hosted_state \<Rightarrow>
   (page + int option) \<times> 'r hosted_state" where
  "resolveOrganization E fl now rnd handle req sess st =
     (case DecideOrganization (hosted_orgs E st) fl (az_UserID sess) (aq_AppRowID req) (aq_Organization req) False (hs_orgs st) of
        Inl e \<Rightarrow>
          (Inl (redirectError E (aq_RedirectURI req) (aq_State req)
                  (if e = ErrOrganizationAccessDenied then ''access_denied'' else ''server_error'')), delete_request E fl now handle st)
      | Inr dec \<Rightarrow>
          if od_Choices dec = [] then (Inr (od_OrgRowID dec), st)
          else if handle \<noteq> [] then (Inl (OrganizationPage handle (od_Choices dec)), st)
          else (case SaveRequest (he_redis E) (he_hash E) fl now (hr_handle rnd) req (hs_redis st) of
                  (Inl e, r) \<Rightarrow> (Inl (redirectError E (aq_RedirectURI req) (aq_State req) ''server_error''), put_hs_redis r st)
                | (Inr h, r) \<Rightarrow> (Inl (OrganizationPage h (od_Choices dec)), put_hs_redis r st)))"

definition code_params :: "AuthzRequest \<Rightarrow> AuthzSession \<Rightarrow> int option \<Rightarrow> IssueAuthorizationCodeParams" where
  "code_params req sess orgID =
     \<lparr>ip_TenantID = aq_TenantID req, ip_ClientID = aq_ClientID req, ip_UserID = az_UserID sess, ip_RedirectURI = aq_RedirectURI req,
      ip_Scopes = aq_Scopes req, ip_CodeChallenge = aq_CodeChallenge req, ip_Nonce = aq_Nonce req,
      ip_AuthTime = (if az_AuthTime sess = zero_time then None else Some (az_AuthTime sess)), ip_Audience = aq_Audience req,
      ip_OrganizationID = orgID\<rparr>"

definition issueCodeAndRedirect ::
  "'r hosted_env \<Rightarrow> faults \<Rightarrow> time \<Rightarrow> hosted_random \<Rightarrow> string \<Rightarrow> AuthzRequest \<Rightarrow> AuthzSession \<Rightarrow> 'r hosted_state \<Rightarrow>
   page \<times> 'r hosted_state" where
  "issueCodeAndRedirect E fl now rnd handle req sess st =
     (case resolveOrganization E fl now rnd handle req sess st of
        (Inl p, st1) \<Rightarrow> (p, st1)
      | (Inr orgID, st1) \<Rightarrow>
          (case BurnNonce (he_redis E) (he_hash E) fl now (aq_TenantID req) (aq_ClientID req) (aq_Nonce req) (hs_redis st1) of
             (Inl e, r) \<Rightarrow>
               (redirectError E (aq_RedirectURI req) (aq_State req) (if e = ErrNonceReplayed then ''invalid_request'' else ''server_error''),
                delete_request E fl now handle (put_hs_redis r st1))
           | (Inr _, r) \<Rightarrow>
               let st2 = put_hs_redis r st1 in
               (case IssueAuthorizationCode (he_hash E) fl now (hr_code rnd) (code_params req sess orgID) (hs_codes st2) of
                  (Inl e, cs) \<Rightarrow>
                    (redirectError E (aq_RedirectURI req) (aq_State req) ''server_error'',
                     put_hs_redis (ReleaseNonce (he_redis E) (he_hash E) fl now (aq_TenantID req) (aq_ClientID req) (aq_Nonce req)
                       (hs_redis st2)) (put_hs_codes cs st2))
                | (Inr code, cs) \<Rightarrow>
                    let st3 = put_hs_codes cs st2 in
                    if \<not> he_parses E (aq_RedirectURI req) then (ErrorPage 500, st3)
                    else (RedirectTo (aq_RedirectURI req)
                            ((''code'', code) # (if aq_State req = [] then [] else [(''state'', aq_State req)])),
                          delete_request E fl now handle st3))))"

subsection \<open>The authorization request\<close>

text \<open>The checks of the proof key, and of the audience.\<close>

definition challenge_ok :: "AuthzClient \<Rightarrow> hosted_request \<Rightarrow> bool" where
  "challenge_ok client q \<longleftrightarrow>
     (ac_RequirePKCE client \<or> hq_code_challenge q \<noteq> []) \<longrightarrow>
       hq_code_challenge q \<noteq> [] \<and> hq_code_challenge_method q \<noteq> []
       \<and> ValidateCodeChallenge (hq_code_challenge q) (hq_code_challenge_method q) = Inr ()"

definition hosted_audience :: "hosted_request \<Rightarrow> string" where
  "hosted_audience q = (if hq_audience q = [] then hq_resource q else hq_audience q)"

definition audience_ok :: "'r hosted_env \<Rightarrow> faults \<Rightarrow> AuthzClient \<Rightarrow> hosted_request \<Rightarrow> bool" where
  "audience_ok E fl client q \<longleftrightarrow>
     hosted_audience q \<noteq> [] \<longrightarrow>
       he_audiences E
       \<and> (let M = le_mint (te_login (he_token E)) in
          \<not> isl (ResolveMintAudience (me_scheme M) fl \<lparr>ar_AppRowID = ac_RowID client, ar_Requested = hosted_audience q, ar_Pinned = []\<rparr>
                  (me_audience_db M)))"

definition authz_request :: "AuthzClient \<Rightarrow> string \<Rightarrow> string list \<Rightarrow> hosted_request \<Rightarrow> AuthzRequest" where
  "authz_request client redirectURI granted q =
     \<lparr>aq_ClientID = ac_ClientID client, aq_TenantID = ac_TenantID client, aq_AppRowID = ac_RowID client, aq_RedirectURI = redirectURI,
      aq_Scopes = granted, aq_State = hq_state q, aq_Nonce = hq_nonce q, aq_CodeChallenge = hq_code_challenge q,
      aq_Audience = hosted_audience q, aq_AppName = ac_Name client, aq_OTPSessionToken = [], aq_OTPMethods = [], aq_Email = [],
      aq_Organization = hq_organization q\<rparr>"

definition Authorize ::
  "'r hosted_env \<Rightarrow> faults \<Rightarrow> time \<Rightarrow> hosted_random \<Rightarrow> hosted_request \<Rightarrow> 'r hosted_state \<Rightarrow> page \<times> 'r hosted_state" where
  "Authorize E fl now rnd q st =
     (case LookupClient fl (hq_client_id q) (te_clients (he_token E)) of
        Inl e \<Rightarrow> (ErrorPage (if e = ErrClientNotFound then 400 else 500), st)
      | Inr client \<Rightarrow>
          (case ResolveRedirectURI client (hq_redirect_uri q) of
             Inl _ \<Rightarrow> (ErrorPage 400, st)
           | Inr redirectURI \<Rightarrow>
               let fail = (\<lambda>code. (redirectError E redirectURI (hq_state q) code, st));
                   granted = FilterScopes (ParseScopeParam (hq_scope q)) (ac_Scopes client);
                   req = authz_request client redirectURI granted q
               in if hq_state q = [] \<and> he_requireState E then fail ''invalid_request''
                  else if hq_response_type q \<noteq> ''code'' then fail ''unsupported_response_type''
                  else if \<not> AllowsGrant client ''authorization_code'' then fail ''unauthorized_client''
                  else if \<not> ac_FirstParty client then fail ''consent_required''
                  else if \<not> challenge_ok client q then fail ''invalid_request''
                  else if hq_scope q \<noteq> [] \<and> granted = [] then fail ''invalid_scope''
                  else if \<not> audience_ok E fl client q then fail ''invalid_target''
                  else (case currentSession E fl now (hq_cookie q) st of
                    Some sess \<Rightarrow>
                      if az_TenantID sess = ac_TenantID client then issueCodeAndRedirect E fl now rnd [] req sess st
                      else (case SaveRequest (he_redis E) (he_hash E) fl now (hr_handle rnd) req (hs_redis st) of
                              (Inl e, r) \<Rightarrow> (redirectError E redirectURI (hq_state q) ''server_error'', put_hs_redis r st)
                            | (Inr handle, r) \<Rightarrow> (LoginPage 200 handle, put_hs_redis r st))
                  | None \<Rightarrow>
                      (case SaveRequest (he_redis E) (he_hash E) fl now (hr_handle rnd) req (hs_redis st) of
                         (Inl e, r) \<Rightarrow> (redirectError E redirectURI (hq_state q) ''server_error'', put_hs_redis r st)
                       | (Inr handle, r) \<Rightarrow> (LoginPage 200 handle, put_hs_redis r st)))))"

subsection \<open>The pages\<close>

definition completeLogin ::
  "'r hosted_env \<Rightarrow> faults \<Rightarrow> time \<Rightarrow> hosted_random \<Rightarrow> string \<Rightarrow> AuthzRequest \<Rightarrow> 'r hosted_state \<Rightarrow> answer_page \<times> 'r hosted_state" where
  "completeLogin E fl now rnd handle req st =
     (let failed = redirectError E (aq_RedirectURI req) (aq_State req) ''server_error'' in
      case LookupUserForApp (token_login (he_token E)) fl (aq_TenantID req) (aq_AppRowID req) (aq_Email req) (hs_login st) of
        Inl _ \<Rightarrow> (plain failed, st)
      | Inr (userID, email) \<Rightarrow>
          let sess = \<lparr>az_UserID = userID, az_TenantID = aq_TenantID req, az_Email = email, az_AuthTime = now\<rparr> in
          (case CreateSession (he_redis E) (he_hash E) fl now (hr_session rnd) sess (hs_redis st) of
             (Inl _, r) \<Rightarrow> (plain failed, put_hs_redis r st)
           | (Inr sessHandle, r) \<Rightarrow>
               (case issueCodeAndRedirect E fl now rnd handle req sess (put_hs_redis r st) of
                  (p, st') \<Rightarrow> (\<lparr>an_page = p, an_cookie = Some sessHandle\<rparr>, st'))))"

definition hosted_input :: "AuthzRequest \<Rightarrow> hosted_request \<Rightarrow> LoginInput" where
  "hosted_input req q =
     \<lparr>li_ClientID = aq_ClientID req, li_ClientSecret = [], li_Email = hq_email q, li_Password = hq_password q, li_Persistent = False,
      li_Roles = [], li_VerifiedApp = Some (aq_TenantID req, aq_AppRowID req), li_Organization = []\<rparr>"

definition LoginSubmit ::
  "'r hosted_env \<Rightarrow> faults \<Rightarrow> time \<Rightarrow> hosted_random \<Rightarrow> hosted_request \<Rightarrow> 'r hosted_state \<Rightarrow> answer_page \<times> 'r hosted_state" where
  "LoginSubmit E fl now rnd q st =
     (case GetRequest (he_redis E) (he_hash E) fl now (hq_request q) (hs_redis st) of
        Inl _ \<Rightarrow> (plain (ErrorPage 400), st)
      | Inr req \<Rightarrow>
          (case Login (token_login (he_token E)) fl now (hr_login rnd) (hosted_input req q) (hs_login st) of
             (Inl e, ls) \<Rightarrow>
               (plain (if e = ErrMFARequiredByPolicy then renderEnrollmentDeadEnd else LoginPage 401 (hq_request q)), put_hs_login ls st)
           | (Inr (LMFAEnrollment _), ls) \<Rightarrow> (plain renderEnrollmentDeadEnd, put_hs_login ls st)
           | (Inr (LOTPChallenge ch), ls) \<Rightarrow>
               let st1 = put_hs_login ls st;
                   req' = req\<lparr>aq_Email := hq_email q, aq_OTPSessionToken := oc_OTPSessionToken ch, aq_OTPMethods := oc_Methods ch\<rparr>
               in (case UpdateRequest (he_redis E) (he_hash E) fl now (hq_request q) req' (hs_redis st1) of
                     (Inl _, r) \<Rightarrow> (plain (redirectError E (aq_RedirectURI req) (aq_State req) ''server_error''), put_hs_redis r st1)
                   | (Inr _, r) \<Rightarrow> (plain (MFAPage 200 (hq_request q)), put_hs_redis r st1))
           | (Inr (LToken _), ls) \<Rightarrow> completeLogin E fl now rnd (hq_request q) (req\<lparr>aq_Email := hq_email q\<rparr>) (put_hs_login ls st)))"

definition MFASubmit ::
  "'r hosted_env \<Rightarrow> faults \<Rightarrow> time \<Rightarrow> hosted_random \<Rightarrow> hosted_request \<Rightarrow> 'r hosted_state \<Rightarrow> answer_page \<times> 'r hosted_state" where
  "MFASubmit E fl now rnd q st =
     (case GetRequest (he_redis E) (he_hash E) fl now (hq_request q) (hs_redis st) of
        Inl _ \<Rightarrow> (plain (ErrorPage 400), st)
      | Inr req \<Rightarrow>
          if aq_OTPSessionToken req = [] then (plain (LoginPage 400 (hq_request q)), st)
          else (case LoginOTP (token_login (he_token E)) fl now (lr_refresh (hr_login rnd)) (aq_OTPSessionToken req) (hq_code q) (hs_login st) of
            (Inl _, ls) \<Rightarrow> (plain (MFAPage 401 (hq_request q)), put_hs_login ls st)
          | (Inr _, ls) \<Rightarrow> completeLogin E fl now rnd (hq_request q) req (put_hs_login ls st)))"

definition OrganizationSubmit ::
  "'r hosted_env \<Rightarrow> faults \<Rightarrow> time \<Rightarrow> hosted_random \<Rightarrow> hosted_request \<Rightarrow> 'r hosted_state \<Rightarrow> page \<times> 'r hosted_state" where
  "OrganizationSubmit E fl now rnd q st =
     (case GetRequest (he_redis E) (he_hash E) fl now (hq_request q) (hs_redis st) of
        Inl _ \<Rightarrow> (ErrorPage 400, st)
      | Inr req \<Rightarrow>
          (case currentSession E fl now (hq_cookie q) st of
             None \<Rightarrow> (LoginPage 200 (hq_request q), st)
           | Some sess \<Rightarrow>
               if az_TenantID sess \<noteq> aq_TenantID req then (LoginPage 200 (hq_request q), st)
               else if hq_organization q = [] then (ErrorPage 400, st)
               else issueCodeAndRedirect E fl now rnd (hq_request q) (req\<lparr>aq_Organization := hq_organization q\<rparr>) sess st))"

end
