(* ===== verification/TokenGrants.thy ===== *)
theory TokenGrants
  imports TokenEndpoint
begin

text \<open>
  What the token endpoint hands out and to whom: the theorems about \<^verbatim>\<open>oauth_token.go\<close> over the codes, the mint and
  the rotation.
\<close>

text \<open>The partial unique index on \<^verbatim>\<open>oauth_clients.client_id\<close>.\<close>

definition clients_ok :: "client_row list \<Rightarrow> bool" where
  "clients_ok cs \<longleftrightarrow> (\<forall>c \<in> set cs. \<forall>c' \<in> set cs. oc_client_id c = oc_client_id c' \<longrightarrow> oc_deleted c = None \<longrightarrow> oc_deleted c' = None \<longrightarrow> c = c')"

definition live_client :: "client_row \<Rightarrow> bool" where
  "live_client c \<longleftrightarrow> oc_deleted c = None \<and> oc_active c"

lemma find_memD: "find P xs = Some x \<Longrightarrow> x \<in> set xs \<and> P x"
  by (auto simp: find_Some_iff)

lemma LookupClient_InrD:
  assumes "LookupClient fl cid cs = Inr client"
  obtains r where "r \<in> set cs" "oc_client_id r = cid" "live_client r" "ac_RowID client = oc_id r" "ac_TenantID client = oc_tenant r"
    "ac_ClientID client = cid" "ac_GrantTypes client = cr_grant_types r" "ac_Confidential client \<longleftrightarrow> oc_secret_hash r \<noteq> []"
proof -
  from assms obtain r where f: "find (\<lambda>c. oc_client_id c = cid \<and> oc_deleted c = None \<and> oc_active c) cs = Some r"
    and c: "ac_RowID client = oc_id r" "ac_TenantID client = oc_tenant r" "ac_ClientID client = oc_client_id r"
      "ac_GrantTypes client = cr_grant_types r" "ac_Confidential client \<longleftrightarrow> oc_secret_hash r \<noteq> []"
    by (auto simp: LookupClient_def split: if_splits option.splits)
  from find_memD [OF f] c show ?thesis by (intro that [of r]) (auto simp: live_client_def)
qed

lemma AuthenticateClient_InrD:
  assumes "AuthenticateClient (token_login Z) fl cid secret = Inr (t, a)"
  obtains r where "r \<in> set (te_clients Z)" "oc_client_id r = cid" "live_client r" "oc_secret_hash r = te_hash Z secret"
    "oc_tenant r = t" "oc_id r = a"
proof -
  let ?P = "\<lambda>c. oc_client_id c = cid \<and> oc_secret_hash c = te_hash Z secret \<and> oc_deleted c = None \<and> oc_active c"
  from assms obtain c where f: "find ?P (map login_client.truncate (te_clients Z)) = Some c" and "oc_tenant c = t" "oc_id c = a"
    by (auto simp: AuthenticateClient_def token_login_def split: if_splits option.splits)
  with find_memD [OF f] have c: "c \<in> set (map login_client.truncate (te_clients Z))" "oc_client_id c = cid"
    "oc_secret_hash c = te_hash Z secret" "oc_deleted c = None" "oc_active c" "oc_tenant c = t" "oc_id c = a" by auto
  then obtain r where "r \<in> set (te_clients Z)" "c = login_client.truncate r" by auto
  with c show ?thesis by (intro that [of r]) (auto simp: login_client.defs live_client_def)
qed

lemma authenticateClient_InrD:
  assumes ok: "clients_ok (te_clients Z)" and run: "authenticateClient Z fl cid secret = Inr client"
  obtains r where "r \<in> set (te_clients Z)" "oc_client_id r = cid" "live_client r" "ac_RowID client = oc_id r" "ac_TenantID client = oc_tenant r"
    "ac_ClientID client = cid" "ac_GrantTypes client = cr_grant_types r" "oc_secret_hash r = [] \<or> oc_secret_hash r = te_hash Z secret"
proof -
  from run have l: "LookupClient fl cid (te_clients Z) = Inr client"
    and s: "ac_Confidential client \<Longrightarrow> \<exists>x. AuthenticateClient (token_login Z) fl (ac_ClientID client) secret = Inr x"
    by (auto simp: authenticateClient_def split: sum.splits if_splits)
  from l obtain r where r: "r \<in> set (te_clients Z)" "oc_client_id r = cid" "live_client r" "ac_RowID client = oc_id r"
    "ac_TenantID client = oc_tenant r" "ac_ClientID client = cid" "ac_GrantTypes client = cr_grant_types r"
    "ac_Confidential client \<longleftrightarrow> oc_secret_hash r \<noteq> []" by (rule LookupClient_InrD)
  have "oc_secret_hash r = te_hash Z secret" if "oc_secret_hash r \<noteq> []"
  proof -
    from s r(6,8) that obtain t a where "AuthenticateClient (token_login Z) fl cid secret = Inr (t, a)" by auto
    then obtain r' where r': "r' \<in> set (te_clients Z)" "oc_client_id r' = cid" "live_client r'" "oc_secret_hash r' = te_hash Z secret"
      by (rule AuthenticateClient_InrD)
    with ok r(1-3) have "r' = r" unfolding clients_ok_def live_client_def by metis
    with r'(4) show ?thesis by simp
  qed
  with r show ?thesis by (intro that [of r]) auto
qed

lemma IssueTokens_InrD:
  assumes "IssueTokensForAuthorizationCode Z fl now raw t uid app scopes aud org ls = (Inr issued, ls')"
  obtains u where "u \<in> set (bs_users (ls_block ls))" "u_id u = uid" "app_user (token_login Z) t app u"
    "\<exists>role perms. issueScopedTokenPair (token_login Z) fl now raw uid t (u_email u) role perms (FormatInt app) aud scopes org ls
        = (Inr (au_Tokens issued), ls')"
proof -
  from assms obtain u where f: "find (\<lambda>u. u_id u = uid \<and> app_user (token_login Z) t app u) (bs_users (ls_block ls)) = Some u"
    and m: "\<exists>role perms. issueScopedTokenPair (token_login Z) fl now raw uid t (u_email u) role perms (FormatInt app) aud scopes org ls
        = (Inr (au_Tokens issued), ls')"
    by (auto simp: IssueTokensForAuthorizationCode_def Let_def split: if_splits option.splits sum.splits prod.splits) blast+
  from find_memD [OF f] m show ?thesis by (intro that [of u]) auto
qed

text \<open>The way to a token response.\<close>

lemma code_grant_OKD:
  assumes run: "authorizationCodeGrant Z fl now raw jti q st = (TokenOK resp, st')" and cred: "clientCredentialsFromRequest q = (cid, secret)"
  obtains client d cs issued ls where "authenticateClient Z fl cid secret = Inr client" "AllowsGrant client ''authorization_code''"
    "RedeemAuthorizationCode (te_hash Z) (te_sha Z) fl now (ac_ClientID client) (tr_code q) (tr_redirect_uri q) (tr_code_verifier q) (tk_codes st) = (Inr d, cs)"
    "rc_TenantID d = ac_TenantID client" "requestedAudience q \<in> {[], rc_Audience d}"
    "IssueTokensForAuthorizationCode Z fl now raw (rc_TenantID d) (rc_UserID d) (ac_RowID client) (rc_Scopes d) (rc_Audience d)
       (rc_OrganizationID d) (tk_login st) = (Inr issued, ls)"
    "resp_AccessToken resp = AccessToken (au_Tokens issued)" "resp_RefreshToken resp = RefreshToken (au_Tokens issued)"
    "resp_IDToken resp \<noteq> [] \<longrightarrow> ScopeOpenID \<in> set (rc_Scopes d)" "st' = st\<lparr>tk_codes := cs, tk_login := ls\<rparr>"
proof -
  from run cred obtain client where a: "authenticateClient Z fl cid secret = Inr client" and g: "AllowsGrant client ''authorization_code''"
    by (auto simp: authorizationCodeGrant_def failClient_def split: sum.splits if_splits)
  obtain x cs where R: "RedeemAuthorizationCode (te_hash Z) (te_sha Z) fl now (ac_ClientID client) (tr_code q) (tr_redirect_uri q) (tr_code_verifier q)
      (tk_codes st) = (x, cs)" by fastforce
  obtain d where d: "x = Inr d"
    using run cred a g R by (cases x) (auto simp: authorizationCodeGrant_def redeem_failure_def split: if_splits)
  obtain y ls where I: "IssueTokensForAuthorizationCode Z fl now raw (rc_TenantID d) (rc_UserID d) (ac_RowID client) (rc_Scopes d) (rc_Audience d)
       (rc_OrganizationID d) (tk_login st) = (y, ls)" by fastforce
  obtain issued where y: "y = Inr issued"
    using run cred a g R I by (cases y) (auto simp: authorizationCodeGrant_def Let_def d split: if_splits)
  show ?thesis
    by (rule that [OF a g R [unfolded d] _ _ I [unfolded y]])
      (use run cred a g R I in \<open>auto simp: authorizationCodeGrant_def Let_def d y HasScope_def split: if_splits sum.splits\<close>)
qed

text \<open>
  C3: tokens for a code go only to the client it was issued to. When the code grant answers with tokens, the client
  is registered, live, allowed the grant, and proved its secret if it has one; the code is an unused, unexpired
  authorization code issued to that very client in its tenant, for the redirect target presented, and the caller knows
  the verifier of its challenge; the account behind it is live, in a live tenant, and in the user base of that
  application; the tokens are minted for that account with the scopes, audience and organisation of the code; a
  requested audience is the one of the code; an ID token appears only with the \<^verbatim>\<open>openid\<close> scope; and the code is spent.
\<close>

theorem code_grant_bound:
  assumes run: "authorizationCodeGrant Z fl now raw jti q st = (TokenOK resp, st')" and cred: "clientCredentialsFromRequest q = (cid, secret)"
    and uniq: "clients_ok (te_clients Z)" "codes_ok (tk_codes st)"
  shows "\<exists>r c u. r \<in> set (te_clients Z) \<and> oc_client_id r = cid \<and> live_client r \<and> (oc_secret_hash r = [] \<or> oc_secret_hash r = te_hash Z secret)
    \<and> (cr_grant_types r = [] \<or> ''authorization_code'' \<in> set (cr_grant_types r))
    \<and> c \<in> set (tk_codes st) \<and> code_hash c = te_hash Z (tr_code q) \<and> grant_kind c = GrantKindAuthzCode \<and> ac_client c = cid
    \<and> ac_tenant c = oc_tenant r \<and> redirect_uri c = tr_redirect_uri q \<and> ac_used_at c = None \<and> now < ac_expires_at c
    \<and> code_challenge c = Some (DeriveS256Challenge (te_sha Z) (tr_code_verifier q)) \<and> ValidateCodeVerifier (tr_code_verifier q) = Inr ()
    \<and> u \<in> set (bs_users (ls_block (tk_login st))) \<and> u_id u = ac_user c \<and> app_user (token_login Z) (oc_tenant r) (oc_id r) u
    \<and> (\<exists>role perms pair aud. issueScopedTokenPair (token_login Z) fl now raw (u_id u) (oc_tenant r) (u_email u) role perms
          (FormatInt (oc_id r)) aud (ac_scopes c) (ac_org c) (tk_login st) = (Inr pair, tk_login st')
        \<and> aud = (case ac_audience c of None \<Rightarrow> [] | Some a \<Rightarrow> a) \<and> requestedAudience q \<in> {[], aud}
        \<and> resp_AccessToken resp = AccessToken pair \<and> resp_RefreshToken resp = RefreshToken pair)
    \<and> (resp_IDToken resp \<noteq> [] \<longrightarrow> ScopeOpenID \<in> set (ac_scopes c))
    \<and> code_spent (code_hash c) (tk_codes st')"
proof -
  from run cred obtain client d cs issued ls where a: "authenticateClient Z fl cid secret = Inr client" and g: "AllowsGrant client ''authorization_code''"
    and R: "RedeemAuthorizationCode (te_hash Z) (te_sha Z) fl now (ac_ClientID client) (tr_code q) (tr_redirect_uri q) (tr_code_verifier q) (tk_codes st) = (Inr d, cs)"
    and t: "rc_TenantID d = ac_TenantID client" and aud: "requestedAudience q \<in> {[], rc_Audience d}"
    and I: "IssueTokensForAuthorizationCode Z fl now raw (rc_TenantID d) (rc_UserID d) (ac_RowID client) (rc_Scopes d) (rc_Audience d)
       (rc_OrganizationID d) (tk_login st) = (Inr issued, ls)"
    and resp: "resp_AccessToken resp = AccessToken (au_Tokens issued)" "resp_RefreshToken resp = RefreshToken (au_Tokens issued)"
    and id: "resp_IDToken resp \<noteq> [] \<longrightarrow> ScopeOpenID \<in> set (rc_Scopes d)" and st': "st' = st\<lparr>tk_codes := cs, tk_login := ls\<rparr>"
    by (rule code_grant_OKD)
  obtain r where r: "r \<in> set (te_clients Z)" "oc_client_id r = cid" "live_client r" "ac_RowID client = oc_id r" "ac_TenantID client = oc_tenant r"
    "ac_ClientID client = cid" "ac_GrantTypes client = cr_grant_types r" "oc_secret_hash r = [] \<or> oc_secret_hash r = te_hash Z secret"
    by (rule authenticateClient_InrD [OF uniq(1) a])
  obtain c where c: "consume_code (redeemable now (te_hash Z (tr_code q)) cid) now (tk_codes st) = Some (c, cs)" "redirect_uri c = tr_redirect_uri q"
      "code_challenge c = Some (DeriveS256Challenge (te_sha Z) (tr_code_verifier q))" "ValidateCodeVerifier (tr_code_verifier q) = Inr ()"
    and d: "rc_UserID d = ac_user c" "rc_TenantID d = ac_tenant c" "rc_Scopes d = ac_scopes c" "rc_OrganizationID d = ac_org c"
      "rc_Audience d = (case ac_audience c of None \<Rightarrow> [] | Some a \<Rightarrow> a)" by (rule Redeem_InrD [OF R [unfolded r(6)]]) simp
  obtain u role perms where u: "u \<in> set (bs_users (ls_block (tk_login st)))" "u_id u = rc_UserID d" "app_user (token_login Z) (rc_TenantID d) (ac_RowID client) u"
    and m: "issueScopedTokenPair (token_login Z) fl now raw (rc_UserID d) (rc_TenantID d) (u_email u) role perms (FormatInt (ac_RowID client))
      (rc_Audience d) (rc_Scopes d) (rc_OrganizationID d) (tk_login st) = (Inr (au_Tokens issued), ls)" by (rule IssueTokens_InrD [OF I]) blast
  have "code_spent (code_hash c) (tk_codes st')" using consumed_spent [OF uniq(2) c(1)] by (simp add: st')
  moreover have "c \<in> set (tk_codes st)" "redeemable now (te_hash Z (tr_code q)) cid c" using consume_code_Some [OF c(1)] by auto
  moreover have "cr_grant_types r = [] \<or> ''authorization_code'' \<in> set (cr_grant_types r)" using g r(7) by (simp add: AllowsGrant_def)
  moreover have "issueScopedTokenPair (token_login Z) fl now raw (u_id u) (oc_tenant r) (u_email u) role perms (FormatInt (oc_id r))
      (rc_Audience d) (ac_scopes c) (ac_org c) (tk_login st) = (Inr (au_Tokens issued), tk_login st')"
    using m by (simp add: st' u(2) t r d)
  moreover have "ac_tenant c = oc_tenant r" "u_id u = ac_user c" "app_user (token_login Z) (oc_tenant r) (oc_id r) u"
    "requestedAudience q \<in> {[], case ac_audience c of None \<Rightarrow> [] | Some a \<Rightarrow> a}" "resp_IDToken resp \<noteq> [] \<longrightarrow> ScopeOpenID \<in> set (ac_scopes c)"
    using t u(2,3) r(4,5) d aud id by simp_all
  ultimately show ?thesis using r(1-3,8) c(2-4) u(1) resp d(5) unfolding redeemable_def by metis
qed

subsection \<open>What a pair is signed over\<close>

lemma mint_signs:
  assumes "issueTokenPairWithScope M fl now raw uid t email role perms sess app scope st = (Inr pair, st')"
  obtains org aud claims sid where "mint_prepare M fl uid t email role perms sess app scope = Inr (org, aud, claims)"
    "me_sign M t (ma_Value aud) (sc_grant sess) (claims\<lparr>cl_SessionID := sid\<rparr>) = Inr (AccessToken pair)"
proof -
  from assms obtain org aud claims where p: "mint_prepare M fl uid t email role perms sess app scope = Inr (org, aud, claims)"
    by (auto simp: issueTokenPairWithScope_def split: sum.splits)
  from assms p obtain r policy where "(\<exists>ev db. mint_tx M fl now r uid t sess app policy (map_option mo_rowID org) (ma_Value aud) claims
      (st_db (ms_auth st)) = Inr (AccessToken pair, ev, db))"
    by (auto simp: issueTokenPairWithScope_def split: option.splits prod.splits sum.splits) blast
  then show ?thesis using that [OF p] by (auto simp: mint_tx_def split: if_splits sum.splits option.splits prod.splits)
qed

lemma mint_prepare_perms:
  assumes "mint_prepare M fl uid t email role perms sess app scope = Inr (org, aud, claims)"
  shows "cl_Permissions claims = (if sc_filterPerms sess then FilterPermissionsForClient perms (ma_FirstParty aud) else perms)"
  using assms by (auto simp: mint_prepare_def mint_claims_def Let_def split: if_splits sum.splits)

lemma mint_prepare_audience:
  assumes "mint_prepare M fl uid t email role perms sess app scope = Inr (org, aud, claims)"
  shows "ResolveMintAudience (me_scheme M) fl \<lparr>ar_AppRowID = parseAppIDValue app, ar_Requested = sc_audience sess, ar_Pinned = sc_pinnedAudience sess\<rparr>
    (me_audience_db M) = Inr aud"
  using assms by (auto simp: mint_prepare_def Let_def split: if_splits sum.splits)

lemma mint_view_put [simp]: "mint_view (put_mint ms ls) = ms"
  by (simp add: mint_view_def put_mint_def put_block_def)

lemma login_mint_fields [simp]:
  "me_sign (login_mint E ls) = me_sign (le_mint E)" "me_auth (login_mint E ls) = me_auth (le_mint E)" "me_scheme (login_mint E ls) = me_scheme (le_mint E)"
  "me_audience_db (login_mint E ls) = me_audience_db (le_mint E)" "me_authority (login_mint E ls) = current_authority E ls"
  by (simp_all add: login_mint_def)

text \<open>The access token a rotation signs, for the owner of the session its refresh token is found on.\<close>

lemma Refresh_signs:
  assumes run: "Refresh M fl now raw token st = (Inr pair, st')"
  obtains k s a claims where "find_token (HashToken (me_auth M) token) (st_db (ms_auth st)) = Some k" "rt_session k = Some (us_id s)"
    "find_session (us_id s) (st_db (ms_auth st)) = Some s" "me_sign M (us_tenant s) a GrantRefreshToken claims = Inr (AccessToken pair)"
    "cl_Permissions claims = (case permissionsForRefresh fl (us_user s) (us_tenant s) (rt_active_roles k) (me_authority M) of Inl _ \<Rightarrow> [] | Inr ps \<Rightarrow> ps)"
proof -
  from run obtain k s where l: "Refresh_lookup fl now (HashToken (me_auth M) token) (st_db (ms_auth st)) = Inr (k, s)"
    and nf: "\<not> fl ''revoke old refresh token''" by (auto simp: Refresh_def split: sum.splits if_splits)
  let ?c = "carried_context (us_id s) (is_persistent s) (auth_time s) (us_amr s) (rt_audience k) (rt_active_roles k)"
  let ?ps = "case permissionsForRefresh fl (us_user s) (us_tenant s) (rt_active_roles k) (me_authority M) of Inl _ \<Rightarrow> [] | Inr ps \<Rightarrow> ps"
  from run l nf have "Refresh_finish M fl now raw (us_user s) (us_tenant s) ?c (Refresh_consume now (rt_id k) st) = (Inr pair, st')" by (simp add: Refresh_def)
  then obtain email role app where "issueTokenPairWithScope M fl now raw (us_user s) (us_tenant s) email role ?ps ?c app [] (Refresh_consume now (rt_id k) st) = (Inr pair, st')"
    by (auto simp: Refresh_finish_def issueTokenPair_def Let_def carried_context_def split: if_splits option.splits)
  then obtain o' ma claims sid where p: "mint_prepare M fl (us_user s) (us_tenant s) email role ?ps ?c app [] = Inr (o', ma, claims)"
    and sg: "me_sign M (us_tenant s) (ma_Value ma) (sc_grant ?c) (claims\<lparr>cl_SessionID := sid\<rparr>) = Inr (AccessToken pair)" by (rule mint_signs)
  have "cl_Permissions claims = ?ps" using mint_prepare_perms [OF p] by (simp add: carried_context_def)
  with sg Refresh_lookup_InrD(1-3) [OF l] show ?thesis
    by (intro that [of k s "ma_Value ma" "claims\<lparr>cl_SessionID := sid\<rparr>"]) (simp_all add: carried_context_def)
qed

text \<open>
  C39: the withholding of internal permissions from a third-party client does not survive a rotation. Take a code exchange for a
  client that the audience service resolves as not first-party, and rotate the refresh token it returned. The access token of the
  exchange was signed over an empty permission list; the access token of the rotation is signed over every permission the account
  holds in the tenant at that moment.
\<close>

theorem rotation_restores_permissions:
  assumes ok: "tables_ok (login_db ls)"
    and exchange: "issueScopedTokenPair E fl now raw uid t email role perms app aud scopes org ls = (Inr pair, ls1)"
    and third: "ResolveMintAudience (me_scheme (le_mint E)) fl \<lparr>ar_AppRowID = parseAppIDValue app, ar_Requested = aud, ar_Pinned = []\<rparr>
      (me_audience_db (le_mint E)) = Inr ma" "\<not> ma_FirstParty ma"
    and rotate: "Refresh (login_mint E ls1) fl' now' raw' (RefreshToken pair) (mint_view ls1) = (Inr pair', ms)"
  shows "(\<exists>claims. me_sign (le_mint E) t (ma_Value ma) GrantAuthorizationCode claims = Inr (AccessToken pair) \<and> cl_Permissions claims = [])
    \<and> (\<exists>a claims. me_sign (le_mint E) t a GrantRefreshToken claims = Inr (AccessToken pair')
         \<and> cl_Permissions claims = (case permissionsForRefresh fl' uid t None (current_authority E ls1) of Inl _ \<Rightarrow> [] | Inr ps \<Rightarrow> ps))"
proof -
  let ?M = "login_mint E ls" and ?c = "code_context aud org"
  from exchange obtain ms1 where mint: "issueTokenPairWithScope ?M fl now raw uid t email role perms ?c app (Join scopes) (mint_view ls) = (Inr pair, ms1)"
    and ls1: "ls1 = put_mint ms1 ls" by (auto simp: issueScopedTokenPair_def split: prod.splits)
  obtain o' ma' claims sid where p: "mint_prepare ?M fl uid t email role perms ?c app (Join scopes) = Inr (o', ma', claims)"
    and g: "me_sign ?M t (ma_Value ma') (sc_grant ?c) (claims\<lparr>cl_SessionID := sid\<rparr>) = Inr (AccessToken pair)" by (rule mint_signs [OF mint])
  have "ma' = ma" using mint_prepare_audience [OF p] third(1) by (simp add: code_context_def)
  then have one: "me_sign (le_mint E) t (ma_Value ma) GrantAuthorizationCode (claims\<lparr>cl_SessionID := sid\<rparr>) = Inr (AccessToken pair)"
    "cl_Permissions (claims\<lparr>cl_SessionID := sid\<rparr>) = []"
    using g mint_prepare_perms [OF p] third(2) by (simp_all add: code_context_def FilterPermissionsForClient_def)
  from mint obtain k s where k: "find_token (HashToken (me_auth (le_mint E)) (RefreshToken pair)) (st_db (ms_auth ms1)) = Some k" "rt_active_roles k = None"
    "rt_session k = Some (us_id s)" "find_session (us_id s) (st_db (ms_auth ms1)) = Some s" "us_user s = uid" "us_tenant s = t"
  proof (cases rule: issue_cases)
    case (minted r policy org' aud' claims' access evicted db')
    have "tables_ok (st_db (ms_auth (mint_view ls)))" using ok by (simp add: mint_view_def)
    from mint_tx_tables(2) [OF this minted(6)] obtain k sid s where k: "find_token (HashToken (me_auth (le_mint E)) (RefreshToken r)) db' = Some k"
      "rt_active_roles k = None" "rt_session k = Some sid" "find_session sid db' = Some s" "us_user s = uid" "us_tenant s = t"
      by (auto simp: code_context_def mint_session_of_def)
    have "us_id s = sid" using find_session_Some [OF k(4)] by simp
    moreover have "st_db (ms_auth ms1) = db'" "pair = r" using minted(1,7) by simp_all
    ultimately show ?thesis using k by (intro that [of k s]) simp_all
  qed simp
  obtain k' s' a claims' where r: "find_token (HashToken (me_auth (le_mint E)) (RefreshToken pair)) (st_db (ms_auth ms1)) = Some k'" "rt_session k' = Some (us_id s')"
    "find_session (us_id s') (st_db (ms_auth ms1)) = Some s'" "me_sign (le_mint E) (us_tenant s') a GrantRefreshToken claims' = Inr (AccessToken pair')"
    "cl_Permissions claims' = (case permissionsForRefresh fl' (us_user s') (us_tenant s') (rt_active_roles k') (current_authority E ls1) of Inl _ \<Rightarrow> [] | Inr ps \<Rightarrow> ps)"
    using Refresh_signs [OF rotate [unfolded ls1], unfolded mint_view_put login_mint_fields] unfolding ls1 by blast
  have "k' = k" "s' = s" using r k by auto
  with r k one show ?thesis by auto
qed

subsection \<open>Rotation and revocation at the endpoint\<close>

text \<open>
  The rotation grant does not ask whose refresh token it is. Two clients that both authenticate and may rotate
  get the same answer for the same refresh token, and so does a caller that names no client at all: the client of
  the request is authenticated and then not compared with the client the token was minted for.
\<close>

theorem refresh_grant_ignores_client:
  assumes auth: "authenticateClient Z fl (fst (clientCredentialsFromRequest q)) (snd (clientCredentialsFromRequest q)) = Inr client"
      "AllowsGrant client ''refresh_token''"
    and anon: "clientCredentialsFromRequest q' = ([], secret)" and same: "tr_refresh_token q = tr_refresh_token q'"
  shows "refreshTokenGrant Z fl now raw q st = refreshTokenGrant Z fl now raw q' st"
  using assms by (auto simp: refreshTokenGrant_def split: prod.splits)

text \<open>
  C40: revocation takes an authenticated client and touches no other client's refresh token. A request without a valid client credential
  is refused and changes nothing; an authenticated one always gets the same empty answer, and the only rows it changes are refresh
  tokens under the presented hash, in the client's tenant, that were minted for this client or record no client; those it does
  revoke, unless no token was presented or the statement failed. Sessions, codes and everything else stay as they were.
\<close>

theorem revoke_stays_within_client:
  assumes run: "Revoke Z fl now q st = (a, st')" and ok: "clients_ok (te_clients Z)" and cred: "clientCredentialsFromRequest q = (cid, secret)"
  shows "(a = failClient \<and> st' = st)
    \<or> (\<exists>r \<in> set (te_clients Z). oc_client_id r = cid \<and> live_client r \<and> (oc_secret_hash r = [] \<or> oc_secret_hash r = te_hash Z secret)
        \<and> a = NoContent 200 \<and> tk_codes st' = tk_codes st
        \<and> (\<exists>ts. tk_login st' = put_login_db ((login_db (tk_login st))\<lparr>tokens := ts\<rparr>) (tk_login st)
            \<and> list_all2 (\<lambda>t t'. t' = t \<or> (t' = t\<lparr>rt_revoked_at := Some now\<rparr> \<and> token_hash t = te_hash Z (tr_token q) \<and> rt_tenant t = oc_tenant r
                 \<and> (rt_app t = None \<or> rt_app t = Some (oc_id r)))) (tokens (login_db (tk_login st))) ts
            \<and> (tr_token q \<noteq> [] \<and> \<not> fl ''revoke refresh token'' \<longrightarrow>
                 (\<forall>t' \<in> set ts. token_hash t' = te_hash Z (tr_token q) \<and> rt_tenant t' = oc_tenant r
                    \<and> (rt_app t' = None \<or> oc_id r \<noteq> 0 \<and> rt_app t' = Some (oc_id r)) \<longrightarrow> rt_revoked_at t' \<noteq> None))))"
proof (cases "cid = [] \<or> isl (authenticateClient Z fl cid secret)")
  case True
  then show ?thesis using run cred by (auto simp: Revoke_def split: sum.splits)
next
  case False
  then obtain client where a: "authenticateClient Z fl cid secret = Inr client" by (metis sum.collapse(2))
  obtain r where r: "r \<in> set (te_clients Z)" "oc_client_id r = cid" "live_client r" "ac_RowID client = oc_id r" "ac_TenantID client = oc_tenant r"
    "oc_secret_hash r = [] \<or> oc_secret_hash r = te_hash Z secret" by (rule authenticateClient_InrD [OF ok a])
  have same: "put_login_db (login_db ls) ls = ls" for ls :: "'a login_state" by (simp add: put_login_db_def put_block_def)
  let ?Q = "\<lambda>t t'. t' = t \<or> (t' = t\<lparr>rt_revoked_at := Some now\<rparr> \<and> token_hash t = te_hash Z (tr_token q) \<and> rt_tenant t = oc_tenant r
       \<and> (rt_app t = None \<or> rt_app t = Some (oc_id r)))"
  have upd: "list_all2 ?Q ts (update_where (\<lambda>t. token_hash t = te_hash Z (tr_token q) \<and> rt_tenant t = oc_tenant r \<and> rt_revoked_at t = None
      \<and> (rt_app t = None \<or> oc_id r \<noteq> 0 \<and> rt_app t = Some (oc_id r))) (\<lambda>t. t\<lparr>rt_revoked_at := Some now\<rparr>) ts)" for ts
    by (induction ts) (auto simp: update_where_def)
  let ?hit = "\<lambda>t. token_hash t = te_hash Z (tr_token q) \<and> rt_tenant t = oc_tenant r \<and> (rt_app t = None \<or> oc_id r \<noteq> 0 \<and> rt_app t = Some (oc_id r))"
  let ?upd = "\<lambda>ts. update_where (\<lambda>t. token_hash t = te_hash Z (tr_token q) \<and> rt_tenant t = oc_tenant r \<and> rt_revoked_at t = None
      \<and> (rt_app t = None \<or> oc_id r \<noteq> 0 \<and> rt_app t = Some (oc_id r))) (\<lambda>t. t\<lparr>rt_revoked_at := Some now\<rparr>) ts"
  have gone: "\<forall>t' \<in> set (?upd ts). ?hit t' \<longrightarrow> rt_revoked_at t' \<noteq> None" for ts :: "refresh_token list"
    by (intro ballI, erule update_where_ball) auto
  have "\<exists>ts. tk_login st' = put_login_db ((login_db (tk_login st))\<lparr>tokens := ts\<rparr>) (tk_login st) \<and> list_all2 ?Q (tokens (login_db (tk_login st))) ts
      \<and> (tr_token q \<noteq> [] \<and> \<not> fl ''revoke refresh token'' \<longrightarrow> (\<forall>t' \<in> set ts. ?hit t' \<longrightarrow> rt_revoked_at t' \<noteq> None))"
  proof (cases "tr_token q = [] \<or> fl ''revoke refresh token''")
    case True
    then have "tk_login st' = tk_login st" using run cred a False same by (auto simp: Revoke_def RevokeRefreshTokenForTenant_def split: if_splits)
    with True show ?thesis by (intro exI [of _ "tokens (login_db (tk_login st))"]) (auto simp: same intro: list_all2_refl)
  next
    case no: False
    have "tk_login st' = put_login_db ((login_db (tk_login st))\<lparr>tokens := ?upd (tokens (login_db (tk_login st)))\<rparr>) (tk_login st)"
      by (use run cred a False no in \<open>auto simp: Revoke_def RevokeRefreshTokenForTenant_def Let_def r(4,5)\<close>)
    with upd gone show ?thesis by blast
  qed
  moreover have "a = NoContent 200" "tk_codes st' = tk_codes st" using run cred a False by (auto simp: Revoke_def split: if_splits prod.splits)
  ultimately show ?thesis using r by blast
qed

subsection \<open>A sample\<close>

definition sample_client :: client_row where
  "sample_client = \<lparr>oc_id = 5, oc_tenant = 3, oc_client_id = ''shop'', oc_secret_hash = ''s3cret'', oc_active = True, oc_deleted = None,
     cr_name = ''Shop'', cr_app_type = ''web'', cr_redirect_uris = [''https://shop/cb''], cr_scopes = [''openid''],
     cr_grant_types = [''authorization_code'', ''refresh_token''], cr_require_pkce = True, cr_first_party = True, cr_audience = None,
     cr_require_audience = False\<rparr>"

definition sample_audience_client :: "bool \<Rightarrow> oauth_client" where
  "sample_audience_client firstParty = \<lparr>oauth_client.oc_id = 5, oauth_client.oc_tenant = 3, oauth_client.oc_client_id = ''shop'', oc_name = ''Shop'',
     oc_audience = None, oc_require_audience = False, oc_first_party = firstParty, oauth_client.oc_deleted = False\<rparr>"

definition sample_token_login :: "keyspace login_env" where
  "sample_token_login =
     \<lparr>le_mint = sample_mint_env\<lparr>me_authority := \<lparr>users = [], tenants = [\<lparr>t_id = 3, t_active = True, t_deleted = None\<rparr>], roles = [],
        permissions = [], role_permissions = [], user_roles = [], user_permissions = [], admin_grants = [], tenant_admins = [], app_scopes = []\<rparr>,
        me_audience_db := \<lparr>clients = [sample_audience_client True], grants = [], next_grant_id = 1\<rparr>\<rparr>,
      le_block = sample_block_env,
      le_mfa = \<lparr>fa_auth = keyspace_env id, fa_aead = sample_aead, fa_totp = \<lparr>encKey = []\<rparr>, totp_Validate = (\<lambda>_ _ _. False), fa_audit = False,
        fa_templates = None, fa_senders = None, fa_deliver = (\<lambda>_ _. True)\<rparr>,
      le_admin = sample_admin_env, le_clients = [], le_appSvc = True, hasher_Verify = (\<lambda>pw h. pw = h), hasher_NeedsRehash = (\<lambda>_. False)\<rparr>"

definition sample_token_env :: "keyspace token_env" where
  "sample_token_env = \<lparr>te_login = sample_token_login, te_clients = [sample_client], te_sha = sample_sha,
     te_profile = (\<lambda>_. \<lparr>pf_first = ''A'', pf_last = ''B'', pf_email_verified = True, pf_updated_at = None\<rparr>),
     te_issuer = (\<lambda>_. Inr ''https://auth''), te_signID = (\<lambda>_ _. Inr ''id'')\<rparr>"

definition sample_token_state :: "keyspace token_state" where
  "sample_token_state =
     \<lparr>tk_login = \<lparr>ls_account = \<lparr>as_block = (sample_block_state True 0 None)\<lparr>bs_users := [(sample_account True 0 None)\<lparr>u_application := Some 5\<rparr>]\<rparr>,
        as_mfa = \<lparr>totp_secrets = Map.empty, email_mfa_settings = Map.empty, application_mfa_settings = Map.empty, webauthn_credentials = []\<rparr>,
        as_mail = []\<rparr>, ls_sessions = NewSessionPolicyService True, ls_adminMFA = sample_admin_svc, ls_credentials = Map.empty\<rparr>,
      tk_codes = sample_codes\<rparr>"

definition sample_code_request :: token_request where
  "sample_code_request = \<lparr>tr_basic = None, tr_grant_type = ''authorization_code'', tr_client_id = ''shop'', tr_client_secret = ''s3cret'',
     tr_code = ''c0de'', tr_code_verifier = sample_verifier, tr_redirect_uri = ''https://shop/cb'', tr_refresh_token = ''r'',
     tr_audience = [], tr_resource = [], tr_token = ''r''\<rparr>"

definition answered :: "answer \<Rightarrow> bool" where
  "answered a = (case a of TokenOK _ \<Rightarrow> True | _ \<Rightarrow> False)"

lemma sample_clients_ok: "clients_ok (te_clients sample_token_env)"
  by (simp add: clients_ok_def sample_token_env_def)

lemma sample_cred: "clientCredentialsFromRequest sample_code_request = (''shop'', ''s3cret'')"
  by code_simp

lemma code_grant_bound_witness:
  "\<exists>resp st'. authorizationCodeGrant sample_token_env no_faults Second (Some ''fresh'') ''j'' sample_code_request sample_token_state = (TokenOK resp, st')
     \<and> code_spent ''c0de'' (tk_codes st')"
proof -
  let ?g = "authorizationCodeGrant sample_token_env no_faults Second (Some ''fresh'') ''j'' sample_code_request sample_token_state"
  have "answered (fst ?g)" by code_simp
  then obtain resp st' where g: "?g = (TokenOK resp, st')" by (cases ?g) (auto simp: answered_def split: answer.splits)
  have "codes_ok (tk_codes sample_token_state)" "te_hash sample_token_env (tr_code sample_code_request) = ''c0de''" by code_simp+
  with code_grant_bound [OF g sample_cred sample_clients_ok] g show ?thesis by auto
qed

lemma refresh_grant_ignores_client_witness:
  "refreshTokenGrant sample_token_env no_faults 0 None sample_code_request sample_token_state =
   refreshTokenGrant sample_token_env no_faults 0 None (sample_code_request\<lparr>tr_client_id := []\<rparr>) sample_token_state"
proof -
  have "\<not> isl (authenticateClient sample_token_env no_faults ''shop'' ''s3cret'')" by code_simp
  then obtain client where a: "authenticateClient sample_token_env no_faults (fst (clientCredentialsFromRequest sample_code_request))
      (snd (clientCredentialsFromRequest sample_code_request)) = Inr client" unfolding sample_cred fst_conv snd_conv by (metis sum.collapse(2))
  have "AllowsGrant (projr (authenticateClient sample_token_env no_faults ''shop'' ''s3cret'')) ''refresh_token''" by code_simp
  then have "AllowsGrant client ''refresh_token''" using a by (simp add: sample_cred)
  then show ?thesis using refresh_grant_ignores_client [OF a, of "sample_code_request\<lparr>tr_client_id := []\<rparr>" "''s3cret''"]
    by (simp add: clientCredentialsFromRequest_def sample_code_request_def)
qed

lemma revoke_stays_within_client_witness:
  "\<exists>st'. Revoke sample_token_env no_faults 0 sample_code_request sample_token_state = (NoContent 200, st') \<and> tk_codes st' = sample_codes"
proof -
  let ?g = "Revoke sample_token_env no_faults 0 sample_code_request sample_token_state"
  have f: "fst ?g = NoContent 200" by code_simp
  then obtain st' where g: "?g = (NoContent 200, st')" by (metis prod.collapse)
  from revoke_stays_within_client [OF g sample_clients_ok sample_cred] g show ?thesis
    by (auto simp: failClient_def sample_token_state_def)
qed

text \<open>
  A third-party client, and an account with one direct permission: the exchange signs none, the rotation one. The signer of the
  sample shows the permissions.
\<close>

definition sample_third_login :: "keyspace login_env" where
  "sample_third_login = sample_token_login\<lparr>le_mint := (le_mint sample_token_login)\<lparr>
     me_audience_db := \<lparr>clients = [sample_audience_client False], grants = [], next_grant_id = 1\<rparr>,
     me_authority := (me_authority (le_mint sample_token_login))\<lparr>
       permissions := [\<lparr>p_id = 31, p_application = None, p_name = ''x:read'', p_deleted = None\<rparr>],
       user_permissions := [\<lparr>up_user = 7, up_permission = 31, up_tenant = 3\<rparr>]\<rparr>,
     me_sign := (\<lambda>_ _ _ claims. Inr (Join (cl_Permissions claims)))\<rparr>\<rparr>"

definition sample_exchange :: "AuthResult result \<times> keyspace login_state" where
  "sample_exchange = issueScopedTokenPair sample_third_login no_faults 0 (Some ''fresh'') 7 3 ''a@b.c'' ''member'' [''x:read''] ''5'' [] [] None
     (tk_login sample_token_state)"

definition sample_rotation :: "AuthResult result \<times> keyspace mint_state" where
  "sample_rotation = Refresh (login_mint sample_third_login (snd sample_exchange)) no_faults Second (Some ''next'') ''fresh'' (mint_view (snd sample_exchange))"

lemma rotation_restores_permissions_witness:
  "\<exists>pair pair' c1 c2 a. fst sample_exchange = Inr pair \<and> fst sample_rotation = Inr pair' \<and> AccessToken pair = [] \<and> AccessToken pair' = ''x:read''
     \<and> me_sign (le_mint sample_third_login) 3 [] GrantAuthorizationCode c1 = Inr (AccessToken pair) \<and> cl_Permissions c1 = []
     \<and> me_sign (le_mint sample_third_login) 3 a GrantRefreshToken c2 = Inr (AccessToken pair') \<and> cl_Permissions c2 = [''x:read'']"
proof -
  have x: "map_sum id (\<lambda>p. (AccessToken p, RefreshToken p)) (fst sample_exchange) = Inr ([], ''fresh'')" by code_simp
  have y: "map_sum id AccessToken (fst sample_rotation) = Inr ''x:read''" by code_simp
  from x obtain pair where p: "fst sample_exchange = Inr pair" "AccessToken pair = []" "RefreshToken pair = ''fresh''"
    by (cases "fst sample_exchange") auto
  from y obtain pair' where p': "fst sample_rotation = Inr pair'" "AccessToken pair' = ''x:read''" by (cases "fst sample_rotation") auto
  let ?ls = "tk_login sample_token_state"
  have ok: "tables_ok (login_db ?ls)"
    by (rule session_db_tables) (simp add: sample_token_state_def sample_block_state_def sample_db_ok)
  have e: "issueScopedTokenPair sample_third_login no_faults 0 (Some ''fresh'') 7 3 ''a@b.c'' ''member'' [''x:read''] ''5'' [] [] None ?ls
      = (Inr pair, snd sample_exchange)" using p(1) unfolding sample_exchange_def by (metis prod.collapse)
  have r: "Refresh (login_mint sample_third_login (snd sample_exchange)) no_faults Second (Some ''next'') (RefreshToken pair) (mint_view (snd sample_exchange))
      = (Inr pair', snd sample_rotation)" using p'(1) unfolding p(3) sample_rotation_def by (metis prod.collapse)
  let ?aud = "ResolveMintAudience (me_scheme (le_mint sample_third_login)) no_faults \<lparr>ar_AppRowID = parseAppIDValue ''5'', ar_Requested = [], ar_Pinned = []\<rparr>
      (me_audience_db (le_mint sample_third_login))"
  have "map_sum id (\<lambda>m. (ma_Value m, ma_FirstParty m)) ?aud = Inr ([], False)" by code_simp
  then obtain ma where ma: "?aud = Inr ma" "\<not> ma_FirstParty ma" "ma_Value ma = []" by (cases ?aud) auto
  have ps: "permissionsForRefresh no_faults 7 3 None (current_authority sample_third_login (snd sample_exchange)) = Inr [''x:read'']" by code_simp
  from rotation_restores_permissions [OF ok e ma(1,2) r] p p' show ?thesis unfolding ma(3) ps by auto
qed

end
