(* ===== verification/OrgInvariant.thy ===== *)
theory OrgInvariant
  imports Organization
begin

text \<open>
  The invariant of the organisation tables, what the indexes, foreign keys and limits of the schema and the service
  promise together, and that every operation of \<open>Organization\<close> keeps it, whatever calls fail on the way.
\<close>

definition role_name_of :: "authority_db \<Rightarrow> org_member_role \<Rightarrow> string option" where
  "role_name_of A mr = map_option r_name (role_of A mr)"

text \<open>Organisations: keys, live slugs and texts.\<close>

definition orgs_ok :: "org_db \<Rightarrow> bool" where
  "orgs_ok db \<longleftrightarrow> distinct (map o_id (organizations db)) \<and> distinct (map o_public_id (organizations db))
     \<and> (\<forall>g \<in> set (organizations db). o_id g < next_org_id db \<and> organizationSlugRe (o_slug g) \<and> valid_name (o_display_name g))
     \<and> (\<forall>g \<in> set (organizations db). \<forall>h \<in> set (organizations db).
          o_app g = o_app h \<longrightarrow> o_slug g = o_slug h \<longrightarrow> o_deleted g = None \<longrightarrow> o_deleted h = None \<longrightarrow> o_id g = o_id h)"

text \<open>Members: one row per user and organisation, of the organisation's application and tenant, within the limit.\<close>

definition members_ok :: "org_db \<Rightarrow> bool" where
  "members_ok db \<longleftrightarrow> distinct (map (\<lambda>m. (m_org m, m_user m)) (org_members db))
     \<and> (\<forall>m \<in> set (org_members db). m_status m \<in> {OrganizationMemberActive, OrganizationMemberSuspended}
          \<and> (\<exists>g \<in> set (organizations db). o_id g = m_org m \<and> o_app g = m_app m \<and> o_tenant g = m_tenant m))
     \<and> (\<forall>i. length (filter (\<lambda>m. m_org m = i) (org_members db)) \<le> MaxMembersPerOrganization)"

definition member_of :: "org_db \<Rightarrow> org_member_role \<Rightarrow> bool" where
  "member_of db mr \<longleftrightarrow>
     (\<exists>m \<in> set (org_members db). m_org m = mr_org mr \<and> m_user m = mr_user mr \<and> m_app m = mr_app mr \<and> m_tenant m = mr_tenant mr)"

text \<open>Roles: held by a member, each name once, within the limit.\<close>

definition roles_ok :: "authority_db \<Rightarrow> org_db \<Rightarrow> bool" where
  "roles_ok A db \<longleftrightarrow>
     (\<forall>mr \<in> set (org_member_roles db). role_of A mr \<noteq> None \<and> member_of db mr)
     \<and> (\<forall>i u. distinct (map (role_name_of A) (member_role_rows i u db)) \<and> length (member_role_rows i u db) \<le> MaxOrganizationRolesPerMember)"

definition org_ok :: "authority_db \<Rightarrow> org_db \<Rightarrow> bool" where
  "org_ok A db \<longleftrightarrow> orgs_ok db \<and> members_ok db \<and> roles_ok A db"

subsection \<open>Organisations\<close>

lemma end_org_sessions_db [simp]: "og_db (end_org_sessions E fl now i u st) = og_db st"
  by (simp add: end_org_sessions_def)

lemma deny_member_db [simp]: "og_db (deny_member E fl now u t st) = og_db st"
  by (simp add: deny_member_def)

lemma getOrganization_InrD:
  assumes "getOrganization l fl sc ref db = Inr org"
  obtains g where "g \<in> set (organizations db)" "org_in_scope sc g" "matches_ref ref g" "org = scanOrganization db g"
  using assms by (auto simp: getOrganization_def find_Some_iff split: if_splits option.splits) (metis nth_mem)

lemma tables_frame:
  "org_member_roles db' = org_member_roles db \<Longrightarrow> org_members db' = org_members db \<Longrightarrow> roles_ok A db' = roles_ok A db"
  "organizations db' = organizations db \<Longrightarrow> org_members db' = org_members db \<Longrightarrow> members_ok db' = members_ok db"
  "organizations db' = organizations db \<Longrightarrow> next_org_id db' = next_org_id db \<Longrightarrow> orgs_ok db' = orgs_ok db"
  by (simp_all add: roles_ok_def members_ok_def orgs_ok_def member_role_rows_def member_of_def)

lemma members_ok_orgs:
  assumes "members_ok db" "org_members db' = org_members db"
    and "\<And>g. g \<in> set (organizations db) \<Longrightarrow> \<exists>h \<in> set (organizations db'). o_id h = o_id g \<and> o_app h = o_app g \<and> o_tenant h = o_tenant g"
  shows "members_ok db'"
  using assms unfolding members_ok_def by (smt (verit, ccfv_SIG))

lemma set_organization_ok:
  assumes ok: "org_ok A db"
    and f: "\<And>g. o_id (f g) = o_id g \<and> o_public_id (f g) = o_public_id g \<and> o_app (f g) = o_app g \<and> o_tenant (f g) = o_tenant g
        \<and> o_slug (f g) = o_slug g \<and> (valid_name (o_display_name g) \<longrightarrow> valid_name (o_display_name (f g)))
        \<and> (o_deleted (f g) = None \<longrightarrow> o_deleted g = None)"
  shows "org_ok A (set_organization i f db)"
proof -
  let ?F = "\<lambda>g. if o_id g = i then f g else g"
  have orgs: "organizations (set_organization i f db) = map ?F (organizations db)"
    by (simp add: set_organization_def update_where_def)
  have same: "o_id (?F g) = o_id g" "o_public_id (?F g) = o_public_id g" "o_app (?F g) = o_app g" "o_tenant (?F g) = o_tenant g"
    "o_slug (?F g) = o_slug g" "valid_name (o_display_name g) \<Longrightarrow> valid_name (o_display_name (?F g))"
    "o_deleted (?F g) = None \<Longrightarrow> o_deleted g = None" for g using f by (auto split: if_splits)
  have base: "distinct (map o_id (organizations db))" "distinct (map o_public_id (organizations db))"
    "\<forall>g \<in> set (organizations db). o_id g < next_org_id db \<and> organizationSlugRe (o_slug g) \<and> valid_name (o_display_name g)"
    "\<forall>g \<in> set (organizations db). \<forall>h \<in> set (organizations db).
          o_app g = o_app h \<longrightarrow> o_slug g = o_slug h \<longrightarrow> o_deleted g = None \<longrightarrow> o_deleted h = None \<longrightarrow> o_id g = o_id h"
    using ok unfolding org_ok_def orgs_ok_def by blast+
  have keys: "map o_id (map ?F xs) = map o_id xs" "map o_public_id (map ?F xs) = map o_public_id xs" for xs
    using same(1,2) by simp_all
  have slugs: "o_id (?F g) = o_id (?F h)" if "g \<in> set (organizations db)" "h \<in> set (organizations db)" "o_app (?F g) = o_app (?F h)"
    "o_slug (?F g) = o_slug (?F h)" "o_deleted (?F g) = None" "o_deleted (?F h) = None" for g h
    using base(4) that(1,2) that(3,4) [unfolded same(3,5)] same(7) [OF that(5)] same(7) [OF that(6)] unfolding same(1) by blast
  have rows: "o_id (?F g) < next_org_id db \<and> organizationSlugRe (o_slug (?F g)) \<and> valid_name (o_display_name (?F g))"
    if "g \<in> set (organizations db)" for g using base(3) that same(6) [of g] unfolding same(1,5) by blast
  have "orgs_ok (set_organization i f db)"
    unfolding orgs_ok_def orgs keys
  proof (intro conjI base(1,2) ballI)
    have nx: "next_org_id (set_organization i f db) = next_org_id db" by (simp add: set_organization_def)
    fix g assume "g \<in> set (map ?F (organizations db))"
    then obtain g0 where g: "g0 \<in> set (organizations db)" "g = ?F g0" unfolding set_map by (rule imageE)
    from rows [OF g(1)] show "o_id g < next_org_id (set_organization i f db)" "organizationSlugRe (o_slug g)" "valid_name (o_display_name g)"
      unfolding nx g(2) by blast+
    fix h assume "h \<in> set (map ?F (organizations db))"
    then obtain h0 where h: "h0 \<in> set (organizations db)" "h = ?F h0" unfolding set_map by (rule imageE)
    show "o_app g = o_app h \<longrightarrow> o_slug g = o_slug h \<longrightarrow> o_deleted g = None \<longrightarrow> o_deleted h = None \<longrightarrow> o_id g = o_id h"
      unfolding g(2) h(2) by (intro impI slugs [OF g(1) h(1)])
  qed
  moreover have "members_ok (set_organization i f db)"
  proof (rule members_ok_orgs)
    show "members_ok db" using ok by (simp add: org_ok_def)
    show "\<exists>h \<in> set (organizations (set_organization i f db)). o_id h = o_id g \<and> o_app h = o_app g \<and> o_tenant h = o_tenant g"
      if "g \<in> set (organizations db)" for g unfolding orgs set_map
      by (intro bexI [of _ "?F g"] conjI same(1,3,4) imageI that)
  qed (simp add: set_organization_def)
  moreover have "roles_ok A (set_organization i f db) = roles_ok A db" by (rule tables_frame) (simp_all add: set_organization_def)
  ultimately show ?thesis using ok by (simp add: org_ok_def)
qed

lemma insert_organization_ok:
  assumes ok: "org_ok A db" and ins: "insert_organization row db = Some db'"
    and row: "organizationSlugRe (o_slug row)" "valid_name (o_display_name row)"
  shows "org_ok A db'"
proof -
  have free: "\<forall>g \<in> set (organizations db). o_public_id g \<noteq> o_public_id row \<and> (o_app g = o_app row \<longrightarrow> o_slug g = o_slug row \<longrightarrow> o_deleted g \<noteq> None)"
    and db': "db' = db\<lparr>organizations := organizations db @ [row\<lparr>o_id := next_org_id db\<rparr>], next_org_id := next_org_id db + 1\<rparr>"
    using ins by (auto simp: insert_organization_def split: if_splits)
  have "orgs_ok db'" using ok free row unfolding org_ok_def orgs_ok_def db' by fastforce
  moreover have "members_ok db'" by (rule members_ok_orgs [of db]) (use ok in \<open>auto simp: org_ok_def db'\<close>)
  moreover have "roles_ok A db' = roles_ok A db" by (rule tables_frame) (simp_all add: db')
  ultimately show ?thesis using ok by (simp add: org_ok_def)
qed

lemma Create_ok: "org_ok A (og_db st) \<Longrightarrow> org_ok A (og_db (snd (CreateOrganization E fl now draws sc i st)))"
  by (auto simp: CreateOrganization_def Let_def intro: insert_organization_ok split: sum.splits option.splits)

lemma Update_ok:
  assumes "org_ok A (og_db st)"
  shows "org_ok A (og_db (snd (UpdateOrganization E fl now sc ref i st)))"
proof -
  have nm: "update_name n = Inr name \<Longrightarrow> valid_name d \<Longrightarrow> valid_name (coalesce name d)" for n name d
    by (auto simp: update_name_def coalesce_def split: option.splits if_splits)
  show ?thesis using assms
    by (auto simp: UpdateOrganization_def Let_def nm intro!: set_organization_ok split: sum.splits)
qed

lemma Delete_ok:
  assumes "org_ok A (og_db st)"
  shows "org_ok A (og_db (snd (DeleteOrganization E fl now sc ref st)))"
proof -
  have inv: "org_ok A db \<Longrightarrow> org_ok A (db\<lparr>org_invitations := vs\<rparr>)" for db vs
    using tables_frame [of "db\<lparr>org_invitations := vs\<rparr>" db] by (simp add: org_ok_def)
  show ?thesis using assms by (auto simp: DeleteOrganization_def Let_def intro!: set_organization_ok inv split: sum.splits)
qed

lemma Mode_ok: "org_ok A (og_db st) \<Longrightarrow> org_ok A (og_db (snd (SetApplicationMode E fl now sc mode force st)))"
  using tables_frame [of "(og_db st)\<lparr>org_apps := aps\<rparr>" "og_db st" for aps]
  by (auto simp: SetApplicationMode_def Let_def org_ok_def split: sum.splits option.splits)

subsection \<open>Members\<close>

lemma addMemberTx_ok:
  assumes ok: "org_ok A db" and g: "g \<in> set (organizations db)" "o_id g = i" "org_in_scope sc g"
    and run: "addMemberTx E fl now sc i uid by db = Inr (created, db')"
  shows "org_ok A db'" "organizations db' = organizations db"
proof -
  have "db' = db \<or> (\<not> (\<exists>m \<in> set (org_members db). m_org m = i \<and> m_user m = uid)
      \<and> length (filter (\<lambda>m. m_org m = i) (org_members db)) < MaxMembersPerOrganization
      \<and> db' = db\<lparr>org_members := org_members db @
                 [\<lparr>m_org = i, m_app = sp_AppRowID sc, m_user = uid, m_tenant = sp_TenantID sc,
                   m_status = OrganizationMemberActive, m_invited_by = by, m_joined_at = now\<rparr>]\<rparr>)"
    using run by (auto simp: addMemberTx_def split: sum.splits if_splits)
  then show "org_ok A db'"
  proof (elim disjE conjE)
    assume new: "\<not> (\<exists>m \<in> set (org_members db). m_org m = i \<and> m_user m = uid)"
      and lim: "length (filter (\<lambda>m. m_org m = i) (org_members db)) < MaxMembersPerOrganization"
      and db': "db' = db\<lparr>org_members := org_members db @
                 [\<lparr>m_org = i, m_app = sp_AppRowID sc, m_user = uid, m_tenant = sp_TenantID sc,
                   m_status = OrganizationMemberActive, m_invited_by = by, m_joined_at = now\<rparr>]\<rparr>"
    have "members_ok db'" using ok new lim g unfolding org_ok_def members_ok_def db' org_in_scope_def by (auto simp: Suc_le_eq)
    moreover have "orgs_ok db' = orgs_ok db" by (rule tables_frame) (simp_all add: db')
    moreover have "roles_ok A db'" using ok unfolding org_ok_def roles_ok_def db' member_role_rows_def member_of_def by auto
    ultimately show ?thesis using ok by (simp add: org_ok_def)
  qed (use ok in simp)
  show "organizations db' = organizations db" using run by (auto simp: addMemberTx_def split: sum.splits if_splits)
qed

lemma set_status_ok:
  assumes ok: "org_ok A db" and s: "status \<in> {OrganizationMemberActive, OrganizationMemberSuspended}"
  shows "org_ok A (db\<lparr>org_members := update_where hit (\<lambda>m. m\<lparr>m_status := status\<rparr>) (org_members db)\<rparr>)"
proof -
  let ?F = "\<lambda>m. if hit m then m\<lparr>m_status := status\<rparr> else m"
  let ?db = "db\<lparr>org_members := update_where hit (\<lambda>m. m\<lparr>m_status := status\<rparr>) (org_members db)\<rparr>"
  have ms: "org_members ?db = map ?F (org_members db)" by (simp add: update_where_def)
  have same: "m_org (?F m) = m_org m" "m_user (?F m) = m_user m" "m_app (?F m) = m_app m" "m_tenant (?F m) = m_tenant m" for m by auto
  have "members_ok ?db" using ok s unfolding org_ok_def members_ok_def ms by (auto simp: comp_def same filter_map)
  moreover have "orgs_ok ?db = orgs_ok db" by (rule tables_frame) simp_all
  moreover have "member_of ?db mr = member_of db mr" for mr unfolding member_of_def ms set_map bex_simps same ..
  then have "roles_ok A ?db" using ok by (simp add: org_ok_def roles_ok_def member_role_rows_def)
  ultimately show ?thesis using ok by (simp add: org_ok_def)
qed

lemma Status_ok: "org_ok A (og_db st) \<Longrightarrow> org_ok A (og_db (snd (SetMemberStatus E fl now sc ref uid status st)))"
  by (auto simp: SetMemberStatus_def Let_def intro!: set_status_ok split: sum.splits)

text \<open>Role rows may be dropped: what is left keeps its keys, its names and its bounds.\<close>

lemma drop_roles_ok:
  assumes "roles_ok A db" "org_members db' = org_members db" "org_member_roles db' = filter P (org_member_roles db)"
  shows "roles_ok A db'"
proof -
  have rows: "member_role_rows i u db' = filter P (member_role_rows i u db)" for i u
    by (simp add: member_role_rows_def assms(3) conj_commute)
  have "length (filter P xs) \<le> n" if "length xs \<le> n" for xs :: "org_member_role list" and n
    using le_trans [OF length_filter_le that] .
  moreover have "member_of db' mr = member_of db mr" for mr by (simp add: member_of_def assms(2))
  ultimately show ?thesis using assms(1) unfolding roles_ok_def rows assms(3) by (simp add: distinct_map_filter)
qed

lemma delete_member_ok:
  assumes ok: "org_ok A db"
  shows "org_ok A (delete_member i uid db)"
proof -
  let ?db = "delete_member i uid db"
  let ?K = "\<lambda>m. \<not> is_member i uid m"
  have ms: "org_members ?db = filter ?K (org_members db)" and gs: "organizations ?db = organizations db" by (simp_all add: delete_member_def)
  have "length (filter (\<lambda>m. m_org m = k) (filter ?K xs)) \<le> n" if "length (filter (\<lambda>m. m_org m = k) xs) \<le> n" for k xs n
    using that length_filter_le [of ?K "filter (\<lambda>m. m_org m = k) xs"] by (simp add: conj_commute)
  then have "members_ok ?db" using ok unfolding org_ok_def members_ok_def ms gs by (simp add: distinct_map_filter del: filter_filter)
  moreover have "orgs_ok ?db = orgs_ok db" by (rule tables_frame) (simp_all add: delete_member_def)
  moreover have "roles_ok A ?db"
  proof -
    have "roles_ok A (db\<lparr>org_member_roles := org_member_roles ?db\<rparr>)"
      by (rule drop_roles_ok [of A db]) (use ok in \<open>auto simp: org_ok_def delete_member_def\<close>)
    moreover have "member_of ?db mr" if "mr \<in> set (org_member_roles ?db)" "member_of db mr" for mr
      using that by (auto simp: member_of_def delete_member_def is_member_def)
    ultimately show ?thesis by (simp add: roles_ok_def member_role_rows_def member_of_def)
  qed
  ultimately show ?thesis using ok by (simp add: org_ok_def)
qed

lemma Remove_ok: "org_ok A (og_db st) \<Longrightarrow> org_ok A (og_db (snd (RemoveMember E fl now sc ref uid st)))"
  by (auto simp: RemoveMember_def intro: delete_member_ok split: sum.splits)

lemma RemoveRole_ok:
  assumes "org_ok A (og_db st)"
  shows "org_ok A (og_db (snd (RemoveMemberRole E fl now sc ref uid name st)))"
proof -
  have "org_ok A ((og_db st)\<lparr>org_member_roles := filter P (org_member_roles (og_db st))\<rparr>)" for P
    using assms drop_roles_ok [of A "og_db st" "(og_db st)\<lparr>org_member_roles := filter P (org_member_roles (og_db st))\<rparr>" P]
      tables_frame [of "(og_db st)\<lparr>org_member_roles := filter P (org_member_roles (og_db st))\<rparr>" "og_db st"]
    by (simp add: org_ok_def)
  then show ?thesis using assms by (simp add: RemoveMemberRole_def Let_def split: sum.splits)
qed

subsection \<open>Roles\<close>

lemma fold_update_map:
  "map_of (fold (\<lambda>(n, i) m. AList.update n i m) ps acc) = map_of acc ++ map_of (rev ps)"
  by (induction ps arbitrary: acc) (auto simp: update_conv' map_add_def fun_eq_iff split: option.splits)

lemma held_roles_row:
  assumes ok: "roles_ok A db" and mr: "mr \<in> set (member_role_rows i u db)" "role_of A mr = Some r"
  shows "(r_name r, r_id r) \<in> set (held_roles A i u db)"
proof -
  let ?g = "\<lambda>mr. map_option (\<lambda>r. (r_name r, r_id r)) (role_of A mr)"
  let ?rows = "member_role_rows i u db"
  have all: "\<forall>x \<in> set ?rows. role_of A x \<noteq> None" using ok by (auto simp: roles_ok_def member_role_rows_def)
  have ps: "List.map_filter ?g xs = map (\<lambda>x. (r_name (the (role_of A x)), r_id (the (role_of A x)))) xs"
    if "\<forall>x \<in> set xs. role_of A x \<noteq> None" for xs using that by (induction xs) (auto simp: List.map_filter_simps)
  have nm: "map (role_name_of A) xs = map (\<lambda>x. Some (r_name (the (role_of A x)))) xs"
    if "\<forall>x \<in> set xs. role_of A x \<noteq> None" for xs using that by (auto simp: role_name_of_def)
  have "distinct (map (role_name_of A) ?rows)" using ok by (simp add: roles_ok_def)
  then have "distinct (map (\<lambda>x. r_name (the (role_of A x))) ?rows)"
    unfolding nm [OF all] by (simp add: distinct_map inj_on_def)
  then have d: "distinct (map fst (List.map_filter ?g ?rows))" unfolding ps [OF all] by (simp add: comp_def)
  have "(r_name r, r_id r) \<in> set (List.map_filter ?g ?rows)" unfolding ps [OF all] using mr by force
  with d have "map_of (rev (List.map_filter ?g ?rows)) (r_name r) = Some (r_id r)"
    by (simp add: map_of_eq_Some_iff rev_map [symmetric])
  then have "map_of (held_roles A i u db) (r_name r) = Some (r_id r)"
    unfolding held_roles_def fold_update_map by simp
  then show ?thesis by (rule map_of_SomeD)
qed

lemma normalise_loop_distinct: "distinct (normalise_loop seen xs) \<and> set (normalise_loop seen xs) \<inter> set seen = {}"
  by (induction seen xs rule: normalise_loop.induct) (auto simp: Let_def)

lemma normaliseRoleNames_distinct [simp]: "distinct (normaliseRoleNames xs)"
  using normalise_loop_distinct [of "[]" xs] by (simp add: normaliseRoleNames_def)

lemma resolveApplicationRoles_InrD:
  assumes "resolveApplicationRoles E fl sc names = Inr ids" "n \<in> set names"
  obtains r where "ids n = Some (r_id r)" "r \<in> set (roles (og_authority E))" "app_role sc n r"
proof -
  from assms have "ids n \<noteq> None" "ids n = map_option r_id (find (app_role sc n) (rev (roles (og_authority E))))"
    by (auto simp: resolveApplicationRoles_def Let_def split: if_splits)
  then obtain r where r: "find (app_role sc n) (rev (roles (og_authority E))) = Some r" "ids n = Some (r_id r)" by auto
  from r(1) have "r \<in> set (rev (roles (og_authority E)))" "app_role sc n r" by (auto simp: find_Some_iff) (metis length_rev nth_mem set_rev)
  with r that show thesis by simp
qed

lemma role_of_id:
  assumes "distinct (map r_id (roles A))" "r \<in> set (roles A)" "mr_role mr = r_id r"
  shows "role_of A mr = Some r"
  using find_key_mem [OF assms(1,2)] assms(3) by (simp add: role_of_def)

text \<open>New role rows of a member may be added when their names are new and the limit is kept.\<close>

lemma add_roles_ok:
  assumes ok: "roles_ok A db" and db': "org_members db' = org_members db" "org_member_roles db' = filter P (org_member_roles db) @ fresh"
    and fresh: "\<And>mr. mr \<in> set fresh \<Longrightarrow> mr_org mr = i \<and> mr_user mr = u \<and> role_of A mr \<noteq> None \<and> member_of db mr"
    and names: "distinct (map (role_name_of A) fresh)"
      "role_name_of A ` set fresh \<inter> role_name_of A ` set (filter P (member_role_rows i u db)) = {}"
    and lim: "length (filter P (member_role_rows i u db)) + length fresh \<le> MaxOrganizationRolesPerMember"
  shows "roles_ok A db'"
proof -
  let ?base = "db\<lparr>org_member_roles := filter P (org_member_roles db)\<rparr>"
  have base: "roles_ok A ?base" by (rule drop_roles_ok [OF ok]) simp_all
  have rows: "member_role_rows k v db' = member_role_rows k v ?base @ (if k = i \<and> v = u then fresh else [])" for k v
    using fresh by (auto simp: member_role_rows_def db'(2) filter_id_conv filter_empty_conv)
  have rows_i: "member_role_rows i u ?base = filter P (member_role_rows i u db)" by (simp add: member_role_rows_def conj_commute)
  have "distinct (map (role_name_of A) (member_role_rows k v db')) \<and> length (member_role_rows k v db') \<le> MaxOrganizationRolesPerMember" for k v
  proof (cases "k = i \<and> v = u")
    case True
    from base have "distinct (map (role_name_of A) (filter P (member_role_rows i u db)))"
      unfolding roles_ok_def rows_i [symmetric] by blast
    with names lim True show ?thesis unfolding rows by (simp add: rows_i Int_commute)
  next
    case False
    with base show ?thesis unfolding rows if_not_P [OF False] by (simp add: roles_ok_def)
  qed
  moreover have "role_of A mr \<noteq> None \<and> member_of db' mr" if "mr \<in> set (org_member_roles db')" for mr
    using that fresh ok by (auto simp: db' roles_ok_def member_of_def)
  ultimately show ?thesis by (simp add: roles_ok_def)
qed

lemma assignRolesTx_ok:
  assumes ok: "org_ok (og_authority E) db" and ids_distinct: "distinct (map r_id (roles (og_authority E)))"
    and g: "g \<in> set (organizations db)" "o_id g = i" "org_in_scope sc g"
    and run: "assignRolesTx E fl now sc i u requested replace by db = Inr (x, db')"
  shows "org_ok (og_authority E) db'"
proof -
  let ?A = "og_authority E" and ?names = "normaliseRoleNames requested"
  define held where "held = held_roles ?A i u db"
  define dropped where "dropped = (if replace then filter (\<lambda>(n, i). n \<notin> set ?names) held else [])"
  define kept where "kept = (if replace then filter (\<lambda>(n, i). n \<in> set ?names) held else held)"
  define assigned where "assigned = filter (\<lambda>n. n \<notin> set (map fst kept)) ?names"
  define P :: "org_member_role \<Rightarrow> bool" where "P = (\<lambda>mr. \<not> (mr_org mr = i \<and> mr_user mr = u \<and> mr_role mr \<in> set (map snd dropped)))"
  define mk where "mk = (\<lambda>j. \<lparr>mr_org = i, mr_user = u, mr_role = j, mr_app = sp_AppRowID sc,
      mr_tenant = sp_TenantID sc, mr_granted_by = by, mr_granted_at = now\<rparr>)"
  from run obtain ids where ids: "resolveApplicationRoles E fl sc ?names = Inr ids"
    by (cases "resolveApplicationRoles E fl sc ?names") (simp_all add: assignRolesTx_def)
  define new where "new = filter (\<lambda>n. \<not> (\<exists>mr \<in> set (filter P (org_member_roles db)). mr_org mr = i \<and> mr_user mr = u \<and> Some (mr_role mr) = ids n)) assigned"
  define fresh where "fresh = map (\<lambda>n. mk (the (ids n))) new"
  have "assignRolesTx E fl now sc i u requested replace by db =
      (if fl ''verify member'' then Inl (Wrapped ''verify member'')
       else if \<not> (\<exists>m \<in> set (org_members db). m_org m = i \<and> m_user m = u \<and> m_app m = sp_AppRowID sc) then Inl ErrOrganizationMemberNotFound
       else if fl ''load member roles'' then Inl (Wrapped ''load member roles'')
       else if dropped \<noteq> [] \<and> fl ''remove member roles'' then Inl (Wrapped ''remove member roles'')
       else if MaxOrganizationRolesPerMember < length kept + length assigned then Inl ErrOrganizationRoleLimitReached
       else if assigned \<noteq> [] \<and> fl ''grant member role'' then Inl (Wrapped ''grant member role'')
       else Inr ((assigned, map fst dropped), db\<lparr>org_member_roles := filter P (org_member_roles db) @ fresh\<rparr>))"
    unfolding assignRolesTx_def Let_def ids sum.case fresh_def new_def mk_def P_def assigned_def kept_def dropped_def held_def by (rule refl)
  with run have mem: "\<exists>m \<in> set (org_members db). m_org m = i \<and> m_user m = u \<and> m_app m = sp_AppRowID sc"
    and lim: "length kept + length assigned \<le> MaxOrganizationRolesPerMember"
    and db': "db' = db\<lparr>org_member_roles := filter P (org_member_roles db) @ fresh\<rparr>"
    by (auto simp: not_less split: if_splits)
  have fresh_name: "role_of ?A (mk (the (ids n))) \<noteq> None \<and> role_name_of ?A (mk (the (ids n))) = Some n" if "n \<in> set ?names" for n
  proof -
    from resolveApplicationRoles_InrD [OF ids that] obtain r where r: "ids n = Some (r_id r)" "r \<in> set (roles ?A)" "app_role sc n r" .
    have "role_of ?A (mk (the (ids n))) = Some r" by (rule role_of_id [OF ids_distinct r(2)]) (simp add: r(1) mk_def)
    with r(3) show ?thesis by (simp add: role_name_of_def app_role_def)
  qed
  have new_names: "map (role_name_of ?A) fresh = map Some new" "set new \<subseteq> set assigned" "distinct new"
    using fresh_name by (auto simp: fresh_def new_def assigned_def)
  have left: "role_name_of ?A mr \<in> Some ` fst ` set kept" if mr: "mr \<in> set (filter P (member_role_rows i u db))" for mr
  proof -
    from mr ok obtain r where r: "role_of ?A mr = Some r" by (auto simp: org_ok_def roles_ok_def member_role_rows_def)
    with mr ok have h: "(r_name r, r_id r) \<in> set held" unfolding held_def by (intro held_roles_row) (auto simp: org_ok_def)
    have "mr_role mr = r_id r" using r by (auto simp: role_of_def find_Some_iff)
    then have "(r_name r, r_id r) \<in> set kept" using h mr
      by (auto simp: kept_def dropped_def P_def member_role_rows_def image_iff split: if_splits)
    then show ?thesis using r by (force simp: role_name_of_def)
  qed
  have "length (filter P (member_role_rows i u db)) \<le> length kept"
  proof -
    have "distinct (map (role_name_of ?A) (filter P (member_role_rows i u db)))"
      using ok by (simp add: org_ok_def roles_ok_def distinct_map_filter)
    then have "length (filter P (member_role_rows i u db)) = card (role_name_of ?A ` set (filter P (member_role_rows i u db)))"
      using distinct_card by fastforce
    also have "\<dots> \<le> card (Some ` fst ` set kept)" using left by (intro card_mono) auto
    also have "\<dots> \<le> length kept" by (metis card_length image_image length_map set_map)
    finally show ?thesis .
  qed
  moreover have "length fresh \<le> length assigned" by (simp add: fresh_def new_def)
  ultimately have len: "length (filter P (member_role_rows i u db)) + length fresh \<le> MaxOrganizationRolesPerMember" using lim by simp
  have own: "member_of db (mk j)" for j
  proof -
    from mem obtain m where m: "m \<in> set (org_members db)" "m_org m = i" "m_user m = u" "m_app m = sp_AppRowID sc" by blast
    with ok obtain h where h: "h \<in> set (organizations db)" "o_id h = i" "o_tenant h = m_tenant m"
      by (auto simp: org_ok_def members_ok_def)
    have "h = g" using ok h(1,2) g(1,2) by (auto simp: org_ok_def orgs_ok_def distinct_map dest: inj_onD)
    with h g(3) m show ?thesis by (auto simp: member_of_def mk_def org_in_scope_def)
  qed
  have "roles_ok ?A db'"
  proof (rule add_roles_ok [where P = P and fresh = fresh and i = i and u = u])
    show "roles_ok ?A db" using ok by (simp add: org_ok_def)
    show "org_members db' = org_members db" "org_member_roles db' = filter P (org_member_roles db) @ fresh" by (simp_all add: db')
    show "mr_org mr = i \<and> mr_user mr = u \<and> role_of ?A mr \<noteq> None \<and> member_of db mr" if "mr \<in> set fresh" for mr
      using that own fresh_name new_names(2) by (auto simp: fresh_def assigned_def) (auto simp: mk_def)
    show "distinct (map (role_name_of ?A) fresh)" unfolding new_names(1) using new_names(3) by (simp add: distinct_map)
    have "role_name_of ?A ` set fresh = Some ` set new" using new_names(1) by (metis list.set_map)
    moreover have "role_name_of ?A ` set (filter P (member_role_rows i u db)) \<subseteq> Some ` fst ` set kept" using left by blast
    moreover have "Some ` set new \<inter> Some ` fst ` set kept = {}" using new_names(2) by (auto simp: assigned_def)
    ultimately show "role_name_of ?A ` set fresh \<inter> role_name_of ?A ` set (filter P (member_role_rows i u db)) = {}" by blast
    show "length (filter P (member_role_rows i u db)) + length fresh \<le> MaxOrganizationRolesPerMember" by (rule len)
  qed
  then show ?thesis using ok tables_frame [of db' db] by (simp add: org_ok_def db')
qed

lemma AssignRoles_ok:
  assumes "org_ok (og_authority E) (og_db st)" "distinct (map r_id (roles (og_authority E)))"
  shows "org_ok (og_authority E) (og_db (snd (AssignMemberRoles E fl now sc ref uid requested replace by st)))"
proof -
  have "org_ok (og_authority E) db" if "getOrganization l fl sc ref (og_db st) = Inr org"
    "assignRolesTx E fl now sc (on_rowID org) uid requested replace by (og_db st) = Inr (x, db)" for l org x db
    using that(1) by (rule getOrganization_InrD) (rule assignRolesTx_ok [OF assms _ _ _ that(2)], simp_all add: scanOrganization_def)
  then show ?thesis using assms(1) by (auto simp: AssignMemberRoles_def Let_def split: sum.splits)
qed

lemma AddMember_ok:
  assumes "org_ok (og_authority E) (og_db st)" "distinct (map r_id (roles (og_authority E)))"
  shows "org_ok (og_authority E) (og_db (snd (AddMember E fl now sc ref uid requested by st)))"
proof -
  have one: "org_ok (og_authority E) db1 \<and> (assignRolesTx E fl now sc (on_rowID org) uid requested False by db1 = Inr (x, db2) \<longrightarrow> org_ok (og_authority E) db2)"
    if "getOrganization l fl sc ref (og_db st) = Inr org" "addMemberTx E fl now sc (on_rowID org) uid by (og_db st) = Inr (c, db1)" for l org c db1 x db2
  proof -
    from that(1) obtain g where g: "g \<in> set (organizations (og_db st))" "org_in_scope sc g" "org = scanOrganization (og_db st) g"
      by (rule getOrganization_InrD)
    have id: "o_id g = on_rowID org" by (simp add: g(3) scanOrganization_def)
    note add = addMemberTx_ok [OF assms(1) g(1) id g(2) that(2)]
    show ?thesis using add assignRolesTx_ok [OF add(1) assms(2) g(1) [folded add(2)] id g(2)] by blast
  qed
  show ?thesis
  proof (cases "AddMember E fl now sc ref uid requested by st")
    case (Pair res st')
    then show ?thesis using assms(1) one
      by (auto simp: AddMember_def Let_def split: sum.splits if_splits)
  qed
qed

subsection \<open>Any sequence of operations\<close>

datatype org_op =
    OpCreate "nat list option" OrganizationScope CreateOrganizationInput
  | OpUpdate OrganizationScope string UpdateOrganizationInput
  | OpDelete OrganizationScope string
  | OpMode OrganizationScope string bool
  | OpAdd OrganizationScope string int "string list" "int option"
  | OpStatus OrganizationScope string int string
  | OpRemove OrganizationScope string int
  | OpAssign OrganizationScope string int "string list" bool "int option"
  | OpRemoveRole OrganizationScope string int string

definition do_org :: "'r org_env \<Rightarrow> faults \<Rightarrow> time \<Rightarrow> org_op \<Rightarrow> 'r org_state \<Rightarrow> 'r org_state" where
  "do_org E fl now p st =
     (case p of
        OpCreate draws sc i \<Rightarrow> snd (CreateOrganization E fl now draws sc i st)
      | OpUpdate sc ref i \<Rightarrow> snd (UpdateOrganization E fl now sc ref i st)
      | OpDelete sc ref \<Rightarrow> snd (DeleteOrganization E fl now sc ref st)
      | OpMode sc mode force \<Rightarrow> snd (SetApplicationMode E fl now sc mode force st)
      | OpAdd sc ref uid rs by \<Rightarrow> snd (AddMember E fl now sc ref uid rs by st)
      | OpStatus sc ref uid status \<Rightarrow> snd (SetMemberStatus E fl now sc ref uid status st)
      | OpRemove sc ref uid \<Rightarrow> snd (RemoveMember E fl now sc ref uid st)
      | OpAssign sc ref uid rs replace by \<Rightarrow> snd (AssignMemberRoles E fl now sc ref uid rs replace by st)
      | OpRemoveRole sc ref uid name \<Rightarrow> snd (RemoveMemberRole E fl now sc ref uid name st))"

fun run_orgs :: "'r org_env \<Rightarrow> (faults \<times> time \<times> org_op) list \<Rightarrow> 'r org_state \<Rightarrow> 'r org_state" where
  "run_orgs E [] st = st"
| "run_orgs E ((fl, now, p) # ps) st = run_orgs E ps (do_org E fl now p st)"

lemma do_org_ok:
  assumes "org_ok (og_authority E) (og_db st)" "distinct (map r_id (roles (og_authority E)))"
  shows "org_ok (og_authority E) (og_db (do_org E fl now p st))"
  using assms by (cases p)
    (simp_all add: do_org_def Create_ok Update_ok Delete_ok Mode_ok AddMember_ok Status_ok Remove_ok AssignRoles_ok RemoveRole_ok)

text \<open>
  C11: whatever operations run, in whatever order and with whatever calls failing inside them, the tables of
  organisations stay well formed: identifiers and the live slugs of an application are unique, every membership is of
  a known state and belongs to its organisation's application and tenant, every role is held by a member, no role
  name twice, and no organisation exceeds its member limit nor any member the role limit.
\<close>

theorem organizations_well_formed:
  assumes "org_ok (og_authority E) (og_db st)" "distinct (map r_id (roles (og_authority E)))"
  shows "org_ok (og_authority E) (og_db (run_orgs E ps st))"
  using assms by (induction E ps st rule: run_orgs.induct) (simp_all add: do_org_ok)

subsection \<open>A small organisation for the examples\<close>

text \<open>
  Application 40 of tenant 3 requires an organisation. Its users 7 and 8 are members of the organisation \<^verbatim>\<open>acme\<close>, and
  user 7 of \<^verbatim>\<open>beta\<close> too; sessions 1 and 3 are inside \<^verbatim>\<open>acme\<close>, session 2 is not.
\<close>

definition sample_scope :: OrganizationScope where
  "sample_scope = \<lparr>sp_TenantID = 3, sp_AppRowID = 40\<rparr>"

definition sample_org :: "int \<Rightarrow> string \<Rightarrow> string \<Rightarrow> organization_row" where
  "sample_org i pid slug =
     \<lparr>o_id = i, o_public_id = pid, o_tenant = 3, o_app = 40, o_slug = slug, o_display_name = slug, o_metadata = JObj [], o_active = True,
      o_created_by = None, o_created_at = 0, o_updated_at = 0, o_deleted = None\<rparr>"

definition sample_membership :: "int \<Rightarrow> int \<Rightarrow> org_member" where
  "sample_membership i u =
     \<lparr>m_org = i, m_app = 40, m_user = u, m_tenant = 3, m_status = OrganizationMemberActive, m_invited_by = None, m_joined_at = 0\<rparr>"

definition sample_org_db :: org_db where
  "sample_org_db =
     \<lparr>organizations = [sample_org 1 ''org_ACMEACMEACMEACMEACME'' ''acme'', sample_org 2 ''org_BETABETABETABETABETA'' ''beta''],
      org_members = [sample_membership 1 7, sample_membership 1 8, sample_membership 2 7], org_member_roles = [], org_invitations = [],
      org_apps = [\<lparr>oa_id = 40, oa_tenant = 3, oa_deleted = None, oa_mode = OrganizationsModeRequired\<rparr>], next_org_id = 3\<rparr>"

definition sample_org_env :: "keyspace org_env" where
  "sample_org_env =
     \<lparr>og_service = keyspace_env id, og_enabled = True, og_sessions = True,
      og_authority = sample_authority\<lparr>users := [(sample_user 7 3 None)\<lparr>u_application := Some 40\<rparr>, (sample_user 8 3 None)\<lparr>u_application := Some 40\<rparr>],
                                      roles := [(sample_role 50 3 ''editor'')\<lparr>r_application := Some 40\<rparr>]\<rparr>\<rparr>"

definition sample_org_sessions :: session_db where
  "sample_org_sessions =
     sample_db\<lparr>sessions := [(sample_session 1 7 10)\<lparr>us_org := Some 1\<rparr>, sample_session 2 7 20, (sample_session 3 8 30)\<lparr>us_org := Some 1\<rparr>]\<rparr>"

definition sample_org_state :: "keyspace org_state" where
  "sample_org_state = \<lparr>og_db = sample_org_db, og_auth = \<lparr>st_db = sample_org_sessions, st_redis = Map.empty\<rparr>\<rparr>"

lemmas sample_org_defs = sample_org_state_def sample_org_db_def sample_org_def sample_membership_def sample_scope_def
  sample_org_env_def sample_user_def sample_role_def

lemma sample_org_ok: "org_ok (og_authority sample_org_env) (og_db sample_org_state)"
proof -
  have "orgs_ok sample_org_db" unfolding orgs_ok_def by (simp add: sample_org_db_def sample_org_def) code_simp
  moreover have "members_ok sample_org_db"
    by (simp add: members_ok_def sample_org_db_def sample_org_def sample_membership_def MaxMembersPerOrganization_def)
  moreover have "roles_ok A sample_org_db" for A by (simp add: roles_ok_def sample_org_db_def member_role_rows_def)
  ultimately show ?thesis by (simp add: org_ok_def sample_org_state_def)
qed

lemma sample_org_roles: "distinct (map r_id (roles (og_authority sample_org_env)))"
  by (simp add: sample_org_env_def sample_role_def)

text \<open>User 7 is made an editor of \<^verbatim>\<open>acme\<close>, user 8 is suspended, and \<^verbatim>\<open>beta\<close> is deleted.\<close>

definition sample_org_ops :: "(faults \<times> time \<times> org_op) list" where
  "sample_org_ops =
     [(no_faults, 100, OpAssign sample_scope ''acme'' 7 ['' editor'', ''editor''] False (Some 7)),
      (no_faults, 101, OpStatus sample_scope ''acme'' 8 ''suspended''), (no_faults, 102, OpDelete sample_scope ''beta'')]"

theorem organizations_well_formed_witness:
  "org_ok (og_authority sample_org_env) (og_db (run_orgs sample_org_env sample_org_ops sample_org_state))
   \<and> member_roles (og_authority sample_org_env) 1 7 (og_db (run_orgs sample_org_env sample_org_ops sample_org_state)) = [''editor'']"
proof
  show "org_ok (og_authority sample_org_env) (og_db (run_orgs sample_org_env sample_org_ops sample_org_state))"
    by (rule organizations_well_formed [OF sample_org_ok sample_org_roles])
  show "member_roles (og_authority sample_org_env) 1 7 (og_db (run_orgs sample_org_env sample_org_ops sample_org_state)) = [''editor'']"
    by code_simp
qed

end
