(* ===== verification/OrgAccess.thy ===== *)
theory OrgAccess
  imports OrgInvariant
begin

text \<open>
  Who may sign in to an organisation, and what ends when that changes: theorems about \<open>Organization\<close> over the
  session tables and the denylist.
\<close>

subsection \<open>Revoking a list of sessions\<close>

definition session_of_row :: "session_db \<Rightarrow> int \<times> int \<times> int \<Rightarrow> bool" where
  "session_of_row db row = (case row of (i, u, n) \<Rightarrow>
     int64_range i \<and> (\<exists>s. find_session i db = Some s \<and> us_user s = u \<and> us_tenant s = n \<and> us_revoked_at s = None))"

lemma revokeSessionRows_step:
  "revokeSession E fl now u n i RevokeReasonOrganization st = (Inr 1, st1) \<Longrightarrow>
   revokeSessionRows E fl now ((i, u, n) # rows) st =
     (fst (revokeSessionRows E fl now rows st1) + 1, snd (revokeSessionRows E fl now rows st1))"
  by (simp add: case_prod_beta)

context auth_service
begin

lemma revokeSession_keeps_denied:
  assumes "now \<le> t" "t < now + AccessTokenTTL" "rget (env_redis E) (st_redis st) t k \<noteq> None"
  shows "rget (env_redis E) (st_redis (snd (revokeSession E fl now u n i r st))) t k \<noteq> None"
  using assms by (cases rule: revokeSession_cases [of E fl now u n i r st]) (auto simp: get_denySession)

lemma revokeSessionRows_keeps_denied:
  assumes "now \<le> t" "t < now + AccessTokenTTL"
  shows "rget (env_redis E) (st_redis st) t k \<noteq> None \<Longrightarrow>
    rget (env_redis E) (st_redis (snd (revokeSessionRows E fl now rows st))) t k \<noteq> None"
proof (induction rows arbitrary: st)
  case (Cons row rows)
  obtain i u n where row: "row = (i, u, n)" by (cases row)
  from Cons.IH [OF revokeSession_keeps_denied [OF assms Cons.prems, of fl u n i RevokeReasonOrganization]] show ?case
    by (simp add: row case_prod_beta)
qed simp

text \<open>Each listed session is stamped once and denied; every other session stays as it was.\<close>

lemma revokeSessionRows_effect:
  assumes "redisCli E" "session_db_ok (st_db st)" "distinct (map fst rows)" "list_all (session_of_row (st_db st)) rows"
    and "revokeSessionRows E no_faults now rows st = (k, st')"
  shows "k = int (length rows) \<and> session_db_ok (st_db st')
    \<and> (\<forall>i. find_session i (st_db st') = (if i \<in> fst ` set rows then map_option (stamp_session now RevokeReasonOrganization) (find_session i (st_db st))
                                          else find_session i (st_db st)))
    \<and> (\<forall>i \<in> fst ` set rows. \<forall>t. now \<le> t \<longrightarrow> t < now + AccessTokenTTL \<longrightarrow> rget (env_redis E) (st_redis st') t (sessionDenyKey i) \<noteq> None)"
  using assms(2-5)
proof (induction rows arbitrary: st k)
  case (Cons row rows)
  obtain i u n where row: "row = (i, u, n)" by (cases row)
  with Cons.prems(3) obtain s where i: "int64_range i" and s: "find_session i (st_db st) = Some s" "us_user s = u" "us_tenant s = n" "us_revoked_at s = None"
    by (auto simp: session_of_row_def)
  obtain res st1 where run1: "revokeSession E no_faults now u n i RevokeReasonOrganization st = (res, st1)" by fastforce
  note one = revokeSession_effect [OF auth_service_axioms assms(1) Cons.prems(1) i s run1]
  define k' where "k' = fst (revokeSessionRows E no_faults now rows st1)"
  have run2: "revokeSessionRows E no_faults now rows st1 = (k', st')" and k: "k = k' + 1"
    using Cons.prems(4) revokeSessionRows_step [OF run1 [unfolded conjunct1 [OF one]], of rows] by (simp_all only: row k'_def prod_eq_iff fst_conv snd_conv)
  have other: "find_session j (st_db st1) = find_session j (st_db st)" if "j \<noteq> i" for j using one that by blast
  have notin: "i \<notin> fst ` set rows" "distinct (map fst rows)" using Cons.prems(2) by (auto simp: row)
  have "list_all (session_of_row (st_db st1)) rows"
    unfolding list_all_iff
  proof
    fix x assume x: "x \<in> set rows"
    obtain j v m where jvm: "x = (j, v, m)" by (cases x)
    have "j \<noteq> i" using x notin(1) jvm by force
    moreover have "session_of_row (st_db st) x" using Cons.prems(3) x by (simp add: list_all_iff)
    ultimately show "session_of_row (st_db st1) x" by (simp add: session_of_row_def jvm other)
  qed
  from Cons.IH [OF _ notin(2) this run2] one have IH: "k' = int (length rows)" "session_db_ok (st_db st')"
    "\<And>j. find_session j (st_db st') = (if j \<in> fst ` set rows then map_option (stamp_session now RevokeReasonOrganization) (find_session j (st_db st1))
                                          else find_session j (st_db st1))"
    "\<And>j t. j \<in> fst ` set rows \<Longrightarrow> now \<le> t \<Longrightarrow> t < now + AccessTokenTTL \<Longrightarrow> rget (env_redis E) (st_redis st') t (sessionDenyKey j) \<noteq> None"
    by auto
  have find: "find_session j (st_db st') = (if j \<in> fst ` set (row # rows) then map_option (stamp_session now RevokeReasonOrganization) (find_session j (st_db st))
                                          else find_session j (st_db st))" for j
    using IH(3) [of j] one notin(1) other [of j] by (cases "j = i") (auto simp: row s(1))
  have "rget (env_redis E) (st_redis st1) t (sessionDenyKey i) \<noteq> None" if "now \<le> t" "t < now + AccessTokenTTL" for t
  proof -
    have "SessionDenied E no_faults t (FormatInt i) [] [] 0 st1" using one that by blast
    then show ?thesis using i by (auto simp: SessionDenied_def ParseInt_FormatInt Let_def split: if_splits)
  qed
  then have "rget (env_redis E) (st_redis st') t (sessionDenyKey i) \<noteq> None" if "now \<le> t" "t < now + AccessTokenTTL" for t
    using revokeSessionRows_keeps_denied [of now t st1 "sessionDenyKey i" no_faults rows] that run2 by simp
  with IH k find show ?case by (auto simp: row)
qed auto

text \<open>All the unrevoked sessions a query selects, and only they, are ended.\<close>

lemma revoke_collected:
  assumes "redisCli E" "session_db_ok (st_db st)" "\<forall>s \<in> set (sessions (st_db st)). int64_range (us_id s)"
    and run: "revokeSessionRows E no_faults now (collectSessions no_faults hit (st_db st)) st = (k, st')"
  shows "session_db_ok (st_db st')
    \<and> (\<forall>s \<in> set (sessions (st_db st')). \<exists>s0 \<in> set (sessions (st_db st)).
         s = (if hit s0 \<and> us_revoked_at s0 = None then stamp_session now RevokeReasonOrganization s0 else s0))
    \<and> (\<forall>s0 \<in> set (sessions (st_db st)). if hit s0 \<and> us_revoked_at s0 = None
         then \<forall>t uid tid iat. now \<le> t \<longrightarrow> t < now + AccessTokenTTL \<longrightarrow> SessionDenied E no_faults t (FormatInt (us_id s0)) uid tid iat st'
         else s0 \<in> set (sessions (st_db st')))"
proof -
  let ?P = "\<lambda>s. hit s \<and> us_revoked_at s = None" and ?db = "st_db st"
  let ?rows = "collectSessions no_faults hit ?db"
  have rows: "?rows = map (\<lambda>s. (us_id s, us_user s, us_tenant s)) (filter ?P (sessions ?db))" by (simp add: collectSessions_def)
  have ids: "distinct (map us_id (sessions ?db))" using assms(2) by (simp add: session_db_ok_def)
  have d: "distinct (map fst ?rows)" using ids by (simp add: rows comp_def distinct_map_filter)
  have la: "list_all (session_of_row ?db) ?rows"
    using assms(3) find_session_mem [OF assms(2)] by (auto simp: rows list_all_iff session_of_row_def)
  have inrows: "us_id s \<in> fst ` set ?rows \<longleftrightarrow> ?P s" if "s \<in> set (sessions ?db)" for s
  proof
    assume "us_id s \<in> fst ` set ?rows"
    then obtain s' where "s' \<in> set (sessions ?db)" "?P s'" "us_id s' = us_id s" by (auto simp: rows)
    with session_unique [OF assms(2) _ that] show "?P s" by blast
  next
    assume "?P s"
    with that show "us_id s \<in> fst ` set ?rows" by (force simp: rows)
  qed
  note eff = revokeSessionRows_effect [OF assms(1,2) d la run]
  then have ok': "session_db_ok (st_db st')"
    and find: "\<And>i. find_session i (st_db st') = (if i \<in> fst ` set ?rows then map_option (stamp_session now RevokeReasonOrganization) (find_session i ?db)
                                          else find_session i ?db)"
    and den: "\<And>i t. i \<in> fst ` set ?rows \<Longrightarrow> now \<le> t \<Longrightarrow> t < now + AccessTokenTTL \<Longrightarrow> rget (env_redis E) (st_redis st') t (sessionDenyKey i) \<noteq> None"
    by auto
  have "\<exists>s0 \<in> set (sessions ?db). s = (if ?P s0 then stamp_session now RevokeReasonOrganization s0 else s0)" if s: "s \<in> set (sessions (st_db st'))" for s
  proof -
    from find_session_mem [OF ok' s] find [of "us_id s"] obtain s0 where s0: "find_session (us_id s) ?db = Some s0"
      "s = (if us_id s \<in> fst ` set ?rows then stamp_session now RevokeReasonOrganization s0 else s0)" by (auto split: if_splits)
    from find_session_Some [OF s0(1)] have m: "s0 \<in> set (sessions ?db)" "us_id s0 = us_id s" by auto
    have "us_id s \<in> fst ` set ?rows \<longleftrightarrow> ?P s0" using inrows [OF m(1)] m(2) by simp
    with s0(2) have "s = (if ?P s0 then stamp_session now RevokeReasonOrganization s0 else s0)" by argo
    with m(1) show ?thesis by blast
  qed
  moreover have "if ?P s0 then \<forall>t uid tid iat. now \<le> t \<longrightarrow> t < now + AccessTokenTTL \<longrightarrow> SessionDenied E no_faults t (FormatInt (us_id s0)) uid tid iat st'
      else s0 \<in> set (sessions (st_db st'))" if s0: "s0 \<in> set (sessions ?db)" for s0
  proof (cases "?P s0")
    case True
    with inrows [OF s0] den assms(1,3) s0 show ?thesis
      by (auto simp: SessionDenied_def ParseInt_FormatInt Let_def split: option.splits)
  next
    case False
    then have "find_session (us_id s0) (st_db st') = Some s0"
      using inrows [OF s0] find [of "us_id s0"] find_session_mem [OF assms(2) s0] by argo
    then have "s0 \<in> set (sessions (st_db st'))" using find_session_Some by blast
    then show ?thesis unfolding if_not_P [OF False] .
  qed
  ultimately show ?thesis using ok' by blast
qed

end

subsection \<open>Which organisation a session may be bound to\<close>

lemma activeMembershipRefs_mem:
  assumes ok: "members_ok db" "orgs_ok db" and run: "activeMembershipRefs fl uid app db = Inr refs" "c \<in> set refs"
  shows "\<exists>g \<in> set (organizations db). c = org_ref g \<and> may_sign_in db uid app g"
proof -
  from run obtain g m where g: "g \<in> set (organizations db)" "c = org_ref g" "o_deleted g = None" "o_active g"
    and m: "m \<in> set (org_members db)" "m_org m = o_id g" "m_user m = uid" "m_app m = app" "m_status m = OrganizationMemberActive"
    by (auto simp: activeMembershipRefs_def split: if_splits)
  from ok(1) m(1) obtain h where h: "h \<in> set (organizations db)" "o_id h = m_org m" "o_app h = m_app m" by (auto simp: members_ok_def)
  have "h = g" using ok(2) h g(1) m(2) by (auto simp: orgs_ok_def distinct_map dest: inj_onD)
  with g m h show ?thesis by (auto simp: may_sign_in_def)
qed

lemma DecideOrganization_cases:
  assumes run: "DecideOrganization E fl uid app requested personal db = Inr d"
  obtains (free) "od_OrgRowID d = None" "od_Choices d = []"
      "ApplicationMode E fl app db \<noteq> Inr OrganizationsModeRequired \<or> userApplicationID E fl uid \<noteq> Inr (Some app)"
    | (named) i x where "od_OrgRowID d = Some i" "od_Choices d = []" "loadMintOrganization E fl i uid app db = Inr x"
    | (only) r where "od_OrgRowID d = Some (or_rowID r)" "od_Choices d = []" "activeMembershipRefs fl uid app db = Inr [r]"
    | (choose) refs where "od_OrgRowID d = None" "od_Choices d = refs" "activeMembershipRefs fl uid app db = Inr refs" "2 \<le> length refs"
proof -
  have modes: "OrganizationsModeRequired \<noteq> OrganizationsModeOff" "OrganizationsModeRequired \<noteq> OrganizationsModeOptional"
    by (simp_all add: OrganizationsModeRequired_def OrganizationsModeOff_def OrganizationsModeOptional_def)
  note def = DecideOrganization_def Let_def
  obtain mode where mode: "ApplicationMode E fl app db = Inr mode" using run by (cases "ApplicationMode E fl app db") (simp_all add: def)
  show thesis
  proof (cases "mode = OrganizationsModeOff")
    case True
    with run mode modes free show thesis by (auto simp: def)
  next
    case False
    then obtain ua where ua: "userApplicationID E fl uid = Inr ua" using run mode by (cases "userApplicationID E fl uid") (simp_all add: def)
    show thesis
    proof (cases "ua = Some app")
      case mine: True
      consider (req) "TrimSpace requested \<noteq> []" | (pers) "TrimSpace requested = []" "personal \<or> mode = OrganizationsModeOptional"
        | (list) "TrimSpace requested = []" "\<not> personal" "mode \<noteq> OrganizationsModeOptional" by blast
      then show thesis
      proof cases
        case req
        with run mode False ua mine named show thesis by (auto simp: def split: sum.splits)
      next
        case pers
        with run mode False ua mine modes free show thesis by (auto simp: def split: if_splits)
      next
        case list
        with run mode False ua mine obtain refs where refs: "activeMembershipRefs fl uid app db = Inr refs"
          by (cases "activeMembershipRefs fl uid app db") (simp_all add: def)
        with run mode False ua mine list only choose show thesis by (auto simp: def split: list.splits)
      qed
    qed (use run mode ua False free in \<open>auto simp: def\<close>)
  qed
qed

lemma DecideOrganization_bound:
  assumes ok: "members_ok db" "orgs_ok db" and run: "DecideOrganization E fl uid app requested personal db = Inr d" and i: "od_OrgRowID d = Some i"
  shows "\<exists>g \<in> set (organizations db). o_id g = i \<and> may_sign_in db uid app g"
  using run
proof (cases rule: DecideOrganization_cases)
  case (named j x)
  with i show ?thesis by (auto simp: loadMintOrganization_def find_Some_iff split: if_splits option.splits)
next
  case (only r)
  from activeMembershipRefs_mem [OF ok only(3), of r] obtain g where "g \<in> set (organizations db)" "r = org_ref g" "may_sign_in db uid app g" by auto
  with only i show ?thesis by (auto simp: org_ref_def)
qed (use i in simp_all)

text \<open>
  C12: the decision binds a session to an organisation, or offers a choice of organisations, only among those the user may
  sign in to: live, active, of the application, with an active membership. An application that requires an organisation
  never lets one of its own users in without: the decision binds, offers at least two, or refuses.
\<close>

theorem decide_binds_members:
  assumes ok: "org_ok (og_authority E) db" and run: "DecideOrganization E fl uid app requested personal db = Inr d"
  shows "(\<forall>i. od_OrgRowID d = Some i \<longrightarrow> (\<exists>g \<in> set (organizations db). o_id g = i \<and> may_sign_in db uid app g))
    \<and> (\<forall>c \<in> set (od_Choices d). \<exists>g \<in> set (organizations db). c = org_ref g \<and> may_sign_in db uid app g)
    \<and> (ApplicationMode E fl app db = Inr OrganizationsModeRequired \<longrightarrow> userApplicationID E fl uid = Inr (Some app) \<longrightarrow>
         od_OrgRowID d \<noteq> None \<or> 2 \<le> length (od_Choices d))"
proof -
  have ok': "members_ok db" "orgs_ok db" using ok by (simp_all add: org_ok_def)
  note bound = DecideOrganization_bound [OF ok' run]
  from run show ?thesis
  proof (cases rule: DecideOrganization_cases)
    case (choose refs)
    with activeMembershipRefs_mem [OF ok' choose(3)] bound show ?thesis by simp
  qed (use bound in simp_all)
qed

theorem decide_binds_members_witness:
  "\<exists>d. DecideOrganization sample_org_env no_faults 8 40 [] False (og_db sample_org_state) = Inr d \<and> od_OrgRowID d = Some 1
     \<and> (\<exists>g \<in> set (organizations (og_db sample_org_state)). o_id g = 1 \<and> may_sign_in (og_db sample_org_state) 8 40 g)"
proof -
  let ?d = "\<lparr>od_OrgRowID = Some 1, od_Choices = [], od_applies = True\<rparr>"
  have run: "DecideOrganization sample_org_env no_faults 8 40 [] False (og_db sample_org_state) = Inr ?d" by code_simp
  from decide_binds_members [OF sample_org_ok run] show ?thesis by (intro exI [of _ ?d]) (simp add: run)
qed

subsection \<open>Who may enter an organisation\<close>

definition can_enter :: "org_db \<Rightarrow> int \<Rightarrow> int \<Rightarrow> int \<Rightarrow> bool" where
  "can_enter db i u app \<longleftrightarrow> (\<exists>g \<in> set (organizations db). o_id g = i \<and> may_sign_in db u app g)"

lemma lock_iff_enter: "lockMintMembership no_faults i u app db = None \<longleftrightarrow> can_enter db i u app"
  by (simp add: lockMintMembership_def can_enter_def)

definition keeps_access :: "org_db \<Rightarrow> org_db \<Rightarrow> bool" where
  "keeps_access db db' \<longleftrightarrow> (\<forall>i u app. can_enter db i u app \<longrightarrow> can_enter db' i u app)"

lemma access_refl [simp]: "keeps_access db db" by (simp add: keeps_access_def)

lemma keeps_access_mono:
  assumes "set (organizations db) \<subseteq> set (organizations db')" "set (org_members db) \<subseteq> set (org_members db')"
  shows "keeps_access db db'"
  using assms by (auto simp: keeps_access_def can_enter_def may_sign_in_def)

lemma can_enter_set:
  assumes "\<And>g. o_id (f g) = o_id g"
  shows "can_enter (set_organization j f db) i u app \<longleftrightarrow>
    (\<exists>g \<in> set (organizations db). o_id g = i \<and> may_sign_in db u app (if i = j then f g else g))"
proof -
  let ?F = "\<lambda>g. if o_id g = j then f g else g"
  have orgs: "set (organizations (set_organization j f db)) = ?F ` set (organizations db)"
    by (simp add: set_organization_def update_where_def)
  have same: "may_sign_in (set_organization j f db) = may_sign_in db" by (simp add: fun_eq_iff may_sign_in_def set_organization_def)
  have ids: "o_id (?F g) = o_id g" for g by (simp add: assms)
  have "?F g = (if i = j then f g else g)" if "o_id g = i" for g using that by simp
  then show ?thesis unfolding can_enter_def orgs same bex_simps ids by blast
qed

text \<open>What an operation does to the sessions: nothing, or the end of those inside one organisation whose user lost it.\<close>

definition ends_only :: "'r org_env \<Rightarrow> time \<Rightarrow> 'r org_state \<Rightarrow> 'r org_state \<Rightarrow> int \<Rightarrow> int option \<Rightarrow> bool" where
  "ends_only E now st st' j who \<longleftrightarrow>
     og_auth st' = snd (revokeOrganizationSessions (og_service E) no_faults now j who (og_auth st))
     \<and> (\<forall>u app. who = None \<or> who = Some u \<longrightarrow> \<not> can_enter (og_db st') j u app)
     \<and> (\<forall>i u app. can_enter (og_db st) i u app \<longrightarrow> can_enter (og_db st') i u app \<or> (i = j \<and> (who = None \<or> who = Some u)))"

definition spares :: "'r org_state \<Rightarrow> 'r org_state \<Rightarrow> bool" where
  "spares st st' \<longleftrightarrow> st_db (og_auth st') = st_db (og_auth st) \<and> keeps_access (og_db st) (og_db st')"

lemma deny_member_sessions [simp]: "st_db (og_auth (deny_member E fl now u t st)) = st_db (og_auth st)"
  by (simp add: deny_member_def DenyUserSessions_def)

lemma end_org_sessions_auth:
  "og_sessions E \<Longrightarrow> og_auth (end_org_sessions E fl now j who st) = snd (revokeOrganizationSessions (og_service E) fl now j who (og_auth st))"
  by (simp add: end_org_sessions_def)

lemma can_enter_unique:
  assumes "orgs_ok db" "g \<in> set (organizations db)"
  shows "can_enter db (o_id g) u app \<longleftrightarrow> may_sign_in db u app g"
proof -
  have "h = g" if "h \<in> set (organizations db)" "o_id h = o_id g" for h
    using assms that by (auto simp: orgs_ok_def distinct_map dest: inj_onD)
  then show ?thesis using assms(2) by (auto simp: can_enter_def)
qed

subsection \<open>Each operation\<close>

lemma spares_if: "(\<not> b \<Longrightarrow> spares st (snd x)) \<Longrightarrow> spares st (snd (if b then (y, st) else x))"
  by (simp add: spares_def)

lemma spares_sum: "(\<And>y. x = Inr y \<Longrightarrow> spares st (snd (f y))) \<Longrightarrow> spares st (snd (case x of Inl e \<Rightarrow> (g e, st) | Inr y \<Rightarrow> f y))"
  by (simp add: spares_def split: sum.split)

lemma spares_option: "(\<And>y. x = Some y \<Longrightarrow> spares st (snd (f y))) \<Longrightarrow> spares st (snd (case x of None \<Rightarrow> (g, st) | Some y \<Rightarrow> f y))"
  by (simp add: spares_def split: option.split)

lemma insert_keeps: "insert_organization row db = Some db' \<Longrightarrow> keeps_access db db'"
  by (intro keeps_access_mono) (auto simp: insert_organization_def split: if_splits)

lemma Create_spares: "spares st (snd (CreateOrganization E fl now draws sc i st))"
  unfolding CreateOrganization_def Let_def
  by (intro spares_if spares_sum spares_option) (auto simp: spares_def insert_keeps)

lemma Mode_keeps: "keeps_access (og_db st) (og_db (snd (SetApplicationMode E fl now sc mode force st)))"
proof -
  have "keeps_access db (db\<lparr>org_apps := as\<rparr>)" for db as by (rule keeps_access_mono) simp_all
  then show ?thesis by (auto simp: SetApplicationMode_def Let_def split: sum.splits option.splits)
qed

lemma guard_Inr: "(if b then Inl e else x) = Inr y \<longleftrightarrow> \<not> b \<and> x = Inr y"
  by simp

lemma assignRolesTx_keeps:
  assumes run: "assignRolesTx E fl now sc i u rs replace by db = Inr (x, db')"
  shows "keeps_access db db'"
proof (cases "resolveApplicationRoles E fl sc (normaliseRoleNames rs)")
  case (Inl e)
  with run show ?thesis by (simp add: assignRolesTx_def)
next
  case (Inr ids)
  from run have "\<exists>ms. db' = db\<lparr>org_member_roles := ms\<rparr>"
    unfolding assignRolesTx_def Let_def Inr sum.case guard_Inr sum.inject prod.inject by blast
  then show ?thesis by (intro keeps_access_mono) auto
qed

lemma Assign_spares: "spares st (snd (AssignMemberRoles E fl now sc ref u rs replace by st))"
  by (auto simp: spares_def AssignMemberRoles_def Let_def intro: assignRolesTx_keeps split: sum.splits)

lemma access_trans: "keeps_access a b \<Longrightarrow> keeps_access b c \<Longrightarrow> keeps_access a c" by (simp add: keeps_access_def)

lemma Add_spares: "spares st (snd (AddMember E fl now sc ref u rs by st))"
proof -
  have one: "keeps_access db db'" if "addMemberTx E fl now sc i u by db = Inr (c, db')" for i c db db'
    using that by (intro keeps_access_mono) (auto simp: addMemberTx_def split: sum.splits if_splits)
  have two: "keeps_access db db2" if "addMemberTx E fl now sc i u by db = Inr (c, db1)"
    "assignRolesTx E fl now sc j v qs replace who db1 = Inr (x, db2)" for i c db db1 j v qs replace who x db2
    using access_trans [OF one [OF that(1)] assignRolesTx_keeps [OF that(2)]] .
  show ?thesis
    by (auto simp: spares_def AddMember_def Let_def split: sum.splits if_splits) (blast intro: one two)+
qed

lemma RemoveRole_spares: "spares st (snd (RemoveMemberRole E fl now sc ref u name st))"
proof -
  have "keeps_access db (db\<lparr>org_member_roles := rs\<rparr>)" for db rs by (rule keeps_access_mono) simp_all
  then show ?thesis by (simp add: spares_def RemoveMemberRole_def Let_def split: sum.splits)
qed

lemma Status_effect:
  assumes "og_sessions E"
  shows "spares st (snd (SetMemberStatus E no_faults now sc ref u status st))
    \<or> (\<exists>j. ends_only E now st (snd (SetMemberStatus E no_faults now sc ref u status st)) j (Some u))"
proof -
  let ?db = "og_db st"
  let ?set = "\<lambda>j. ?db\<lparr>org_members := update_where (is_member j u) (\<lambda>m. m\<lparr>m_status := status\<rparr>) (org_members ?db)\<rparr>"
  have other: "can_enter (?set j) i v app \<longleftrightarrow> can_enter ?db i v app" if "i \<noteq> j \<or> v \<noteq> u" for i j v app
  proof -
    have "(\<exists>m \<in> set (org_members (?set j)). m_org m = o_id g \<and> m_user m = v \<and> m_status m = OrganizationMemberActive)
        \<longleftrightarrow> (\<exists>m \<in> set (org_members ?db). m_org m = o_id g \<and> m_user m = v \<and> m_status m = OrganizationMemberActive)" if "o_id g = i" for g
      using that \<open>i \<noteq> j \<or> v \<noteq> u\<close> by (auto simp: update_where_def is_member_def)
    then have "may_sign_in (?set j) v app g = may_sign_in ?db v app g" if "o_id g = i" for g using that unfolding may_sign_in_def by blast
    moreover have "organizations (?set j) = organizations ?db" by simp
    ultimately show ?thesis unfolding can_enter_def by metis
  qed
  have gone: "\<not> can_enter (?set j) j u app" if "status \<noteq> OrganizationMemberActive" for j app
  proof -
    have "m_status m = status" if "m \<in> set (org_members (?set j))" "m_org m = j" "m_user m = u" for m
    proof -
      from that(1) have "m \<in> (\<lambda>m. if is_member j u m then m\<lparr>m_status := status\<rparr> else m) ` set (org_members ?db)" by (simp add: update_where_def)
      then obtain m0 where "m = (if is_member j u m0 then m0\<lparr>m_status := status\<rparr> else m0)" by (rule imageE)
      with that(2,3) show ?thesis by (simp add: is_member_def split: if_splits)
    qed
    then show ?thesis using \<open>status \<noteq> OrganizationMemberActive\<close> unfolding can_enter_def may_sign_in_def by blast
  qed
  have stays: "keeps_access ?db (?set j)" if "status = OrganizationMemberActive" for j
  proof -
    have "\<exists>m \<in> set (org_members (?set j)). m_org m = i \<and> m_user m = v \<and> m_status m = OrganizationMemberActive"
      if "m \<in> set (org_members ?db)" "m_org m = i" "m_user m = v" "m_status m = OrganizationMemberActive" for m i v
      using that \<open>status = OrganizationMemberActive\<close>
      by (intro bexI [of _ "if is_member j u m then m\<lparr>m_status := status\<rparr> else m"]) (auto simp: update_where_def)
    then show ?thesis by (fastforce simp: keeps_access_def can_enter_def may_sign_in_def)
  qed
  have neq: "OrganizationMemberSuspended \<noteq> OrganizationMemberActive" by (simp add: OrganizationMemberSuspended_def OrganizationMemberActive_def)
  have sus: "ends_only E now st (end_org_sessions E no_faults now j (Some u) (st\<lparr>og_db := ?set j\<rparr>)) j (Some u)"
    if "status = OrganizationMemberSuspended" for j
  proof -
    have "\<not> can_enter (?set j) j u app" for app using gone neq that by simp
    moreover have "can_enter ?db i v app \<longrightarrow> can_enter (?set j) i v app \<or> i = j \<and> v = u" for i v app using other [of i j v app] by blast
    ultimately show ?thesis unfolding ends_only_def by (auto simp: end_org_sessions_auth [OF assms])
  qed
  show ?thesis
    using stays sus by (auto simp: SetMemberStatus_def spares_def Let_def split: sum.splits)
qed

lemma Remove_effect:
  assumes "og_sessions E"
  shows "spares st (snd (RemoveMember E no_faults now sc ref u st))
    \<or> (\<exists>j. ends_only E now st (snd (RemoveMember E no_faults now sc ref u st)) j (Some u))"
proof -
  have "ends_only E now st (end_org_sessions E no_faults now j (Some u) (st\<lparr>og_db := delete_member j u (og_db st)\<rparr>)) j (Some u)" for j
  proof -
    have "may_sign_in (delete_member j u (og_db st)) v app g \<longleftrightarrow> \<not> (o_id g = j \<and> v = u) \<and> may_sign_in (og_db st) v app g" for v app g
      by (auto simp: may_sign_in_def delete_member_def is_member_def)
    moreover have "organizations (delete_member j u (og_db st)) = organizations (og_db st)" by (simp add: delete_member_def)
    ultimately have "can_enter (delete_member j u (og_db st)) i v app \<longleftrightarrow> \<not> (i = j \<and> v = u) \<and> can_enter (og_db st) i v app" for i v app
      by (auto simp: can_enter_def)
    then show ?thesis unfolding ends_only_def by (auto simp: end_org_sessions_auth [OF assms])
  qed
  then show ?thesis by (auto simp: RemoveMember_def spares_def split: sum.splits)
qed

lemma Delete_effect:
  assumes "og_sessions E"
  shows "spares st (snd (DeleteOrganization E no_faults now sc ref st))
    \<or> (\<exists>j. ends_only E now st (snd (DeleteOrganization E no_faults now sc ref st)) j None)"
proof -
  let ?f = "\<lambda>o'. o'\<lparr>o_deleted := Some now, o_active := False, o_updated_at := now\<rparr>"
  have inv: "can_enter (db\<lparr>org_invitations := vs\<rparr>) i u app = can_enter db i u app" for db vs i u app
    by (simp add: can_enter_def may_sign_in_def)
  have "can_enter (set_organization j ?f (og_db st)) i u app \<longleftrightarrow> i \<noteq> j \<and> can_enter (og_db st) i u app" for i j u app
    by (subst can_enter_set) (auto simp: can_enter_def may_sign_in_def)
  then have "ends_only E now st (end_org_sessions E no_faults now j None
      (st\<lparr>og_db := (set_organization j ?f (og_db st))\<lparr>org_invitations := vs\<rparr>\<rparr>)) j None" for j vs
    unfolding ends_only_def by (auto simp: end_org_sessions_auth [OF assms] inv)
  then show ?thesis by (auto simp: DeleteOrganization_def spares_def Let_def split: sum.splits)
qed

lemma Update_effect:
  assumes "og_sessions E" "orgs_ok (og_db st)"
  shows "spares st (snd (UpdateOrganization E no_faults now sc ref i st))
    \<or> (\<exists>j. ends_only E now st (snd (UpdateOrganization E no_faults now sc ref i st)) j None)"
proof -
  let ?db = "og_db st"
  let ?f = "\<lambda>name md o'. o'\<lparr>o_display_name := coalesce name (o_display_name o'), o_metadata := coalesce md (o_metadata o'),
      o_active := coalesce (ui_IsActive i) (o_active o'), o_updated_at := now\<rparr>"
  have enter: "can_enter (set_organization j (?f name md) ?db) k u app \<longleftrightarrow>
      (\<exists>g \<in> set (organizations ?db). o_id g = k \<and> may_sign_in ?db u app (if k = j then ?f name md g else g))" for j name md k u app
    by (rule can_enter_set) simp
  have off: "can_enter (set_organization j (?f name md) ?db) k u app \<longleftrightarrow> k \<noteq> j \<and> can_enter ?db k u app" if "ui_IsActive i = Some False" for j name md k u app
    unfolding enter using that by (auto simp: can_enter_def may_sign_in_def coalesce_def)
  have same: "keeps_access ?db (set_organization j (?f name md) ?db)" if "ui_IsActive i \<noteq> Some False" for j name md
    unfolding keeps_access_def enter using that
    by (cases "ui_IsActive i") (auto simp: can_enter_def may_sign_in_def coalesce_def)
  have idle: "keeps_access ?db (set_organization (on_rowID cur) (?f name md) ?db)"
    if "getOrganization l no_faults sc ref ?db = Inr cur" "\<not> on_IsActive cur" "ui_IsActive i = Some False" for l cur name md
  proof -
    from that(1) obtain g where g: "g \<in> set (organizations ?db)" "cur = scanOrganization ?db g" by (rule getOrganization_InrD)
    then have "\<not> can_enter ?db (on_rowID cur) u app" for u app
      using can_enter_unique [OF assms(2) g(1)] that(2) by (simp add: scanOrganization_def may_sign_in_def)
    then show ?thesis unfolding keeps_access_def off [OF that(3)] by blast
  qed
  have ends: "ends_only E now st (end_org_sessions E no_faults now j None (st\<lparr>og_db := set_organization j (?f name md) ?db\<rparr>)) j None"
    if "ui_IsActive i = Some False" for j name md
    unfolding ends_only_def by (auto simp: end_org_sessions_auth [OF assms(1)] off [OF that])
  show ?thesis
  proof (cases "ui_IsActive i = Some False")
    case True
    then show ?thesis using idle [OF _ _ True] ends [OF True]
      by (auto simp: UpdateOrganization_def spares_def Let_def split: sum.splits) (meson | blast)+
  next
    case False
    then show ?thesis using same [OF False]
      by (auto simp: UpdateOrganization_def spares_def Let_def split: sum.splits)
  qed
qed

lemma do_org_effect:
  assumes "og_sessions E" "orgs_ok (og_db st)"
  shows "spares st (do_org E no_faults now p st) \<or> (\<exists>j who. ends_only E now st (do_org E no_faults now p st) j who)
    \<or> (\<exists>sc mode force. p = OpMode sc mode force)"
proof (cases p)
  case (OpUpdate sc ref i)
  then show ?thesis using Update_effect [OF assms, of now sc ref i] by (simp add: do_org_def) blast
next
  case (OpDelete sc ref)
  then show ?thesis using Delete_effect [OF assms(1), of st now sc ref] by (simp add: do_org_def) blast
next
  case (OpStatus sc ref u status)
  then show ?thesis using Status_effect [OF assms(1), of st now sc ref u status] by (simp add: do_org_def) blast
next
  case (OpRemove sc ref u)
  then show ?thesis using Remove_effect [OF assms(1), of st now sc ref u] by (simp add: do_org_def) blast
qed (simp_all add: do_org_def Create_spares Assign_spares Add_spares RemoveRole_spares)

text \<open>The sessions after an operation that ends access, against those before it.\<close>

lemma ended_sessions:
  assumes "auth_service (og_service E)" "redisCli (og_service E)" "session_db_ok (st_db (og_auth st))"
      "\<forall>s \<in> set (sessions (st_db (og_auth st))). int64_range (us_id s)"
    and ends: "ends_only E now st st' j who"
  shows "can_enter (og_db st) i u app \<Longrightarrow> \<not> can_enter (og_db st') i u app \<Longrightarrow> i = j \<and> (who = None \<or> who = Some u)"
    and "s \<in> set (sessions (st_db (og_auth st'))) \<Longrightarrow> us_org s = Some j \<Longrightarrow> who = None \<or> who = Some (us_user s) \<Longrightarrow> us_revoked_at s \<noteq> None"
    and "s \<in> set (sessions (st_db (og_auth st))) \<Longrightarrow> us_org s = Some j \<Longrightarrow> who = None \<or> who = Some (us_user s) \<Longrightarrow> us_revoked_at s = None \<Longrightarrow>
      now \<le> t \<Longrightarrow> t < now + AccessTokenTTL \<Longrightarrow> SessionDenied (og_service E) no_faults t (FormatInt (us_id s)) uid tid iat (og_auth st')"
    and "s \<in> set (sessions (st_db (og_auth st))) \<Longrightarrow> \<forall>i. us_org s = Some i \<longrightarrow> (\<exists>app. can_enter (og_db st') i (us_user s) app) \<Longrightarrow>
      s \<in> set (sessions (st_db (og_auth st')))"
proof -
  let ?hit = "\<lambda>s. us_org s = Some j \<and> (who = None \<or> who = Some (us_user s))"
  let ?r = "revokeSessionRows (og_service E) no_faults now (collectSessions no_faults ?hit (st_db (og_auth st))) (og_auth st)"
  have "og_auth st' = snd ?r" using ends unfolding ends_only_def revokeOrganizationSessions_def by (rule conjunct1)
  then have run: "?r = (fst ?r, og_auth st')" by (simp only: prod.collapse)
  note eff = auth_service.revoke_collected [OF assms(1-4) run]
  note each = bspec [OF conjunct2 [OF conjunct2 [OF eff]]]
  have lost: "i = j \<and> (who = None \<or> who = Some u)" if "can_enter (og_db st) i u app" "\<not> can_enter (og_db st') i u app" for i u app
    using ends that unfolding ends_only_def by blast
  have dead: "us_revoked_at s \<noteq> None" if "s \<in> set (sessions (st_db (og_auth st')))" "?hit s" for s
  proof -
    from eff that(1) obtain s0 where "s = (if ?hit s0 \<and> us_revoked_at s0 = None then stamp_session now RevokeReasonOrganization s0 else s0)" by blast
    with that(2) show ?thesis by (auto simp: stamp_session_def split: if_splits)
  qed
  have denied: "SessionDenied (og_service E) no_faults t (FormatInt (us_id s)) uid tid iat (og_auth st')"
    if "s \<in> set (sessions (st_db (og_auth st)))" "?hit s" "us_revoked_at s = None" "now \<le> t" "t < now + AccessTokenTTL" for s t uid tid iat
  proof -
    have yes: "?hit s \<and> us_revoked_at s = None" using that by blast
    show ?thesis using each [OF that(1)] that(4,5) unfolding if_P [OF yes] by blast
  qed
  have live: "s \<in> set (sessions (st_db (og_auth st')))" if "s \<in> set (sessions (st_db (og_auth st)))"
    "\<forall>i. us_org s = Some i \<longrightarrow> (\<exists>app. can_enter (og_db st') i (us_user s) app)" for s
  proof -
    have "\<not> ?hit s" using ends that(2) unfolding ends_only_def by blast
    then have no: "\<not> (?hit s \<and> us_revoked_at s = None)" by blast
    show ?thesis using each [OF that(1)] unfolding if_not_P [OF no] .
  qed
  show "can_enter (og_db st) i u app \<Longrightarrow> \<not> can_enter (og_db st') i u app \<Longrightarrow> i = j \<and> (who = None \<or> who = Some u)" by (rule lost)
  show "s \<in> set (sessions (st_db (og_auth st'))) \<Longrightarrow> us_org s = Some j \<Longrightarrow> who = None \<or> who = Some (us_user s) \<Longrightarrow> us_revoked_at s \<noteq> None"
    using dead by blast
  show "s \<in> set (sessions (st_db (og_auth st))) \<Longrightarrow> us_org s = Some j \<Longrightarrow> who = None \<or> who = Some (us_user s) \<Longrightarrow> us_revoked_at s = None \<Longrightarrow>
      now \<le> t \<Longrightarrow> t < now + AccessTokenTTL \<Longrightarrow> SessionDenied (og_service E) no_faults t (FormatInt (us_id s)) uid tid iat (og_auth st')"
    using denied by blast
  show "s \<in> set (sessions (st_db (og_auth st))) \<Longrightarrow> \<forall>i. us_org s = Some i \<longrightarrow> (\<exists>app. can_enter (og_db st') i (us_user s) app) \<Longrightarrow>
      s \<in> set (sessions (st_db (og_auth st')))" by (rule live)
qed

text \<open>
  C10: whoever loses an organisation loses its sessions. Whatever one operation does, if a user could enter an organisation
  before it and cannot afterwards, then every session of that user inside the organisation is revoked, and its
  access tokens are denied for as long as they live. And except for a change of the application's mode, the operation
  leaves every session alone that belongs to no organisation or to one its user may still enter.
\<close>

theorem lost_access_ends_sessions:
  assumes "auth_service (og_service E)" "redisCli (og_service E)" "og_sessions E" "org_ok (og_authority E) (og_db st)"
    and "session_db_ok (st_db (og_auth st))" "\<forall>s \<in> set (sessions (st_db (og_auth st))). int64_range (us_id s)"
    and st': "st' = do_org E no_faults now p st"
  shows "(\<forall>i u app. lockMintMembership no_faults i u app (og_db st) = None \<longrightarrow> lockMintMembership no_faults i u app (og_db st') \<noteq> None \<longrightarrow>
       (\<forall>s \<in> set (sessions (st_db (og_auth st'))). us_org s = Some i \<longrightarrow> us_user s = u \<longrightarrow> us_revoked_at s \<noteq> None)
       \<and> (\<forall>s \<in> set (sessions (st_db (og_auth st))). us_org s = Some i \<longrightarrow> us_user s = u \<longrightarrow> us_revoked_at s = None \<longrightarrow>
            (\<forall>t uid tid iat. now \<le> t \<longrightarrow> t < now + AccessTokenTTL \<longrightarrow>
               SessionDenied (og_service E) no_faults t (FormatInt (us_id s)) uid tid iat (og_auth st'))))
    \<and> ((\<forall>sc mode force. p \<noteq> OpMode sc mode force) \<longrightarrow>
       (\<forall>s \<in> set (sessions (st_db (og_auth st))).
          (\<forall>i. us_org s = Some i \<longrightarrow> (\<exists>app. lockMintMembership no_faults i (us_user s) app (og_db st') = None)) \<longrightarrow>
          s \<in> set (sessions (st_db (og_auth st')))))"
  unfolding lock_iff_enter
proof -
  consider (same) "spares st st'" | (ends) j who where "ends_only E now st st' j who" | (mode) sc m f where "p = OpMode sc m f"
    using do_org_effect [OF assms(3), of st now p] assms(4) by (auto simp: st' org_ok_def)
  then show "(\<forall>i u app. can_enter (og_db st) i u app \<longrightarrow> \<not> can_enter (og_db st') i u app \<longrightarrow>
       (\<forall>s \<in> set (sessions (st_db (og_auth st'))). us_org s = Some i \<longrightarrow> us_user s = u \<longrightarrow> us_revoked_at s \<noteq> None)
       \<and> (\<forall>s \<in> set (sessions (st_db (og_auth st))). us_org s = Some i \<longrightarrow> us_user s = u \<longrightarrow> us_revoked_at s = None \<longrightarrow>
            (\<forall>t uid tid iat. now \<le> t \<longrightarrow> t < now + AccessTokenTTL \<longrightarrow>
               SessionDenied (og_service E) no_faults t (FormatInt (us_id s)) uid tid iat (og_auth st'))))
    \<and> ((\<forall>sc mode force. p \<noteq> OpMode sc mode force) \<longrightarrow>
       (\<forall>s \<in> set (sessions (st_db (og_auth st))).
          (\<forall>i. us_org s = Some i \<longrightarrow> (\<exists>app. can_enter (og_db st') i (us_user s) app)) \<longrightarrow>
          s \<in> set (sessions (st_db (og_auth st')))))"
  proof cases
    case same
    then show ?thesis by (simp add: spares_def keeps_access_def)
  next
    case mode
    then have "keeps_access (og_db st) (og_db st')" using Mode_keeps [of st E] by (simp add: st' do_org_def)
    with mode show ?thesis by (simp add: keeps_access_def) blast
  next
    case ends
    note ended = ended_sessions [OF assms(1,2,5,6) ends]
    show ?thesis using ended by blast
  qed
qed

theorem lost_access_ends_sessions_witness:
  "\<exists>st'. st' = do_org sample_org_env no_faults 100 (OpRemove sample_scope ''acme'' 7) sample_org_state
     \<and> lockMintMembership no_faults 1 7 40 (og_db st') = Some ErrOrganizationAccessDenied
     \<and> (\<forall>s \<in> set (sessions (st_db (og_auth st'))). us_org s = Some 1 \<longrightarrow> us_user s = 7 \<longrightarrow> us_revoked_at s \<noteq> None)
     \<and> sample_session 2 7 20 \<in> set (sessions (st_db (og_auth st')))"
proof (intro exI conjI)
  let ?st' = "do_org sample_org_env no_faults 100 (OpRemove sample_scope ''acme'' 7) sample_org_state"
  have sv: "auth_service (og_service sample_org_env)" "redisCli (og_service sample_org_env)" "og_sessions sample_org_env"
    using ks_env.auth_service_axioms [of id] by (simp_all add: sample_org_env_def)
  have db: "session_db_ok (st_db (og_auth sample_org_state))" "\<forall>s \<in> set (sessions (st_db (og_auth sample_org_state))). int64_range (us_id s)"
    by (simp_all add: sample_org_state_def sample_org_sessions_def session_db_ok_def token_ok_def sample_defs int64_range_def)
  have before: "lockMintMembership no_faults 1 7 40 (og_db sample_org_state) = None" by code_simp
  show after: "lockMintMembership no_faults 1 7 40 (og_db ?st') = Some ErrOrganizationAccessDenied" by code_simp
  note claim = lost_access_ends_sessions [OF sv sample_org_ok db refl, of 100 "OpRemove sample_scope ''acme'' 7"]
  from conjunct1 [OF claim] before after
  show "\<forall>s \<in> set (sessions (st_db (og_auth ?st'))). us_org s = Some 1 \<longrightarrow> us_user s = 7 \<longrightarrow> us_revoked_at s \<noteq> None" by force
  have "sample_session 2 7 20 \<in> set (sessions (st_db (og_auth sample_org_state)))" "us_org (sample_session 2 7 20) = None"
    by (simp_all add: sample_org_state_def sample_org_sessions_def sample_session_def)
  with conjunct2 [OF claim] show "sample_session 2 7 20 \<in> set (sessions (st_db (og_auth ?st')))" by force
qed simp

end
