(* ===== verification/HostedGrants.thy ===== *)
theory HostedGrants
  imports HostedLogin TokenGrants OrgAccess SignIn
begin

text \<open>
  What the hosted login guarantees: theorems about \<open>HostedLogin\<close> with the codes, the clients, the organisations and
  the token endpoint it works with.
\<close>

subsection \<open>Views\<close>

lemma hosted_views [simp]:
  "hs_codes (put_hs_redis r st) = hs_codes st" "hs_redis (put_hs_redis r st) = r" "hs_orgs (put_hs_redis r st) = hs_orgs st"
  "hs_codes (put_hs_codes cs st) = cs" "hs_redis (put_hs_codes cs st) = hs_redis st" "hs_orgs (put_hs_codes cs st) = hs_orgs st"
  "hs_codes (put_hs_login ls st) = hs_codes st" "hs_login (put_hs_login ls st) = ls" "hs_orgs (put_hs_login ls st) = hs_orgs st"
  "hs_login (put_hs_codes cs st) = hs_login st"
  by (simp_all add: put_hs_redis_def put_hs_login_def put_hs_codes_def put_redis_def)

lemma delete_request_views [simp]:
  "hs_codes (delete_request E fl now h st) = hs_codes st" "hs_orgs (delete_request E fl now h st) = hs_orgs st"
  by (simp_all add: delete_request_def)

lemma IssueAuthorizationCode_Inr:
  assumes "IssueAuthorizationCode H fl now raw p cs = (Inr code, cs')"
  obtains c where "cs' = cs @ [c]" "code_hash c = H code" "ac_tenant c = ip_TenantID p" "ac_client c = ip_ClientID p" "ac_user c = ip_UserID p"
    "redirect_uri c = ip_RedirectURI p" "ac_scopes c = ip_Scopes p" "code_challenge c = Some (ip_CodeChallenge p)"
    "ac_nonce c = nullIfEmpty (ip_Nonce p)" "ac_audience c = nullIfEmpty (ip_Audience p)" "ac_org c = ip_OrganizationID p"
    "grant_kind c = GrantKindAuthzCode" "ac_used_at c = None" "ac_expires_at c = now + AuthorizationCodeTTL"
    "code_hash c \<notin> code_hash ` set cs"
  using assms by (auto simp: IssueAuthorizationCode_def insert_code_def split: option.splits if_splits)

lemma IssueAuthorizationCode_Inl: "IssueAuthorizationCode H fl now raw p cs = (Inl e, cs') \<Longrightarrow> cs' = cs"
  by (auto simp: IssueAuthorizationCode_def split: option.splits if_splits)

subsection \<open>The one place where codes are made\<close>

text \<open>The code a request and a signed-in user lead to.\<close>

definition code_for :: "'r hosted_env \<Rightarrow> time \<Rightarrow> AuthzRequest \<Rightarrow> AuthzSession \<Rightarrow> int option \<Rightarrow> string \<Rightarrow> authz_code \<Rightarrow> bool" where
  "code_for E now req sess org code c \<longleftrightarrow>
     code_hash c = he_hash E code \<and> ac_tenant c = aq_TenantID req \<and> ac_client c = aq_ClientID req \<and> ac_user c = az_UserID sess
     \<and> redirect_uri c = aq_RedirectURI req \<and> ac_scopes c = aq_Scopes req \<and> code_challenge c = Some (aq_CodeChallenge req)
     \<and> ac_nonce c = nullIfEmpty (aq_Nonce req) \<and> ac_audience c = nullIfEmpty (aq_Audience req) \<and> ac_org c = org
     \<and> grant_kind c = GrantKindAuthzCode \<and> ac_used_at c = None \<and> ac_expires_at c = now + AuthorizationCodeTTL"

definition state_param :: "string \<Rightarrow> (string \<times> string) list" where
  "state_param s = (if s = [] then [] else [(''state'', s)])"

definition returns_error :: "AuthzRequest \<Rightarrow> page \<Rightarrow> bool" where
  "returns_error req p \<longleftrightarrow> (\<exists>e. p = RedirectTo (aq_RedirectURI req) ((''error'', e) # state_param (aq_State req)))"

definition waits :: "AuthzRequest \<Rightarrow> page \<Rightarrow> bool" where
  "waits req p \<longleftrightarrow> returns_error req p \<or> (\<exists>n. p = ErrorPage n) \<or> (\<exists>h cs. p = OrganizationPage h cs)"

lemma waits_simps [simp]:
  "waits req (redirectError E (aq_RedirectURI req) (aq_State req) e)" "waits req (ErrorPage n)" "waits req (OrganizationPage h cs)"
  by (simp_all add: waits_def redirectError_def returns_error_def state_param_def)

lemma resolveOrganization_InlD:
  assumes "resolveOrganization E fl now rnd handle req sess st = (Inl p, st')"
  shows "hs_codes st' = hs_codes st \<and> waits req p"
  using assms by (auto simp: resolveOrganization_def split: sum.splits if_splits prod.splits)

lemma resolveOrganization_InrD:
  assumes "resolveOrganization E fl now rnd handle req sess st = (Inr org, st')"
  obtains dec where "DecideOrganization (hosted_orgs E st) fl (az_UserID sess) (aq_AppRowID req) (aq_Organization req) False (hs_orgs st) = Inr dec"
    "od_Choices dec = []" "org = od_OrgRowID dec" "st' = st"
  using assms by (auto simp: resolveOrganization_def split: sum.splits if_splits prod.splits)

lemma issueCode_cases:
  assumes run: "issueCodeAndRedirect E fl now rnd handle req sess st = (p, st')"
  obtains (none) "hs_codes st' = hs_codes st" "waits req p"
    | (code) c code dec r where "hs_codes st' = hs_codes st @ [c]" "code_for E now req sess (od_OrgRowID dec) code c"
        "DecideOrganization (hosted_orgs E st) fl (az_UserID sess) (aq_AppRowID req) (aq_Organization req) False (hs_orgs st) = Inr dec" "od_Choices dec = []"
        "BurnNonce (he_redis E) (he_hash E) fl now (aq_TenantID req) (aq_ClientID req) (aq_Nonce req) (hs_redis st) = (Inr (), r)"
        "p = ErrorPage 500 \<or> p = RedirectTo (aq_RedirectURI req) ((''code'', code) # state_param (aq_State req))"
        "hs_redis st' = r \<or> hs_redis st' = DeleteRequest (he_redis E) (he_hash E) fl now handle r"
        "bs_users (ls_block (hs_login st')) = bs_users (ls_block (hs_login st))" "code_hash c \<notin> code_hash ` set (hs_codes st)"
proof (cases "resolveOrganization E fl now rnd handle req sess st")
  case (Pair x st1)
  show thesis
  proof (cases x)
    case (Inl p')
    with run Pair have "p' = p" "st1 = st'" by (simp_all add: issueCodeAndRedirect_def)
    with resolveOrganization_InlD [OF Pair [unfolded Inl]] none show thesis by simp
  next
    case (Inr org)
    from Pair [unfolded Inr] obtain dec where dec: "DecideOrganization (hosted_orgs E st) fl (az_UserID sess) (aq_AppRowID req) (aq_Organization req) False (hs_orgs st) = Inr dec"
      "od_Choices dec = []" "org = od_OrgRowID dec" "st1 = st" by (rule resolveOrganization_InrD)
    obtain b r where b: "BurnNonce (he_redis E) (he_hash E) fl now (aq_TenantID req) (aq_ClientID req) (aq_Nonce req) (hs_redis st) = (b, r)" by fastforce
    show thesis
    proof (cases b)
      case (Inl e)
      with run Pair Inr b dec(4) have "hs_codes st' = hs_codes st" "p = redirectError E (aq_RedirectURI req) (aq_State req) (if e = ErrNonceReplayed then ''invalid_request'' else ''server_error'')"
        by (auto simp: issueCodeAndRedirect_def)
      with none show thesis by (simp split: if_splits)
    next
      case burnt: (Inr u)
      let ?st2 = "put_hs_redis r st"
      obtain y cs where y: "IssueAuthorizationCode (he_hash E) fl now (hr_code rnd) (code_params req sess org) (hs_codes ?st2) = (y, cs)" by fastforce
      show thesis
      proof (cases y)
        case (Inl e)
        with run Pair Inr b dec(4) burnt y have "hs_codes st' = hs_codes st" "p = redirectError E (aq_RedirectURI req) (aq_State req) ''server_error''"
          using IssueAuthorizationCode_Inl [OF y [unfolded Inl]] by (auto simp: issueCodeAndRedirect_def Let_def)
        with none show thesis by (simp split: if_splits)
      next
        case issued: (Inr code)
        from y [unfolded issued] obtain c where c: "cs = hs_codes ?st2 @ [c]" "code_hash c \<notin> code_hash ` set (hs_codes st)" and f: "code_for E now req sess org code c"
          by (rule IssueAuthorizationCode_Inr) (simp add: code_for_def code_params_def)
        have st': "hs_codes st' = cs" and p: "p = ErrorPage 500 \<or> p = RedirectTo (aq_RedirectURI req) ((''code'', code) # state_param (aq_State req))"
          and r: "hs_redis st' = r \<or> hs_redis st' = DeleteRequest (he_redis E) (he_hash E) fl now handle r"
          and l: "bs_users (ls_block (hs_login st')) = bs_users (ls_block (hs_login st))"
          using run Pair Inr b dec(4) burnt y issued
          by (auto simp: issueCodeAndRedirect_def Let_def state_param_def delete_request_def put_hs_redis_def put_hs_login_def put_hs_codes_def put_redis_def set_redis_def
              split: if_splits)
        show thesis by (rule code [OF _ f [unfolded dec(3)] dec(1,2) _ p r l c(2)]) (use st' c b burnt in auto)
      qed
    qed
  qed
qed

subsection \<open>The pages\<close>

datatype hosted_page = PageAuthorize | PageLogin | PageMFA | PageOrganization

definition hosted ::
  "'r hosted_env \<Rightarrow> faults \<Rightarrow> time \<Rightarrow> hosted_random \<Rightarrow> hosted_page \<Rightarrow> hosted_request \<Rightarrow> 'r hosted_state \<Rightarrow> page \<times> 'r hosted_state" where
  "hosted E fl now rnd which q st =
     (case which of
        PageAuthorize \<Rightarrow> Authorize E fl now rnd q st
      | PageLogin \<Rightarrow> map_prod an_page id (LoginSubmit E fl now rnd q st)
      | PageMFA \<Rightarrow> map_prod an_page id (MFASubmit E fl now rnd q st)
      | PageOrganization \<Rightarrow> OrganizationSubmit E fl now rnd q st)"

text \<open>The authorization request a page works on: the one it carries, checked against a live client, or the parked one.\<close>

definition asks :: "'r hosted_env \<Rightarrow> faults \<Rightarrow> time \<Rightarrow> hosted_page \<Rightarrow> hosted_request \<Rightarrow> 'r hosted_state \<Rightarrow> AuthzRequest \<Rightarrow> bool" where
  "asks E fl now which q st req =
     (case which of
        PageAuthorize \<Rightarrow>
          (\<exists>client uri. LookupClient fl (hq_client_id q) (te_clients (he_token E)) = Inr client \<and> ResolveRedirectURI client (hq_redirect_uri q) = Inr uri
             \<and> AllowsGrant client ''authorization_code'' \<and> ac_FirstParty client \<and> challenge_ok client q \<and> audience_ok E fl client q
             \<and> req = authz_request client uri (FilterScopes (ParseScopeParam (hq_scope q)) (ac_Scopes client)) q)
      | PageOrganization \<Rightarrow>
          (\<exists>req0. GetRequest (he_redis E) (he_hash E) fl now (hq_request q) (hs_redis st) = Inr req0 \<and> req = req0\<lparr>aq_Organization := hq_organization q\<rparr>)
      | PageLogin \<Rightarrow> (\<exists>req0. GetRequest (he_redis E) (he_hash E) fl now (hq_request q) (hs_redis st) = Inr req0 \<and> req = req0\<lparr>aq_Email := hq_email q\<rparr>)
      | PageMFA \<Rightarrow> GetRequest (he_redis E) (he_hash E) fl now (hq_request q) (hs_redis st) = Inr req)"

text \<open>Who is signed in: the user of the browser's session, in the tenant asked for, or the one who just proved the credentials.\<close>

definition signed_in ::
  "'r hosted_env \<Rightarrow> faults \<Rightarrow> time \<Rightarrow> hosted_random \<Rightarrow> hosted_page \<Rightarrow> hosted_request \<Rightarrow> AuthzRequest \<Rightarrow> 'r hosted_state \<Rightarrow> int \<Rightarrow> bool" where
  "signed_in E fl now rnd which q req st uid =
     (let sso = (\<exists>sess. currentSession E fl now (hq_cookie q) st = Some sess \<and> az_UserID sess = uid \<and> az_TenantID sess = aq_TenantID req);
          named = (\<lambda>ls. \<exists>email. LookupUserForApp (token_login (he_token E)) fl (aq_TenantID req) (aq_AppRowID req) (aq_Email req) ls = Inr (uid, email))
      in case which of
           PageAuthorize \<Rightarrow> sso
         | PageOrganization \<Rightarrow> sso
         | PageLogin \<Rightarrow> (\<exists>tok ls. Login (token_login (he_token E)) fl now (hr_login rnd) (hosted_input req q) (hs_login st) = (Inr (LToken tok), ls) \<and> named ls)
         | PageMFA \<Rightarrow> (\<exists>tok ls. LoginOTP (token_login (he_token E)) fl now (lr_refresh (hr_login rnd)) (aq_OTPSessionToken req) (hq_code q) (hs_login st)
               = (Inr tok, ls) \<and> named ls))"

lemma completeLogin_cases:
  assumes run: "completeLogin E fl now rnd handle req st = (a, st')"
  obtains (none) "hs_codes st' = hs_codes st" "waits req (an_page a)"
    | (go) uid email r where "LookupUserForApp (token_login (he_token E)) fl (aq_TenantID req) (aq_AppRowID req) (aq_Email req) (hs_login st) = Inr (uid, email)"
        "issueCodeAndRedirect E fl now rnd handle req \<lparr>az_UserID = uid, az_TenantID = aq_TenantID req, az_Email = email, az_AuthTime = now\<rparr>
           (put_hs_redis r st) = (an_page a, st')"
  using run by (auto simp: completeLogin_def Let_def plain_def split: sum.splits prod.splits)

lemma Authorize_cases:
  assumes run: "Authorize E fl now rnd q st = (p, st')"
  obtains (refused) n where "p = ErrorPage n" "st' = st"
    | (answered) client uri where "LookupClient fl (hq_client_id q) (te_clients (he_token E)) = Inr client" "ResolveRedirectURI client (hq_redirect_uri q) = Inr uri"
        "hs_codes st' = hs_codes st" "(\<exists>e. p = redirectError E uri (hq_state q) e) \<or> (\<exists>h. p = LoginPage 200 h)"
    | (sso) client uri req sess where "LookupClient fl (hq_client_id q) (te_clients (he_token E)) = Inr client" "ResolveRedirectURI client (hq_redirect_uri q) = Inr uri"
        "req = authz_request client uri (FilterScopes (ParseScopeParam (hq_scope q)) (ac_Scopes client)) q"
        "AllowsGrant client ''authorization_code''" "ac_FirstParty client" "challenge_ok client q" "audience_ok E fl client q"
        "currentSession E fl now (hq_cookie q) st = Some sess" "az_TenantID sess = ac_TenantID client"
        "issueCodeAndRedirect E fl now rnd [] req sess st = (p, st')"
proof (cases "LookupClient fl (hq_client_id q) (te_clients (he_token E))")
  case (Inl e)
  with run refused show thesis by (auto simp: Authorize_def)
next
  case client: (Inr client)
  show thesis
  proof (cases "ResolveRedirectURI client (hq_redirect_uri q)")
    case (Inl e)
    with run client refused show thesis by (auto simp: Authorize_def)
  next
    case uri: (Inr uri)
    let ?req = "authz_request client uri (FilterScopes (ParseScopeParam (hq_scope q)) (ac_Scopes client)) q"
    show thesis
    proof (cases "AllowsGrant client ''authorization_code'' \<and> ac_FirstParty client \<and> challenge_ok client q \<and> audience_ok E fl client q
        \<and> (\<exists>sess. currentSession E fl now (hq_cookie q) st = Some sess \<and> az_TenantID sess = ac_TenantID client)
        \<and> issueCodeAndRedirect E fl now rnd [] ?req (the (currentSession E fl now (hq_cookie q) st)) st = (p, st')")
      case True
      then show thesis using sso [OF client uri refl] by auto
    next
      case False
      have "hs_codes st' = hs_codes st \<and> ((\<exists>e. p = redirectError E uri (hq_state q) e) \<or> (\<exists>h. p = LoginPage 200 h))"
        using run client uri False
        by (auto simp: Authorize_def Let_def split: if_splits option.splits sum.splits prod.splits)
      then show thesis using answered [OF client uri] by blast
    qed
  qed
qed

lemma LoginSubmit_cases:
  assumes run: "LoginSubmit E fl now rnd q st = (a, st')"
  obtains (none) "hs_codes st' = hs_codes st" "(\<exists>n. an_page a = ErrorPage n) \<or> (\<exists>n h. an_page a \<in> {LoginPage n h, MFAPage n h})"
    | (failed) req where "GetRequest (he_redis E) (he_hash E) fl now (hq_request q) (hs_redis st) = Inr req" "hs_codes st' = hs_codes st" "waits req (an_page a)"
    | (go) req tok ls where "GetRequest (he_redis E) (he_hash E) fl now (hq_request q) (hs_redis st) = Inr req"
        "Login (token_login (he_token E)) fl now (hr_login rnd) (hosted_input req q) (hs_login st) = (Inr (LToken tok), ls)"
        "completeLogin E fl now rnd (hq_request q) (req\<lparr>aq_Email := hq_email q\<rparr>) (put_hs_login ls st) = (a, st')"
proof (cases "GetRequest (he_redis E) (he_hash E) fl now (hq_request q) (hs_redis st)")
  case (Inl e)
  with run none show thesis by (auto simp: LoginSubmit_def plain_def)
next
  case req: (Inr req)
  obtain x ls where login: "Login (token_login (he_token E)) fl now (hr_login rnd) (hosted_input req q) (hs_login st) = (x, ls)" by fastforce
  show thesis
  proof (cases "\<exists>tok. x = Inr (LToken tok)")
    case True
    then obtain tok where "x = Inr (LToken tok)" by blast
    with run req login go [OF req] show thesis by (auto simp: LoginSubmit_def)
  next
    case False
    with run req login none failed [OF req] show thesis
      by (auto simp: LoginSubmit_def plain_def renderEnrollmentDeadEnd_def Let_def split: sum.splits prod.splits LoginResult.splits if_splits)
  qed
qed

lemma MFASubmit_cases:
  assumes run: "MFASubmit E fl now rnd q st = (a, st')"
  obtains (none) "hs_codes st' = hs_codes st" "(\<exists>n. an_page a = ErrorPage n) \<or> (\<exists>n h. an_page a \<in> {LoginPage n h, MFAPage n h})"
    | (go) req tok ls where "GetRequest (he_redis E) (he_hash E) fl now (hq_request q) (hs_redis st) = Inr req"
        "LoginOTP (token_login (he_token E)) fl now (lr_refresh (hr_login rnd)) (aq_OTPSessionToken req) (hq_code q) (hs_login st) = (Inr tok, ls)"
        "completeLogin E fl now rnd (hq_request q) req (put_hs_login ls st) = (a, st')"
  using run by (auto simp: MFASubmit_def plain_def split: sum.splits prod.splits if_splits)

lemma OrganizationSubmit_cases:
  assumes run: "OrganizationSubmit E fl now rnd q st = (p, st')"
  obtains (none) "hs_codes st' = hs_codes st" "(\<exists>n. p = ErrorPage n) \<or> (\<exists>h. p = LoginPage 200 h)"
    | (go) req sess where "GetRequest (he_redis E) (he_hash E) fl now (hq_request q) (hs_redis st) = Inr req"
        "currentSession E fl now (hq_cookie q) st = Some sess" "az_TenantID sess = aq_TenantID req"
        "issueCodeAndRedirect E fl now rnd (hq_request q) (req\<lparr>aq_Organization := hq_organization q\<rparr>) sess st = (p, st')"
  using run by (auto simp: OrganizationSubmit_def split: sum.splits option.splits if_splits)

lemma completed_code:
  assumes run: "completeLogin E fl now rnd handle req st = (a, st')" and ok: "orgs_ok (hs_orgs st)" "members_ok (hs_orgs st)"
  shows "hs_codes st' = hs_codes st \<and> waits req (an_page a)
    \<or> (\<exists>uid email sess org code c. LookupUserForApp (token_login (he_token E)) fl (aq_TenantID req) (aq_AppRowID req) (aq_Email req) (hs_login st) = Inr (uid, email)
        \<and> az_UserID sess = uid \<and> hs_codes st' = hs_codes st @ [c] \<and> code_for E now req sess org code c
        \<and> (\<forall>i. org = Some i \<longrightarrow> can_enter (hs_orgs st) i uid (aq_AppRowID req))
        \<and> (an_page a = ErrorPage 500 \<or> an_page a = RedirectTo (aq_RedirectURI req) ((''code'', code) # state_param (aq_State req))))"
  using run
proof (cases rule: completeLogin_cases)
  case (go uid email r)
  from go(2) show ?thesis
  proof (cases rule: issueCode_cases)
    case none
    then show ?thesis by simp
  next
    case (code c code dec r')
    have "can_enter (hs_orgs st) i uid (aq_AppRowID req)" if "od_OrgRowID dec = Some i" for i
      using DecideOrganization_bound [OF ok(2,1) _ that] code(3) by (simp add: can_enter_def)
    then have "\<forall>i. od_OrgRowID dec = Some i \<longrightarrow> can_enter (hs_orgs st) i uid (aq_AppRowID req)" by blast
    moreover have "hs_codes st' = hs_codes st @ [c]" using code(1) by simp
    ultimately show ?thesis using go(1) code(2,6) by (metis AuthzSession.select_convs(1))
  qed
qed simp

text \<open>A code was added for a request and a user who is signed in, and the browser is on its way back.\<close>

definition hands_out ::
  "'r hosted_env \<Rightarrow> faults \<Rightarrow> time \<Rightarrow> hosted_random \<Rightarrow> hosted_page \<Rightarrow> hosted_request \<Rightarrow> 'r hosted_state \<Rightarrow> page \<Rightarrow> 'r hosted_state \<Rightarrow> bool" where
  "hands_out E fl now rnd which q st p st' \<longleftrightarrow>
     (\<exists>req sess org code c. asks E fl now which q st req \<and> signed_in E fl now rnd which q req st (az_UserID sess)
      \<and> hs_codes st' = hs_codes st @ [c] \<and> code_for E now req sess org code c
      \<and> (\<forall>i. org = Some i \<longrightarrow> can_enter (hs_orgs st) i (az_UserID sess) (aq_AppRowID req))
      \<and> (p = ErrorPage 500 \<or> p = RedirectTo (aq_RedirectURI req) ((''code'', code) # state_param (aq_State req))))"

lemma Authorize_code:
  assumes run: "hosted E fl now rnd PageAuthorize q st = (p, st')" and ok: "orgs_ok (hs_orgs st)" "members_ok (hs_orgs st)"
  shows "hs_codes st' = hs_codes st \<or> hands_out E fl now rnd PageAuthorize q st p st'"
proof -
  from run have "Authorize E fl now rnd q st = (p, st')" by (simp add: hosted_def)
  then show ?thesis
  proof (cases rule: Authorize_cases)
    case (sso client uri req sess)
    have t: "aq_TenantID req = az_TenantID sess" by (simp add: sso(3,9) authz_request_def)
    from sso(10) show ?thesis
    proof (cases rule: issueCode_cases)
      case (code c code dec r)
      have "can_enter (hs_orgs st) i (az_UserID sess) (aq_AppRowID req)" if "od_OrgRowID dec = Some i" for i
        using DecideOrganization_bound [OF ok(2,1) code(3) that] by (simp add: can_enter_def)
      moreover have "asks E fl now PageAuthorize q st req" using sso by (auto simp: asks_def)
      moreover have "signed_in E fl now rnd PageAuthorize q req st (az_UserID sess)" using sso(8) t by (simp add: signed_in_def)
      ultimately show ?thesis using code unfolding hands_out_def by blast
    qed simp
  qed simp_all
qed

lemma OrganizationSubmit_code:
  assumes run: "hosted E fl now rnd PageOrganization q st = (p, st')" and ok: "orgs_ok (hs_orgs st)" "members_ok (hs_orgs st)"
  shows "hs_codes st' = hs_codes st \<or> hands_out E fl now rnd PageOrganization q st p st'"
proof -
  from run have "OrganizationSubmit E fl now rnd q st = (p, st')" by (simp add: hosted_def)
  then show ?thesis
  proof (cases rule: OrganizationSubmit_cases)
    case (go req sess)
    let ?req = "req\<lparr>aq_Organization := hq_organization q\<rparr>"
    from go(4) show ?thesis
    proof (cases rule: issueCode_cases)
      case (code c code dec r)
      have "can_enter (hs_orgs st) i (az_UserID sess) (aq_AppRowID ?req)" if "od_OrgRowID dec = Some i" for i
        using DecideOrganization_bound [OF ok(2,1) code(3) that] by (simp add: can_enter_def)
      moreover have "asks E fl now PageOrganization q st ?req" using go by (auto simp: asks_def)
      moreover have "signed_in E fl now rnd PageOrganization q ?req st (az_UserID sess)" using go(2,3) by (simp add: signed_in_def)
      ultimately show ?thesis using code unfolding hands_out_def by blast
    qed simp
  qed simp
qed

lemma LoginSubmit_code:
  assumes run: "hosted E fl now rnd PageLogin q st = (p, st')" and ok: "orgs_ok (hs_orgs st)" "members_ok (hs_orgs st)"
  shows "hs_codes st' = hs_codes st \<or> hands_out E fl now rnd PageLogin q st p st'"
proof -
  from run obtain a where a: "LoginSubmit E fl now rnd q st = (a, st')" "p = an_page a" by (auto simp: hosted_def map_prod_def split: prod.splits)
  from a(1) show ?thesis
  proof (cases rule: LoginSubmit_cases)
    case (go req tok ls)
    have i: "hosted_input (req\<lparr>aq_Email := hq_email q\<rparr>) q = hosted_input req q" by (simp add: hosted_input_def)
    from completed_code [OF go(3)] ok consider (same) "hs_codes st' = hs_codes st"
      | (new) uid email sess org code c where "LookupUserForApp (token_login (he_token E)) fl (aq_TenantID req) (aq_AppRowID req) (hq_email q) ls = Inr (uid, email)"
        "az_UserID sess = uid" "hs_codes st' = hs_codes st @ [c]" "code_for E now (req\<lparr>aq_Email := hq_email q\<rparr>) sess org code c"
        "\<forall>i. org = Some i \<longrightarrow> can_enter (hs_orgs st) i uid (aq_AppRowID req)"
        "p = ErrorPage 500 \<or> p = RedirectTo (aq_RedirectURI req) ((''code'', code) # state_param (aq_State req))"
      by (auto simp: a(2))
    then show ?thesis
    proof cases
      case new
      moreover have "asks E fl now PageLogin q st (req\<lparr>aq_Email := hq_email q\<rparr>)" using go(1) by (auto simp: asks_def)
      moreover have "signed_in E fl now rnd PageLogin q (req\<lparr>aq_Email := hq_email q\<rparr>) st (az_UserID sess)"
        using go(2) new(1,2) by (auto simp: signed_in_def i)
      ultimately show ?thesis unfolding hands_out_def
        by (intro disjI2 exI [of _ "req\<lparr>aq_Email := hq_email q\<rparr>"] exI [of _ sess] exI [of _ org] exI [of _ code] exI [of _ c]) simp
    qed simp
  qed simp_all
qed

lemma MFASubmit_code:
  assumes run: "hosted E fl now rnd PageMFA q st = (p, st')" and ok: "orgs_ok (hs_orgs st)" "members_ok (hs_orgs st)"
  shows "hs_codes st' = hs_codes st \<or> hands_out E fl now rnd PageMFA q st p st'"
proof -
  from run obtain a where a: "MFASubmit E fl now rnd q st = (a, st')" "p = an_page a" by (auto simp: hosted_def map_prod_def split: prod.splits)
  from a(1) show ?thesis
  proof (cases rule: MFASubmit_cases)
    case (go req tok ls)
    from completed_code [OF go(3)] ok consider (same) "hs_codes st' = hs_codes st"
      | (new) uid email sess org code c where "LookupUserForApp (token_login (he_token E)) fl (aq_TenantID req) (aq_AppRowID req) (aq_Email req) ls = Inr (uid, email)"
        "az_UserID sess = uid" "hs_codes st' = hs_codes st @ [c]" "code_for E now req sess org code c"
        "\<forall>i. org = Some i \<longrightarrow> can_enter (hs_orgs st) i uid (aq_AppRowID req)"
        "p = ErrorPage 500 \<or> p = RedirectTo (aq_RedirectURI req) ((''code'', code) # state_param (aq_State req))"
      by (auto simp: a(2))
    then show ?thesis
    proof cases
      case new
      moreover have "asks E fl now PageMFA q st req" using go(1) by (simp add: asks_def)
      moreover have "signed_in E fl now rnd PageMFA q req st (az_UserID sess)" using go(2) new(1,2) by (auto simp: signed_in_def)
      ultimately show ?thesis unfolding hands_out_def
        by (intro disjI2 exI [of _ req] exI [of _ sess] exI [of _ org] exI [of _ code] exI [of _ c]) simp
    qed simp
  qed simp
qed


subsection \<open>Where the browser is sent\<close>

lemma state_param_lookup: "map_of (state_param s) ''state'' = nullIfEmpty s"
  by (simp add: state_param_def nullIfEmpty_def)

definition returns_to :: "AuthzRequest \<Rightarrow> string \<Rightarrow> (string \<times> string) list \<Rightarrow> bool" where
  "returns_to req uri ps \<longleftrightarrow> uri = aq_RedirectURI req \<and> map_of ps ''state'' = nullIfEmpty (aq_State req)"

lemma waits_redirect: "waits req (RedirectTo uri ps) \<Longrightarrow> returns_to req uri ps"
  by (auto simp: waits_def returns_error_def returns_to_def state_param_lookup)

lemma issue_redirect: "issueCodeAndRedirect E fl now rnd handle req sess st = (RedirectTo uri ps, st') \<Longrightarrow> returns_to req uri ps"
  by (erule issueCode_cases) (auto simp: returns_to_def state_param_lookup dest: waits_redirect)

lemma complete_redirect: "completeLogin E fl now rnd handle req st = (a, st') \<Longrightarrow> an_page a = RedirectTo uri ps \<Longrightarrow> returns_to req uri ps"
  by (erule completeLogin_cases) (auto dest: waits_redirect issue_redirect)

lemma returns_to_update [simp]:
  "returns_to (req\<lparr>aq_Email := e\<rparr>) uri ps = returns_to req uri ps" "returns_to (req\<lparr>aq_Organization := e\<rparr>) uri ps = returns_to req uri ps"
  by (simp_all add: returns_to_def)

lemma parked_redirect:
  assumes run: "hosted E fl now rnd which q st = (RedirectTo uri ps, st')" and w: "which \<noteq> PageAuthorize"
  shows "\<exists>req. GetRequest (he_redis E) (he_hash E) fl now (hq_request q) (hs_redis st) = Inr req \<and> returns_to req uri ps"
proof (cases which)
  case PageLogin
  from run obtain a where a: "LoginSubmit E fl now rnd q st = (a, st')" "an_page a = RedirectTo uri ps" by (auto simp: hosted_def PageLogin map_prod_def split: prod.splits)
  from a(1) show ?thesis
    by (cases rule: LoginSubmit_cases) (use a(2) in \<open>auto dest: complete_redirect waits_redirect\<close>)
next
  case PageMFA
  from run obtain a where a: "MFASubmit E fl now rnd q st = (a, st')" "an_page a = RedirectTo uri ps" by (auto simp: hosted_def PageMFA map_prod_def split: prod.splits)
  from a(1) show ?thesis
    by (cases rule: MFASubmit_cases) (use a(2) in \<open>auto dest: complete_redirect\<close>)
next
  case PageOrganization
  with run have "OrganizationSubmit E fl now rnd q st = (RedirectTo uri ps, st')" by (simp add: hosted_def)
  then show ?thesis by (cases rule: OrganizationSubmit_cases) (auto dest: issue_redirect)
qed (use w in simp)

text \<open>A page that waits for the user, with the handle of the parked request.\<close>

definition parks :: "string \<Rightarrow> page \<Rightarrow> bool" where
  "parks h p \<longleftrightarrow> p = LoginPage 200 h \<or> (\<exists>cs. p = OrganizationPage h cs)"

definition registered :: "'r hosted_env \<Rightarrow> hosted_request \<Rightarrow> string \<Rightarrow> bool" where
  "registered E q uri \<longleftrightarrow>
     (\<exists>r \<in> set (te_clients (he_token E)). live_client r \<and> oc_client_id r = hq_client_id q \<and> uri \<in> set (cr_redirect_uris r))"

text \<open>The request the endpoint would park: of a live client, with a registered target and the scopes it may have.\<close>

definition asked :: "'r hosted_env \<Rightarrow> faults \<Rightarrow> hosted_request \<Rightarrow> AuthzRequest \<Rightarrow> bool" where
  "asked E fl q req \<longleftrightarrow>
     (\<exists>client uri. LookupClient fl (hq_client_id q) (te_clients (he_token E)) = Inr client \<and> ResolveRedirectURI client (hq_redirect_uri q) = Inr uri
        \<and> req = authz_request client uri (FilterScopes (ParseScopeParam (hq_scope q)) (ac_Scopes client)) q)"

lemma resolved_registered:
  assumes "LookupClient fl (hq_client_id q) (te_clients (he_token E)) = Inr client" "ResolveRedirectURI client (hq_redirect_uri q) = Inr uri"
  shows "registered E q uri"
proof -
  from assms(1) obtain r where f: "find (\<lambda>c. oc_client_id c = hq_client_id q \<and> oc_deleted c = None \<and> oc_active c) (te_clients (he_token E)) = Some r"
    "ac_RedirectURIs client = cr_redirect_uris r" by (auto simp: LookupClient_def split: if_splits option.splits)
  have "uri \<in> set (ac_RedirectURIs client)" using assms(2) by (auto simp: ResolveRedirectURI_def split: if_splits list.splits)
  with find_memD [OF f(1)] f(2) show ?thesis by (auto simp: registered_def live_client_def)
qed

lemma Authorize_parks:
  assumes run: "Authorize E fl now rnd q st = (p, st')" and p: "parks h p"
  obtains client uri req r where "LookupClient fl (hq_client_id q) (te_clients (he_token E)) = Inr client" "ResolveRedirectURI client (hq_redirect_uri q) = Inr uri"
    "req = authz_request client uri (FilterScopes (ParseScopeParam (hq_scope q)) (ac_Scopes client)) q"
    "SaveRequest (he_redis E) (he_hash E) fl now (hr_handle rnd) req (hs_redis st) = (Inr h, hs_redis st')"
proof -
  have no: "\<not> parks h (redirectError E u s e)" for u s e by (simp add: parks_def redirectError_def)
  have save: "SaveRequest (he_redis E) (he_hash E) fl now (hr_handle rnd) req (hs_redis st) = (Inr h, hs_redis st')"
    if "issueCodeAndRedirect E fl now rnd [] req sess st = (p, st')" for req sess
    using that p no by (auto simp: issueCodeAndRedirect_def resolveOrganization_def Let_def parks_def split: sum.splits prod.splits if_splits)
  from run p no obtain client uri where c: "LookupClient fl (hq_client_id q) (te_clients (he_token E)) = Inr client"
    "ResolveRedirectURI client (hq_redirect_uri q) = Inr uri" by (auto simp: Authorize_def parks_def split: sum.splits)
  show thesis
    by (rule that [OF c refl])
      (use run c p no save in \<open>auto simp: Authorize_def Let_def parks_def split: sum.splits prod.splits if_splits option.splits\<close>)
qed


subsection \<open>One nonce, one code\<close>

context authz_store
begin

lemma nonce_refused:
  assumes "n \<noteq> []" "rget R r t (authzNonceKey H tid cid n) \<noteq> None"
  shows "\<exists>e r'. BurnNonce R H fl t tid cid n r = (Inl e, r')"
  using assms authzNonceTTL_pos by (auto simp: BurnNonce_def setnx)

lemma nonce_kept: "t0 \<le> t \<Longrightarrow> rget R (DeleteRequest R H fl t0 h r) t (authzNonceKey H tid cid n) = rget R r t (authzNonceKey H tid cid n)"
  using keys_differ by (simp add: DeleteRequest_def get_del)

end

text \<open>
  One nonce yields at most one code. Once a code was issued for a request with a nonce, no later request of the same
  client with that nonce is given a code while the nonce is remembered, which is as long as an ID token lives,
  whoever is signed in, through whichever page and whatever calls fail, as long as the store keeps the nonce.
\<close>

theorem nonce_yields_one_code:
  assumes redis: "redis_store (he_redis E)"
    and first: "issueCodeAndRedirect E fl t0 rnd h req sess st = (p, st1)" "hs_codes st1 \<noteq> hs_codes st" "aq_Nonce req \<noteq> []"
    and same: "aq_Nonce req' = aq_Nonce req" "aq_TenantID req' = aq_TenantID req" "aq_ClientID req' = aq_ClientID req"
    and time: "t0 \<le> t" "t < t0 + authzNonceTTL"
    and kept: "\<And>k. k = authzNonceKey (he_hash E) (aq_TenantID req) (aq_ClientID req) (aq_Nonce req) \<Longrightarrow>
      rget (he_redis E) (hs_redis st2) t k = rget (he_redis E) (hs_redis st1) t k"
    and again: "issueCodeAndRedirect E fl' t rnd' h' req' sess' st2 = (p', st3)"
  shows "hs_codes st3 = hs_codes st2 \<and> waits req' p'"
proof -
  let ?k = "authzNonceKey (he_hash E) (aq_TenantID req) (aq_ClientID req) (aq_Nonce req)"
  note store = authz_store.intro [OF redis]
  have held: "rget (he_redis E) (hs_redis st1) t ?k \<noteq> None"
    using first(1)
  proof (cases rule: issueCode_cases)
    case (code c code dec r)
    have "rget (he_redis E) r t ?k \<noteq> None" by (rule authz_store.nonce_burned [OF store code(5) first(3) time])
    with code(7) show ?thesis by (auto simp: authz_store.nonce_kept [OF store time(1)])
  qed (use first(2) in simp)
  from again show ?thesis
  proof (cases rule: issueCode_cases)
    case (code c code dec r)
    have "rget (he_redis E) (hs_redis st2) t ?k \<noteq> None" using held kept by simp
    from authz_store.nonce_refused [OF store first(3) this, of fl'] code(5) show ?thesis by (simp add: same)
  qed simp
qed

subsection \<open>Single sign-on across applications\<close>

text \<open>
  The endpoint accepts any session of the client's tenant. When the user of the browser's session belongs to another
  application of that tenant, the client is still sent a code for that user, without a login page; and no exchange of that code
  ever answers with tokens, whoever presents it, when and with what verifier, since the token endpoint looks for the
  account among the users of the client.
\<close>

theorem sso_code_of_other_application_is_dead:
  assumes run: "Authorize E fl now rnd q st = (RedirectTo uri ((''code'', code) # ps), st1)"
    and sess: "currentSession E fl now (hq_cookie q) st = Some sess"
    and other: "\<And>r u. r \<in> set (te_clients (he_token E)) \<Longrightarrow> oc_client_id r = hq_client_id q \<Longrightarrow> u \<in> set (bs_users (ls_block (hs_login st))) \<Longrightarrow>
      u_id u = az_UserID sess \<Longrightarrow> u_application u \<noteq> Some (oc_id r)"
    and ok: "clients_ok (te_clients (he_token E))" "codes_ok (hs_codes st)"
  shows "(\<exists>c. hs_codes st1 = hs_codes st @ [c] \<and> code_hash c = he_hash E code \<and> ac_client c = hq_client_id q \<and> ac_user c = az_UserID sess)
    \<and> (\<forall>fl' t raw jti tq resp. tr_code tq = code \<longrightarrow> fst (authorizationCodeGrant (he_token E) fl' t raw jti tq (hs_token st1)) \<noteq> TokenOK resp)"
proof -
  from run obtain c where c: "hs_codes st1 = hs_codes st @ [c]" "code_hash c = he_hash E code" "ac_client c = hq_client_id q" "ac_user c = az_UserID sess"
    "code_hash c \<notin> code_hash ` set (hs_codes st)" and us: "bs_users (ls_block (hs_login st1)) = bs_users (ls_block (hs_login st))"
  proof (cases rule: Authorize_cases)
    case (sso client uri' req sess')
    have s: "sess' = sess" using sso(8) sess by simp
    have cid: "aq_ClientID req = hq_client_id q" using sso(1,3) by (auto simp: authz_request_def elim: LookupClient_InrD)
    from sso(10) show thesis
    proof (cases rule: issueCode_cases)
      case (code c code' dec r)
      with cid s show thesis by (intro that [of c]) (auto simp: code_for_def)
    qed (auto simp: waits_def returns_error_def)
  qed (auto simp: redirectError_def split: if_splits)
  have uniq: "codes_ok (hs_codes st1)" using ok(2) c(1,5) by (simp add: codes_ok_def)
  have False if code: "tr_code tq = code" and g: "authorizationCodeGrant (he_token E) fl' t raw jti tq (hs_token st1) = (TokenOK resp, ts)"
    for fl' t raw jti tq resp ts
  proof -
    let ?Z = "he_token E"
    obtain cid secret where cred: "clientCredentialsFromRequest tq = (cid, secret)" by fastforce
    from g cred obtain client d cs issued ls where a: "authenticateClient ?Z fl' cid secret = Inr client"
      and R: "RedeemAuthorizationCode (te_hash ?Z) (te_sha ?Z) fl' t (ac_ClientID client) (tr_code tq) (tr_redirect_uri tq) (tr_code_verifier tq) (hs_codes st1) = (Inr d, cs)"
      and I: "IssueTokensForAuthorizationCode ?Z fl' t raw (rc_TenantID d) (rc_UserID d) (ac_RowID client) (rc_Scopes d) (rc_Audience d)
         (rc_OrganizationID d) (hs_login st1) = (Inr issued, ls)" by (rule code_grant_OKD)
    obtain r where r: "r \<in> set (te_clients ?Z)" "oc_client_id r = cid" "ac_RowID client = oc_id r" "ac_ClientID client = cid"
      by (rule authenticateClient_InrD [OF ok(1) a])
    obtain c' where c': "consume_code (redeemable t (te_hash ?Z code) cid) t (hs_codes st1) = Some (c', cs)" "rc_UserID d = ac_user c'"
      by (rule Redeem_InrD [OF R [unfolded r(4) code]]) simp
    from consume_code_Some [OF c'(1)] have "c' \<in> set (hs_codes st1)" "code_hash c' = he_hash E code" "ac_client c' = cid"
      by (auto simp: redeemable_def)
    with unique_code [OF uniq, of c' c] c have cc: "c' = c" "cid = hq_client_id q" by auto
    obtain u where u: "u \<in> set (bs_users (ls_block (hs_login st1)))" "u_id u = rc_UserID d" "app_user (token_login ?Z) (rc_TenantID d) (ac_RowID client) u"
      by (rule IssueTokens_InrD [OF I]) blast
    with other [of r u] r cc c c'(2) us show False by (simp add: app_user_def)
  qed
  then have "\<forall>fl' t raw jti tq resp. tr_code tq = code \<longrightarrow> fst (authorizationCodeGrant (he_token E) fl' t raw jti tq (hs_token st1)) \<noteq> TokenOK resp"
    by (metis prod.collapse)
  with c show ?thesis by blast
qed

subsection \<open>The straight path\<close>

lemma issue_runs:
  assumes "DecideOrganization (hosted_orgs E st) fl (az_UserID sess) (aq_AppRowID req) (aq_Organization req) False (hs_orgs st) = Inr dec" "od_Choices dec = []"
    and "BurnNonce (he_redis E) (he_hash E) fl now (aq_TenantID req) (aq_ClientID req) (aq_Nonce req) (hs_redis st) = (Inr (), r)"
    and "hr_code rnd = Some code" "he_hash E code \<notin> code_hash ` set (hs_codes st)" "\<not> fl ''persist authorization code''" "he_parses E (aq_RedirectURI req)"
  shows "fst (issueCodeAndRedirect E fl now rnd handle req sess st) = RedirectTo (aq_RedirectURI req) ((''code'', code) # state_param (aq_State req))"
    and "map ac_user (hs_codes (snd (issueCodeAndRedirect E fl now rnd handle req sess st))) = map ac_user (hs_codes st) @ [az_UserID sess]"
proof -
  have "resolveOrganization E fl now rnd handle req sess st = (Inr (od_OrgRowID dec), st)" using assms(1,2) by (simp add: resolveOrganization_def)
  with assms(3-) show "fst (issueCodeAndRedirect E fl now rnd handle req sess st) = RedirectTo (aq_RedirectURI req) ((''code'', code) # state_param (aq_State req))"
    and "map ac_user (hs_codes (snd (issueCodeAndRedirect E fl now rnd handle req sess st))) = map ac_user (hs_codes st) @ [az_UserID sess]"
    by (simp_all add: issueCodeAndRedirect_def IssueAuthorizationCode_def insert_code_def code_params_def Let_def state_param_def)
qed

text \<open>A request that passes every check.\<close>

definition acceptable :: "'r hosted_env \<Rightarrow> faults \<Rightarrow> hosted_request \<Rightarrow> AuthzClient \<Rightarrow> string \<Rightarrow> AuthzRequest \<Rightarrow> bool" where
  "acceptable E fl q client uri req \<longleftrightarrow>
     LookupClient fl (hq_client_id q) (te_clients (he_token E)) = Inr client \<and> ResolveRedirectURI client (hq_redirect_uri q) = Inr uri
     \<and> hq_state q \<noteq> [] \<and> hq_response_type q = ''code'' \<and> AllowsGrant client ''authorization_code'' \<and> ac_FirstParty client \<and> challenge_ok client q
     \<and> FilterScopes (ParseScopeParam (hq_scope q)) (ac_Scopes client) \<noteq> [] \<and> audience_ok E fl client q
     \<and> req = authz_request client uri (FilterScopes (ParseScopeParam (hq_scope q)) (ac_Scopes client)) q"

lemma Authorize_signed_in:
  assumes "acceptable E fl q client uri req" "currentSession E fl now (hq_cookie q) st = Some sess" "az_TenantID sess = ac_TenantID client"
  shows "Authorize E fl now rnd q st = issueCodeAndRedirect E fl now rnd [] req sess st"
  using assms unfolding acceptable_def by (simp add: Authorize_def Let_def)

lemma Authorize_unknown:
  assumes "acceptable E fl q client uri req" "currentSession E fl now (hq_cookie q) st = None"
    and "SaveRequest (he_redis E) (he_hash E) fl now (hr_handle rnd) req (hs_redis st) = (Inr h, r)"
  shows "Authorize E fl now rnd q st = (LoginPage 200 h, put_hs_redis r st)"
  using assms unfolding acceptable_def by (simp add: Authorize_def Let_def)

context authz_store
begin

lemma GetSession_SaveRequest: "t0 \<le> t \<Longrightarrow> GetSession R H fl t h (snd (SaveRequest R H fl' t0 raw q r)) = GetSession R H fl t h r"
  by (auto simp: GetSession_def SaveRequest_def get_set keys_differ authzRequestTTL_def split: option.splits)

lemma CreateSession_runs:
  assumes "sso_ok s"
  shows "CreateSession R H no_faults t0 (Some h) s r = (Inr h, snd (CreateSession R H no_faults t0 (Some h) s r))"
  using assms format_time_total [of "az_AuthTime s"] by (auto simp: CreateSession_def authz_session_json_def sso_ok_def)

lemma nonce_fresh:
  assumes "rget R r t (authzNonceKey H tid cid n) = None"
  shows "\<exists>r'. BurnNonce R H no_faults t tid cid n r = (Inr (), r')"
  using assms authzNonceTTL_pos by (auto simp: BurnNonce_def setnx)

lemma nonce_not_session:
  "t0 \<le> t \<Longrightarrow> rget R (snd (CreateSession R H fl t0 raw s r)) t (authzNonceKey H tid cid n) = rget R r t (authzNonceKey H tid cid n)"
  "t0 \<le> t \<Longrightarrow> rget R (snd (SaveRequest R H fl t0 raw q r)) t (authzNonceKey H tid cid n) = rget R r t (authzNonceKey H tid cid n)"
  using keys_differ by (auto simp: CreateSession_def SaveRequest_def get_set AuthzSessionTTL_def authzRequestTTL_def split: option.splits)

end

subsection \<open>A sample\<close>

text \<open>
  The browser holds the session \<^verbatim>\<open>sso\<close> of the given user. User 7 belongs to application 5, the one behind the client \<^verbatim>\<open>shop\<close>,
  user 8 to application 6 of the same tenant.
\<close>

definition sample_hosted_env :: "keyspace hosted_env" where
  "sample_hosted_env = \<lparr>he_token = sample_token_env, he_organizations = False, he_audiences = True, he_requireState = True, he_parses = (\<lambda>_. True)\<rparr>"

definition sample_sso :: "int \<Rightarrow> AuthzSession" where
  "sample_sso uid = \<lparr>az_UserID = uid, az_TenantID = 3, az_Email = ''a@b.c'', az_AuthTime = 0\<rparr>"

definition sample_hosted_users :: "lockout_row list" where
  "sample_hosted_users = [(sample_account True 0 None)\<lparr>u_application := Some 5\<rparr>, (sample_account True 0 None)\<lparr>u_id := 8, u_application := Some 6\<rparr>]"

definition sample_hosted_state :: "int \<Rightarrow> keyspace hosted_state" where
  "sample_hosted_state uid = put_hs_redis (snd (CreateSession keyspace_ops id no_faults 0 (Some ''sso'') (sample_sso uid) Map.empty))
     \<lparr>hs_token = \<lparr>tk_login = put_block ((ls_block (tk_login sample_token_state))\<lparr>bs_users := sample_hosted_users\<rparr>) (tk_login sample_token_state), tk_codes = []\<rparr>,
      hs_orgs = \<lparr>organizations = [], org_members = [], org_member_roles = [], org_invitations = [], org_apps = [], next_org_id = 1\<rparr>\<rparr>"

definition sample_hosted_random :: hosted_random where
  "sample_hosted_random = \<lparr>hr_login = sample_random, hr_handle = Some ''h'', hr_session = Some ''s'', hr_code = Some ''c0de''\<rparr>"

definition sample_hosted_request :: "string option \<Rightarrow> hosted_request" where
  "sample_hosted_request cookie =
     \<lparr>hq_client_id = ''shop'', hq_redirect_uri = ''https://shop/cb'', hq_response_type = ''code'', hq_scope = ''openid'', hq_state = ''xyz'',
      hq_nonce = ''n'', hq_code_challenge = DeriveS256Challenge sample_sha sample_verifier, hq_code_challenge_method = ''S256'',
      hq_audience = [], hq_resource = [], hq_organization = [], hq_cookie = cookie, hq_request = ''h'', hq_email = ''a@b.c'',
      hq_password = ''pw'', hq_code = []\<rparr>"

definition sample_authz_client :: AuthzClient where
  "sample_authz_client = projr (LookupClient no_faults ''shop'' (te_clients sample_token_env))"

definition sample_parked_request :: AuthzRequest where
  "sample_parked_request = authz_request sample_authz_client ''https://shop/cb'' [''openid''] (sample_hosted_request None)"

lemma sample_client_row: "LookupClient no_faults ''shop'' (te_clients sample_token_env) = Inr sample_authz_client"
proof -
  have "\<not> isl (LookupClient no_faults ''shop'' (te_clients sample_token_env))" by code_simp
  then show ?thesis by (simp add: sample_authz_client_def sum.expand)
qed

lemma sample_acceptable:
  "acceptable sample_hosted_env no_faults (sample_hosted_request cookie) sample_authz_client ''https://shop/cb'' sample_parked_request"
proof -
  have "challenge_ok sample_authz_client (sample_hosted_request None)" "ResolveRedirectURI sample_authz_client ''https://shop/cb'' = Inr ''https://shop/cb''"
    "AllowsGrant sample_authz_client ''authorization_code''" "ac_FirstParty sample_authz_client"
    "FilterScopes (ParseScopeParam ''openid'') (ac_Scopes sample_authz_client) = [''openid'']" by code_simp+
  then show ?thesis
    by (simp add: acceptable_def sample_hosted_env_def sample_hosted_request_def sample_client_row challenge_ok_def audience_ok_def hosted_audience_def
        sample_parked_request_def authz_request_def)
qed

lemma sample_hosted_simps [simp]:
  "he_redis sample_hosted_env = keyspace_ops" "he_hash sample_hosted_env = id" "hs_codes (sample_hosted_state uid) = []"
  "hs_redis (sample_hosted_state uid) = snd (CreateSession keyspace_ops id no_faults 0 (Some ''sso'') (sample_sso uid) Map.empty)"
  "az_UserID (sample_sso uid) = uid" "az_TenantID (sample_sso uid) = 3"
  "hq_cookie (sample_hosted_request cookie) = cookie" "hr_code sample_hosted_random = Some ''c0de''" "hr_handle sample_hosted_random = Some ''h''"
  by (simp_all add: sample_hosted_env_def sample_token_env_def sample_token_login_def sample_hosted_state_def sample_sso_def sample_hosted_request_def
      sample_hosted_random_def)

lemma sample_hosted_store: "redis_store (he_redis sample_hosted_env)"
  using ks.redis_store_axioms by simp

lemma sample_sso_ok: "uid \<in> {7, 8} \<Longrightarrow> sso_ok (sample_sso uid)"
proof -
  have "0 \<le> year_of 0" "year_of 0 \<le> 9999" by code_simp+
  then show "uid \<in> {7, 8} \<Longrightarrow> sso_ok (sample_sso uid)" by (auto simp: sso_ok_def sample_sso_def int64_range_def ascii_def)
qed

lemma sample_session:
  assumes "uid \<in> {7, 8}" "0 \<le> t" "t < AuthzSessionTTL"
  shows "GetSession keyspace_ops id no_faults t ''sso'' (hs_redis (sample_hosted_state uid)) = Inr (sample_sso uid)"
  using kauthz.GetSession_created [OF kauthz.CreateSession_runs [OF sample_sso_ok [OF assms(1)], of id 0 "''sso''" Map.empty] sample_sso_ok [OF assms(1)] _ assms(2)] assms(3)
  by simp

lemma sample_current: "uid \<in> {7, 8} \<Longrightarrow> currentSession sample_hosted_env no_faults Second (Some ''sso'') (sample_hosted_state uid) = Some (sample_sso uid)"
  using sample_session [of uid Second] by (simp add: currentSession_def AuthzSessionTTL_def)

lemma sample_decision:
  "DecideOrganization (hosted_orgs sample_hosted_env st) no_faults u a r p db = Inr \<lparr>od_OrgRowID = None, od_Choices = [], od_applies = False\<rparr>"
  by (simp add: DecideOrganization_def ApplicationMode_def hosted_orgs_def sample_hosted_env_def)

lemma sample_issue:
  assumes "rget keyspace_ops (hs_redis st) t (authzNonceKey id (aq_TenantID req) (aq_ClientID req) (aq_Nonce req)) = None" "hs_codes st = []"
  shows "fst (issueCodeAndRedirect sample_hosted_env no_faults t sample_hosted_random h req sess st)
      = RedirectTo (aq_RedirectURI req) ((''code'', ''c0de'') # state_param (aq_State req))"
    and "map ac_user (hs_codes (snd (issueCodeAndRedirect sample_hosted_env no_faults t sample_hosted_random h req sess st))) = [az_UserID sess]"
proof -
  from kauthz.nonce_fresh [OF assms(1)] obtain r where "BurnNonce (he_redis sample_hosted_env) (he_hash sample_hosted_env) no_faults t (aq_TenantID req)
      (aq_ClientID req) (aq_Nonce req) (hs_redis st) = (Inr (), r)" by auto
  note runs = issue_runs [OF sample_decision _ this]
  have p: "he_parses sample_hosted_env x" for x by (simp add: sample_hosted_env_def)
  show "fst (issueCodeAndRedirect sample_hosted_env no_faults t sample_hosted_random h req sess st)
      = RedirectTo (aq_RedirectURI req) ((''code'', ''c0de'') # state_param (aq_State req))"
    by (rule runs(1)) (simp_all add: assms(2) p)
  show "map ac_user (hs_codes (snd (issueCodeAndRedirect sample_hosted_env no_faults t sample_hosted_random h req sess st))) = [az_UserID sess]"
    by (subst runs(2) [where code = "''c0de''"]) (simp_all add: assms(2) p)
qed

lemma sample_nonce_free: "0 \<le> t \<Longrightarrow> rget keyspace_ops (hs_redis (sample_hosted_state uid)) t (authzNonceKey id a b c) = None"
proof -
  have "rget keyspace_ops Map.empty t k = None" for k by (simp add: keyspace_ops_def ks_get_def)
  then show "0 \<le> t \<Longrightarrow> rget keyspace_ops (hs_redis (sample_hosted_state uid)) t (authzNonceKey id a b c) = None"
    by (simp add: kauthz.nonce_not_session)
qed

abbreviation sample_asked :: "int \<Rightarrow> page \<times> keyspace hosted_state" where
  "sample_asked uid \<equiv> Authorize sample_hosted_env no_faults Second sample_hosted_random (sample_hosted_request (Some ''sso'')) (sample_hosted_state uid)"

lemma sample_asked:
  assumes "uid \<in> {7, 8}"
  shows "sample_asked uid = issueCodeAndRedirect sample_hosted_env no_faults Second sample_hosted_random [] sample_parked_request (sample_sso uid) (sample_hosted_state uid)"
    "fst (sample_asked uid) = RedirectTo ''https://shop/cb'' [(''code'', ''c0de''), (''state'', ''xyz'')]"
    "map ac_user (hs_codes (snd (sample_asked uid))) = [uid]"
proof -
  have "ac_TenantID sample_authz_client = 3" by code_simp
  with sample_current [OF assms] show eq: "sample_asked uid =
      issueCodeAndRedirect sample_hosted_env no_faults Second sample_hosted_random [] sample_parked_request (sample_sso uid) (sample_hosted_state uid)"
    by (intro Authorize_signed_in [OF sample_acceptable]) simp_all
  show "fst (sample_asked uid) = RedirectTo ''https://shop/cb'' [(''code'', ''c0de''), (''state'', ''xyz'')]"
    unfolding eq by (subst sample_issue(1) [OF sample_nonce_free]) (simp_all add: sample_parked_request_def authz_request_def sample_hosted_request_def state_param_def)
  show "map ac_user (hs_codes (snd (sample_asked uid))) = [uid]" unfolding eq by (subst sample_issue(2) [OF sample_nonce_free]) simp_all
qed

lemma sample_hosted_orgs: "orgs_ok (hs_orgs (sample_hosted_state uid))" "members_ok (hs_orgs (sample_hosted_state uid))"
  by (simp_all add: sample_hosted_state_def orgs_ok_def members_ok_def)


definition sample_choice :: hosted_request where
  "sample_choice = (sample_hosted_request (Some ''sso''))\<lparr>hq_organization := ''acme''\<rparr>"

lemma sample_request_ok:
  assumes "asked sample_hosted_env no_faults (sample_hosted_request None) req"
  shows "request_ok req" "req = sample_parked_request"
proof -
  show req: "req = sample_parked_request" using assms sample_acceptable [of None] by (auto simp: asked_def acceptable_def)
  show "request_ok req" unfolding req by code_simp
qed


abbreviation sample_first :: "page \<times> keyspace hosted_state" where
  "sample_first \<equiv> issueCodeAndRedirect sample_hosted_env no_faults Second sample_hosted_random ''h'' sample_parked_request (sample_sso 7) (sample_hosted_state 7)"

abbreviation sample_again :: "page \<times> keyspace hosted_state" where
  "sample_again \<equiv> issueCodeAndRedirect sample_hosted_env no_faults Minute (sample_hosted_random\<lparr>hr_code := Some ''d''\<rparr>) [] sample_parked_request (sample_sso 8) (snd sample_first)"

theorem nonce_yields_one_code_witness:
  "map ac_user (hs_codes (snd sample_first)) = [7] \<and> hs_codes (snd sample_again) = hs_codes (snd sample_first) \<and> waits sample_parked_request (fst sample_again)"
proof -
  have one: "map ac_user (hs_codes (snd sample_first)) = [7]" by (subst sample_issue(2) [OF sample_nonce_free]) simp_all
  then have new: "hs_codes (snd sample_first) \<noteq> hs_codes (sample_hosted_state 7)" by auto
  have time: "Second \<le> Minute" "Minute < Second + authzNonceTTL"
    by (simp_all add: authzNonceTTL_def IDTokenTTL_def AccessTokenTTL_def)
  have n: "aq_Nonce sample_parked_request \<noteq> []" by (simp add: sample_parked_request_def authz_request_def sample_hosted_request_def)
  from one nonce_yields_one_code [OF sample_hosted_store prod.collapse [symmetric] new n refl refl refl time refl prod.collapse [symmetric]]
  show ?thesis by blast
qed

theorem sso_code_of_other_application_is_dead_witness:
  "\<exists>c st1. sample_asked 8 = (RedirectTo ''https://shop/cb'' [(''code'', ''c0de''), (''state'', ''xyz'')], st1) \<and> hs_codes st1 = [c] \<and> ac_user c = 8
     \<and> (\<forall>resp. fst (authorizationCodeGrant sample_token_env no_faults (2 * Second) (Some ''fresh'') ''j'' sample_code_request (hs_token st1)) \<noteq> TokenOK resp)"
proof -
  obtain st1 where run: "sample_asked 8 = (RedirectTo ''https://shop/cb'' [(''code'', ''c0de''), (''state'', ''xyz'')], st1)"
    using sample_asked(2) [of 8] by (cases "sample_asked 8") simp
  have sess: "currentSession sample_hosted_env no_faults Second (hq_cookie (sample_hosted_request (Some ''sso''))) (sample_hosted_state 8) = Some (sample_sso 8)"
    using sample_current [of 8] by simp
  have env: "he_token sample_hosted_env = sample_token_env" "te_clients sample_token_env = [sample_client]" "oc_id sample_client = 5"
    by (simp_all add: sample_hosted_env_def sample_token_env_def sample_client_def)
  have users: "bs_users (ls_block (hs_login (sample_hosted_state 8))) = sample_hosted_users"
    by (simp add: sample_hosted_state_def put_hs_redis_def put_hs_login_def put_redis_def set_redis_def)
  have other: "u_application u \<noteq> Some (oc_id r)" if "r \<in> set (te_clients (he_token sample_hosted_env))" "oc_client_id r = hq_client_id (sample_hosted_request (Some ''sso''))"
    "u \<in> set (bs_users (ls_block (hs_login (sample_hosted_state 8))))" "u_id u = az_UserID (sample_sso 8)" for r u
    using that env unfolding users by (auto simp: sample_hosted_users_def sample_account_def)
  have ok: "clients_ok (te_clients (he_token sample_hosted_env))" "codes_ok (hs_codes (sample_hosted_state 8))"
    using sample_clients_ok by (simp_all add: env codes_ok_def)
  have code: "tr_code sample_code_request = ''c0de''" by (simp add: sample_code_request_def)
  have dead: "(\<exists>c. hs_codes st1 = hs_codes (sample_hosted_state 8) @ [c] \<and> code_hash c = he_hash sample_hosted_env ''c0de''
        \<and> ac_client c = hq_client_id (sample_hosted_request (Some ''sso'')) \<and> ac_user c = az_UserID (sample_sso 8))
      \<and> (\<forall>fl' t raw jti tq resp. tr_code tq = ''c0de'' \<longrightarrow> fst (authorizationCodeGrant (he_token sample_hosted_env) fl' t raw jti tq (hs_token st1)) \<noteq> TokenOK resp)"
    by (rule sso_code_of_other_application_is_dead [OF run sess _ ok]) (rule other)
  from conjunct1 [OF dead] obtain c where "hs_codes st1 = [c]" "ac_user c = 8" by auto
  with run conjunct2 [OF dead, rule_format, OF code] show ?thesis unfolding env by blast
qed

end
