(* ===== verification/Spec2Isabelle.thy ===== *)
theory Spec2Isabelle
  imports TenantSwitch Lockout SessionReaper Challenge HostedGrants
begin

text \<open>
  A verification library for the authentication server: a multi-tenant identity service written in Go, with its
  rows in PostgreSQL and its short-lived state in Redis. The library models the service layer (\<^verbatim>\<open>src/internal/auth\<close>)
  from the password to the end of a session, with the OAuth endpoints in front of it, and proves what the code promises on the way.

  \<^bold>\<open>The parts and how they interact.\<close> A login (\<^verbatim>\<open>Login\<close>) authenticates the application, finds the
  candidate accounts, compares the password, and asks the account lockout whether the account may sign in. The MFA
  gate then decides between tokens, a challenge and an enrolment; a challenge waits in Redis for \<^verbatim>\<open>LoginOTP\<close>. Tokens
  are minted by \<^verbatim>\<open>issueTokenPairWithScope\<close>: it resolves the audience, caps the sessions, and writes the session and
  the refresh token in one transaction. \<^verbatim>\<open>Refresh\<close> rotates the refresh token, detects a replay and ends the session;
  \<^verbatim>\<open>SwitchTenantContext\<close> re-mints a session for another tenant. Clients that use OAuth get a one-time code bound to a
  proof key, and exchange it at the token endpoint, which authenticates the client and mints through the same path. Revocation ends sessions in the tables and puts a
  marker in the Redis denylist; the reaper deletes what is dead.

  \<^bold>\<open>How the code is rendered.\<close> Structs are records and tables are lists of row records (maps where the
  key is the primary key); identifiers and timestamps (nanoseconds) are \<open>int\<close>, lock keys are words at their width.
  A handler is a function of the environment (configuration, the services it was built with, the standard library's
  primitives as parameters), of a predicate naming the calls that fail, of the current instant, of what the random
  source returns, and of the state; it returns the result, errors as \<open>Inl\<close>, and the new state. A statement is
  atomic, and where the code leaves a gap between two of them that another request can enter, the two halves are
  definitions of their own. Redis is a record of operations with the laws of the locale \<open>redis_store\<close>, interpreted on
  a keyspace with deadlines.

  \<^bold>\<open>Theories.\<close>
  \<^item> \<open>Prelude\<close>: errors, results, strings, time, and the lemmas shared by the components. \<open>Redis\<close>: the store, its laws
    and the keyspace. \<open>PolicyCache\<close>: the cached policy resolver, as a locale, shared by the three policies.
    \<open>AttemptBudget\<close>: the counter kept beside a short-lived value, as a locale, and the bound on a run of tries.
  \<^item> \<open>Encoding\<close>, \<open>Json\<close>: the parts of \<^verbatim>\<open>encoding/hex\<close>, \<^verbatim>\<open>encoding/base64\<close> and \<^verbatim>\<open>encoding/json\<close> the sources use, with
    their round trips. The JSON parser recurses on fuel, the length of the text, which is shown to be enough.
  \<^item> \<open>SessionPolicy\<close> (\<^verbatim>\<open>sessionpolicy.go\<close>): the lifetimes of a session, and the resolver with its cache.
  \<^item> \<open>SessionStore\<close>, \<open>Sessions\<close> (\<^verbatim>\<open>session.go\<close>): the tables \<^verbatim>\<open>user_sessions\<close> and \<^verbatim>\<open>refresh_tokens\<close> with their invariant,
    revocation, logout, the denylist and the cap on concurrent sessions.
  \<^item> \<open>Device\<close> (\<^verbatim>\<open>session.go\<close>, \<^verbatim>\<open>requestctx.go\<close>): the device a session is attributed to.
  \<^item> \<open>Audience\<close> (\<^verbatim>\<open>audience.go\<close>): the grammar of audiences, the grants of a client, and the audience of a mint.
  \<^item> \<open>Authority\<close> (\<^verbatim>\<open>tenant_context.go\<close>, \<^verbatim>\<open>admin_grants.go\<close>, \<^verbatim>\<open>tenant_admin.go\<close>, \<^verbatim>\<open>service.go\<close>): roles, permissions and
    both models of administrative scope.
  \<^item> \<open>Mint\<close>, \<open>Refresh\<close>, \<open>TenantSwitch\<close> (\<^verbatim>\<open>service.go\<close>, \<^verbatim>\<open>tenant_context.go\<close>): the three ways to a token pair.
  \<^item> \<open>LockoutPolicy\<close>, \<open>AccountBlock\<close>, \<open>Lockout\<close> (\<^verbatim>\<open>lockoutpolicy.go\<close>, \<^verbatim>\<open>account_block.go\<close>, \<^verbatim>\<open>lockout_notify.go\<close>): the tiers,
    the counters and locks of an account, blocking and unblocking, and the alerts.
  \<^item> \<open>SessionReaper\<close> (\<^verbatim>\<open>session_reaper.go\<close>): the batched deletion of dead sessions.
  \<^item> \<open>SecretBox\<close> (\<^verbatim>\<open>secretbox.go\<close>, \<^verbatim>\<open>totp.go\<close>): secrets at rest and the keys a server may start with.
  \<^item> \<open>Mfa\<close>, \<open>SecondFactor\<close> (\<^verbatim>\<open>totp.go\<close>, \<^verbatim>\<open>mfa.go\<close>, \<^verbatim>\<open>email_mfa.go\<close>): authenticators, backup codes, emailed codes and the
    policy of an application. \<open>AdminMfa\<close> (\<^verbatim>\<open>admin_mfa_policy.go\<close>): the same for administrators.
  \<^item> \<open>OtpSession\<close>, \<open>Login\<close> (\<^verbatim>\<open>service.go\<close>, \<^verbatim>\<open>application.go\<close>): the pre-auth sessions and both steps of a login, with their
    theorems in \<open>SignIn\<close> and \<open>Challenge\<close>.
  \<^item> \<open>Pkce\<close>, \<open>AuthzCode\<close> (\<^verbatim>\<open>pkce.go\<close>, \<^verbatim>\<open>authzserver.go\<close>, \<^verbatim>\<open>oauthflow.go\<close>): the proof key, the clients, and the two kinds of
    one-time codes in their shared table. \<open>TokenEndpoint\<close>, \<open>TokenGrants\<close> (\<^verbatim>\<open>api/handlers/oauth_token.go\<close>,
    \<^verbatim>\<open>service.go\<close>, \<^verbatim>\<open>idtoken.go\<close>): the token and revocation endpoints, the ID token, and what an exchange is bound to.
  \<^item> \<open>Organization\<close>, \<open>OrgInvariant\<close>, \<open>OrgAccess\<close> (\<^verbatim>\<open>organization.go\<close>, \<^verbatim>\<open>organization_mint.go\<close>): organisations, their
    members and roles, the invariant of their tables, the sessions a change of them ends, and the organisation a sign-in
    is bound to.
  \<^item> \<open>Rfc3339\<close>, \<open>AuthzSession\<close> (\<^verbatim>\<open>authzsession.go\<close>): the texts of timestamps, and the requests, sessions and nonces a
    hosted login keeps in Redis. \<open>HostedLogin\<close> (\<^verbatim>\<open>api/handlers/oauth_authorize.go\<close>): the authorization endpoint and its
    pages, with what a hosted login guarantees in \<open>HostedGrants\<close>.

  \<^bold>\<open>What the lemmas show.\<close> Of the tables: the invariant \<open>session_db_ok\<close> of sessions and refresh tokens is kept
  by revocation, logout, the cap, the reaper and every mint whose caller names a session of the user and tenant it mints
  for. The mint of a tenant switch names a session of another tenant, and keeps only the weaker \<open>tables_ok\<close>
  (distinct keys, every token bound to a session row that outlives it and revoked with it, though not to its tenant); a mint that fails changes nothing. Of sessions: what
  each operation ends and what it spares, that the cap holds after every login, that a rotation extends only the idle
  deadline, that a refresh token works once; its replay ends the session on the locked renewal (\<^verbatim>\<open>RefreshWithLock\<close>),
  and is only refused on \<^verbatim>\<open>Refresh\<close>. Of sign-in: that the password alone signs in only an account that owes no factor
  and whose lock, if it had one, has run out, that a challenge carries exactly its login, that codes are single-use and
  that the tries at them are bounded, that a mandated account keeps a factor under every self-service operation but
  the start of a new authenticator enrolment over the only one, that an administrative account keeps a usable factor,
  that a lock ends the sessions and refresh tokens of its account and lifts when it should. Of codes: that they are
  redeemed once, by their client, with their verifier, for what they were issued with, through the hosted login and the
  token endpoint. Of organisations: that their tables stay consistent and within their limits, that only members are
  bound to one, and that losing one ends the sessions inside it. Of secrets: which ciphertexts a server opens after a
  key rotation. Of the batched and cached routines: that they equal a plain reference. Where the code falls short of
  what it means to do (a read and a write in separate statements, a fail-open branch), the theorem states what the code
  does.

  \<^bold>\<open>Bounds and fuel.\<close> The tables and runs are of any size. The JSON parser's fuel is the length of its input;
  the reaper's loops end by a measure on the rows that are left, and \<^verbatim>\<open>DenyManyUserSessions\<close> recurses on the ids
  still to deny.

  \<^bold>\<open>Not modelled.\<close> HTTP handlers other than the token endpoint and the hosted login, middleware, routes and the server's assembly; the SQL engine beyond the
  statements the models translate; the password hasher, the one-time-password algorithm, AES-GCM and the random
  source, which are parameters; mail transport, templates and telemetry, which keep no state the models read;
  the listings of organisations and their invitations; registration, password reset, magic links, passkeys, SAML and OIDC federation
  and the signing keys, which are separate flows into the mint; concurrency below the level of a statement.
\<close>

end
